(* ===== verification/Prelude.thy ===== *)
theory Prelude
  imports
    Main
    "HOL-Library.Word"
    "HOL-Library.Char_ord"
    "HOL-Library.List_Lexorder"
    "HOL-Library.Product_Lexorder"
begin

text \<open>
  Shared vocabulary of the development: Rust results and the question-mark operator, effectful
  computations that thread a world (the calls through trait objects), fallible folds, the ordered
  maps and sets of the standard library, machine integers, and the big-endian byte encodings that
  every digest preimage and wire format of the program is built from.  Facts about these are
  proved once here and collected under \<open>result_simps\<close>, \<open>bmap_simps\<close> and \<open>byte_simps\<close>.
\<close>

named_theorems result_simps \<open>inversion of fallible computations\<close>
named_theorems bmap_simps \<open>lookups after updates of ordered maps\<close>
named_theorems byte_simps \<open>lengths and round trips of byte encodings\<close>

section \<open>Results\<close>

text \<open>\<open>Result<T, E>\<close> is a sum with the error on the left; \<open>try_r\<close> is the question-mark
  operator.\<close>

type_synonym ('e, 'a) result = "'e + 'a"

fun try_r :: "('e, 'a) result \<Rightarrow> ('a \<Rightarrow> ('e, 'b) result) \<Rightarrow> ('e, 'b) result" where
  "try_r (Inl e) f = Inl e"
| "try_r (Inr a) f = f a"

definition guard_r :: "bool \<Rightarrow> 'e \<Rightarrow> ('e, unit) result" where
  "guard_r b e = (if b then Inr () else Inl e)"

definition ok_or :: "'a option \<Rightarrow> 'e \<Rightarrow> ('e, 'a) result" where
  "ok_or x e = (case x of None \<Rightarrow> Inl e | Some a \<Rightarrow> Inr a)"

definition map_err :: "('e \<Rightarrow> 'f) \<Rightarrow> ('e, 'a) result \<Rightarrow> ('f, 'a) result" where
  "map_err f r = (case r of Inl e \<Rightarrow> Inl (f e) | Inr a \<Rightarrow> Inr a)"

definition is_ok :: "('e, 'a) result \<Rightarrow> bool" where
  "is_ok r = (case r of Inl _ \<Rightarrow> False | Inr _ \<Rightarrow> True)"

lemma try_r_Inr [result_simps]: "try_r m f = Inr b \<longleftrightarrow> (\<exists>a. m = Inr a \<and> f a = Inr b)"
  by (cases m) auto

lemma try_r_Inl [result_simps]:
  "try_r m f = Inl e \<longleftrightarrow> m = Inl e \<or> (\<exists>a. m = Inr a \<and> f a = Inl e)"
  by (cases m) auto

lemma guard_r_Inr [result_simps]: "guard_r b e = Inr u \<longleftrightarrow> b"
  by (cases u) (simp add: guard_r_def)

lemma guard_r_Inl [result_simps]: "guard_r b e = Inl e' \<longleftrightarrow> \<not> b \<and> e' = e"
  by (auto simp: guard_r_def)

lemma guard_r_True [simp]: "guard_r True e = Inr ()"
  by (simp add: guard_r_def)

lemma guard_r_False [simp]: "guard_r False e = Inl e"
  by (simp add: guard_r_def)

lemma ok_or_Inr [result_simps]: "ok_or x e = Inr a \<longleftrightarrow> x = Some a"
  by (auto simp: ok_or_def split: option.splits)

lemma ok_or_Inl [result_simps]: "ok_or x e = Inl e' \<longleftrightarrow> x = None \<and> e' = e"
  by (auto simp: ok_or_def split: option.splits)

lemma ok_or_simps [simp]: "ok_or None e = Inl e" "ok_or (Some a) e = Inr a"
  by (simp_all add: ok_or_def)

lemma map_err_Inr [result_simps]: "map_err f r = Inr a \<longleftrightarrow> r = Inr a"
  by (auto simp: map_err_def split: sum.splits)

lemma map_err_Inl [result_simps]: "map_err f r = Inl e \<longleftrightarrow> (\<exists>e'. r = Inl e' \<and> e = f e')"
  by (auto simp: map_err_def split: sum.splits)

lemma map_err_simps [simp]: "map_err f (Inl e) = Inl (f e)" "map_err f (Inr a) = Inr a"
  by (simp_all add: map_err_def)

lemma is_ok_iff [result_simps]: "is_ok r \<longleftrightarrow> (\<exists>a. r = Inr a)"
  by (auto simp: is_ok_def split: sum.splits)

lemma is_ok_simps [simp]: "is_ok (Inl e) = False" "is_ok (Inr a) = True"
  by (simp_all add: is_ok_def)

text \<open>A loop over a vector that stops at the first error, and collecting into \<open>Result<Vec>\<close>.\<close>

primrec try_fold :: "('s \<Rightarrow> 'a \<Rightarrow> ('e, 's) result) \<Rightarrow> 's \<Rightarrow> 'a list \<Rightarrow> ('e, 's) result" where
  "try_fold f s [] = Inr s"
| "try_fold f s (x # xs) = try_r (f s x) (\<lambda>s'. try_fold f s' xs)"

primrec try_map :: "('a \<Rightarrow> ('e, 'b) result) \<Rightarrow> 'a list \<Rightarrow> ('e, 'b list) result" where
  "try_map f [] = Inr []"
| "try_map f (x # xs) = try_r (f x) (\<lambda>y. try_r (try_map f xs) (\<lambda>ys. Inr (y # ys)))"

definition try_all :: "('a \<Rightarrow> ('e, unit) result) \<Rightarrow> 'a list \<Rightarrow> ('e, unit) result" where
  "try_all f xs = try_fold (\<lambda>_ x. f x) () xs"

lemma try_fold_append:
  "try_fold f s (xs @ ys) = try_r (try_fold f s xs) (\<lambda>s'. try_fold f s' ys)"
proof (induction xs arbitrary: s)
  case (Cons x xs)
  then show ?case by (cases "f s x") auto
qed simp

lemma try_fold_map: "try_fold f s (map g xs) = try_fold (\<lambda>s x. f s (g x)) s xs"
  by (induction xs arbitrary: s) auto

lemma try_r_assoc: "try_r (try_r m f) g = try_r m (\<lambda>x. try_r (f x) g)"
  by (cases m) auto

lemma try_fold_invariant:
  assumes "try_fold f s xs = Inr s'" and "P s"
    and "\<And>s x t. P s \<Longrightarrow> x \<in> set xs \<Longrightarrow> f s x = Inr t \<Longrightarrow> P t"
  shows "P s'"
  using assms
proof (induction xs arbitrary: s)
  case (Cons x xs)
  from Cons.prems(1) obtain t where "f s x = Inr t" and "try_fold f t xs = Inr s'"
    by (auto simp: result_simps)
  with Cons show ?case by (metis list.set_intros(1) list.set_intros(2))
qed simp

lemma try_map_Inr_iff:
  "try_map f xs = Inr ys \<longleftrightarrow> list_all2 (\<lambda>x y. f x = Inr y) xs ys"
  by (induction xs arbitrary: ys) (auto simp: result_simps list_all2_Cons1)

lemma try_map_length: "try_map f xs = Inr ys \<Longrightarrow> length ys = length xs"
  by (simp add: try_map_Inr_iff list_all2_lengthD)

lemma try_map_ok: "(\<And>x. x \<in> set xs \<Longrightarrow> f x = Inr (g x)) \<Longrightarrow> try_map f xs = Inr (map g xs)"
  by (induction xs) auto

lemma try_all_Nil [simp]: "try_all f [] = Inr ()"
  by (simp add: try_all_def)

lemma try_all_Cons [simp]: "try_all f (x # xs) = try_r (f x) (\<lambda>_. try_all f xs)"
  by (simp add: try_all_def)

lemma try_all_Inr_iff [result_simps]: "try_all f xs = Inr u \<longleftrightarrow> (\<forall>x \<in> set xs. f x = Inr ())"
  by (induction xs) (auto simp: result_simps)

lemma try_all_InlD: "try_all f xs = Inl e \<Longrightarrow> \<exists>x \<in> set xs. f x = Inl e"
  by (induction xs) (auto simp: result_simps)

section \<open>Effectful computations\<close>

text \<open>
  An asynchronous method reached through a trait object is a function of the world behind the
  object: it returns its result together with the world it leaves.
\<close>

type_synonym ('w, 'e, 'a) eff = "'w \<Rightarrow> ('e, 'a) result \<times> 'w"

definition eff_ret :: "'a \<Rightarrow> ('w, 'e, 'a) eff" where
  "eff_ret a = (\<lambda>w. (Inr a, w))"

definition eff_err :: "'e \<Rightarrow> ('w, 'e, 'a) eff" where
  "eff_err e = (\<lambda>w. (Inl e, w))"

definition eff_of :: "('e, 'a) result \<Rightarrow> ('w, 'e, 'a) eff" where
  "eff_of r = (\<lambda>w. (r, w))"

text \<open>\<open>eff_match\<close> hands the result of a call, error or not, to a continuation; \<open>eff_bind\<close>
  is the question mark after an awaited call.\<close>

definition eff_match ::
    "('w, 'e, 'a) eff \<Rightarrow> (('e, 'a) result \<Rightarrow> ('w, 'f, 'b) eff) \<Rightarrow> ('w, 'f, 'b) eff" where
  "eff_match m k = (\<lambda>w. case m w of (r, w') \<Rightarrow> k r w')"

definition eff_bind :: "('w, 'e, 'a) eff \<Rightarrow> ('a \<Rightarrow> ('w, 'e, 'b) eff) \<Rightarrow> ('w, 'e, 'b) eff" where
  "eff_bind m k = eff_match m (\<lambda>r. case r of Inl e \<Rightarrow> eff_err e | Inr a \<Rightarrow> k a)"

primrec eff_map :: "('a \<Rightarrow> ('w, 'e, 'b) eff) \<Rightarrow> 'a list \<Rightarrow> ('w, 'e, 'b list) eff" where
  "eff_map f [] = eff_ret []"
| "eff_map f (x # xs) = eff_bind (f x) (\<lambda>y. eff_bind (eff_map f xs) (\<lambda>ys. eff_ret (y # ys)))"

definition eff_all :: "('a \<Rightarrow> ('w, 'e, unit) eff) \<Rightarrow> 'a list \<Rightarrow> ('w, 'e, unit) eff" where
  "eff_all f xs = eff_bind (eff_map f xs) (\<lambda>_. eff_ret ())"

text \<open>A loop with an early return: the body yields either the value to return (left) or the
  accumulator to go on with (right).\<close>

primrec eff_loop ::
    "('s \<Rightarrow> 'a \<Rightarrow> ('w, 'e, 'r + 's) eff) \<Rightarrow> 's \<Rightarrow> 'a list \<Rightarrow> ('w, 'e, 'r + 's) eff" where
  "eff_loop f s [] = eff_ret (Inr s)"
| "eff_loop f s (x # xs) = eff_bind (f s x) (\<lambda>r. case r of
     Inl out \<Rightarrow> eff_ret (Inl out) | Inr s' \<Rightarrow> eff_loop f s' xs)"

lemma eff_ret_app [simp]: "eff_ret a w = (Inr a, w)"
  by (simp add: eff_ret_def)

lemma eff_err_app [simp]: "eff_err e w = (Inl e, w)"
  by (simp add: eff_err_def)

lemma eff_of_app [simp]: "eff_of r w = (r, w)"
  by (simp add: eff_of_def)

lemma eff_match_app [simp]: "eff_match m k w = k (fst (m w)) (snd (m w))"
  by (simp add: eff_match_def split: prod.splits)

lemma eff_bind_app:
  "eff_bind m k w = (case m w of (Inl e, w') \<Rightarrow> (Inl e, w') | (Inr a, w') \<Rightarrow> k a w')"
  by (simp add: eff_bind_def split: prod.splits sum.splits)

lemma eff_bind_pure [simp]:
  "eff_bind (eff_ret a) k = k a" "eff_bind (eff_err e) k = eff_err e"
  "eff_bind (eff_of (Inr a)) k = k a" "eff_bind (eff_of (Inl e)) k = eff_err e"
  by (simp_all add: fun_eq_iff eff_bind_app)

lemma eff_bind_Inr [result_simps]:
  "eff_bind m k w = (Inr b, w') \<longleftrightarrow> (\<exists>a w1. m w = (Inr a, w1) \<and> k a w1 = (Inr b, w'))"
  by (auto simp: eff_bind_app split: prod.splits sum.splits)

lemma eff_bind_Inl [result_simps]:
  "eff_bind m k w = (Inl e, w') \<longleftrightarrow>
     m w = (Inl e, w') \<or> (\<exists>a w1. m w = (Inr a, w1) \<and> k a w1 = (Inl e, w'))"
  by (auto simp: eff_bind_app split: prod.splits sum.splits)

lemma eff_bind_step [simp]: "m w = (Inr a, w') \<Longrightarrow> eff_bind m k w = k a w'"
  by (simp add: eff_bind_app)

lemma eff_bind_stop [simp]: "m w = (Inl e, w') \<Longrightarrow> eff_bind m k w = (Inl e, w')"
  by (simp add: eff_bind_app)

lemma eff_all_Nil [simp]: "eff_all f [] w = (Inr (), w)"
  by (simp add: eff_all_def eff_bind_app)

lemma eff_all_Cons [simp]: "eff_all f (x # xs) w = eff_bind (f x) (\<lambda>_. eff_all f xs) w"
  by (auto simp: eff_all_def eff_bind_app split: prod.splits sum.splits)

section \<open>Ordered maps and sets\<close>

text \<open>
  A \<open>BTreeMap<K, V>\<close> is the association list of its entries in ascending key order, so that
  iteration order and equality are those of the source; \<open>bm_ok\<close> is its representation
  invariant.  Lookup is \<open>map_of\<close>.
\<close>

type_synonym ('k, 'v) bmap = "('k \<times> 'v) list"

definition bm_ok :: "('k::linorder, 'v) bmap \<Rightarrow> bool" where
  "bm_ok m = sorted_wrt (<) (map fst m)"

primrec bm_insert :: "'k::linorder \<Rightarrow> 'v \<Rightarrow> ('k, 'v) bmap \<Rightarrow> ('k, 'v) bmap" where
  "bm_insert k v [] = [(k, v)]"
| "bm_insert k v (p # m) =
     (if fst p < k then p # bm_insert k v m
      else if k = fst p then (k, v) # m
      else (k, v) # p # m)"

definition bm_remove :: "'k \<Rightarrow> ('k, 'v) bmap \<Rightarrow> ('k, 'v) bmap" where
  "bm_remove k m = filter (\<lambda>p. fst p \<noteq> k) m"

text \<open>\<open>bm_entry k d f m\<close> is \<open>m.entry(k).or_insert(d)\<close> updated in place by \<open>f\<close>.\<close>

definition bm_entry ::
    "'k::linorder \<Rightarrow> 'v \<Rightarrow> ('v \<Rightarrow> 'v) \<Rightarrow> ('k, 'v) bmap \<Rightarrow> ('k, 'v) bmap" where
  "bm_entry k d f m = bm_insert k (f (case map_of m k of None \<Rightarrow> d | Some v \<Rightarrow> v)) m"

definition bm_of :: "('k::linorder \<times> 'v) list \<Rightarrow> ('k, 'v) bmap" where
  "bm_of kvs = fold (\<lambda>(k, v). bm_insert k v) kvs []"

text \<open>Collecting into a \<open>BTreeSet\<close>.\<close>

definition bs_of :: "'a::linorder list \<Rightarrow> 'a list" where
  "bs_of xs = sort (remdups xs)"

lemma bm_ok_Nil [simp]: "bm_ok []"
  by (simp add: bm_ok_def)

lemma bm_ok_Cons [simp]: "bm_ok (p # m) \<longleftrightarrow> (\<forall>q \<in> set m. fst p < fst q) \<and> bm_ok m"
  by (simp add: bm_ok_def)

lemma map_of_bm_insert [simp, bmap_simps]: "map_of (bm_insert k v m) = (map_of m)(k \<mapsto> v)"
  by (induction m) (auto simp: fun_eq_iff)

lemma set_bm_insert_sub: "set (bm_insert k v m) \<subseteq> insert (k, v) (set m)"
  by (induction m) auto

lemma bm_ok_insert [simp, intro]: "bm_ok m \<Longrightarrow> bm_ok (bm_insert k v m)"
proof (induction m)
  case (Cons p m)
  then show ?case using set_bm_insert_sub [of k v m] by (fastforce dest: subsetD)
qed simp

lemma bm_insert_not_Nil [simp]: "bm_insert k v m \<noteq> []"
  by (cases m) auto

lemma map_of_bm_remove [simp, bmap_simps]: "map_of (bm_remove k m) = (map_of m)(k := None)"
  by (induction m) (auto simp: bm_remove_def fun_eq_iff)

lemma bm_ok_remove [simp, intro]: "bm_ok m \<Longrightarrow> bm_ok (bm_remove k m)"
  by (induction m) (auto simp: bm_remove_def)

lemma map_of_bm_entry [bmap_simps]:
  "map_of (bm_entry k d f m) = (map_of m)(k \<mapsto> f (case map_of m k of None \<Rightarrow> d | Some v \<Rightarrow> v))"
  by (simp add: bm_entry_def)

lemma bm_ok_entry [simp, intro]: "bm_ok m \<Longrightarrow> bm_ok (bm_entry k d f m)"
  by (simp add: bm_entry_def)

lemma bm_ok_distinct: "bm_ok m \<Longrightarrow> distinct (map fst m)"
  by (simp add: bm_ok_def strict_sorted_iff)

lemma bm_ok_map_of [simp]: "bm_ok m \<Longrightarrow> (k, v) \<in> set m \<longleftrightarrow> map_of m k = Some v"
  using bm_ok_distinct map_of_eq_Some_iff by metis

lemma bm_list_ex: "bm_ok m \<Longrightarrow> list_ex P m \<longleftrightarrow> (\<exists>k v. map_of m k = Some v \<and> P (k, v))"
  by (simp add: list_ex_iff Bex_def)

lemma bm_list_all: "bm_ok m \<Longrightarrow> list_all P m \<longleftrightarrow> (\<forall>k v. map_of m k = Some v \<longrightarrow> P (k, v))"
  by (simp add: list_all_iff Ball_def)

lemma bm_lookup_below: "bm_ok (p # m) \<Longrightarrow> k < fst p \<Longrightarrow> map_of (p # m) k = None"
  by (auto simp: map_of_eq_None_iff)

text \<open>Two ordered maps with the same lookups are equal.\<close>

lemma bm_rebuild: "bm_ok m \<Longrightarrow> map (\<lambda>k. (k, the (map_of m k))) (map fst m) = m"
  by (auto simp: o_def intro!: map_idI simp del: bm_ok_map_of dest: bm_ok_distinct)

lemma bm_ext:
  assumes "bm_ok m" and "bm_ok n" and "\<And>k. map_of m k = map_of n k"
  shows "m = n"
proof -
  from assms(3) have same: "map_of m = map_of n" by auto
  then have "set (map fst m) = set (map fst n)"
    by (metis dom_map_of_conv_image_fst list.set_map)
  with assms(1,2) have "map fst m = map fst n"
    by (simp add: bm_ok_def strict_sorted_equal)
  with bm_rebuild [OF assms(1)] bm_rebuild [OF assms(2)] same show ?thesis by simp
qed

lemma bm_insert_same: "bm_ok m \<Longrightarrow> map_of m k = Some v \<Longrightarrow> bm_insert k v m = m"
  by (rule bm_ext) auto

lemma bm_insert_last: "\<forall>p \<in> set m. fst p < k \<Longrightarrow> bm_insert k v m = m @ [(k, v)]"
  by (induction m) auto

lemma bs_of_set [simp]: "set (bs_of xs) = set xs"
  by (simp add: bs_of_def)

lemma bs_of_sorted: "sorted_wrt (<) (bs_of xs)"
  by (simp add: bs_of_def strict_sorted_iff)

lemma bs_of_length: "length (bs_of xs) = card (set xs)"
  by (simp add: bs_of_def length_remdups_card_conv)

lemma bs_of_unique: "length (bs_of xs) = length xs \<longleftrightarrow> distinct xs"
  by (auto simp: bs_of_length card_distinct distinct_card)

end
