(* ===== verification/Bytes.thy ===== *)
theory Bytes
  imports Prelude
begin

text \<open>
  Machine integers, byte strings and UTF-8 strings as the program uses them: checked arithmetic of
  the fixed-width integers, \<open>to_be_bytes\<close> and its inverse, length-prefixed strings, and the
  interface of a self-delimiting encoder (\<open>prefix_code\<close>), from which the injectivity of every
  digest preimage of the program follows.
\<close>

section \<open>Machine integers\<close>

type_synonym byte = "8 word"
type_synonym u16 = "16 word"
type_synonym u32 = "32 word"
type_synonym u64 = "64 word"
type_synonym u128 = "128 word"

text \<open>\<open>[u8; 32]\<close> arrays are read as one big-endian number: comparison of the arrays is
  comparison of the numbers.\<close>

type_synonym bytes32 = "256 word"

text \<open>Signed 64-bit integers are integers within their range.\<close>

definition i64_max :: int where
  "i64_max = 9223372036854775807"

definition i64_ok :: "int \<Rightarrow> bool" where
  "i64_ok x = (- 9223372036854775808 \<le> x \<and> x \<le> i64_max)"

definition i64_succ :: "int \<Rightarrow> int option" where
  "i64_succ x = (if x < i64_max then Some (x + 1) else None)"

definition u64_succ :: "u64 \<Rightarrow> u64 option" where
  "u64_succ x = (if x = - 1 then None else Some (x + 1))"

definition u32_succ :: "u32 \<Rightarrow> u32 option" where
  "u32_succ x = (if x = - 1 then None else Some (x + 1))"

definition u64_add :: "u64 \<Rightarrow> u64 \<Rightarrow> u64 option" where
  "u64_add x y = (if unat x + unat y < 2 ^ 64 then Some (x + y) else None)"

lemma u64_succ_Some: "u64_succ x = Some y \<longleftrightarrow> x \<noteq> - 1 \<and> y = x + 1"
  by (auto simp: u64_succ_def)

lemma unat_succ_word: "(x :: 'a::len word) \<noteq> - 1 \<Longrightarrow> unat (x + 1) = unat x + 1"
  using unatSuc [of x] by (simp add: add_eq_0_iff add.commute)

lemma word_succ_less: "(x :: 'a::len word) \<noteq> - 1 \<Longrightarrow> x < x + 1"
  by (simp add: word_less_nat_alt unat_succ_word)

lemma u64_succ_less: "u64_succ x = Some y \<Longrightarrow> x < y"
  by (auto simp: u64_succ_Some word_succ_less)

lemma unat_u64_succ: "u64_succ x = Some y \<Longrightarrow> unat y = Suc (unat x)"
  by (auto simp: u64_succ_Some unat_succ_word)

lemma unat_u64_add: "u64_add x y = Some z \<Longrightarrow> unat z = unat x + unat y"
  by (auto simp: u64_add_def unat_word_ariths split: if_splits)

section \<open>Big-endian bytes\<close>

primrec be_nat :: "nat \<Rightarrow> nat \<Rightarrow> byte list" where
  "be_nat 0 x = []"
| "be_nat (Suc n) x = be_nat n (x div 256) @ [word_of_nat (x mod 256)]"

definition from_be :: "byte list \<Rightarrow> nat" where
  "from_be bs = foldl (\<lambda>a b. a * 256 + unat b) 0 bs"

definition u16_be :: "u16 \<Rightarrow> byte list" where "u16_be w = be_nat 2 (unat w)"
definition u32_be :: "u32 \<Rightarrow> byte list" where "u32_be w = be_nat 4 (unat w)"
definition u64_be :: "u64 \<Rightarrow> byte list" where "u64_be w = be_nat 8 (unat w)"
definition u128_be :: "u128 \<Rightarrow> byte list" where "u128_be w = be_nat 16 (unat w)"
definition b32_be :: "bytes32 \<Rightarrow> byte list" where "b32_be w = be_nat 32 (unat w)"

text \<open>\<open>i64::to_be_bytes\<close> goes through two's complement; \<open>len_be\<close> is
  \<open>(len as u64).to_be_bytes()\<close> on a 64-bit target.\<close>

definition i64_be :: "int \<Rightarrow> byte list" where
  "i64_be x = be_nat 8 (unat (word_of_int x :: 64 word))"

definition len_be :: "nat \<Rightarrow> byte list" where
  "len_be n = be_nat 8 n"

definition u64_from_be :: "byte list \<Rightarrow> u64" where "u64_from_be bs = word_of_nat (from_be bs)"
definition u32_from_be :: "byte list \<Rightarrow> u32" where "u32_from_be bs = word_of_nat (from_be bs)"
definition u16_from_be :: "byte list \<Rightarrow> u16" where "u16_from_be bs = word_of_nat (from_be bs)"
definition u128_from_be :: "byte list \<Rightarrow> u128" where "u128_from_be bs = word_of_nat (from_be bs)"
definition b32_from_be :: "byte list \<Rightarrow> bytes32" where "b32_from_be bs = word_of_nat (from_be bs)"

definition i64_from_be :: "byte list \<Rightarrow> int" where
  "i64_from_be bs = sint (word_of_nat (from_be bs) :: 64 word)"

lemma length_be_nat [simp, byte_simps]: "length (be_nat n x) = n"
  by (induction n arbitrary: x) auto

lemma from_be_snoc: "from_be (bs @ [b]) = from_be bs * 256 + unat b"
  by (simp add: from_be_def)

lemma from_be_be_nat [byte_simps]: "from_be (be_nat n x) = x mod 256 ^ n"
proof (induction n arbitrary: x)
  case (Suc n)
  have "x mod 256 ^ Suc n = 256 * (x div 256 mod 256 ^ n) + x mod 256"
    by (simp add: mod_mult2_eq)
  moreover have "unat (word_of_nat (x mod 256) :: byte) = x mod 256"
    by (simp add: unat_of_nat)
  ultimately show ?case by (simp add: from_be_snoc Suc.IH)
qed (simp add: from_be_def)

lemma be_nat_inj: "be_nat n x = be_nat n y \<Longrightarrow> x < 256 ^ n \<Longrightarrow> y < 256 ^ n \<Longrightarrow> x = y"
  by (metis from_be_be_nat mod_less)

lemma be_length [simp, byte_simps]:
  "length (u16_be a) = 2" "length (u32_be b) = 4" "length (u64_be c) = 8"
  "length (u128_be d) = 16" "length (b32_be e) = 32" "length (i64_be f) = 8" "length (len_be n) = 8"
  by (simp_all add: u16_be_def u32_be_def u64_be_def u128_be_def b32_be_def i64_be_def len_be_def)

lemma unat_lt_256: "LENGTH('a) = 8 * n \<Longrightarrow> unat (w :: 'a::len word) < 256 ^ n"
proof -
  assume "LENGTH('a) = 8 * n"
  then have "unat w < 2 ^ (8 * n)" using unsigned_less [of w, where ?'a = nat] by simp
  then show ?thesis by (simp add: power_mult)
qed

lemma u16_roundtrip [simp, byte_simps]: "u16_from_be (u16_be w) = w"
  using unat_lt_256 [of 2 w] by (simp add: u16_from_be_def u16_be_def from_be_be_nat)

lemma u32_roundtrip [simp, byte_simps]: "u32_from_be (u32_be w) = w"
  using unat_lt_256 [of 4 w] by (simp add: u32_from_be_def u32_be_def from_be_be_nat)

lemma u64_roundtrip [simp, byte_simps]: "u64_from_be (u64_be w) = w"
  using unat_lt_256 [of 8 w] by (simp add: u64_from_be_def u64_be_def from_be_be_nat)

lemma u128_roundtrip [simp, byte_simps]: "u128_from_be (u128_be w) = w"
  using unat_lt_256 [of 16 w] by (simp add: u128_from_be_def u128_be_def from_be_be_nat)

lemma b32_roundtrip [simp, byte_simps]: "b32_from_be (b32_be w) = w"
  using unat_lt_256 [of 32 w] by (simp add: b32_from_be_def b32_be_def from_be_be_nat)

lemma i64_roundtrip [simp, byte_simps]: "i64_ok x \<Longrightarrow> i64_from_be (i64_be x) = x"
proof -
  assume "i64_ok x"
  then have "sint (word_of_int x :: 64 word) = x"
    by (simp add: i64_ok_def i64_max_def signed_of_int signed_take_bit_int_eq_self)
  then show ?thesis
    using unat_lt_256 [of 8 "word_of_int x :: 64 word"]
    by (simp add: i64_from_be_def i64_be_def from_be_be_nat)
qed

text \<open>Reading a byte string of the right width and writing it again gives it back.\<close>

lemma from_be_less: "from_be bs < 256 ^ length bs"
proof (induction bs rule: rev_induct)
  case (snoc b bs)
  have "unat b < 256" using unsigned_less [of b, where ?'a = nat] by simp
  with snoc show ?case by (simp add: from_be_snoc)
qed (simp add: from_be_def)

lemma be_nat_from_be [byte_simps]: "be_nat (length bs) (from_be bs) = bs"
proof (induction bs rule: rev_induct)
  case (snoc b bs)
  have "unat b < 256" using unsigned_less [of b, where ?'a = nat] by simp
  with snoc show ?case by (simp add: from_be_snoc)
qed (simp add: from_be_def)

lemma u16_be_from_be: "length bs = 2 \<Longrightarrow> u16_be (u16_from_be bs) = bs"
  using from_be_less [of bs] be_nat_from_be [of bs]
  by (simp add: u16_be_def u16_from_be_def unat_of_nat)

lemma u128_be_from_be: "length bs = 16 \<Longrightarrow> u128_be (u128_from_be bs) = bs"
  using from_be_less [of bs] be_nat_from_be [of bs]
  by (simp add: u128_be_def u128_from_be_def unat_of_nat)

lemma i64_be_from_be: "length bs = 8 \<Longrightarrow> i64_be (i64_from_be bs) = bs"
  using from_be_less [of bs] be_nat_from_be [of bs]
  by (simp add: i64_be_def i64_from_be_def unat_of_nat)

lemma i64_from_be_ok: "i64_ok (i64_from_be bs)"
  using sint_greater_eq [of "word_of_nat (from_be bs) :: 64 word"]
    sint_less [of "word_of_nat (from_be bs) :: 64 word"]
  by (simp add: i64_ok_def i64_max_def i64_from_be_def)

section \<open>Self-delimiting encoders\<close>

text \<open>
  What the program relies on when it concatenates encodings into one digest preimage: from the
  front of a byte string at most one value can be read back, and it leaves one remainder.
\<close>

lemma concat_split_elements:
  assumes "\<And>x y r s. x \<in> set xs \<Longrightarrow> ok y \<Longrightarrow> f x @ r = f y @ s \<Longrightarrow> x = y \<and> r = s"
    and "list_all ok ys" and "length xs = length ys"
    and "concat (map f xs) @ r = concat (map f ys) @ s"
  shows "xs = ys \<and> r = s"
  using assms
proof (induction xs arbitrary: ys)
  case (Cons x xs)
  then obtain y ys' where ys: "ys = y # ys'" by (cases ys) auto
  from Cons.prems(4) ys have "f x @ (concat (map f xs) @ r) = f y @ (concat (map f ys') @ s)" by simp
  with Cons.prems(1) [of x y] Cons.prems(2) ys
  have "x = y" and rest: "concat (map f xs) @ r = concat (map f ys') @ s" by auto
  have "xs = ys' \<and> r = s"
    by (rule Cons.IH [OF _ _ _ rest]) (use Cons.prems ys in auto)
  with \<open>x = y\<close> ys show ?case by simp
qed simp

locale prefix_code =
  fixes enc :: "'a \<Rightarrow> byte list" and ok :: "'a \<Rightarrow> bool"
  assumes unique_split: "ok x \<Longrightarrow> ok y \<Longrightarrow> enc x @ r = enc y @ s \<Longrightarrow> x = y \<and> r = s"
begin

lemma split_iff: "ok x \<Longrightarrow> ok y \<Longrightarrow> enc x @ r = enc y @ s \<longleftrightarrow> x = y \<and> r = s"
  using unique_split by blast

lemma enc_inj: "ok x \<Longrightarrow> ok y \<Longrightarrow> enc x = enc y \<longleftrightarrow> x = y"
  using unique_split [of x y "[]" "[]"] by auto

text \<open>A counted sequence of encodings is again self-delimiting.\<close>

lemma concat_split:
  "list_all ok xs \<Longrightarrow> list_all ok ys \<Longrightarrow> length xs = length ys \<Longrightarrow>
     concat (map enc xs) @ r = concat (map enc ys) @ s \<longleftrightarrow> xs = ys \<and> r = s"
  using concat_split_elements [of xs ok enc ys r s] unique_split unfolding list_all_iff by blast

end

lemma fixed_width_split:
  "length (f x) = length (f y) \<Longrightarrow> (f x = f y \<longleftrightarrow> x = y) \<Longrightarrow>
     f x @ r = f y @ s \<longleftrightarrow> x = y \<and> r = s"
  by (simp add: append_eq_append_conv)

lemma word_be_inj [simp]:
  "u16_be a = u16_be a' \<longleftrightarrow> a = a'" "u32_be b = u32_be b' \<longleftrightarrow> b = b'"
  "u64_be c = u64_be c' \<longleftrightarrow> c = c'" "u128_be d = u128_be d' \<longleftrightarrow> d = d'"
  "b32_be e = b32_be e' \<longleftrightarrow> e = e'"
  by (metis u16_roundtrip, metis u32_roundtrip, metis u64_roundtrip, metis u128_roundtrip,
      metis b32_roundtrip)

interpretation u32c: prefix_code u32_be "\<lambda>_. True"
  by unfold_locales simp

interpretation u64c: prefix_code u64_be "\<lambda>_. True"
  by unfold_locales simp

interpretation u128c: prefix_code u128_be "\<lambda>_. True"
  by unfold_locales simp

interpretation b32c: prefix_code b32_be "\<lambda>_. True"
  by unfold_locales simp

interpretation i64c: prefix_code i64_be i64_ok
proof
  fix x y r s
  assume "i64_ok x" and "i64_ok y" and "i64_be x @ r = i64_be y @ s"
  then show "x = y \<and> r = s" using i64_roundtrip by (metis append_eq_append_conv be_length(6))
qed

interpretation lenc: prefix_code len_be "\<lambda>n. n < 2 ^ 64"
proof
  fix x y :: nat and r s
  assume "x < 2 ^ 64" and "y < 2 ^ 64" and "len_be x @ r = len_be y @ s"
  then show "x = y \<and> r = s"
    using be_nat_inj [of 8 x y] by (simp add: len_be_def)
qed

named_theorems codec_split \<open>cancelling equal encodings in front of a byte string\<close>

lemmas word_codec_split [codec_split] =
  u32c.split_iff [OF TrueI TrueI] u64c.split_iff [OF TrueI TrueI]
  u128c.split_iff [OF TrueI TrueI] b32c.split_iff [OF TrueI TrueI]
  i64c.split_iff lenc.split_iff i64c.enc_inj lenc.enc_inj

section \<open>Strings\<close>

text \<open>
  A Rust \<open>String\<close> is the sequence of its UTF-8 bytes, written as a HOL string: \<open>len\<close> counts
  bytes and comparison is bytewise.
\<close>

definition str_bytes :: "string \<Rightarrow> byte list" where
  "str_bytes s = map (\<lambda>c. word_of_nat (of_char c)) s"

definition bytes_str :: "byte list \<Rightarrow> string" where
  "bytes_str bs = map (\<lambda>b. char_of (unat b)) bs"

lemma bytes_str_str_bytes [simp, byte_simps]: "bytes_str (str_bytes s) = s"
  by (simp add: bytes_str_def str_bytes_def o_def unat_of_nat)

lemma str_bytes_inj [simp]: "str_bytes s = str_bytes t \<longleftrightarrow> s = t"
  by (metis bytes_str_str_bytes)

lemma length_str_bytes [simp, byte_simps]: "length (str_bytes s) = length s"
  by (simp add: str_bytes_def)

lemma str_bytes_simps:
  "str_bytes [] = []" "str_bytes (c # s) = word_of_nat (of_char c) # str_bytes s"
  by (simp_all add: str_bytes_def)

text \<open>Length-prefixed strings, as the digest preimages write them.\<close>

definition encode_string :: "string \<Rightarrow> byte list" where
  "encode_string s = len_be (length s) @ str_bytes s"

definition len_ok :: "'a list \<Rightarrow> bool" where
  "len_ok xs = (length xs < 2 ^ 64)"

interpretation strc: prefix_code encode_string len_ok
proof
  fix x y r s
  assume "len_ok x" and "len_ok y" and "encode_string x @ r = encode_string y @ s"
  then have "length x = length y" and "str_bytes x @ r = str_bytes y @ s"
    by (simp_all add: encode_string_def len_ok_def codec_split)
  then show "x = y \<and> r = s" by simp
qed

lemmas str_codec_split [codec_split] = strc.split_iff strc.enc_inj

text \<open>UTF-8 validity, as \<open>String::from_utf8\<close> checks it: no overlong forms, no surrogates,
  nothing above U+10FFFF.\<close>

abbreviation utf8_cont :: "byte \<Rightarrow> bool" where
  "utf8_cont b \<equiv> 0x80 \<le> b \<and> b \<le> 0xBF"

fun utf8_ok :: "byte list \<Rightarrow> bool" where
  "utf8_ok [] = True"
| "utf8_ok (b # bs) =
     (if b < 0x80 then utf8_ok bs
      else if 0xC2 \<le> b \<and> b \<le> 0xDF then
        (case bs of c1 # r \<Rightarrow> utf8_cont c1 \<and> utf8_ok r | _ \<Rightarrow> False)
      else if 0xE0 \<le> b \<and> b \<le> 0xEF then
        (case bs of c1 # c2 # r \<Rightarrow>
           utf8_cont c1 \<and> utf8_cont c2 \<and> (b = 0xE0 \<longrightarrow> 0xA0 \<le> c1) \<and> (b = 0xED \<longrightarrow> c1 \<le> 0x9F) \<and>
           utf8_ok r
         | _ \<Rightarrow> False)
      else if 0xF0 \<le> b \<and> b \<le> 0xF4 then
        (case bs of c1 # c2 # c3 # r \<Rightarrow>
           utf8_cont c1 \<and> utf8_cont c2 \<and> utf8_cont c3 \<and>
           (b = 0xF0 \<longrightarrow> 0x90 \<le> c1) \<and> (b = 0xF4 \<longrightarrow> c1 \<le> 0x8F) \<and> utf8_ok r
         | _ \<Rightarrow> False)
      else False)"

definition from_utf8 :: "byte list \<Rightarrow> string option" where
  "from_utf8 bs = (if utf8_ok bs then Some (bytes_str bs) else None)"

text \<open>A well-formed \<open>String\<close> value.\<close>

definition str_ok :: "string \<Rightarrow> bool" where
  "str_ok s = utf8_ok (str_bytes s)"

lemma from_utf8_str_bytes [simp]: "str_ok s \<Longrightarrow> from_utf8 (str_bytes s) = Some s"
  by (simp add: from_utf8_def str_ok_def)

text \<open>
  \<open>char::is_whitespace\<close> on UTF-8: \<open>ws_len\<close> is the byte length of a white-space character at
  the front of a string, 0 when there is none.  UTF-8 is self-synchronising, so a white-space
  character occurs in a string exactly when its bytes do.
\<close>

definition ws_three :: "nat list list" where
  "ws_three = [[0xE1, 0x9A, 0x80]] @ map (\<lambda>i. [0xE2, 0x80, 0x80 + i]) [0..<11] @
     [[0xE2, 0x80, 0xA8], [0xE2, 0x80, 0xA9], [0xE2, 0x80, 0xAF], [0xE2, 0x81, 0x9F], [0xE3, 0x80, 0x80]]"

definition ws_len :: "string \<Rightarrow> nat" where
  "ws_len s = (let bs = map of_char s in
     if take 1 bs \<in> set [[9], [10], [11], [12], [13], [32]] then 1
     else if take 2 bs \<in> set [[0xC2, 0x85], [0xC2, 0xA0]] then 2
     else if take 3 bs \<in> set ws_three then 3
     else 0)"

primrec any_whitespace :: "string \<Rightarrow> bool" where
  "any_whitespace [] = False"
| "any_whitespace (c # s) = (0 < ws_len (c # s) \<or> any_whitespace s)"

text \<open>\<open>s.trim().is_empty()\<close>.\<close>

function trim_is_empty :: "string \<Rightarrow> bool" where
  "trim_is_empty s =
     (if s = [] then True else if ws_len s = 0 then False else trim_is_empty (drop (ws_len s) s))"
  by pat_completeness auto
termination
  by (relation "measure length") auto

declare trim_is_empty.simps [simp del]

lemma trim_is_empty_Nil [simp]: "trim_is_empty []"
  by (simp add: trim_is_empty.simps)

text \<open>The character class of provider names, capability names and reference schemes.\<close>

definition is_lower :: "char \<Rightarrow> bool" where
  "is_lower c = (CHR ''a'' \<le> c \<and> c \<le> CHR ''z'')"

definition is_digit :: "char \<Rightarrow> bool" where
  "is_digit c = (CHR ''0'' \<le> c \<and> c \<le> CHR ''9'')"

end
