(* ===== verification/Kernel.thy ===== *)
theory Kernel
  imports Bytes
begin

text \<open>
  The crate \<^verbatim>\<open>dtg-kernel\<close>: identifiers, transaction times, valid-time intervals, property
  values, versions and digests.  Every other component builds on these.
\<close>

section \<open>Errors and identifiers\<close>

datatype kernel_error =
    ZeroIdentifier
  | NegativeTransactionTime int
  | InvalidInterval int int

text \<open>
  The macro \<^verbatim>\<open>nonzero_u64_identifier!\<close> stamps out one newtype over \<open>u64\<close> per name; the
  phantom parameter of \<open>ident\<close> keeps the names apart.  \<open>TransactionId\<close> and the storage
  identifiers are the same over \<open>u128\<close>.
\<close>

datatype 'k ident = Ident (ident_get: u64)
datatype 'k ident128 = Ident128 (ident128_get: u128)

definition ident_new :: "u64 \<Rightarrow> (kernel_error, 'k ident) result" where
  "ident_new value = (if value \<noteq> 0 then Inr (Ident value) else Inl ZeroIdentifier)"

definition ident128_new :: "u128 \<Rightarrow> (kernel_error, 'k ident128) result" where
  "ident128_new value = (if value \<noteq> 0 then Inr (Ident128 value) else Inl ZeroIdentifier)"

text \<open>The values the constructors let through.\<close>

definition ident_ok :: "'k ident \<Rightarrow> bool" where
  "ident_ok i = (ident_get i \<noteq> 0)"

definition ident128_ok :: "'k ident128 \<Rightarrow> bool" where
  "ident128_ok i = (ident128_get i \<noteq> 0)"

instantiation ident :: (type) linorder
begin

definition less_eq_ident :: "'a ident \<Rightarrow> 'a ident \<Rightarrow> bool" where
  "less_eq_ident a b = (ident_get a \<le> ident_get b)"

definition less_ident :: "'a ident \<Rightarrow> 'a ident \<Rightarrow> bool" where
  "less_ident a b = (ident_get a < ident_get b)"

instance
  by standard (auto simp: less_eq_ident_def less_ident_def ident.expand)

end

instantiation ident128 :: (type) linorder
begin

definition less_eq_ident128 :: "'a ident128 \<Rightarrow> 'a ident128 \<Rightarrow> bool" where
  "less_eq_ident128 a b = (ident128_get a \<le> ident128_get b)"

definition less_ident128 :: "'a ident128 \<Rightarrow> 'a ident128 \<Rightarrow> bool" where
  "less_ident128 a b = (ident128_get a < ident128_get b)"

instance
  by standard (auto simp: less_eq_ident128_def less_ident128_def ident128.expand)

end

lemma ident_less_simps [simp]:
  "(Ident a < Ident b) = (a < b)" "(Ident a \<le> Ident b) = (a \<le> b)"
  by (simp_all add: less_ident_def less_eq_ident_def)

lemma ident128_less_simps [simp]:
  "(Ident128 a < Ident128 b) = (a < b)" "(Ident128 a \<le> Ident128 b) = (a \<le> b)"
  by (simp_all add: less_ident128_def less_eq_ident128_def)

lemma ident_get_inj [simp]: "ident_get a = ident_get b \<longleftrightarrow> a = b"
  by (cases a; cases b) simp

lemma ident128_get_inj [simp]: "ident128_get a = ident128_get b \<longleftrightarrow> a = b"
  by (cases a; cases b) simp

lemma ident_new_Inr [result_simps]: "ident_new v = Inr i \<longleftrightarrow> i = Ident v \<and> v \<noteq> 0"
  by (auto simp: ident_new_def)

lemma ident_new_get [simp]: "ident_ok i \<Longrightarrow> ident_new (ident_get i) = Inr i"
  by (simp add: ident_new_def ident_ok_def)

lemma ident128_new_Inr [result_simps]: "ident128_new v = Inr i \<longleftrightarrow> i = Ident128 v \<and> v \<noteq> 0"
  by (auto simp: ident128_new_def)

lemma ident128_new_get [simp]: "ident128_ok i \<Longrightarrow> ident128_new (ident128_get i) = Inr i"
  by (simp add: ident128_new_def ident128_ok_def)

datatype cluster_tag = ClusterTag
datatype graph_tag = GraphTag
datatype shard_tag = ShardTag
datatype replica_tag = ReplicaTag
datatype epoch_tag = EpochTag
datatype generation_tag = GenerationTag
datatype transaction_tag = TransactionTag

type_synonym cluster_id = "cluster_tag ident"
type_synonym graph_id = "graph_tag ident"
type_synonym shard_id = "shard_tag ident"
type_synonym replica_id = "replica_tag ident"
type_synonym placement_epoch = "epoch_tag ident"
type_synonym backend_generation = "generation_tag ident"
type_synonym transaction_id = "transaction_tag ident128"

type_synonym version = u64
type_synonym digest32 = bytes32

section \<open>Times\<close>

text \<open>A \<open>TransactionTime\<close> is a nonnegative \<open>i64\<close>.\<close>

type_synonym transaction_time = int

definition transaction_time_new :: "int \<Rightarrow> (kernel_error, transaction_time) result" where
  "transaction_time_new value =
     (if 0 \<le> value then Inr value else Inl (NegativeTransactionTime value))"

definition time_ok :: "transaction_time \<Rightarrow> bool" where
  "time_ok t = (0 \<le> t \<and> t \<le> i64_max)"

lemma time_ok_i64: "time_ok t \<Longrightarrow> i64_ok t"
  by (simp add: time_ok_def i64_ok_def)

lemma transaction_time_new_nonneg [simp]: "0 \<le> t \<Longrightarrow> transaction_time_new t = Inr t"
  by (simp add: transaction_time_new_def)

record valid_interval =
  iv_start :: int
  iv_end :: int

definition valid_interval_new :: "int \<Rightarrow> int \<Rightarrow> (kernel_error, valid_interval) result" where
  "valid_interval_new a b =
     (if a < b then Inr \<lparr>iv_start = a, iv_end = b\<rparr> else Inl (InvalidInterval a b))"

definition overlaps :: "valid_interval \<Rightarrow> valid_interval \<Rightarrow> bool" where
  "overlaps i j = (iv_start i < iv_end j \<and> iv_start j < iv_end i)"

definition interval_ok :: "valid_interval \<Rightarrow> bool" where
  "interval_ok i = (iv_start i < iv_end i \<and> i64_ok (iv_start i) \<and> i64_ok (iv_end i))"

text \<open>The instants an interval stands for: start inclusive, end exclusive.\<close>

definition covers_at :: "valid_interval \<Rightarrow> int \<Rightarrow> bool" where
  "covers_at i t = (iv_start i \<le> t \<and> t < iv_end i)"

lemma overlaps_sym: "overlaps i j \<longleftrightarrow> overlaps j i"
  by (auto simp: overlaps_def)

lemma overlaps_iff_common_instant:
  "interval_ok i \<Longrightarrow> interval_ok j \<Longrightarrow> overlaps i j \<longleftrightarrow> (\<exists>t. covers_at i t \<and> covers_at j t)"
  by (auto simp: overlaps_def covers_at_def interval_ok_def
      intro!: exI [of _ "max (iv_start i) (iv_start j)"])

section \<open>Values\<close>

datatype "value" =
    VNull
  | VBoolean bool
  | VInteger int
  | VFloatBits u64
  | VBytes "byte list"
  | VString string
  | VList "value list"
  | VMap "(string \<times> value) list"

text \<open>The ranges the Rust types impose: integers within 64 bits, lengths within \<open>usize\<close>.\<close>

fun value_ok :: "value \<Rightarrow> bool" where
  "value_ok VNull = True"
| "value_ok (VBoolean b) = True"
| "value_ok (VInteger i) = i64_ok i"
| "value_ok (VFloatBits f) = True"
| "value_ok (VBytes bs) = len_ok bs"
| "value_ok (VString s) = len_ok s"
| "value_ok (VList vs) = (len_ok vs \<and> (\<forall>v \<in> set vs. value_ok v))"
| "value_ok (VMap kvs) = (len_ok kvs \<and> (\<forall>kv \<in> set kvs. len_ok (fst kv) \<and> value_ok (snd kv)))"

end
