(* ===== verification/Binding.thy ===== *)
theory Binding
  imports Kernel
begin

text \<open>
  Replica bindings of the crate \<^verbatim>\<open>dtg-storage\<close> (\<^verbatim>\<open>binding.rs\<close>, \<^verbatim>\<open>capability.rs\<close>,
  \<^verbatim>\<open>error.rs\<close>): storage errors, capability manifests, backend classes, and the binding of a
  logical replica to a provider namespace with its builder and identity digest.  The hash function
  of the external crate \<^verbatim>\<open>blake3\<close> is a parameter of every definition that computes a digest.
\<close>

section \<open>The binding record and storage errors\<close>

datatype provider_kind = Fjall | PostgreSql | Kuzu | Remote string

datatype binding_role = Candidate | Active | Retiring

type_synonym namespace_id = string

record replica_binding =
  rb_cluster_id :: cluster_id
  rb_graph_id :: graph_id
  rb_shard_id :: shard_id
  rb_placement_epoch :: placement_epoch
  rb_replica_id :: replica_id
  rb_backend_generation :: backend_generation
  rb_backend_class_digest :: digest32
  rb_provider_kind :: provider_kind
  rb_contract_version :: u32
  rb_layout_version :: u32
  rb_capability_digest :: digest32
  rb_namespace_id :: namespace_id
  rb_endpoint_profile_ref :: string
  rb_credential_ref :: string
  rb_role :: binding_role

text \<open>Messages are kept where they are literals; a name rendered into a message is dropped.\<close>

datatype storage_error =
    InvalidBinding string
  | InvalidCapability string
  | InvalidMutationS string
  | InvalidBatch string
  | InjectedApplyFailure nat
  | StaleBinding replica_binding replica_binding
  | NamespaceOwnerMismatch replica_binding replica_binding
  | NonMonotonicIndex u64 u64
  | ReplayMismatch u64
  | ReadFenceUnavailable u64 u64
  | CapabilityDrift
  | Unsupported
  | CorruptSnapshot string
  | SnapshotIdentityMismatch
  | SnapshotNotExhausted
  | InvalidConsensus string
  | InvalidArtifact string
  | NotFound
  | TckViolation string
  | Internal string

section \<open>Capabilities\<close>

record capability_manifest =
  cm_names :: "string list"
  cm_digest :: digest32

definition validate_capability_name :: "string \<Rightarrow> (storage_error, unit) result" where
  "validate_capability_name name =
     guard_r (name \<noteq> [] \<and>
        list_all (\<lambda>c. is_lower c \<or> is_digit c \<or> c \<in> set ''-.'') name \<and>
        (case name of [] \<Rightarrow> False | c # _ \<Rightarrow> is_lower c))
       (InvalidCapability ''capability name is not canonical'')"

definition capability_preimage :: "string list \<Rightarrow> byte list" where
  "capability_preimage names =
     str_bytes ''dtg-capability-manifest-v1'' @ len_be (length names) @
     concat (map encode_string names)"

definition digest_names :: "(byte list \<Rightarrow> digest32) \<Rightarrow> string list \<Rightarrow> digest32" where
  "digest_names blake3 names = blake3 (capability_preimage names)"

definition capability_from_names ::
    "(byte list \<Rightarrow> digest32) \<Rightarrow> string list \<Rightarrow> (storage_error, capability_manifest) result" where
  "capability_from_names blake3 names =
     try_r (try_all validate_capability_name names) (\<lambda>_.
       let canonical = bs_of names in
       Inr \<lparr>cm_names = canonical, cm_digest = digest_names blake3 canonical\<rparr>)"

definition supports :: "capability_manifest \<Rightarrow> string \<Rightarrow> bool" where
  "supports m name = (name \<in> set (cm_names m))"

definition contains_all :: "capability_manifest \<Rightarrow> capability_manifest \<Rightarrow> bool" where
  "contains_all m required = list_all (\<lambda>n. n \<in> set (cm_names m)) (cm_names required)"

definition capability_intersection ::
    "(byte list \<Rightarrow> digest32) \<Rightarrow> capability_manifest \<Rightarrow> capability_manifest \<Rightarrow> capability_manifest" where
  "capability_intersection blake3 m other =
     (let names = filter (\<lambda>n. n \<in> set (cm_names other)) (cm_names m) in
      \<lparr>cm_names = names, cm_digest = digest_names blake3 names\<rparr>)"

lemma capability_names_canonical:
  assumes "capability_from_names h xs = Inr m" and "capability_from_names h ys = Inr n"
    and "set xs = set ys"
  shows "m = n"
proof -
  have "bs_of xs = bs_of ys"
    using assms(3) bs_of_set bs_of_sorted by (metis strict_sorted_equal)
  with assms(1,2) show ?thesis
    by (auto simp: capability_from_names_def result_simps Let_def)
qed

section \<open>Backend classes\<close>

text \<open>\<open>provider_bytes\<close> is what \<open>ProviderKind::encode\<close> feeds to the hasher; the encoder
  refuses a remote name that is not canonical.\<close>

fun provider_bytes :: "provider_kind \<Rightarrow> byte list" where
  "provider_bytes Fjall = str_bytes ''fjall''"
| "provider_bytes PostgreSql = str_bytes ''postgresql''"
| "provider_bytes Kuzu = str_bytes ''kuzu''"
| "provider_bytes (Remote name) = str_bytes ''remote:'' @ len_be (length name) @ str_bytes name"

fun provider_canonical :: "provider_kind \<Rightarrow> bool" where
  "provider_canonical (Remote name) =
     (name \<noteq> [] \<and> list_all (\<lambda>c. is_lower c \<or> is_digit c \<or> c \<in> set ''-.'') name)"
| "provider_canonical _ = True"

definition provider_encode :: "provider_kind \<Rightarrow> (storage_error, byte list) result" where
  "provider_encode k =
     (if provider_canonical k then Inr (provider_bytes k)
      else Inl (InvalidBinding ''remote provider name is not canonical''))"

datatype durability_policy = DurableCommit | DurableCommitWithReplicaSync

fun durability_tag :: "durability_policy \<Rightarrow> byte" where
  "durability_tag DurableCommit = 1"
| "durability_tag DurableCommitWithReplicaSync = 2"

record backend_class =
  bc_provider_kind :: provider_kind
  bc_contract_version :: u32
  bc_layout_version :: u32
  bc_durability_policy :: durability_policy
  bc_required_capabilities :: capability_manifest
  bc_digest :: digest32

definition with_durability ::
    "(byte list \<Rightarrow> digest32) \<Rightarrow> provider_kind \<Rightarrow> u32 \<Rightarrow> u32 \<Rightarrow> durability_policy \<Rightarrow> string list
      \<Rightarrow> (storage_error, backend_class) result" where
  "with_durability blake3 provider contract layout durability required =
     (if contract = 0 \<or> layout = 0
      then Inl (InvalidBinding ''backend contract and layout versions must be nonzero'')
      else try_r (capability_from_names blake3 required) (\<lambda>capabilities.
        try_r (provider_encode provider) (\<lambda>encoded.
          Inr \<lparr>bc_provider_kind = provider, bc_contract_version = contract,
               bc_layout_version = layout, bc_durability_policy = durability,
               bc_required_capabilities = capabilities,
               bc_digest = blake3 (str_bytes ''dtg-backend-class-v1'' @ encoded @ u32_be contract @
                 u32_be layout @ [durability_tag durability] @ b32_be (cm_digest capabilities))\<rparr>)))"

definition backend_class_new ::
    "(byte list \<Rightarrow> digest32) \<Rightarrow> provider_kind \<Rightarrow> u32 \<Rightarrow> u32 \<Rightarrow> string list
      \<Rightarrow> (storage_error, backend_class) result" where
  "backend_class_new blake3 provider contract layout required =
     with_durability blake3 provider contract layout DurableCommit required"

section \<open>Bindings\<close>

definition namespace_ok :: "string \<Rightarrow> bool" where
  "namespace_ok v = (v \<noteq> [] \<and> length v \<le> 255 \<and> \<not> any_whitespace v)"

definition namespace_new :: "string \<Rightarrow> (storage_error, namespace_id) result" where
  "namespace_new v =
     (if namespace_ok v then Inr v
      else Inl (InvalidBinding
        ''namespace identifier must be nonempty, bounded, and whitespace-free''))"

record binding_builder =
  bb_cluster_id :: u64
  bb_graph_id :: u64
  bb_shard_id :: u64
  bb_placement_epoch :: u64
  bb_replica_id :: u64
  bb_backend_generation :: u64
  bb_backend_class_digest :: "digest32 option"
  bb_provider_kind :: "provider_kind option"
  bb_contract_version :: u32
  bb_layout_version :: u32
  bb_capability_digest :: "digest32 option"
  bb_namespace_id :: "string option"
  bb_endpoint_profile_ref :: "string option"
  bb_credential_ref :: "string option"
  bb_role :: "binding_role option"

definition to_builder :: "replica_binding \<Rightarrow> binding_builder" where
  "to_builder b =
     \<lparr>bb_cluster_id = ident_get (rb_cluster_id b), bb_graph_id = ident_get (rb_graph_id b),
      bb_shard_id = ident_get (rb_shard_id b), bb_placement_epoch = ident_get (rb_placement_epoch b),
      bb_replica_id = ident_get (rb_replica_id b),
      bb_backend_generation = ident_get (rb_backend_generation b),
      bb_backend_class_digest = Some (rb_backend_class_digest b),
      bb_provider_kind = Some (rb_provider_kind b),
      bb_contract_version = rb_contract_version b, bb_layout_version = rb_layout_version b,
      bb_capability_digest = Some (rb_capability_digest b),
      bb_namespace_id = Some (rb_namespace_id b),
      bb_endpoint_profile_ref = Some (rb_endpoint_profile_ref b),
      bb_credential_ref = Some (rb_credential_ref b), bb_role = Some (rb_role b)\<rparr>"

definition invalid_field :: "string \<Rightarrow> storage_error" where
  "invalid_field field = InvalidBinding (''missing or invalid binding field: '' @ field)"

definition nonempty_ref :: "string option \<Rightarrow> string \<Rightarrow> (storage_error, string) result" where
  "nonempty_ref v field =
     (case v of Some s \<Rightarrow> if trim_is_empty s then Inl (invalid_field field) else Inr s
      | None \<Rightarrow> Inl (invalid_field field))"

definition nonzero_digest :: "digest32 option \<Rightarrow> string \<Rightarrow> (storage_error, digest32) result" where
  "nonzero_digest d field =
     (case d of Some x \<Rightarrow> if x = 0 then Inl (invalid_field field) else Inr x
      | None \<Rightarrow> Inl (invalid_field field))"

definition build :: "binding_builder \<Rightarrow> (storage_error, replica_binding) result" where
  "build bb =
     try_r (map_err (\<lambda>_. invalid_field ''cluster_id'') (ident_new (bb_cluster_id bb))) (\<lambda>cluster.
     try_r (map_err (\<lambda>_. invalid_field ''graph_id'') (ident_new (bb_graph_id bb))) (\<lambda>graph.
     try_r (map_err (\<lambda>_. invalid_field ''shard_id'') (ident_new (bb_shard_id bb))) (\<lambda>shard.
     try_r (map_err (\<lambda>_. invalid_field ''placement_epoch'') (ident_new (bb_placement_epoch bb))) (\<lambda>epoch.
     try_r (map_err (\<lambda>_. invalid_field ''replica_id'') (ident_new (bb_replica_id bb))) (\<lambda>replica.
     try_r (map_err (\<lambda>_. invalid_field ''backend_generation'')
              (ident_new (bb_backend_generation bb))) (\<lambda>generation.
     try_r (nonzero_digest (bb_backend_class_digest bb) ''backend_class_digest'') (\<lambda>class_digest.
     try_r (ok_or (bb_provider_kind bb) (invalid_field ''provider_kind'')) (\<lambda>provider.
     try_r (provider_encode provider) (\<lambda>_.
     try_r (guard_r (bb_contract_version bb \<noteq> 0) (invalid_field ''contract_version'')) (\<lambda>_.
     try_r (guard_r (bb_layout_version bb \<noteq> 0) (invalid_field ''layout_version'')) (\<lambda>_.
     try_r (nonzero_digest (bb_capability_digest bb) ''capability_digest'') (\<lambda>capability.
     try_r (ok_or (bb_namespace_id bb) (invalid_field ''namespace_id'')) (\<lambda>name.
     try_r (namespace_new name) (\<lambda>namespace.
     try_r (nonempty_ref (bb_endpoint_profile_ref bb) ''endpoint_profile_ref'') (\<lambda>endpoint.
     try_r (nonempty_ref (bb_credential_ref bb) ''credential_ref'') (\<lambda>credential.
     try_r (ok_or (bb_role bb) (invalid_field ''role'')) (\<lambda>role.
       Inr \<lparr>rb_cluster_id = cluster, rb_graph_id = graph, rb_shard_id = shard,
            rb_placement_epoch = epoch, rb_replica_id = replica,
            rb_backend_generation = generation, rb_backend_class_digest = class_digest,
            rb_provider_kind = provider, rb_contract_version = bb_contract_version bb,
            rb_layout_version = bb_layout_version bb, rb_capability_digest = capability,
            rb_namespace_id = namespace, rb_endpoint_profile_ref = endpoint,
            rb_credential_ref = credential, rb_role = role\<rparr>)))))))))))))))))"

text \<open>The invariant of a binding: what the builder lets through.\<close>

definition binding_ok :: "replica_binding \<Rightarrow> bool" where
  "binding_ok b =
     (ident_ok (rb_cluster_id b) \<and> ident_ok (rb_graph_id b) \<and> ident_ok (rb_shard_id b) \<and>
      ident_ok (rb_placement_epoch b) \<and> ident_ok (rb_replica_id b) \<and>
      ident_ok (rb_backend_generation b) \<and> rb_backend_class_digest b \<noteq> 0 \<and>
      provider_canonical (rb_provider_kind b) \<and> rb_contract_version b \<noteq> 0 \<and>
      rb_layout_version b \<noteq> 0 \<and> rb_capability_digest b \<noteq> 0 \<and> namespace_ok (rb_namespace_id b) \<and>
      \<not> trim_is_empty (rb_endpoint_profile_ref b) \<and> \<not> trim_is_empty (rb_credential_ref b))"

definition role_tag :: "binding_role \<Rightarrow> byte" where
  "role_tag r = (case r of Candidate \<Rightarrow> 1 | Active \<Rightarrow> 2 | Retiring \<Rightarrow> 3)"

definition identity_preimage :: "replica_binding \<Rightarrow> byte list" where
  "identity_preimage b =
     str_bytes ''dtg-replica-binding-v1'' @ u64_be (ident_get (rb_cluster_id b)) @
     u64_be (ident_get (rb_graph_id b)) @ u64_be (ident_get (rb_shard_id b)) @
     u64_be (ident_get (rb_placement_epoch b)) @ u64_be (ident_get (rb_replica_id b)) @
     u64_be (ident_get (rb_backend_generation b)) @ b32_be (rb_backend_class_digest b) @
     provider_bytes (rb_provider_kind b) @ u32_be (rb_contract_version b) @
     u32_be (rb_layout_version b) @ b32_be (rb_capability_digest b) @
     encode_string (rb_namespace_id b) @ encode_string (rb_endpoint_profile_ref b) @
     encode_string (rb_credential_ref b) @ [role_tag (rb_role b)]"

definition identity_digest :: "(byte list \<Rightarrow> digest32) \<Rightarrow> replica_binding \<Rightarrow> digest32" where
  "identity_digest blake3 b = blake3 (identity_preimage b)"

definition same_binding_except_role :: "replica_binding \<Rightarrow> replica_binding \<Rightarrow> bool" where
  "same_binding_except_role left right =
     (case build ((to_builder left)\<lparr>bb_role := Some (rb_role right)\<rparr>) of
        Inr normalized \<Rightarrow> normalized = right | Inl _ \<Rightarrow> False)"

section \<open>Facts\<close>

lemma nonempty_ref_Inr [result_simps]:
  "nonempty_ref v f = Inr s \<longleftrightarrow> v = Some s \<and> \<not> trim_is_empty s"
  by (auto simp: nonempty_ref_def split: option.splits if_splits)

lemma nonzero_digest_Inr [result_simps]: "nonzero_digest d f = Inr x \<longleftrightarrow> d = Some x \<and> x \<noteq> 0"
  by (auto simp: nonzero_digest_def split: option.splits if_splits)

lemma provider_encode_Inr [result_simps]:
  "provider_encode k = Inr bs \<longleftrightarrow> provider_canonical k \<and> bs = provider_bytes k"
  by (auto simp: provider_encode_def)

lemma namespace_new_Inr [result_simps]: "namespace_new v = Inr n \<longleftrightarrow> n = v \<and> namespace_ok v"
  by (auto simp: namespace_new_def)

lemma build_binding_ok: "build bb = Inr b \<Longrightarrow> binding_ok b"
  by (auto simp: build_def result_simps binding_ok_def ident_ok_def)

lemma build_to_builder: "binding_ok b \<Longrightarrow> build (to_builder b) = Inr b"
  by (simp add: build_def to_builder_def binding_ok_def nonzero_digest_def provider_encode_def
      namespace_new_def nonempty_ref_def)

lemma build_with_role:
  "binding_ok b \<Longrightarrow> build ((to_builder b)\<lparr>bb_role := Some r\<rparr>) = Inr (b\<lparr>rb_role := r\<rparr>)"
  using build_to_builder [of "b\<lparr>rb_role := r\<rparr>"] by (simp add: to_builder_def binding_ok_def)

lemma same_binding_except_role_iff:
  "binding_ok a \<Longrightarrow> same_binding_except_role a b \<longleftrightarrow> b = a\<lparr>rb_role := rb_role b\<rparr>"
  by (auto simp: same_binding_except_role_def build_with_role)

text \<open>Provider bytes are self-delimiting although only remote names carry a length.\<close>

fun provider_len_ok :: "provider_kind \<Rightarrow> bool" where
  "provider_len_ok (Remote n) = len_ok n"
| "provider_len_ok _ = True"

interpretation provc: prefix_code provider_bytes provider_len_ok
proof
  fix x y r s
  assume "provider_len_ok x" and "provider_len_ok y" and "provider_bytes x @ r = provider_bytes y @ s"
  then show "x = y \<and> r = s"
    by (cases x; cases y) (auto simp: str_bytes_simps len_ok_def codec_split)
qed

lemma role_tag_inj [simp]: "role_tag a = role_tag b \<longleftrightarrow> a = b"
  by (cases a; cases b) (simp_all add: role_tag_def)

text \<open>Lengths that fit \<open>usize\<close>.\<close>

definition binding_sized :: "replica_binding \<Rightarrow> bool" where
  "binding_sized b =
     (provider_len_ok (rb_provider_kind b) \<and> len_ok (rb_namespace_id b) \<and>
      len_ok (rb_endpoint_profile_ref b) \<and> len_ok (rb_credential_ref b))"

lemma identity_preimage_inj:
  assumes "binding_sized a" and "binding_sized b" and "identity_preimage a = identity_preimage b"
  shows "a = b"
  using assms
  by (simp add: identity_preimage_def binding_sized_def codec_split provc.split_iff)

end
