(* ===== verification/Mutation.thy ===== *)
theory Mutation
  imports Binding
begin

text \<open>
  Typed mutations of the crate \<^verbatim>\<open>dtg-storage\<close> (\<^verbatim>\<open>mutation.rs\<close>, the change records of
  \<^verbatim>\<open>read.rs\<close>): vertex and edge versions, tombstones, transaction records, committed batches, and
  the byte stream that a mutation digest hashes.  The stream is shown to determine the mutations.
\<close>

section \<open>Data\<close>

datatype vertex_tag = VertexTag
datatype edge_tag = EdgeTag
datatype command_tag = CommandTag

type_synonym vertex_id = "vertex_tag ident128"
type_synonym edge_id = "edge_tag ident128"
type_synonym command_id = "command_tag ident128"
type_synonym properties = "(string, value) bmap"

definition vertex_id_new :: "u128 \<Rightarrow> (storage_error, vertex_id) result" where
  "vertex_id_new v =
     (if v \<noteq> 0 then Inr (Ident128 v)
      else Inl (InvalidMutationS ''vertex identifier must be nonzero''))"

definition edge_id_new :: "u128 \<Rightarrow> (storage_error, edge_id) result" where
  "edge_id_new v =
     (if v \<noteq> 0 then Inr (Ident128 v)
      else Inl (InvalidMutationS ''edge identifier must be nonzero''))"

definition command_id_new :: "u128 \<Rightarrow> (storage_error, command_id) result" where
  "command_id_new v =
     (if v \<noteq> 0 then Inr (Ident128 v)
      else Inl (InvalidBatch ''command identifier must be nonzero''))"

record vertex_version =
  vv_id :: vertex_id
  vv_version :: version
  vv_valid_time :: valid_interval
  vv_transaction_time :: transaction_time
  vv_properties :: properties

record edge_version =
  ev_id :: edge_id
  ev_source :: vertex_id
  ev_target :: vertex_id
  ev_edge_type :: string
  ev_version :: version
  ev_valid_time :: valid_interval
  ev_transaction_time :: transaction_time
  ev_properties :: properties

record vertex_tombstone =
  vt_id :: vertex_id
  vt_version :: version
  vt_transaction_time :: transaction_time

record edge_tombstone =
  et_id :: edge_id
  et_version :: version
  et_transaction_time :: transaction_time

datatype transaction_state = Prepared | Committed | Aborted

record transaction_record =
  tr_id :: transaction_id
  tr_state :: transaction_state
  tr_transaction_time :: transaction_time
  tr_record_digest :: digest32

record replica_metadata =
  rm_name :: string
  rm_value :: "value"

datatype logical_mutation =
    PutVertex vertex_version
  | DeleteVertex vertex_tombstone
  | PutEdge edge_version
  | DeleteEdge edge_tombstone
  | PutTransaction transaction_record
  | PutReplicaMetadata replica_metadata

record change_cursor =
  cc_raft_index :: u64
  cc_mutation_ordinal :: u64

record change_record =
  cr_cursor :: change_cursor
  cr_mutation :: logical_mutation

section \<open>Constructors\<close>

definition validate_properties :: "properties \<Rightarrow> (storage_error, unit) result" where
  "validate_properties ps =
     (if list_ex (\<lambda>kv. fst kv = []) ps
      then Inl (InvalidMutationS ''property names must be nonempty'') else Inr ())"

definition vertex_version_new ::
    "vertex_id \<Rightarrow> version \<Rightarrow> valid_interval \<Rightarrow> transaction_time \<Rightarrow> properties
      \<Rightarrow> (storage_error, vertex_version) result" where
  "vertex_version_new i v iv t ps =
     try_r (validate_properties ps) (\<lambda>_.
       Inr \<lparr>vv_id = i, vv_version = v, vv_valid_time = iv, vv_transaction_time = t,
            vv_properties = ps\<rparr>)"

definition edge_version_new ::
    "edge_id \<Rightarrow> vertex_id \<Rightarrow> vertex_id \<Rightarrow> string \<Rightarrow> version \<Rightarrow> valid_interval
      \<Rightarrow> transaction_time \<Rightarrow> properties \<Rightarrow> (storage_error, edge_version) result" where
  "edge_version_new i src tgt ty v iv t ps =
     (if ty = [] then Inl (InvalidMutationS ''edge type must be nonempty'')
      else try_r (validate_properties ps) (\<lambda>_.
        Inr \<lparr>ev_id = i, ev_source = src, ev_target = tgt, ev_edge_type = ty, ev_version = v,
             ev_valid_time = iv, ev_transaction_time = t, ev_properties = ps\<rparr>))"

definition transaction_record_new ::
    "transaction_id \<Rightarrow> transaction_state \<Rightarrow> transaction_time \<Rightarrow> digest32
      \<Rightarrow> (storage_error, transaction_record) result" where
  "transaction_record_new i st t d =
     (if d = 0 then Inl (InvalidMutationS ''transaction record digest must be nonzero'')
      else Inr \<lparr>tr_id = i, tr_state = st, tr_transaction_time = t, tr_record_digest = d\<rparr>)"

definition replica_metadata_new ::
    "string \<Rightarrow> value \<Rightarrow> (storage_error, replica_metadata) result" where
  "replica_metadata_new name v =
     (if name = [] then Inl (InvalidMutationS ''replica metadata name must be nonempty'')
      else Inr \<lparr>rm_name = name, rm_value = v\<rparr>)"

section \<open>The hashed byte stream\<close>

fun encode_value :: "value \<Rightarrow> byte list" where
  "encode_value VNull = [0]"
| "encode_value (VBoolean b) = [1, if b then 1 else 0]"
| "encode_value (VInteger i) = [2] @ i64_be i"
| "encode_value (VFloatBits f) = [3] @ u64_be f"
| "encode_value (VBytes bs) = [4] @ len_be (length bs) @ bs"
| "encode_value (VString s) = [5] @ encode_string s"
| "encode_value (VList vs) = [6] @ len_be (length vs) @ concat (map encode_value vs)"
| "encode_value (VMap kvs) =
     [7] @ len_be (length kvs) @
     concat (map (\<lambda>kv. encode_string (fst kv) @ encode_value (snd kv)) kvs)"

definition encode_interval :: "valid_interval \<Rightarrow> byte list" where
  "encode_interval iv = i64_be (iv_start iv) @ i64_be (iv_end iv)"

definition encode_properties :: "properties \<Rightarrow> byte list" where
  "encode_properties ps =
     len_be (length ps) @ concat (map (\<lambda>kv. encode_string (fst kv) @ encode_value (snd kv)) ps)"

definition encode_vertex :: "vertex_version \<Rightarrow> byte list" where
  "encode_vertex v =
     u128_be (ident128_get (vv_id v)) @ u64_be (vv_version v) @ encode_interval (vv_valid_time v) @
     i64_be (vv_transaction_time v) @ encode_properties (vv_properties v)"

definition encode_edge :: "edge_version \<Rightarrow> byte list" where
  "encode_edge e =
     u128_be (ident128_get (ev_id e)) @ u128_be (ident128_get (ev_source e)) @
     u128_be (ident128_get (ev_target e)) @ encode_string (ev_edge_type e) @
     u64_be (ev_version e) @ encode_interval (ev_valid_time e) @
     i64_be (ev_transaction_time e) @ encode_properties (ev_properties e)"

definition transaction_state_tag :: "transaction_state \<Rightarrow> byte" where
  "transaction_state_tag s = (case s of Prepared \<Rightarrow> 1 | Committed \<Rightarrow> 2 | Aborted \<Rightarrow> 3)"

definition encode_transaction :: "transaction_record \<Rightarrow> byte list" where
  "encode_transaction t =
     u128_be (ident128_get (tr_id t)) @ [transaction_state_tag (tr_state t)] @
     i64_be (tr_transaction_time t) @ b32_be (tr_record_digest t)"

definition encode_metadata :: "replica_metadata \<Rightarrow> byte list" where
  "encode_metadata m = encode_string (rm_name m) @ encode_value (rm_value m)"

fun encode_mutation :: "logical_mutation \<Rightarrow> byte list" where
  "encode_mutation (PutVertex v) = [1] @ encode_vertex v"
| "encode_mutation (DeleteVertex t) =
     [2] @ u128_be (ident128_get (vt_id t)) @ u64_be (vt_version t) @ i64_be (vt_transaction_time t)"
| "encode_mutation (PutEdge e) = [3] @ encode_edge e"
| "encode_mutation (DeleteEdge t) =
     [4] @ u128_be (ident128_get (et_id t)) @ u64_be (et_version t) @ i64_be (et_transaction_time t)"
| "encode_mutation (PutTransaction t) = [5] @ encode_transaction t"
| "encode_mutation (PutReplicaMetadata m) = [6] @ encode_metadata m"

definition mutations_preimage :: "logical_mutation list \<Rightarrow> byte list" where
  "mutations_preimage ms =
     str_bytes ''dtg-typed-mutations-v1'' @ len_be (length ms) @ concat (map encode_mutation ms)"

definition digest_mutations :: "(byte list \<Rightarrow> digest32) \<Rightarrow> logical_mutation list \<Rightarrow> digest32" where
  "digest_mutations blake3 ms = blake3 (mutations_preimage ms)"

section \<open>Committed batches\<close>

record committed_shard_batch =
  cb_binding :: replica_binding
  cb_raft_term :: u64
  cb_raft_index :: u64
  cb_command_id :: command_id
  cb_mutation_digest :: digest32
  cb_mutations :: "logical_mutation list"

definition committed_shard_batch_new ::
    "(byte list \<Rightarrow> digest32) \<Rightarrow> replica_binding \<Rightarrow> u64 \<Rightarrow> u64 \<Rightarrow> command_id
      \<Rightarrow> logical_mutation list \<Rightarrow> (storage_error, committed_shard_batch) result" where
  "committed_shard_batch_new blake3 b term index cid ms =
     (if term = 0 \<or> index = 0 then Inl (InvalidBatch ''Raft term and index must be nonzero'')
      else if ms = [] then Inl (InvalidBatch ''committed batch must contain at least one mutation'')
      else Inr \<lparr>cb_binding = b, cb_raft_term = term, cb_raft_index = index, cb_command_id = cid,
                cb_mutation_digest = digest_mutations blake3 ms, cb_mutations = ms\<rparr>)"

definition committed_shard_batch_validate ::
    "(byte list \<Rightarrow> digest32) \<Rightarrow> committed_shard_batch \<Rightarrow> (storage_error, unit) result" where
  "committed_shard_batch_validate blake3 cb =
     (if cb_raft_term cb = 0 \<or> cb_raft_index cb = 0 \<or> cb_mutations cb = []
      then Inl (InvalidBatch ''committed batch identity is incomplete'')
      else if cb_mutation_digest cb \<noteq> digest_mutations blake3 (cb_mutations cb)
      then Inl (InvalidBatch ''mutation digest does not match typed mutations'')
      else Inr ())"

record apply_receipt =
  ar_binding :: replica_binding
  ar_raft_term :: u64
  ar_raft_index :: u64
  ar_command_id :: command_id
  ar_mutation_digest :: digest32
  ar_replayed :: bool

definition apply_receipt_new :: "committed_shard_batch \<Rightarrow> bool \<Rightarrow> apply_receipt" where
  "apply_receipt_new cb replayed =
     \<lparr>ar_binding = cb_binding cb, ar_raft_term = cb_raft_term cb, ar_raft_index = cb_raft_index cb,
      ar_command_id = cb_command_id cb, ar_mutation_digest = cb_mutation_digest cb,
      ar_replayed = replayed\<rparr>"

section \<open>The stream determines the mutations\<close>

text \<open>Ranges of the Rust field types.\<close>

definition properties_sized :: "properties \<Rightarrow> bool" where
  "properties_sized ps = (len_ok ps \<and> (\<forall>kv \<in> set ps. len_ok (fst kv) \<and> value_ok (snd kv)))"

definition interval_sized :: "valid_interval \<Rightarrow> bool" where
  "interval_sized iv = (i64_ok (iv_start iv) \<and> i64_ok (iv_end iv))"

fun mutation_sized :: "logical_mutation \<Rightarrow> bool" where
  "mutation_sized (PutVertex v) =
     (interval_sized (vv_valid_time v) \<and> i64_ok (vv_transaction_time v) \<and>
      properties_sized (vv_properties v))"
| "mutation_sized (DeleteVertex t) = i64_ok (vt_transaction_time t)"
| "mutation_sized (PutEdge e) =
     (len_ok (ev_edge_type e) \<and> interval_sized (ev_valid_time e) \<and> i64_ok (ev_transaction_time e) \<and>
      properties_sized (ev_properties e))"
| "mutation_sized (DeleteEdge t) = i64_ok (et_transaction_time t)"
| "mutation_sized (PutTransaction t) = i64_ok (tr_transaction_time t)"
| "mutation_sized (PutReplicaMetadata m) = (len_ok (rm_name m) \<and> value_ok (rm_value m))"


lemma encode_value_split:
  "value_ok x \<Longrightarrow> value_ok y \<Longrightarrow> encode_value x @ r = encode_value y @ s \<Longrightarrow> x = y \<and> r = s"
proof (induction x arbitrary: y r s rule: encode_value.induct)
  case (7 vs)
  note prems = "7.prems"
  then obtain ws where y: "y = VList ws" by (cases y) auto
  with prems have len: "length vs = length ws"
    and rest: "concat (map encode_value vs) @ r = concat (map encode_value ws) @ s"
    by (auto simp: len_ok_def codec_split)
  have "vs = ws \<and> r = s"
  proof (rule concat_split_elements [where ok = value_ok, OF _ _ len rest])
    show "list_all value_ok ws" using prems y by (simp add: list_all_iff)
    fix v w r s
    assume "v \<in> set vs" and "value_ok w" and "encode_value v @ r = encode_value w @ s"
    then show "v = w \<and> r = s" using "7.IH" [of v w r s] prems(1) by simp
  qed
  with y show ?case by simp
next
  case (8 kvs)
  note prems = "8.prems"
  let ?f = "\<lambda>kv. encode_string (fst kv) @ encode_value (snd kv)"
  from prems obtain ws where y: "y = VMap ws" by (cases y) auto
  with prems have len: "length kvs = length ws"
    and rest: "concat (map ?f kvs) @ r = concat (map ?f ws) @ s"
    by (auto simp: len_ok_def codec_split)
  have "kvs = ws \<and> r = s"
  proof (rule concat_split_elements
      [where ok = "\<lambda>kv. len_ok (fst kv) \<and> value_ok (snd kv)", OF _ _ len rest])
    show "list_all (\<lambda>kv. len_ok (fst kv) \<and> value_ok (snd kv)) ws"
      using prems y by (simp add: list_all_iff)
    fix kv kv' r s
    assume kv: "kv \<in> set kvs" "len_ok (fst kv') \<and> value_ok (snd kv')" "?f kv @ r = ?f kv' @ s"
    with prems have "fst kv = fst kv'" "encode_value (snd kv) @ r = encode_value (snd kv') @ s"
      by (simp_all add: codec_split)
    moreover from prems kv have "value_ok (snd kv)" "value_ok (snd kv')" by simp_all
    ultimately show "kv = kv' \<and> r = s"
      using "8.IH" [OF kv(1), of "snd kv'" r s] by (simp add: prod_eq_iff)
  qed
  with y show ?case by simp
next
  case (2 b)
  then show ?case by (cases y) (auto split: if_splits)
next
  case 1
  then show ?case by (cases y) auto
next
  case (3 i)
  then show ?case by (cases y) (auto simp: codec_split)
next
  case (4 f)
  then show ?case by (cases y) (auto simp: codec_split)
next
  case (5 bs)
  then show ?case by (cases y) (auto simp: codec_split len_ok_def)
next
  case (6 t)
  then show ?case by (cases y) (auto simp: codec_split)
qed

interpretation valc: prefix_code encode_value value_ok
  by unfold_locales (rule encode_value_split)

abbreviation encode_property :: "string \<times> value \<Rightarrow> byte list" where
  "encode_property kv \<equiv> encode_string (fst kv) @ encode_value (snd kv)"

interpretation kvc: prefix_code encode_property "\<lambda>kv. len_ok (fst kv) \<and> value_ok (snd kv)"
  by unfold_locales (auto simp: codec_split valc.split_iff prod_eq_iff)

interpretation propc: prefix_code encode_properties properties_sized
proof
  fix x y r s
  assume ok: "properties_sized x" "properties_sized y"
    and eq: "encode_properties x @ r = encode_properties y @ s"
  then have "length x = length y"
    and "concat (map encode_property x) @ r = concat (map encode_property y) @ s"
    by (auto simp: encode_properties_def properties_sized_def len_ok_def codec_split)
  with ok show "x = y \<and> r = s"
    by (simp add: kvc.concat_split properties_sized_def list_all_iff)
qed

interpretation ivc: prefix_code encode_interval interval_sized
  by unfold_locales (auto simp: encode_interval_def interval_sized_def codec_split)

lemmas mutation_codec_split [codec_split] =
  valc.split_iff valc.enc_inj propc.split_iff propc.enc_inj ivc.split_iff ivc.enc_inj

lemma transaction_state_tag_inj [simp]: "transaction_state_tag a = transaction_state_tag b \<longleftrightarrow> a = b"
  by (cases a; cases b) (simp_all add: transaction_state_tag_def)

interpretation mutc: prefix_code encode_mutation mutation_sized
proof
  fix x y r s
  assume "mutation_sized x" and "mutation_sized y" and "encode_mutation x @ r = encode_mutation y @ s"
  then show "x = y \<and> r = s"
    by (cases x; cases y)
      (auto simp: encode_vertex_def encode_edge_def encode_transaction_def encode_metadata_def
        codec_split)
qed

lemma mutations_preimage_inj:
  assumes "len_ok xs" and "len_ok ys" and "list_all mutation_sized xs" and "list_all mutation_sized ys"
    and "mutations_preimage xs = mutations_preimage ys"
  shows "xs = ys"
proof -
  from assms have "length xs = length ys"
    and "concat (map encode_mutation xs) = concat (map encode_mutation ys)"
    by (auto simp: mutations_preimage_def len_ok_def codec_split)
  with assms mutc.concat_split [of xs ys "[]" "[]"] show ?thesis by simp
qed

lemma committed_shard_batch_validates:
  "committed_shard_batch_new h b t i c ms = Inr cb \<Longrightarrow> committed_shard_batch_validate h cb = Inr ()"
  by (auto simp: committed_shard_batch_new_def committed_shard_batch_validate_def split: if_splits)

end
