(* ===== verification/Txn_Base.thy ===== *)
theory Txn_Base
  imports Mutation
begin

text \<open>
  Shared types of the crate \<^verbatim>\<open>dtg-transaction\<close> (\<^verbatim>\<open>lib.rs\<close>, \<^verbatim>\<open>snapshot.rs\<close> and the
  reservation types of \<^verbatim>\<open>coordinator.rs\<close>): transaction errors, commit-time reservations, and
  the snapshot token that fixes what a transaction may read.
\<close>

section \<open>Errors and reservations\<close>

text \<open>\<open>TxnError::Storage\<close> holds the rendered storage error in the source; the model keeps the
  error itself.\<close>

datatype txn_error =
    WriteConflict
  | IncompleteSnapshot
  | DuplicateShardFence
  | InconsistentSnapshot
  | StalePlacementEpoch
  | StaleBackendGeneration
  | AppliedIndexUnavailable
  | ReadTimeExceedsClosedTime
  | ReferentialIntegrity
  | DuplicateIdentity
  | InvalidMutation
  | ResourceLimit
  | ParticipantsMismatch
  | ShardFailure string
  | StorageFailure storage_error
  | CorruptRecovery
  | InjectedCrash

datatype commit_resolution = ResCommitted | ResAborted

record commit_time_reservation =
  rsv_commit_time :: transaction_time
  rsv_resolution :: "commit_resolution option"

section \<open>Snapshot tokens\<close>

record shard_snapshot_fence =
  sf_placement_epoch :: placement_epoch
  sf_backend_generation :: backend_generation
  sf_applied_index :: u64
  sf_closed_time :: transaction_time

record snapshot_token =
  st_transaction_id :: transaction_id
  st_start_time :: transaction_time
  st_catalog_version :: version
  st_shards :: "(shard_id, shard_snapshot_fence) bmap"

definition snapshot_add_fence ::
    "transaction_time \<Rightarrow> (shard_id, shard_snapshot_fence) bmap \<Rightarrow> shard_id \<times> shard_snapshot_fence
      \<Rightarrow> (txn_error, (shard_id, shard_snapshot_fence) bmap) result" where
  "snapshot_add_fence start shards p = (case p of (shard, fence) \<Rightarrow>
     if sf_closed_time fence < start then Inl InconsistentSnapshot
     else if map_of shards shard \<noteq> None then Inl DuplicateShardFence
     else Inr (bm_insert shard fence shards))"

definition snapshot_token_new ::
    "transaction_id \<Rightarrow> transaction_time \<Rightarrow> version \<Rightarrow> (shard_id \<times> shard_snapshot_fence) list
      \<Rightarrow> (txn_error, snapshot_token) result" where
  "snapshot_token_new tx start catalog fences =
     (if catalog = 0 \<or> fences = [] then Inl IncompleteSnapshot
      else try_r (try_fold (snapshot_add_fence start) [] fences) (\<lambda>shards.
        Inr \<lparr>st_transaction_id = tx, st_start_time = start, st_catalog_version = catalog,
             st_shards = shards\<rparr>))"

definition validate_shard ::
    "snapshot_token \<Rightarrow> shard_id \<Rightarrow> placement_epoch \<Rightarrow> backend_generation \<Rightarrow> u64
      \<Rightarrow> (txn_error, unit) result" where
  "validate_shard tok shard epoch generation available =
     try_r (ok_or (map_of (st_shards tok) shard) IncompleteSnapshot) (\<lambda>fence.
       if sf_placement_epoch fence \<noteq> epoch then Inl StalePlacementEpoch
       else if sf_backend_generation fence \<noteq> generation then Inl StaleBackendGeneration
       else if available < sf_applied_index fence then Inl AppliedIndexUnavailable
       else Inr ())"

definition validate_read_time :: "snapshot_token \<Rightarrow> transaction_time \<Rightarrow> (txn_error, unit) result" where
  "validate_read_time tok t =
     (if t \<noteq> st_start_time tok then Inl InconsistentSnapshot
      else if list_ex (\<lambda>p. sf_closed_time (snd p) < t) (st_shards tok)
      then Inl ReadTimeExceedsClosedTime
      else Inr ())"

lemma snapshot_add_fence_Inr [result_simps]:
  "snapshot_add_fence start m (s, f) = Inr m' \<longleftrightarrow>
     start \<le> sf_closed_time f \<and> map_of m s = None \<and> m' = bm_insert s f m"
  by (auto simp: snapshot_add_fence_def)

lemma snapshot_fold_fences:
  assumes "try_fold (snapshot_add_fence start) m fences = Inr shards"
    and "bm_ok m" and "\<forall>p \<in> set m. start \<le> sf_closed_time (snd p)"
  shows "bm_ok shards \<and> (\<forall>p \<in> set shards. start \<le> sf_closed_time (snd p)) \<and>
     distinct (map fst fences) \<and> set (map fst fences) \<inter> dom (map_of m) = {} \<and>
     map_of shards = map_of m ++ map_of fences"
  using assms
proof (induction fences arbitrary: m)
  case (Cons p fences)
  obtain s f where p: "p = (s, f)" by (cases p)
  from Cons.prems(1) p have f: "start \<le> sf_closed_time f" and new: "map_of m s = None"
    and rest: "try_fold (snapshot_add_fence start) (bm_insert s f m) fences = Inr shards"
    by (auto simp: result_simps)
  have closed: "\<forall>q \<in> set (bm_insert s f m). start \<le> sf_closed_time (snd q)"
    using Cons.prems(3) f set_bm_insert_sub [of s f m] by auto
  from Cons.IH [OF rest _ closed] Cons.prems(2) new p show ?case
    by (auto simp: map_add_upd_left map_add_def fun_eq_iff dom_def map_of_eq_None_iff
        split: option.splits)
qed simp

lemma snapshot_token_newD:
  assumes "snapshot_token_new tx start catalog fences = Inr tok"
  shows "st_start_time tok = start" "st_transaction_id tok = tx" "bm_ok (st_shards tok)"
    "map_of (st_shards tok) = map_of fences" "distinct (map fst fences)"
    "\<forall>p \<in> set (st_shards tok). start \<le> sf_closed_time (snd p)" "st_shards tok \<noteq> []"
proof -
  from assms obtain shards where ne: "fences \<noteq> []"
    and tok: "tok = \<lparr>st_transaction_id = tx, st_start_time = start, st_catalog_version = catalog,
                st_shards = shards\<rparr>"
    and fold: "try_fold (snapshot_add_fence start) [] fences = Inr shards"
    by (auto simp: snapshot_token_new_def result_simps split: if_splits)
  from snapshot_fold_fences [OF fold] have
    *: "bm_ok shards" "\<forall>p \<in> set shards. start \<le> sf_closed_time (snd p)"
      "distinct (map fst fences)" "map_of shards = map_of fences"
    by auto
  then show "st_start_time tok = start" "st_transaction_id tok = tx" "bm_ok (st_shards tok)"
    "map_of (st_shards tok) = map_of fences" "distinct (map fst fences)"
    "\<forall>p \<in> set (st_shards tok). start \<le> sf_closed_time (snd p)"
    by (simp_all add: tok)
  from ne * tok show "st_shards tok \<noteq> []"
    by (cases fences; cases shards) (auto simp: fun_eq_iff split: if_splits)
qed

text \<open>Reads of a fresh token are allowed at its start time and at no other time.\<close>

lemma snapshot_read_time:
  "snapshot_token_new tx start catalog fences = Inr tok \<Longrightarrow>
     validate_read_time tok t = (if t = start then Inr () else Inl InconsistentSnapshot)"
  by (fastforce simp: validate_read_time_def list_ex_iff dest: snapshot_token_newD)

end
