(* ===== verification/Timestamp.thy ===== *)
theory Timestamp
  imports Txn_Base
begin

text \<open>
  The timestamp authority of \<^verbatim>\<open>dtg-transaction/src/timestamp.rs\<close>: start times, commit-time
  reservations and the published frontier, the durable command log behind them, and the binary
  format of the logged commands.  The log is reached through the trait
  \<open>TimestampCommandLog\<close>, modelled as a record of operations over the log's world.
\<close>

section \<open>Commands and state\<close>

datatype timestamp_operation =
    OpAllocateStart transaction_id
  | OpReserveCommit transaction_id
  | OpResolveCommit transaction_id transaction_time commit_resolution

datatype timestamp_command =
    CmdAllocateStart (cmd_tx: transaction_id) (cmd_time: transaction_time)
  | CmdReserveCommit (cmd_tx: transaction_id) (cmd_time: transaction_time)
  | CmdResolveCommit (cmd_tx: transaction_id) (cmd_time: transaction_time)
      (cmd_resolution: commit_resolution)

record timestamp_state =
  last_issued :: int
  published_frontier :: int
  start_times :: "(transaction_id, transaction_time) bmap"
  reservations :: "(transaction_id, commit_time_reservation) bmap"

definition timestamp_state_default :: timestamp_state where
  "timestamp_state_default =
     \<lparr>last_issued = 0, published_frontier = 0, start_times = [], reservations = []\<rparr>"

definition next_timestamp :: "timestamp_state \<Rightarrow> (txn_error, transaction_time) result" where
  "next_timestamp st =
     try_r (ok_or (i64_succ (last_issued st)) ResourceLimit) (\<lambda>value.
       map_err (\<lambda>_. CorruptRecovery) (transaction_time_new value))"

definition next_start_time :: "timestamp_state \<Rightarrow> (txn_error, transaction_time) result" where
  "next_start_time st =
     (if list_ex (\<lambda>p. rsv_resolution (snd p) = None) (reservations st)
      then map_err (\<lambda>_. CorruptRecovery) (transaction_time_new (published_frontier st))
      else next_timestamp st)"

definition apply_new_timestamp ::
    "timestamp_state \<Rightarrow> transaction_time \<Rightarrow> (txn_error, timestamp_state) result" where
  "apply_new_timestamp st t =
     try_r (ok_or (i64_succ (last_issued st)) CorruptRecovery) (\<lambda>next.
       if t \<noteq> next then Inl CorruptRecovery else Inr (st\<lparr>last_issued := t\<rparr>))"

definition resolved_at :: "timestamp_state \<Rightarrow> int \<Rightarrow> bool" where
  "resolved_at st t =
     list_ex (\<lambda>p. rsv_commit_time (snd p) = t \<and> rsv_resolution (snd p) \<noteq> None) (reservations st)"

text \<open>The loop of \<open>advance_published_frontier\<close>; it ends because the frontier climbs towards
  the last issued time.\<close>

function advance_published_frontier :: "timestamp_state \<Rightarrow> (txn_error, timestamp_state) result" where
  "advance_published_frontier st =
     (if published_frontier st < last_issued st then
        (case i64_succ (published_frontier st) of
           None \<Rightarrow> Inl CorruptRecovery
         | Some next \<Rightarrow>
             if resolved_at st next then advance_published_frontier (st\<lparr>published_frontier := next\<rparr>)
             else Inr st)
      else Inr st)"
  by pat_completeness auto
termination
  by (relation "measure (\<lambda>st. nat (last_issued st - published_frontier st))")
    (auto simp: i64_succ_def split: if_splits)

declare advance_published_frontier.simps [simp del]

text \<open>\<open>TimestampState::apply\<close>.  On an error the source may leave the value half updated, but
  every caller drops it then, so only the result is kept.\<close>

fun apply_command :: "timestamp_state \<Rightarrow> timestamp_command \<Rightarrow> (txn_error, timestamp_state) result" where
  "apply_command st (CmdAllocateStart tx t) =
     (case map_of (start_times st) tx of
        Some existing \<Rightarrow> if existing = t then Inr st else Inl CorruptRecovery
      | None \<Rightarrow>
          try_r (ok_or (i64_succ (last_issued st)) CorruptRecovery) (\<lambda>next.
          try_r (if t = next then
                   (if published_frontier st \<noteq> last_issued st then Inl CorruptRecovery
                    else try_r (apply_new_timestamp st t) (\<lambda>st'. Inr (st'\<lparr>published_frontier := t\<rparr>)))
                 else if t \<noteq> published_frontier st then Inl CorruptRecovery
                 else Inr st) (\<lambda>st'.
            Inr (st'\<lparr>start_times := bm_insert tx t (start_times st')\<rparr>))))"
| "apply_command st (CmdReserveCommit tx t) =
     (case map_of (reservations st) tx of
        Some existing \<Rightarrow> if rsv_commit_time existing = t then Inr st else Inl CorruptRecovery
      | None \<Rightarrow>
          try_r (apply_new_timestamp st t) (\<lambda>st'.
            Inr (st'\<lparr>reservations := bm_insert tx \<lparr>rsv_commit_time = t, rsv_resolution = None\<rparr>
                  (reservations st')\<rparr>)))"
| "apply_command st (CmdResolveCommit tx t res) =
     try_r (ok_or (map_of (reservations st) tx) CorruptRecovery) (\<lambda>r.
       if rsv_commit_time r \<noteq> t then Inl CorruptRecovery
       else case rsv_resolution r of
         Some existing \<Rightarrow> if existing = res then Inr st else Inl CorruptRecovery
       | None \<Rightarrow> advance_published_frontier
           (st\<lparr>reservations := bm_insert tx \<lparr>rsv_commit_time = t, rsv_resolution = Some res\<rparr>
                 (reservations st)\<rparr>))"

fun stage_operation ::
    "timestamp_state \<Rightarrow> timestamp_operation
      \<Rightarrow> (txn_error, transaction_time \<times> timestamp_command option \<times> timestamp_state) result" where
  "stage_operation st (OpAllocateStart tx) =
     (case map_of (start_times st) tx of
        Some t \<Rightarrow> Inr (t, None, st)
      | None \<Rightarrow>
          try_r (next_start_time st) (\<lambda>t.
          try_r (apply_command st (CmdAllocateStart tx t)) (\<lambda>st'.
            Inr (t, Some (CmdAllocateStart tx t), st'))))"
| "stage_operation st (OpReserveCommit tx) =
     (case map_of (reservations st) tx of
        Some r \<Rightarrow> Inr (rsv_commit_time r, None, st)
      | None \<Rightarrow>
          try_r (next_timestamp st) (\<lambda>t.
          try_r (apply_command st (CmdReserveCommit tx t)) (\<lambda>st'.
            Inr (t, Some (CmdReserveCommit tx t), st'))))"
| "stage_operation st (OpResolveCommit tx t res) =
     try_r (ok_or (map_of (reservations st) tx) CorruptRecovery) (\<lambda>r.
       if rsv_commit_time r \<noteq> t then Inl CorruptRecovery
       else case rsv_resolution r of
         Some existing \<Rightarrow> if existing = res then Inr (t, None, st) else Inl CorruptRecovery
       | None \<Rightarrow>
           try_r (apply_command st (CmdResolveCommit tx t res)) (\<lambda>st'.
             Inr (t, Some (CmdResolveCommit tx t res), st')))"

section \<open>The command format\<close>

abbreviation command_magic :: "byte list" where
  "command_magic \<equiv> str_bytes ''DTGT''"

fun command_tags :: "timestamp_command \<Rightarrow> byte \<times> byte" where
  "command_tags (CmdAllocateStart _ _) = (1, 0)"
| "command_tags (CmdReserveCommit _ _) = (2, 0)"
| "command_tags (CmdResolveCommit _ _ res) = (3, case res of ResCommitted \<Rightarrow> 1 | ResAborted \<Rightarrow> 2)"

definition command_prefix :: "timestamp_command \<Rightarrow> byte list" where
  "command_prefix c =
     command_magic @ u16_be 1 @ [fst (command_tags c)] @ u128_be (ident128_get (cmd_tx c)) @
     i64_be (cmd_time c) @ [snd (command_tags c)]"

definition encode_command :: "(byte list \<Rightarrow> digest32) \<Rightarrow> timestamp_command \<Rightarrow> byte list" where
  "encode_command blake3 c =
     command_prefix c @ b32_be (blake3 (str_bytes ''dtg-timestamp-command-v1'' @ command_prefix c))"

definition decode_command ::
    "(byte list \<Rightarrow> digest32) \<Rightarrow> byte list \<Rightarrow> (txn_error, timestamp_command) result" where
  "decode_command blake3 bytes =
     (if length bytes \<noteq> 64 \<or> take 4 bytes \<noteq> command_magic
         \<or> u16_from_be (take 2 (drop 4 bytes)) \<noteq> 1
      then Inl CorruptRecovery
      else if b32_be (blake3 (str_bytes ''dtg-timestamp-command-v1'' @ take 32 bytes)) \<noteq> drop 32 bytes
      then Inl CorruptRecovery
      else
        try_r (map_err (\<lambda>_. CorruptRecovery)
          (ident128_new (u128_from_be (take 16 (drop 7 bytes))))) (\<lambda>tx.
        try_r (map_err (\<lambda>_. CorruptRecovery)
          (transaction_time_new (i64_from_be (take 8 (drop 23 bytes))))) (\<lambda>t.
        if (bytes ! 6, bytes ! 31) = (1, 0) then Inr (CmdAllocateStart tx t)
        else if (bytes ! 6, bytes ! 31) = (2, 0) then Inr (CmdReserveCommit tx t)
        else if (bytes ! 6, bytes ! 31) = (3, 1) then Inr (CmdResolveCommit tx t ResCommitted)
        else if (bytes ! 6, bytes ! 31) = (3, 2) then Inr (CmdResolveCommit tx t ResAborted)
        else Inl CorruptRecovery)))"

section \<open>The durable authority\<close>

record 'w timestamp_log =
  tl_replay :: "('w, txn_error, byte list list) eff"
  tl_append_batch :: "byte list list \<Rightarrow> ('w, txn_error, unit) eff"

definition replay_commands ::
    "(byte list \<Rightarrow> digest32) \<Rightarrow> timestamp_state \<Rightarrow> byte list list \<Rightarrow> (txn_error, timestamp_state) result" where
  "replay_commands blake3 st bss =
     try_fold (\<lambda>st bytes. try_r (decode_command blake3 bytes) (apply_command st)) st bss"

definition authority_open ::
    "(byte list \<Rightarrow> digest32) \<Rightarrow> 'w timestamp_log \<Rightarrow> ('w, txn_error, timestamp_state) eff" where
  "authority_open blake3 log =
     eff_bind (tl_replay log) (\<lambda>bss. eff_of (replay_commands blake3 timestamp_state_default bss))"

text \<open>The accumulators of the loop of \<open>apply_batch\<close>: staged state, encoded commands, results,
  and the positions of the results that depend on the append.\<close>

type_synonym batch_acc =
  "timestamp_state \<times> byte list list \<times> (txn_error, transaction_time) result list \<times> nat list"

definition stage_one ::
    "(byte list \<Rightarrow> digest32) \<Rightarrow> batch_acc \<Rightarrow> timestamp_operation \<Rightarrow> batch_acc" where
  "stage_one blake3 acc op = (case acc of (staged, commands, results, persisted) \<Rightarrow>
     (case stage_operation staged op of
        Inr (t, Some c, st') \<Rightarrow>
          (st', commands @ [encode_command blake3 c], results @ [Inr t], persisted @ [length results])
      | Inr (t, None, st') \<Rightarrow> (st', commands, results @ [Inr t], persisted)
      | Inl e \<Rightarrow> (staged, commands, results @ [Inl e], persisted)))"

definition fail_persisted :: "'e \<Rightarrow> ('e, 'a) result list \<Rightarrow> nat list \<Rightarrow> ('e, 'a) result list" where
  "fail_persisted e results persisted = foldl (\<lambda>rs i. rs[i := Inl e]) results persisted"

definition apply_batch ::
    "(byte list \<Rightarrow> digest32) \<Rightarrow> 'w timestamp_log \<Rightarrow> timestamp_operation list \<Rightarrow> timestamp_state \<times> 'w
      \<Rightarrow> (txn_error, transaction_time) result list \<times> timestamp_state \<times> 'w" where
  "apply_batch blake3 log ops sw = (case sw of (st, w) \<Rightarrow>
     (case foldl (stage_one blake3) (st, [], [], []) ops of (staged, commands, results, persisted) \<Rightarrow>
        if commands \<noteq> [] then
          (case tl_append_batch log commands w of
             (Inl e, w') \<Rightarrow> (fail_persisted e results persisted, st, w')
           | (Inr _, w') \<Rightarrow> (results, staged, w'))
        else (results, st, w)))"

text \<open>The methods of \<open>TimestampAuthority\<close>: one-operation batches, and a read of the map.\<close>

definition allocate_start_time ::
    "(byte list \<Rightarrow> digest32) \<Rightarrow> 'w timestamp_log \<Rightarrow> transaction_id
      \<Rightarrow> (timestamp_state \<times> 'w, txn_error, transaction_time) eff" where
  "allocate_start_time blake3 log tx sw =
     (case apply_batch blake3 log [OpAllocateStart tx] sw of (rs, sw') \<Rightarrow> (hd rs, sw'))"

definition reserve_commit_time ::
    "(byte list \<Rightarrow> digest32) \<Rightarrow> 'w timestamp_log \<Rightarrow> transaction_id
      \<Rightarrow> (timestamp_state \<times> 'w, txn_error, transaction_time) eff" where
  "reserve_commit_time blake3 log tx sw =
     (case apply_batch blake3 log [OpReserveCommit tx] sw of (rs, sw') \<Rightarrow> (hd rs, sw'))"

definition commit_time_reservation_of ::
    "transaction_id \<Rightarrow> (timestamp_state \<times> 'w, txn_error, commit_time_reservation option) eff" where
  "commit_time_reservation_of tx sw = (Inr (map_of (reservations (fst sw)) tx), sw)"

definition resolve_commit_time ::
    "(byte list \<Rightarrow> digest32) \<Rightarrow> 'w timestamp_log \<Rightarrow> transaction_id \<Rightarrow> transaction_time
      \<Rightarrow> commit_resolution \<Rightarrow> (timestamp_state \<times> 'w, txn_error, unit) eff" where
  "resolve_commit_time blake3 log tx t res sw =
     (case apply_batch blake3 log [OpResolveCommit tx t res] sw of
        (rs, sw') \<Rightarrow> (try_r (hd rs) (\<lambda>_. Inr ()), sw'))"

end
