(* ===== verification/Timestamp_Safety.thy ===== *)
theory Timestamp_Safety
  imports Timestamp
begin

text \<open>
  What the timestamp authority promises to snapshot reads: an invariant of every reachable state,
  the exact value of the published frontier, and that the transactions visible at an allocated
  start time are settled and stay the same for ever after.
\<close>

section \<open>The frontier loop\<close>

lemma resolved_at_frontier [simp]: "resolved_at (st\<lparr>published_frontier := f\<rparr>) t = resolved_at st t"
  by (simp add: resolved_at_def)

lemma resolved_at_iff:
  "bm_ok (reservations st) \<Longrightarrow> resolved_at st t \<longleftrightarrow>
     (\<exists>i r. map_of (reservations st) i = Some r \<and> rsv_commit_time r = t \<and> rsv_resolution r \<noteq> None)"
  by (simp add: resolved_at_def bm_list_ex)

definition frontier_advanced :: "timestamp_state \<Rightarrow> int \<Rightarrow> bool" where
  "frontier_advanced st f \<longleftrightarrow>
     published_frontier st \<le> f \<and> f \<le> last_issued st \<and>
     (\<forall>t. published_frontier st < t \<and> t \<le> f \<longrightarrow> resolved_at st t) \<and>
     (f < last_issued st \<longrightarrow> \<not> resolved_at st (f + 1))"

lemma advance_spec:
  assumes "advance_published_frontier st = Inr st'" and "published_frontier st \<le> last_issued st"
  shows "\<exists>f. st' = st\<lparr>published_frontier := f\<rparr> \<and> frontier_advanced st f"
  using assms
proof (induction st rule: advance_published_frontier.induct)
  case (1 st)
  let ?f = "published_frontier st"
  show ?case
  proof (cases "?f < last_issued st \<and> resolved_at st (?f + 1)")
    case True
    with "1.prems"(1) have max: "?f < i64_max"
      and rec: "advance_published_frontier (st\<lparr>published_frontier := ?f + 1\<rparr>) = Inr st'"
      by (simp_all add: advance_published_frontier.simps [of st] i64_succ_def split: if_splits)
    with "1.IH" [of "?f + 1"] True obtain g where st': "st' = st\<lparr>published_frontier := g\<rparr>"
      and g: "frontier_advanced (st\<lparr>published_frontier := ?f + 1\<rparr>) g"
      by (auto simp: i64_succ_def)
    have "resolved_at st t" if "?f < t" "t \<le> g" for t
      using g that True by (cases "t = ?f + 1") (auto simp: frontier_advanced_def)
    with st' g show ?thesis by (auto simp: frontier_advanced_def)
  next
    case False
    with "1.prems" have "st' = st"
      by (auto simp: advance_published_frontier.simps [of st] i64_succ_def split: if_splits)
    with "1.prems"(2) False show ?thesis
      by (intro exI [of _ ?f]) (auto simp: frontier_advanced_def)
  qed
qed

lemma advance_total:
  "last_issued st \<le> i64_max \<Longrightarrow> \<exists>st'. advance_published_frontier st = Inr st'"
proof (induction st rule: advance_published_frontier.induct)
  case (1 st)
  then show ?case
    by (subst advance_published_frontier.simps) (auto simp: i64_succ_def)
qed

section \<open>The invariant\<close>

text \<open>
  Times at or below the frontier are settled, every time above it is reserved, and the first time
  above it is still pending.
\<close>

definition ts_order :: "timestamp_state \<Rightarrow> bool" where
  "ts_order st \<longleftrightarrow> bm_ok (start_times st) \<and> bm_ok (reservations st) \<and>
     0 \<le> published_frontier st \<and> published_frontier st \<le> last_issued st \<and> last_issued st \<le> i64_max"

definition ts_settled :: "timestamp_state \<Rightarrow> bool" where
  "ts_settled st \<longleftrightarrow> (\<forall>i r. map_of (reservations st) i = Some r \<longrightarrow>
     0 < rsv_commit_time r \<and> rsv_commit_time r \<le> last_issued st \<and>
     (rsv_commit_time r \<le> published_frontier st \<longrightarrow> rsv_resolution r \<noteq> None) \<and>
     (rsv_commit_time r = published_frontier st + 1 \<longrightarrow> rsv_resolution r = None))"

definition ts_unique :: "timestamp_state \<Rightarrow> bool" where
  "ts_unique st \<longleftrightarrow> (\<forall>i j r s. map_of (reservations st) i = Some r \<longrightarrow>
     map_of (reservations st) j = Some s \<longrightarrow> rsv_commit_time r = rsv_commit_time s \<longrightarrow> i = j)"

definition ts_covered :: "timestamp_state \<Rightarrow> bool" where
  "ts_covered st \<longleftrightarrow> (\<forall>t. published_frontier st < t \<longrightarrow> t \<le> last_issued st \<longrightarrow>
     (\<exists>i r. map_of (reservations st) i = Some r \<and> rsv_commit_time r = t))"

definition ts_starts :: "timestamp_state \<Rightarrow> bool" where
  "ts_starts st \<longleftrightarrow> (\<forall>i t. map_of (start_times st) i = Some t \<longrightarrow>
     0 \<le> t \<and> t \<le> published_frontier st)"

definition ts_inv :: "timestamp_state \<Rightarrow> bool" where
  "ts_inv st \<longleftrightarrow> ts_order st \<and> ts_settled st \<and> ts_unique st \<and> ts_covered st \<and> ts_starts st"

lemma ts_inv_default: "ts_inv timestamp_state_default"
  by (simp add: ts_inv_def ts_order_def ts_settled_def ts_unique_def ts_covered_def ts_starts_def
      timestamp_state_default_def i64_max_def)

lemma ts_orderD:
  assumes "ts_inv st"
  shows "bm_ok (start_times st)" "bm_ok (reservations st)" "0 \<le> published_frontier st"
    "published_frontier st \<le> last_issued st" "last_issued st \<le> i64_max"
  using assms by (simp_all add: ts_inv_def ts_order_def)

lemma ts_settledD:
  assumes "ts_inv st" and "map_of (reservations st) i = Some r"
  shows "0 < rsv_commit_time r" "rsv_commit_time r \<le> last_issued st"
    "rsv_commit_time r \<le> published_frontier st \<Longrightarrow> rsv_resolution r \<noteq> None"
    "rsv_commit_time r = published_frontier st + 1 \<Longrightarrow> rsv_resolution r = None"
  using assms by (simp_all add: ts_inv_def ts_settled_def)

lemma ts_uniqueD:
  "ts_inv st \<Longrightarrow> map_of (reservations st) i = Some r \<Longrightarrow> map_of (reservations st) j = Some s \<Longrightarrow>
     rsv_commit_time r = rsv_commit_time s \<Longrightarrow> i = j"
  unfolding ts_inv_def ts_unique_def by metis

lemma ts_coveredD:
  "ts_inv st \<Longrightarrow> published_frontier st < t \<Longrightarrow> t \<le> last_issued st \<Longrightarrow>
     \<exists>i r. map_of (reservations st) i = Some r \<and> rsv_commit_time r = t"
  by (simp add: ts_inv_def ts_covered_def)

lemma ts_startsD:
  "ts_inv st \<Longrightarrow> map_of (start_times st) i = Some t \<Longrightarrow> 0 \<le> t \<and> t \<le> published_frontier st"
  by (simp add: ts_inv_def ts_starts_def)

lemma apply_allocate_cases:
  assumes "apply_command st (CmdAllocateStart tx t) = Inr st'"
  obtains "map_of (start_times st) tx = Some t" "st' = st"
  | "map_of (start_times st) tx = None" "t = last_issued st + 1" "last_issued st < i64_max"
    "published_frontier st = last_issued st"
    "st' = st\<lparr>last_issued := t, published_frontier := t, start_times := bm_insert tx t (start_times st)\<rparr>"
  | "map_of (start_times st) tx = None" "t = published_frontier st" "t \<noteq> last_issued st + 1"
    "st' = st\<lparr>start_times := bm_insert tx t (start_times st)\<rparr>"
  using assms
  by (auto simp: result_simps apply_new_timestamp_def i64_succ_def split: option.splits if_splits)

lemma apply_reserve_cases:
  assumes "apply_command st (CmdReserveCommit tx t) = Inr st'"
  obtains r where "map_of (reservations st) tx = Some r" "rsv_commit_time r = t" "st' = st"
  | "map_of (reservations st) tx = None" "t = last_issued st + 1" "last_issued st < i64_max"
    "st' = st\<lparr>last_issued := t,
       reservations := bm_insert tx \<lparr>rsv_commit_time = t, rsv_resolution = None\<rparr> (reservations st)\<rparr>"
  using assms
  by (auto simp: result_simps apply_new_timestamp_def i64_succ_def split: option.splits if_splits)

abbreviation resolve_in :: "transaction_id \<Rightarrow> transaction_time \<Rightarrow> commit_resolution \<Rightarrow> timestamp_state
    \<Rightarrow> timestamp_state" where
  "resolve_in tx t res st \<equiv> st\<lparr>reservations :=
     bm_insert tx \<lparr>rsv_commit_time = t, rsv_resolution = Some res\<rparr> (reservations st)\<rparr>"

lemma apply_resolve_cases:
  assumes "apply_command st (CmdResolveCommit tx t res) = Inr st'"
  obtains r where "map_of (reservations st) tx = Some r" "rsv_commit_time r = t"
    "rsv_resolution r = Some res" "st' = st"
  | r where "map_of (reservations st) tx = Some r" "rsv_commit_time r = t" "rsv_resolution r = None"
    "advance_published_frontier (resolve_in tx t res st) = Inr st'"
  using assms
  by (auto simp: result_simps split: option.splits if_splits)

lemma apply_allocate_inv:
  assumes inv: "ts_inv st" and ap: "apply_command st (CmdAllocateStart tx t) = Inr st'"
  shows "ts_inv st'"
  using ap
proof (cases rule: apply_allocate_cases)
  case 1
  then show ?thesis using inv by simp
next
  case 2
  have "ts_settled st'"
    unfolding ts_settled_def
  proof (intro allI impI)
    fix i r
    assume "map_of (reservations st') i = Some r"
    with 2 ts_settledD [OF inv, of i r]
    show "0 < rsv_commit_time r \<and> rsv_commit_time r \<le> last_issued st' \<and>
        (rsv_commit_time r \<le> published_frontier st' \<longrightarrow> rsv_resolution r \<noteq> None) \<and>
        (rsv_commit_time r = published_frontier st' + 1 \<longrightarrow> rsv_resolution r = None)"
      by auto
  qed
  moreover have "ts_starts st'"
    using 2 ts_startsD [OF inv] ts_orderD(3) [OF inv] by (force simp: ts_starts_def)
  ultimately show ?thesis
    using 2 inv by (simp add: ts_inv_def ts_order_def ts_unique_def ts_covered_def)
next
  case 3
  have "ts_starts st'"
    using 3 ts_startsD [OF inv] ts_orderD(3) [OF inv] by (auto simp: ts_starts_def)
  with 3 inv show ?thesis
    by (simp add: ts_inv_def ts_order_def ts_unique_def ts_covered_def ts_settled_def)
qed

lemma apply_reserve_inv:
  assumes inv: "ts_inv st" and ap: "apply_command st (CmdReserveCommit tx t) = Inr st'"
  shows "ts_inv st'"
  using ap
proof (cases rule: apply_reserve_cases)
  case 1
  then show ?thesis using inv by simp
next
  case 2
  have "ts_covered st'"
    unfolding ts_covered_def
  proof (intro allI impI)
    fix u
    assume u: "published_frontier st' < u" "u \<le> last_issued st'"
    show "\<exists>i r. map_of (reservations st') i = Some r \<and> rsv_commit_time r = u"
    proof (cases "u = t")
      case True
      with 2 show ?thesis by (intro exI [of _ tx]) simp
    next
      case False
      with 2 u ts_coveredD [OF inv, of u] obtain i r
        where "map_of (reservations st) i = Some r" "rsv_commit_time r = u" by auto
      with 2 show ?thesis by (intro exI [of _ i] exI [of _ r]) auto
    qed
  qed
  moreover have "ts_unique st'"
    unfolding ts_unique_def
  proof (intro allI impI)
    fix i j r s
    assume *: "map_of (reservations st') i = Some r" "map_of (reservations st') j = Some s"
      "rsv_commit_time r = rsv_commit_time s"
    show "i = j"
    proof (cases "i = tx \<or> j = tx")
      case True
      with * 2 ts_settledD(2) [OF inv, of i r] ts_settledD(2) [OF inv, of j s] show ?thesis
        by (auto split: if_splits)
    next
      case False
      with * 2 ts_uniqueD [OF inv, of i r j s] show ?thesis by simp
    qed
  qed
  moreover have "ts_settled st'"
    unfolding ts_settled_def
  proof (intro allI impI)
    fix i r
    assume "map_of (reservations st') i = Some r"
    with 2 ts_settledD [OF inv, of i r] ts_orderD(3,4) [OF inv]
    show "0 < rsv_commit_time r \<and> rsv_commit_time r \<le> last_issued st' \<and>
        (rsv_commit_time r \<le> published_frontier st' \<longrightarrow> rsv_resolution r \<noteq> None) \<and>
        (rsv_commit_time r = published_frontier st' + 1 \<longrightarrow> rsv_resolution r = None)"
      by (cases "i = tx") auto
  qed
  ultimately show ?thesis
    using inv 2 by (simp add: ts_inv_def ts_order_def ts_starts_def)
qed

lemma resolve_in_unique:
  assumes inv: "ts_inv st" and r: "map_of (reservations st) tx = Some r"
    and a: "map_of (reservations (resolve_in tx (rsv_commit_time r) res st)) i = Some a"
    and b: "map_of (reservations (resolve_in tx (rsv_commit_time r) res st)) j = Some b"
    and eq: "rsv_commit_time a = rsv_commit_time b"
  shows "i = j"
proof -
  have old: "\<exists>c. map_of (reservations st) k = Some c \<and> rsv_commit_time c = rsv_commit_time d"
    if "map_of (reservations (resolve_in tx (rsv_commit_time r) res st)) k = Some d" for k d
    using that r by (cases "k = tx") auto
  from old [OF a] old [OF b] eq show ?thesis using ts_uniqueD [OF inv] by metis
qed

lemma resolve_in_settled:
  assumes inv: "ts_inv st" and r: "map_of (reservations st) tx = Some r"
    and f: "frontier_advanced (resolve_in tx (rsv_commit_time r) res st) f"
    and a: "map_of (reservations (resolve_in tx (rsv_commit_time r) res st)) i = Some a"
  shows "0 < rsv_commit_time a" "rsv_commit_time a \<le> last_issued st"
    "rsv_commit_time a \<le> f \<Longrightarrow> rsv_resolution a \<noteq> None"
    "rsv_commit_time a = f + 1 \<Longrightarrow> rsv_resolution a = None"
proof -
  let ?st = "resolve_in tx (rsv_commit_time r) res st"
  have ok: "bm_ok (reservations ?st)" using ts_orderD(2) [OF inv] by simp
  have rng: "0 < rsv_commit_time a \<and> rsv_commit_time a \<le> last_issued st"
    using a ts_settledD(1,2) [OF inv r] ts_settledD(1,2) [OF inv, of i a] by (cases "i = tx") auto
  then show "0 < rsv_commit_time a" "rsv_commit_time a \<le> last_issued st" by auto
  have same: "i = j" if "map_of (reservations ?st) j = Some b" "rsv_commit_time b = rsv_commit_time a" for j b
    using resolve_in_unique [OF inv r a that(1)] that(2) by simp
  show "rsv_resolution a \<noteq> None" if le: "rsv_commit_time a \<le> f"
  proof (cases "rsv_commit_time a \<le> published_frontier st")
    case True
    then show ?thesis using a ts_settledD(3) [OF inv, of i a] by (cases "i = tx") auto
  next
    case False
    with f le have "resolved_at ?st (rsv_commit_time a)" by (simp add: frontier_advanced_def)
    then obtain j b where "map_of (reservations ?st) j = Some b" "rsv_commit_time b = rsv_commit_time a"
      "rsv_resolution b \<noteq> None" using resolved_at_iff [OF ok] by blast
    with same [of j b] a show ?thesis by (metis option.inject)
  qed
  show "rsv_resolution a = None" if eq: "rsv_commit_time a = f + 1"
  proof -
    from eq rng f have "\<not> resolved_at ?st (f + 1)" by (simp add: frontier_advanced_def)
    with a eq show ?thesis using resolved_at_iff [OF ok] by blast
  qed
qed

lemma resolve_in_covered:
  assumes inv: "ts_inv st" and r: "map_of (reservations st) tx = Some r"
    and "published_frontier st < u" "u \<le> last_issued st"
  shows "\<exists>i a. map_of (reservations (resolve_in tx (rsv_commit_time r) res st)) i = Some a \<and>
     rsv_commit_time a = u"
proof -
  from ts_coveredD [OF inv assms(3,4)] obtain i a
    where "map_of (reservations st) i = Some a" "rsv_commit_time a = u" by blast
  with r show ?thesis by (cases "i = tx") auto
qed

lemma apply_resolve_inv:
  assumes inv: "ts_inv st" and ap: "apply_command st (CmdResolveCommit tx t res) = Inr st'"
  shows "ts_inv st'"
  using ap
proof (cases rule: apply_resolve_cases)
  case 1
  then show ?thesis using inv by simp
next
  case (2 r)
  let ?st = "resolve_in tx (rsv_commit_time r) res st"
  from advance_spec [OF 2(4)] ts_orderD(4) [OF inv] 2(2) obtain f
    where st': "st' = ?st\<lparr>published_frontier := f\<rparr>" and f: "frontier_advanced ?st f" by auto
  note r = 2(1)
  have "ts_settled st'"
    using resolve_in_settled [OF inv r f] st' by (simp add: ts_settled_def del: map_of_bm_insert)
  moreover have "ts_unique st'"
    using resolve_in_unique [OF inv r] st' by (simp add: ts_unique_def del: map_of_bm_insert)
  moreover have "ts_covered st'"
    using resolve_in_covered [OF inv r] f st'
    by (simp add: ts_covered_def frontier_advanced_def del: map_of_bm_insert)
  moreover have "ts_starts st'"
    using ts_startsD [OF inv] f st' by (fastforce simp: ts_starts_def frontier_advanced_def)
  moreover have "ts_order st'"
    using ts_orderD [OF inv] f st' by (simp add: ts_order_def frontier_advanced_def)
  ultimately show ?thesis by (simp add: ts_inv_def)
qed

lemma apply_command_inv: "ts_inv st \<Longrightarrow> apply_command st c = Inr st' \<Longrightarrow> ts_inv st'"
  using apply_allocate_inv apply_reserve_inv apply_resolve_inv by (cases c) metis+

section \<open>Operations and runs\<close>

lemma stage_operation_command:
  "stage_operation st op = Inr (t, Some c, st') \<Longrightarrow> apply_command st c = Inr st'"
  by (cases op)
    (auto simp: result_simps simp del: apply_command.simps split: option.splits if_splits)

lemma stage_operation_no_command: "stage_operation st op = Inr (t, None, st') \<Longrightarrow> st' = st"
  by (cases op)
    (auto simp: result_simps simp del: apply_command.simps split: option.splits if_splits)

text \<open>A run applies operations in order; one that is refused leaves the state as it is.\<close>

definition ts_step :: "timestamp_state \<Rightarrow> timestamp_operation \<Rightarrow> timestamp_state" where
  "ts_step st op = (case stage_operation st op of Inl _ \<Rightarrow> st | Inr (_, _, st') \<Rightarrow> st')"

definition ts_run :: "timestamp_state \<Rightarrow> timestamp_operation list \<Rightarrow> timestamp_state" where
  "ts_run st ops = foldl ts_step st ops"

abbreviation ts_reached :: "timestamp_operation list \<Rightarrow> timestamp_state" where
  "ts_reached ops \<equiv> ts_run timestamp_state_default ops"

lemma ts_run_simps [simp]: "ts_run st [] = st" "ts_run st (op # ops) = ts_run (ts_step st op) ops"
  by (simp_all add: ts_run_def)

lemma ts_step_cases:
  obtains "ts_step st op = st"
  | c where "apply_command st c = Inr (ts_step st op)"
proof (cases "stage_operation st op")
  case (Inr p)
  obtain t c st' where p: "p = (t, c, st')" by (cases p)
  with Inr that show ?thesis
    by (cases c) (auto simp: ts_step_def dest: stage_operation_no_command stage_operation_command)
qed (use that in \<open>simp add: ts_step_def\<close>)

lemma ts_run_preserves:
  assumes "\<And>st c st'. P st \<Longrightarrow> apply_command st c = Inr st' \<Longrightarrow> P st'" and "P st"
  shows "P (ts_run st ops)"
  using assms(2)
proof (induction ops arbitrary: st)
  case (Cons op ops)
  have "P (ts_step st op)" by (rule ts_step_cases [of st op]) (use Cons.prems assms(1) in auto)
  with Cons.IH show ?case by simp
qed simp

lemma ts_run_inv: "ts_inv st \<Longrightarrow> ts_inv (ts_run st ops)"
  using ts_run_preserves [of ts_inv] apply_command_inv by blast

lemma ts_reached_inv: "ts_inv (ts_reached ops)"
  by (rule ts_run_inv [OF ts_inv_default])

lemma stage_operation_inv: "ts_inv st \<Longrightarrow> stage_operation st op = Inr (t, c, st') \<Longrightarrow> ts_inv st'"
  by (cases c) (auto dest: stage_operation_no_command stage_operation_command apply_command_inv)

section \<open>What later states keep\<close>

text \<open>\<open>ts_later st st'\<close>: issued times only grow, allocated start times and settled reservations
  are kept, and new reservations lie above everything issued before.\<close>

definition ts_later :: "timestamp_state \<Rightarrow> timestamp_state \<Rightarrow> bool" where
  "ts_later st st' \<longleftrightarrow>
     last_issued st \<le> last_issued st' \<and> published_frontier st \<le> published_frontier st' \<and>
     map_of (start_times st) \<subseteq>\<^sub>m map_of (start_times st') \<and>
     (\<forall>i r. map_of (reservations st) i = Some r \<longrightarrow>
        (\<exists>r'. map_of (reservations st') i = Some r' \<and> rsv_commit_time r' = rsv_commit_time r \<and>
           (rsv_resolution r \<noteq> None \<longrightarrow> r' = r))) \<and>
     (\<forall>i r. map_of (reservations st) i = None \<longrightarrow> map_of (reservations st') i = Some r \<longrightarrow>
        last_issued st < rsv_commit_time r)"

lemma ts_later_refl: "ts_later st st"
  by (simp add: ts_later_def)

lemma ts_later_keeps:
  "ts_later st st' \<Longrightarrow> map_of (reservations st) i = Some r \<Longrightarrow>
     \<exists>r'. map_of (reservations st') i = Some r' \<and> rsv_commit_time r' = rsv_commit_time r \<and>
       (rsv_resolution r \<noteq> None \<longrightarrow> r' = r)"
  by (simp add: ts_later_def)

lemma ts_later_new:
  "ts_later st st' \<Longrightarrow> map_of (reservations st) i = None \<Longrightarrow> map_of (reservations st') i = Some r \<Longrightarrow>
     last_issued st < rsv_commit_time r"
  by (simp add: ts_later_def)

lemma ts_later_trans:
  assumes ab: "ts_later a b" and bc: "ts_later b c"
  shows "ts_later a c"
proof -
  have "\<exists>r'. map_of (reservations c) i = Some r' \<and> rsv_commit_time r' = rsv_commit_time r \<and>
      (rsv_resolution r \<noteq> None \<longrightarrow> r' = r)" if "map_of (reservations a) i = Some r" for i r
    using ts_later_keeps [OF ab that] ts_later_keeps [OF bc] by metis
  moreover have "last_issued a < rsv_commit_time r"
    if "map_of (reservations a) i = None" "map_of (reservations c) i = Some r" for i r
  proof (cases "map_of (reservations b) i")
    case None
    have "last_issued a \<le> last_issued b" using ab by (simp add: ts_later_def)
    with ts_later_new [OF bc None that(2)] show ?thesis by simp
  next
    case (Some r')
    with ts_later_new [OF ab that(1)] ts_later_keeps [OF bc Some] that(2) show ?thesis by auto
  qed
  moreover have "last_issued a \<le> last_issued c" "published_frontier a \<le> published_frontier c"
    using ab bc by (simp_all add: ts_later_def)
  moreover have "map_of (start_times a) \<subseteq>\<^sub>m map_of (start_times c)"
    using ab bc map_le_trans unfolding ts_later_def by blast
  ultimately show ?thesis by (simp add: ts_later_def)
qed

lemma apply_command_later:
  assumes inv: "ts_inv st" and ap: "apply_command st c = Inr st'"
  shows "ts_later st st'"
proof (cases c)
  case (CmdAllocateStart tx t)
  from ap [unfolded CmdAllocateStart] show ?thesis
    by (cases rule: apply_allocate_cases)
      (use ts_orderD [OF inv] in \<open>auto simp: ts_later_def map_le_def dom_def\<close>)
next
  case (CmdReserveCommit tx t)
  from ap [unfolded CmdReserveCommit] show ?thesis
    by (cases rule: apply_reserve_cases) (auto simp: ts_later_def split: if_splits)
next
  case (CmdResolveCommit tx t res)
  from ap [unfolded CmdResolveCommit] show ?thesis
  proof (cases rule: apply_resolve_cases)
    case 1
    then show ?thesis by (simp add: ts_later_refl)
  next
    case (2 r)
    from advance_spec [OF 2(4)] ts_orderD(4) [OF inv] obtain f
      where "st' = resolve_in tx t res st\<lparr>published_frontier := f\<rparr>" "published_frontier st \<le> f"
      by (auto simp: frontier_advanced_def)
    with 2 show ?thesis by (auto simp: ts_later_def split: if_splits)
  qed
qed

lemma ts_run_later: "ts_inv st \<Longrightarrow> ts_later st (ts_run st ops)"
  using ts_run_preserves [of "\<lambda>st'. ts_inv st' \<and> ts_later st st'" st ops]
    apply_command_inv apply_command_later ts_later_trans ts_later_refl
  by blast

section \<open>Visible reservations\<close>

definition visible_at :: "transaction_time \<Rightarrow> timestamp_state \<Rightarrow> (transaction_id, commit_time_reservation) bmap" where
  "visible_at t st = filter (\<lambda>p. rsv_commit_time (snd p) \<le> t) (reservations st)"

lemma bm_ok_filter: "bm_ok m \<Longrightarrow> bm_ok (filter P m)"
  by (induction m) auto

lemma visible_at_iff:
  "bm_ok (reservations st) \<Longrightarrow> map_of (visible_at t st) i = Some r \<longleftrightarrow>
     map_of (reservations st) i = Some r \<and> rsv_commit_time r \<le> t"
  using bm_ok_map_of [of "visible_at t st" i r] bm_ok_filter [of "reservations st"]
  by (simp add: visible_at_def)

lemma visible_at_stable:
  assumes inv: "ts_inv st" and inv': "ts_inv st'" and later: "ts_later st st'"
    and t: "t \<le> published_frontier st"
  shows "visible_at t st' = visible_at t st"
proof (rule bm_ext)
  note ok = ts_orderD(2) [OF inv] ts_orderD(2) [OF inv']
  show "bm_ok (visible_at t st')" "bm_ok (visible_at t st)"
    using ok by (simp_all add: visible_at_def bm_ok_filter)
  fix i
  have "map_of (visible_at t st') i = Some r \<longleftrightarrow> map_of (visible_at t st) i = Some r" for r
  proof
    assume "map_of (visible_at t st') i = Some r"
    with ok have r: "map_of (reservations st') i = Some r" "rsv_commit_time r \<le> t"
      by (simp_all add: visible_at_iff)
    from t ts_orderD(4) [OF inv] r(2) have "rsv_commit_time r \<le> last_issued st" by simp
    with ts_later_new [OF later _ r(1)] obtain s where s: "map_of (reservations st) i = Some s"
      by fastforce
    from ts_later_keeps [OF later s] r t ts_settledD(3) [OF inv s] have "r = s" by auto
    with s r ok show "map_of (visible_at t st) i = Some r" by (simp add: visible_at_iff)
  next
    assume "map_of (visible_at t st) i = Some r"
    with ok have r: "map_of (reservations st) i = Some r" "rsv_commit_time r \<le> t"
      by (simp_all add: visible_at_iff)
    with ts_later_keeps [OF later r(1)] ts_settledD(3) [OF inv r(1)] t ok
    show "map_of (visible_at t st') i = Some r" by (auto simp: visible_at_iff)
  qed
  then show "map_of (visible_at t st') i = map_of (visible_at t st) i"
    by (metis option.exhaust)
qed

lemma visible_at_settled:
  assumes inv: "ts_inv st" and "t \<le> published_frontier st"
  shows "list_all (\<lambda>p. rsv_resolution (snd p) \<noteq> None) (visible_at t st)"
proof -
  have "rsv_resolution (snd p) \<noteq> None" if p: "p \<in> set (visible_at t st)" for p
  proof -
    obtain i r where ir: "p = (i, r)" by (cases p)
    with p ts_orderD(2) [OF inv] have "map_of (reservations st) i = Some r" "rsv_commit_time r \<le> t"
      by (simp_all add: visible_at_def)
    with ts_settledD(3) [OF inv] ir assms(2) show ?thesis by fastforce
  qed
  then show ?thesis by (simp add: list_all_iff)
qed

section \<open>Properties of the authority\<close>

definition pending_times :: "timestamp_state \<Rightarrow> transaction_time list" where
  "pending_times st =
     map (\<lambda>p. rsv_commit_time (snd p)) (filter (\<lambda>p. rsv_resolution (snd p) = None) (reservations st))"

lemma pending_times_iff:
  assumes "bm_ok (reservations st)"
  shows "t \<in> set (pending_times st) \<longleftrightarrow>
     (\<exists>i r. map_of (reservations st) i = Some r \<and> rsv_resolution r = None \<and> rsv_commit_time r = t)"
  using bm_ok_map_of [OF assms] by (force simp: pending_times_def)

lemma pending_times_above:
  assumes inv: "ts_inv st" and t: "t \<in> set (pending_times st)"
  shows "published_frontier st < t" "t \<le> last_issued st"
  using t pending_times_iff [OF ts_orderD(2) [OF inv]] ts_settledD(2,3) [OF inv] by force+

lemma pending_times_next:
  assumes inv: "ts_inv st" and lt: "published_frontier st < last_issued st"
  shows "published_frontier st + 1 \<in> set (pending_times st)"
proof -
  from ts_coveredD [OF inv, of "published_frontier st + 1"] lt obtain i r
    where "map_of (reservations st) i = Some r" "rsv_commit_time r = published_frontier st + 1" by auto
  with ts_settledD(4) [OF inv] pending_times_iff [OF ts_orderD(2) [OF inv]] show ?thesis by blast
qed

lemma frontier_inv_exact:
  assumes inv: "ts_inv st"
  shows "published_frontier st =
     (if pending_times st = [] then last_issued st else Min (set (pending_times st)) - 1)"
proof (cases "published_frontier st < last_issued st")
  case True
  note nxt = pending_times_next [OF inv True]
  have "Min (set (pending_times st)) = published_frontier st + 1"
    by (rule Min_eqI) (use nxt pending_times_above [OF inv] in \<open>auto simp: add1_zle_eq\<close>)
  with nxt show ?thesis by auto
next
  case False
  with ts_orderD(4) [OF inv] have eq: "published_frontier st = last_issued st" by simp
  have "pending_times st = []"
    using pending_times_above [OF inv] eq by (metis list.set_sel(1) not_less)
  with eq show ?thesis by simp
qed

lemma stage_allocate_recorded:
  "stage_operation st (OpAllocateStart tx) = Inr (t, c, st') \<Longrightarrow> map_of (start_times st') tx = Some t"
  by (auto simp: result_simps apply_new_timestamp_def split: option.splits if_splits)

text \<open>A run with one settled and one pending reservation, used by the witnesses.\<close>

definition ts_example_ops :: "timestamp_operation list" where
  "ts_example_ops =
     [OpReserveCommit (Ident128 1), OpReserveCommit (Ident128 2),
      OpResolveCommit (Ident128 1) 1 ResCommitted]"

definition ts_example :: timestamp_state where
  "ts_example =
     \<lparr>last_issued = 2, published_frontier = 1, start_times = [(Ident128 3, 1)],
      reservations =
        [(Ident128 1, \<lparr>rsv_commit_time = 1, rsv_resolution = Some ResCommitted\<rparr>),
         (Ident128 2, \<lparr>rsv_commit_time = 2, rsv_resolution = None\<rparr>)]\<rparr>"

lemma ts_example_start:
  "stage_operation (ts_reached ts_example_ops) (OpAllocateStart (Ident128 3)) =
     Inr (1, Some (CmdAllocateStart (Ident128 3) 1), ts_example)"
  by code_simp

text \<open>C9.  The published frontier of every reachable state is exactly the end of the settled
  prefix: the last issued time when no commit-time reservation is pending, and otherwise one less
  than the smallest pending commit time.\<close>

theorem frontier_exact:
  "published_frontier (ts_reached ops) =
     (if pending_times (ts_reached ops) = [] then last_issued (ts_reached ops)
      else Min (set (pending_times (ts_reached ops))) - 1)"
  by (rule frontier_inv_exact [OF ts_reached_inv])

text \<open>C3.  Snapshot stability: when a transaction is given the start time \<open>t\<close>, every
  reservation with a commit time up to \<open>t\<close> is already resolved, and whatever operations follow,
  the reservations with a commit time up to \<open>t\<close> and their resolutions stay exactly the same.\<close>

theorem start_time_snapshot_stable:
  assumes "stage_operation (ts_reached ops) (OpAllocateStart tx) = Inr (t, c, st)"
  shows "visible_at t (ts_run st later) = visible_at t st \<and>
     list_all (\<lambda>p. rsv_resolution (snd p) \<noteq> None) (visible_at t st)"
proof -
  have inv: "ts_inv st" by (rule stage_operation_inv [OF ts_reached_inv assms])
  have t: "t \<le> published_frontier st"
    using ts_startsD [OF inv] stage_allocate_recorded [OF assms] by blast
  show ?thesis
    using visible_at_stable [OF inv ts_run_inv [OF inv] ts_run_later [OF inv] t]
      visible_at_settled [OF inv t] by blast
qed

theorem start_time_snapshot_stable_witness:
  "visible_at 1 (ts_run ts_example [OpResolveCommit (Ident128 2) 2 ResAborted, OpReserveCommit (Ident128 4)]) =
     [(Ident128 1, \<lparr>rsv_commit_time = 1, rsv_resolution = Some ResCommitted\<rparr>)]"
  using start_time_snapshot_stable [OF ts_example_start, of
      "[OpResolveCommit (Ident128 2) 2 ResAborted, OpReserveCommit (Ident128 4)]"]
  by (simp add: visible_at_def ts_example_def)

text \<open>C14.  A newly reserved commit time is above every start time and every commit time handed
  out before, and no two transactions ever hold the same commit time.\<close>

theorem reserve_commit_fresh:
  assumes "stage_operation (ts_reached ops) (OpReserveCommit tx) = Inr (t, Some c, st)"
  shows "list_all (\<lambda>p. snd p < t) (start_times (ts_reached ops)) \<and>
     list_all (\<lambda>p. rsv_commit_time (snd p) < t) (reservations (ts_reached ops)) \<and>
     distinct (map (\<lambda>p. rsv_commit_time (snd p)) (reservations st))"
proof -
  let ?st = "ts_reached ops"
  note inv = ts_reached_inv [of ops]
  have inv': "ts_inv st" by (rule stage_operation_inv [OF inv assms])
  from assms have t: "t = last_issued ?st + 1"
    by (auto simp: result_simps next_timestamp_def i64_succ_def transaction_time_new_def
        split: option.splits if_splits)
  have "list_all (\<lambda>p. snd p < t) (start_times ?st)"
    using ts_orderD(1,4) [OF inv] ts_startsD [OF inv] t by (fastforce simp: bm_list_all)
  moreover have "list_all (\<lambda>p. rsv_commit_time (snd p) < t) (reservations ?st)"
    using ts_orderD(2) [OF inv] ts_settledD(2) [OF inv] t by (fastforce simp: bm_list_all)
  moreover have "distinct (map (\<lambda>p. rsv_commit_time (snd p)) (reservations st))"
  proof -
    have "inj_on (\<lambda>p. rsv_commit_time (snd p)) (set (reservations st))"
      by (rule inj_onI) (use ts_orderD(2) [OF inv'] ts_uniqueD [OF inv'] in fastforce)
    moreover have "distinct (reservations st)"
      using bm_ok_distinct [OF ts_orderD(2) [OF inv']] by (simp add: distinct_map)
    ultimately show ?thesis by (simp add: distinct_map)
  qed
  ultimately show ?thesis by blast
qed

theorem reserve_commit_fresh_witness:
  "list_all (\<lambda>p. rsv_commit_time (snd p) < 3) (reservations (ts_reached ts_example_ops))"
proof -
  have "stage_operation (ts_reached ts_example_ops) (OpReserveCommit (Ident128 9)) =
      Inr (3, Some (CmdReserveCommit (Ident128 9) 3),
        \<lparr>last_issued = 3, published_frontier = 1, start_times = [],
         reservations =
           [(Ident128 1, \<lparr>rsv_commit_time = 1, rsv_resolution = Some ResCommitted\<rparr>),
            (Ident128 2, \<lparr>rsv_commit_time = 2, rsv_resolution = None\<rparr>),
            (Ident128 9, \<lparr>rsv_commit_time = 3, rsv_resolution = None\<rparr>)]\<rparr>)"
    by code_simp
  from reserve_commit_fresh [OF this] show ?thesis by blast
qed

text \<open>C15.  Progress: while the last issued time is below the largest 64-bit time, every start
  time and every commit time that is asked for is granted; and a pending reservation can be
  resolved either way at any time.\<close>

theorem authority_progress:
  assumes "last_issued (ts_reached ops) < i64_max"
  shows "is_ok (stage_operation (ts_reached ops) (OpAllocateStart tx)) \<and>
     is_ok (stage_operation (ts_reached ops) (OpReserveCommit tx)) \<and>
     list_all (\<lambda>p. rsv_resolution (snd p) = None \<longrightarrow>
         is_ok (stage_operation (ts_reached ops)
           (OpResolveCommit (fst p) (rsv_commit_time (snd p)) res)))
       (reservations (ts_reached ops))"
proof -
  let ?st = "ts_reached ops"
  note inv = ts_reached_inv [of ops]
  have pend: "pending_times ?st = [] \<longleftrightarrow>
      \<not> list_ex (\<lambda>p. rsv_resolution (snd p) = None) (reservations ?st)"
    by (auto simp: pending_times_def filter_empty_conv list_ex_iff)
  from frontier_inv_exact [OF inv] pend ts_orderD(3,4) [OF inv] assms
  have "is_ok (stage_operation ?st (OpAllocateStart tx))"
    by (auto simp: next_start_time_def next_timestamp_def apply_new_timestamp_def i64_succ_def
        transaction_time_new_def split: option.splits)
  moreover have "is_ok (stage_operation ?st (OpReserveCommit tx))"
    using ts_orderD(3,4) [OF inv] assms
    by (auto simp: next_timestamp_def apply_new_timestamp_def i64_succ_def
        transaction_time_new_def split: option.splits)
  moreover have "is_ok (stage_operation ?st (OpResolveCommit i (rsv_commit_time r) res))"
    if "map_of (reservations ?st) i = Some r" "rsv_resolution r = None" for i r
    using that ts_orderD(5) [OF inv] advance_total [of "resolve_in i (rsv_commit_time r) res ?st"]
    by auto
  ultimately show ?thesis
    using bm_list_all [OF ts_orderD(2) [OF inv]] by auto
qed

theorem authority_progress_witness:
  "is_ok (stage_operation (ts_reached ts_example_ops) (OpAllocateStart (Ident128 7)))"
proof -
  have "last_issued (ts_reached ts_example_ops) < i64_max" by code_simp
  from authority_progress [OF this] show ?thesis by blast
qed

text \<open>C16.  Retries are harmless: repeating an operation that was granted grants the same time
  again, logs no command and changes nothing.\<close>

theorem authority_retry:
  assumes "stage_operation (ts_reached ops) op = Inr (t, c, st)"
  shows "stage_operation st op = Inr (t, None, st)"
proof (cases op)
  case (OpResolveCommit tx u res)
  show ?thesis
  proof (cases c)
    case None
    with assms stage_operation_no_command [of "ts_reached ops" op t st] show ?thesis by metis
  next
    case (Some cmd)
    with assms OpResolveCommit have t: "t = u" and
      ap: "apply_command (ts_reached ops) (CmdResolveCommit tx u res) = Inr st"
      by (auto simp: result_simps simp del: apply_command.simps split: if_splits option.splits)
    from ap show ?thesis
    proof (cases rule: apply_resolve_cases)
      case 1
      with OpResolveCommit t show ?thesis by simp
    next
      case (2 r)
      from advance_spec [OF 2(4)] ts_orderD(4) [OF ts_reached_inv [of ops]] obtain f
        where "st = resolve_in tx u res (ts_reached ops)\<lparr>published_frontier := f\<rparr>" by auto
      with OpResolveCommit t show ?thesis by simp
    qed
  qed
qed (use assms in \<open>auto simp: result_simps apply_new_timestamp_def split: option.splits if_splits\<close>)

theorem authority_retry_witness:
  "stage_operation ts_example (OpAllocateStart (Ident128 3)) = Inr (1, None, ts_example)"
  by (rule authority_retry [OF ts_example_start])

end
