(* ===== verification/Timestamp_Codec.thy ===== *)
theory Timestamp_Codec
  imports Timestamp
begin

text \<open>
  The 64-byte format of logged timestamp commands: decoding inverts encoding, and nothing but an
  encoding is accepted.
\<close>

definition command_ok :: "timestamp_command \<Rightarrow> bool" where
  "command_ok c \<longleftrightarrow> ident128_ok (cmd_tx c) \<and> time_ok (cmd_time c)"

lemma command_prefix_length [simp]: "length (command_prefix c) = 32"
  by (simp add: command_prefix_def)

lemma encode_command_length: "length (encode_command h c) = 64"
  by (simp add: encode_command_def)

lemma command_prefix_slices:
  "take 4 (command_prefix c) = command_magic"
  "take 2 (drop 4 (command_prefix c)) = u16_be 1"
  "command_prefix c ! 6 = fst (command_tags c)"
  "take 16 (drop 7 (command_prefix c)) = u128_be (ident128_get (cmd_tx c))"
  "take 8 (drop 23 (command_prefix c)) = i64_be (cmd_time c)"
  "command_prefix c ! 31 = snd (command_tags c)"
  by (simp_all add: command_prefix_def nth_append)

lemma decode_encode_command:
  assumes "command_ok c"
  shows "decode_command h (encode_command h c) = Inr c"
proof -
  from assms have "0 \<le> cmd_time c" "i64_ok (cmd_time c)" "ident128_ok (cmd_tx c)"
    by (simp_all add: command_ok_def time_ok_def i64_ok_def)
  then show ?thesis
    by (cases c)
      (simp_all add: decode_command_def encode_command_def command_prefix_slices nth_append
        split: commit_resolution.splits)
qed

lemma take_one_drop: "n < length xs \<Longrightarrow> take 1 (drop n xs) = [xs ! n]"
  by (simp add: take_Suc hd_drop_conv_nth)

lemma bytes_slices:
  assumes "length bs = 64"
  shows "take 32 bs = take 4 bs @ take 2 (drop 4 bs) @ [bs ! 6] @ take 16 (drop 7 bs) @
     take 8 (drop 23 bs) @ [bs ! 31]"
proof -
  have "take (4 + 2 + 1 + 16 + 8 + 1) bs = take 4 bs @ take 2 (drop 4 bs) @ take 1 (drop 6 bs) @
      take 16 (drop 7 bs) @ take 8 (drop 23 bs) @ take 1 (drop 31 bs)"
    by (simp only: take_add) simp
  with assms show ?thesis by (simp add: take_one_drop del: One_nat_def)
qed

lemma encode_decode_command:
  assumes "decode_command h bs = Inr c"
  shows "encode_command h c = bs \<and> command_ok c"
proof -
  from assms have len: "length bs = 64" and magic: "take 4 bs = command_magic"
    and ver: "u16_from_be (take 2 (drop 4 bs)) = 1"
    and dig: "b32_be (h (str_bytes ''dtg-timestamp-command-v1'' @ take 32 bs)) = drop 32 bs"
    and c: "cmd_tx c = Ident128 (u128_from_be (take 16 (drop 7 bs)))"
      "u128_from_be (take 16 (drop 7 bs)) \<noteq> 0"
      "cmd_time c = i64_from_be (take 8 (drop 23 bs))" "0 \<le> cmd_time c"
      "command_tags c = (bs ! 6, bs ! 31)"
    by (auto simp: decode_command_def result_simps transaction_time_new_def split: if_splits)
  have "take 2 (drop 4 bs) = u16_be 1"
    using u16_be_from_be [of "take 2 (drop 4 bs)"] len ver by simp
  then have "command_prefix c = take 32 bs"
    using bytes_slices [OF len] len magic c u128_be_from_be [of "take 16 (drop 7 bs)"]
      i64_be_from_be [of "take 8 (drop 23 bs)"]
    by (simp add: command_prefix_def)
  then have "encode_command h c = bs" by (simp add: encode_command_def dig)
  moreover have "command_ok c"
    using c i64_from_be_ok [of "take 8 (drop 23 bs)"]
    by (simp add: command_ok_def ident128_ok_def time_ok_def i64_ok_def)
  ultimately show ?thesis by blast
qed

text \<open>C24.  The command format is a bijection between well-formed commands and accepted byte
  strings: a byte string decodes to a command exactly when it is that command's encoding.\<close>

theorem command_codec_exact:
  "decode_command blake3 bytes = Inr c \<longleftrightarrow> command_ok c \<and> bytes = encode_command blake3 c"
  using decode_encode_command encode_decode_command by metis

end
