(* ===== verification/Snapshot.thy ===== *)
theory Snapshot
  imports Mutation
begin

text \<open>
  Logical snapshots of the crate \<^verbatim>\<open>dtg-storage\<close> (\<^verbatim>\<open>snapshot.rs\<close>): headers, records, chunks
  with their digests, the streaming manifest builder, size accounting, and the receipts of a
  restored candidate and of its activation.
\<close>

section \<open>Data\<close>

datatype snapshot_tag = SnapshotTag
type_synonym snapshot_id = "snapshot_tag ident128"

definition supported_snapshot_format :: u32 where
  "supported_snapshot_format = 2"

definition snapshot_id_new :: "u128 \<Rightarrow> (storage_error, snapshot_id) result" where
  "snapshot_id_new v =
     (if v \<noteq> 0 then Inr (Ident128 v)
      else Inl (CorruptSnapshot ''snapshot identifier must be nonzero''))"

record snapshot_request =
  sq_snapshot_id :: snapshot_id
  sq_max_records_per_chunk :: u32

definition snapshot_request_validate :: "snapshot_request \<Rightarrow> (storage_error, unit) result" where
  "snapshot_request_validate q =
     (if sq_max_records_per_chunk q = 0
      then Inl (CorruptSnapshot ''snapshot chunk bound must be nonzero'') else Inr ())"

definition snapshot_request_new :: "u128 \<Rightarrow> u32 \<Rightarrow> (storage_error, snapshot_request) result" where
  "snapshot_request_new v n =
     try_r (snapshot_id_new v) (\<lambda>sid.
       let q = \<lparr>sq_snapshot_id = sid, sq_max_records_per_chunk = n\<rparr> in
       try_r (snapshot_request_validate q) (\<lambda>_. Inr q))"

record snapshot_header =
  sh_snapshot_id :: snapshot_id
  sh_source_binding :: replica_binding
  sh_applied_index :: u64
  sh_format_version :: u32

definition snapshot_header_new ::
    "snapshot_id \<Rightarrow> replica_binding \<Rightarrow> u64 \<Rightarrow> u32 \<Rightarrow> (storage_error, snapshot_header) result" where
  "snapshot_header_new sid b i v =
     (if v \<noteq> supported_snapshot_format
      then Inl (CorruptSnapshot ''unsupported snapshot format version'')
      else Inr \<lparr>sh_snapshot_id = sid, sh_source_binding = b, sh_applied_index = i,
                sh_format_version = v\<rparr>)"

record snapshot_replay_record =
  sp_raft_index :: u64
  sp_raft_term :: u64
  sp_command_id :: command_id
  sp_mutation_digest :: digest32

definition snapshot_replay_record_new ::
    "u64 \<Rightarrow> u64 \<Rightarrow> command_id \<Rightarrow> digest32 \<Rightarrow> (storage_error, snapshot_replay_record) result" where
  "snapshot_replay_record_new i t c d =
     (if i = 0 \<or> t = 0 \<or> d = 0
      then Inl (CorruptSnapshot ''snapshot replay identity is incomplete'')
      else Inr \<lparr>sp_raft_index = i, sp_raft_term = t, sp_command_id = c, sp_mutation_digest = d\<rparr>)"

datatype snapshot_record =
    SnapVertex vertex_version
  | SnapVertexTombstone vertex_tombstone
  | SnapEdge edge_version
  | SnapEdgeTombstone edge_tombstone
  | SnapTransaction transaction_record
  | SnapReplicaMetadata replica_metadata
  | SnapReplay snapshot_replay_record
  | SnapChange change_record

fun encode_record :: "snapshot_record \<Rightarrow> byte list" where
  "encode_record (SnapVertex v) = [1] @ encode_vertex v"
| "encode_record (SnapEdge e) = [2] @ encode_edge e"
| "encode_record (SnapVertexTombstone t) =
     [3] @ u128_be (ident128_get (vt_id t)) @ u64_be (vt_version t) @ i64_be (vt_transaction_time t)"
| "encode_record (SnapEdgeTombstone t) =
     [4] @ u128_be (ident128_get (et_id t)) @ u64_be (et_version t) @ i64_be (et_transaction_time t)"
| "encode_record (SnapTransaction t) = [5] @ encode_transaction t"
| "encode_record (SnapReplicaMetadata m) = [6] @ encode_metadata m"
| "encode_record (SnapReplay r) =
     [7] @ u64_be (sp_raft_index r) @ u64_be (sp_raft_term r) @
     u128_be (ident128_get (sp_command_id r)) @ b32_be (sp_mutation_digest r)"
| "encode_record (SnapChange c) =
     [8] @ u64_be (cc_raft_index (cr_cursor c)) @ u64_be (cc_mutation_ordinal (cr_cursor c)) @
     encode_mutation (cr_mutation c)"

section \<open>Chunks\<close>

record snapshot_chunk =
  ck_snapshot_id :: snapshot_id
  ck_ordinal :: u64
  ck_records :: "snapshot_record list"
  ck_digest :: digest32

definition chunk_preimage :: "snapshot_id \<Rightarrow> u64 \<Rightarrow> snapshot_record list \<Rightarrow> byte list" where
  "chunk_preimage sid ordinal records =
     str_bytes ''dtg-logical-snapshot-chunk-v1'' @ u128_be (ident128_get sid) @ u64_be ordinal @
     len_be (length records) @ concat (map encode_record records)"

definition digest_chunk ::
    "(byte list \<Rightarrow> digest32) \<Rightarrow> snapshot_id \<Rightarrow> u64 \<Rightarrow> snapshot_record list \<Rightarrow> digest32" where
  "digest_chunk blake3 sid ordinal records = blake3 (chunk_preimage sid ordinal records)"

definition snapshot_chunk_new ::
    "(byte list \<Rightarrow> digest32) \<Rightarrow> snapshot_id \<Rightarrow> u64 \<Rightarrow> snapshot_record list
      \<Rightarrow> (storage_error, snapshot_chunk) result" where
  "snapshot_chunk_new blake3 sid ordinal records =
     (if records = [] then Inl (CorruptSnapshot ''snapshot chunks must be nonempty'')
      else Inr \<lparr>ck_snapshot_id = sid, ck_ordinal = ordinal, ck_records = records,
                ck_digest = digest_chunk blake3 sid ordinal records\<rparr>)"

definition snapshot_chunk_validate ::
    "(byte list \<Rightarrow> digest32) \<Rightarrow> snapshot_chunk \<Rightarrow> (storage_error, unit) result" where
  "snapshot_chunk_validate blake3 c =
     (if ck_records c = [] \<or>
         ck_digest c \<noteq> digest_chunk blake3 (ck_snapshot_id c) (ck_ordinal c) (ck_records c)
      then Inl (CorruptSnapshot ''snapshot chunk digest mismatch'') else Inr ())"

section \<open>Size accounting\<close>

definition checked_add :: "u64 \<Rightarrow> u64 \<Rightarrow> (storage_error, u64) result" where
  "checked_add a b = ok_or (u64_add a b) (CorruptSnapshot ''snapshot byte count overflow'')"

definition usize_length :: "nat \<Rightarrow> (storage_error, u64) result" where
  "usize_length n =
     (if n < 2 ^ 64 then Inr (word_of_nat n)
      else Inl (CorruptSnapshot ''snapshot byte count overflow''))"

definition string_len :: "string \<Rightarrow> (storage_error, u64) result" where
  "string_len s = try_r (usize_length (length s)) (checked_add 8)"

fun value_len :: "value \<Rightarrow> (storage_error, u64) result" where
  "value_len VNull = Inr 1"
| "value_len (VBoolean _) = Inr 2"
| "value_len (VInteger _) = Inr 9"
| "value_len (VFloatBits _) = Inr 9"
| "value_len (VBytes bs) = try_r (usize_length (length bs)) (checked_add 9)"
| "value_len (VString s) = try_r (string_len s) (checked_add 1)"
| "value_len (VList vs) =
     try_fold (\<lambda>bytes v. try_r v (checked_add bytes)) 9 (map value_len vs)"
| "value_len (VMap kvs) =
     try_fold (\<lambda>bytes kv. try_r (string_len (fst kv)) (\<lambda>k.
       try_r (checked_add bytes k) (\<lambda>b. try_r (snd kv) (checked_add b)))) 9
       (map (\<lambda>kv. (fst kv, value_len (snd kv))) kvs)"

definition properties_len :: "properties \<Rightarrow> (storage_error, u64) result" where
  "properties_len ps =
     try_fold (\<lambda>bytes kv. try_r (string_len (fst kv)) (\<lambda>k.
       try_r (checked_add bytes k) (\<lambda>b. try_r (value_len (snd kv)) (checked_add b)))) 8 ps"

definition vertex_len :: "vertex_version \<Rightarrow> (storage_error, u64) result" where
  "vertex_len v = try_r (properties_len (vv_properties v)) (checked_add 48)"

definition edge_len :: "edge_version \<Rightarrow> (storage_error, u64) result" where
  "edge_len e =
     try_r (try_r (string_len (ev_edge_type e)) (checked_add 72)) (\<lambda>n.
       try_r (properties_len (ev_properties e)) (checked_add n))"

definition metadata_len :: "replica_metadata \<Rightarrow> (storage_error, u64) result" where
  "metadata_len m =
     try_r (string_len (rm_name m)) (\<lambda>n. try_r (value_len (rm_value m)) (checked_add n))"

definition mutation_len :: "logical_mutation \<Rightarrow> (storage_error, u64) result" where
  "mutation_len mu = try_r
     (case mu of
        PutVertex v \<Rightarrow> vertex_len v
      | DeleteVertex _ \<Rightarrow> Inr 32
      | PutEdge e \<Rightarrow> edge_len e
      | DeleteEdge _ \<Rightarrow> Inr 32
      | PutTransaction _ \<Rightarrow> Inr 57
      | PutReplicaMetadata md \<Rightarrow> metadata_len md) (checked_add 1)"

definition snapshot_record_len :: "snapshot_record \<Rightarrow> (storage_error, u64) result" where
  "snapshot_record_len r = try_r
     (case r of
        SnapVertex v \<Rightarrow> vertex_len v
      | SnapVertexTombstone _ \<Rightarrow> Inr 32
      | SnapEdge e \<Rightarrow> edge_len e
      | SnapEdgeTombstone _ \<Rightarrow> Inr 32
      | SnapTransaction _ \<Rightarrow> Inr 57
      | SnapReplicaMetadata md \<Rightarrow> metadata_len md
      | SnapReplay _ \<Rightarrow> Inr 64
      | SnapChange c \<Rightarrow> try_r (mutation_len (cr_mutation c)) (checked_add 16)) (checked_add 1)"

definition encoded_len :: "snapshot_chunk \<Rightarrow> (storage_error, u64) result" where
  "encoded_len c =
     try_fold (\<lambda>bytes r. try_r (snapshot_record_len r) (checked_add bytes)) 64 (ck_records c)"

section \<open>Manifests\<close>

record snapshot_manifest =
  sm_snapshot_id :: snapshot_id
  sm_chunk_count :: u64
  sm_record_count :: u64
  sm_content_digest :: digest32

text \<open>The hasher of the builder is the byte string fed to it so far.\<close>

record manifest_builder =
  mb_header :: snapshot_header
  mb_next_ordinal :: u64
  mb_record_count :: u64
  mb_hashed :: "byte list"

definition manifest_builder_new :: "snapshot_header \<Rightarrow> manifest_builder" where
  "manifest_builder_new hdr =
     \<lparr>mb_header = hdr, mb_next_ordinal = 0, mb_record_count = 0,
      mb_hashed = str_bytes ''dtg-logical-snapshot-manifest-chunks-v2''\<rparr>"

definition manifest_builder_push ::
    "(byte list \<Rightarrow> digest32) \<Rightarrow> manifest_builder \<Rightarrow> snapshot_chunk
      \<Rightarrow> (storage_error, manifest_builder) result" where
  "manifest_builder_push blake3 mb c =
     try_r (snapshot_chunk_validate blake3 c) (\<lambda>_.
       if ck_snapshot_id c \<noteq> sh_snapshot_id (mb_header mb) \<or> ck_ordinal c \<noteq> mb_next_ordinal mb
       then Inl (CorruptSnapshot ''snapshot chunk identity or order mismatch'')
       else try_r (ok_or (u64_add (mb_record_count mb) (word_of_nat (length (ck_records c))))
             (CorruptSnapshot ''record count overflow'')) (\<lambda>n.
         Inr (mb\<lparr>mb_record_count := n, mb_hashed := mb_hashed mb @ b32_be (ck_digest c),
                 mb_next_ordinal := mb_next_ordinal mb + 1\<rparr>)))"

definition manifest_summary_preimage ::
    "(byte list \<Rightarrow> digest32) \<Rightarrow> snapshot_header \<Rightarrow> u64 \<Rightarrow> digest32 \<Rightarrow> byte list" where
  "manifest_summary_preimage blake3 hdr count d =
     str_bytes ''dtg-logical-snapshot-manifest-v2'' @ u128_be (ident128_get (sh_snapshot_id hdr)) @
     b32_be (identity_digest blake3 (sh_source_binding hdr)) @ u64_be (sh_applied_index hdr) @
     u32_be (sh_format_version hdr) @ u64_be count @ b32_be d"

definition digest_manifest_summary ::
    "(byte list \<Rightarrow> digest32) \<Rightarrow> snapshot_header \<Rightarrow> u64 \<Rightarrow> digest32 \<Rightarrow> digest32" where
  "digest_manifest_summary blake3 hdr count d = blake3 (manifest_summary_preimage blake3 hdr count d)"

definition manifest_builder_finish ::
    "(byte list \<Rightarrow> digest32) \<Rightarrow> manifest_builder \<Rightarrow> snapshot_manifest" where
  "manifest_builder_finish blake3 mb =
     \<lparr>sm_snapshot_id = sh_snapshot_id (mb_header mb), sm_chunk_count = mb_next_ordinal mb,
      sm_record_count = mb_record_count mb,
      sm_content_digest = digest_manifest_summary blake3 (mb_header mb) (mb_next_ordinal mb)
        (blake3 (mb_hashed mb))\<rparr>"

definition snapshot_manifest_new ::
    "(byte list \<Rightarrow> digest32) \<Rightarrow> snapshot_header \<Rightarrow> snapshot_chunk list
      \<Rightarrow> (storage_error, snapshot_manifest) result" where
  "snapshot_manifest_new blake3 hdr chunks =
     try_r (try_fold (manifest_builder_push blake3) (manifest_builder_new hdr) chunks)
       (\<lambda>mb. Inr (manifest_builder_finish blake3 mb))"

definition snapshot_manifest_validate ::
    "(byte list \<Rightarrow> digest32) \<Rightarrow> snapshot_manifest \<Rightarrow> snapshot_header \<Rightarrow> snapshot_chunk list
      \<Rightarrow> (storage_error, unit) result" where
  "snapshot_manifest_validate blake3 mf hdr chunks =
     try_r (snapshot_manifest_new blake3 hdr chunks) (\<lambda>expected.
       if mf = expected then Inr () else Inl (CorruptSnapshot ''snapshot manifest mismatch''))"

section \<open>Receipts\<close>

record candidate_receipt =
  cd_candidate_binding :: replica_binding
  cd_header :: snapshot_header
  cd_manifest :: snapshot_manifest

definition candidate_receipt_new ::
    "replica_binding \<Rightarrow> snapshot_header \<Rightarrow> snapshot_manifest \<Rightarrow> (storage_error, candidate_receipt) result" where
  "candidate_receipt_new b hdr mf =
     (if rb_role b \<noteq> Candidate \<or> sm_snapshot_id mf \<noteq> sh_snapshot_id hdr \<or> sm_content_digest mf = 0
         \<or> sh_format_version hdr \<noteq> supported_snapshot_format
      then Inl (CorruptSnapshot ''logical snapshot candidate receipt is invalid'')
      else Inr \<lparr>cd_candidate_binding = b, cd_header = hdr, cd_manifest = mf\<rparr>)"

record activation_receipt =
  av_active_binding :: replica_binding
  av_snapshot_id :: snapshot_id
  av_applied_index :: u64
  av_content_digest :: digest32
  av_format_version :: u32

definition activation_receipt_new ::
    "candidate_receipt \<Rightarrow> replica_binding \<Rightarrow> (storage_error, activation_receipt) result" where
  "activation_receipt_new c b =
     (if rb_role (cd_candidate_binding c) \<noteq> Candidate \<or> rb_role b \<noteq> Active
         \<or> \<not> same_binding_except_role (cd_candidate_binding c) b
      then Inl SnapshotIdentityMismatch
      else Inr \<lparr>av_active_binding = b, av_snapshot_id = sh_snapshot_id (cd_header c),
                av_applied_index = sh_applied_index (cd_header c),
                av_content_digest = sm_content_digest (cd_manifest c),
                av_format_version = sh_format_version (cd_header c)\<rparr>)"

section \<open>What the size accounting counts\<close>

lemma checked_add_unat: "checked_add a b = Inr n \<Longrightarrow> unat n = unat a + unat b"
  by (auto simp: checked_add_def result_simps dest: unat_u64_add)

lemma string_len_unat: "string_len s = Inr n \<Longrightarrow> unat n = length (encode_string s)"
  by (auto simp: string_len_def usize_length_def result_simps encode_string_def unat_of_nat
      dest!: checked_add_unat split: if_splits)

lemma fold_len:
  assumes "try_fold (\<lambda>bytes x. try_r (f x) (checked_add bytes)) b xs = Inr n"
    and "\<And>x k. x \<in> set xs \<Longrightarrow> f x = Inr k \<Longrightarrow> unat k = g x"
  shows "unat n = unat b + sum_list (map g xs)"
  using assms
proof (induction xs arbitrary: b)
  case (Cons x xs)
  from Cons.prems(1) obtain k b' where k: "f x = Inr k" and b': "checked_add b k = Inr b'"
    and rest: "try_fold (\<lambda>bytes x. try_r (f x) (checked_add bytes)) b' xs = Inr n"
    by (auto simp: try_r_Inr)
  from Cons.IH [OF rest] Cons.prems(2) have "unat n = unat b' + sum_list (map g xs)" by simp
  with checked_add_unat [OF b'] Cons.prems(2) [OF _ k] show ?case by simp
qed simp

lemma fold_kv_len:
  assumes "try_fold (\<lambda>bytes kv. try_r (string_len (fst kv)) (\<lambda>k.
      try_r (checked_add bytes k) (\<lambda>b. try_r (f kv) (checked_add b)))) b kvs = Inr n"
    and "\<And>kv k. kv \<in> set kvs \<Longrightarrow> f kv = Inr k \<Longrightarrow> unat k = g kv"
  shows "unat n = unat b + sum_list (map (\<lambda>kv. length (encode_string (fst kv)) + g kv) kvs)"
  using assms
proof (induction kvs arbitrary: b)
  case (Cons kv kvs)
  from Cons.prems(1) obtain k c v b' where k: "string_len (fst kv) = Inr k"
    and c: "checked_add b k = Inr c" and v: "f kv = Inr v" and b': "checked_add c v = Inr b'"
    and rest: "try_fold (\<lambda>bytes kv. try_r (string_len (fst kv)) (\<lambda>k.
      try_r (checked_add bytes k) (\<lambda>b. try_r (f kv) (checked_add b)))) b' kvs = Inr n"
    by (auto simp: try_r_Inr)
  from Cons.IH [OF rest] Cons.prems(2)
  have "unat n = unat b' + sum_list (map (\<lambda>kv. length (encode_string (fst kv)) + g kv) kvs)" by simp
  with checked_add_unat [OF b'] checked_add_unat [OF c] string_len_unat [OF k] Cons.prems(2) [OF _ v]
  show ?case by simp
qed simp

lemma value_len_unat: "value_len v = Inr n \<Longrightarrow> unat n = length (encode_value v)"
proof (induction v arbitrary: n rule: value_len.induct)
  case (5 bs)
  then show ?case
    by (auto simp: usize_length_def result_simps unat_of_nat dest!: checked_add_unat split: if_splits)
next
  case (6 s)
  then show ?case by (auto simp: try_r_Inr dest!: checked_add_unat string_len_unat)
next
  case (7 vs)
  have "unat n = unat (9 :: u64) + sum_list (map (length \<circ> encode_value) vs)"
    by (rule fold_len [where f = value_len]) (use "7.prems" "7.IH" in \<open>auto simp: try_fold_map\<close>)
  then show ?case by (simp add: length_concat comp_def)
next
  case (8 kvs)
  have "unat n = unat (9 :: u64) +
      sum_list (map (\<lambda>kv. length (encode_string (fst kv)) + length (encode_value (snd kv))) kvs)"
    by (rule fold_kv_len [where f = "\<lambda>kv. value_len (snd kv)"])
      (use "8.prems" "8.IH" in \<open>auto simp: try_fold_map\<close>)
  then show ?case by (simp add: length_concat comp_def)
qed auto

lemma properties_len_unat: "properties_len ps = Inr n \<Longrightarrow> unat n = length (encode_properties ps)"
  unfolding properties_len_def encode_properties_def
  by (drule fold_kv_len [where g = "\<lambda>kv. length (encode_value (snd kv))"])
    (auto simp: length_concat comp_def dest: value_len_unat)

lemma vertex_len_unat: "vertex_len v = Inr n \<Longrightarrow> unat n = length (encode_vertex v)"
  by (auto simp: vertex_len_def encode_vertex_def encode_interval_def try_r_Inr
      dest!: checked_add_unat properties_len_unat)

lemma edge_len_unat: "edge_len e = Inr n \<Longrightarrow> unat n + 8 = length (encode_edge e)"
  by (auto simp: edge_len_def encode_edge_def encode_interval_def try_r_Inr
      dest!: checked_add_unat properties_len_unat string_len_unat)

lemma metadata_len_unat: "metadata_len md = Inr n \<Longrightarrow> unat n = length (encode_metadata md)"
  by (auto simp: metadata_len_def encode_metadata_def try_r_Inr
      dest!: checked_add_unat value_len_unat string_len_unat)

fun mutation_edges :: "logical_mutation \<Rightarrow> nat" where
  "mutation_edges (PutEdge _) = 1"
| "mutation_edges _ = 0"

fun record_edges :: "snapshot_record \<Rightarrow> nat" where
  "record_edges (SnapEdge _) = 1"
| "record_edges (SnapChange c) = mutation_edges (cr_mutation c)"
| "record_edges _ = 0"

lemma mutation_len_unat:
  "mutation_len mu = Inr n \<Longrightarrow> unat n + 8 * mutation_edges mu = length (encode_mutation mu)"
  by (cases mu)
    (auto simp: mutation_len_def try_r_Inr encode_transaction_def
      dest!: checked_add_unat vertex_len_unat edge_len_unat metadata_len_unat)

lemma snapshot_record_len_unat:
  "snapshot_record_len r = Inr n \<Longrightarrow> unat n + 8 * record_edges r = length (encode_record r)"
  by (cases r)
    (auto simp: snapshot_record_len_def try_r_Inr encode_transaction_def
      dest!: checked_add_unat vertex_len_unat edge_len_unat metadata_len_unat mutation_len_unat)

text \<open>C28.  Size accounting of snapshot chunks: a reported size is exact except that every edge
  version in the chunk, whether as a record or inside a change, is counted eight bytes short of
  its encoding (\<open>edge_len\<close> allows 72 bytes for three identifiers, a version, an interval and a
  time, which take 80).  The 64 bytes of overhead are the snapshot identifier, the ordinal, the
  record count and the digest.\<close>

theorem encoded_len_undercounts_edges:
  assumes "encoded_len c = Inr n"
  shows "unat n + 8 * sum_list (map record_edges (ck_records c)) =
     length (u128_be (ident128_get (ck_snapshot_id c)) @ u64_be (ck_ordinal c) @
       len_be (length (ck_records c)) @ concat (map encode_record (ck_records c)) @ b32_be (ck_digest c))"
proof -
  have "unat n = unat (64 :: u64) +
      sum_list (map (\<lambda>r. length (encode_record r) - 8 * record_edges r) (ck_records c))"
    by (rule fold_len [OF assms [unfolded encoded_len_def]]) (auto dest: snapshot_record_len_unat)
  moreover have "sum_list (map (\<lambda>r. length (encode_record r) - 8 * record_edges r) rs) +
      8 * sum_list (map record_edges rs) = sum_list (map (length \<circ> encode_record) rs)"
    if "\<forall>r \<in> set rs. 8 * record_edges r \<le> length (encode_record r)" for rs
    using that by (induction rs) (auto simp: algebra_simps)
  moreover have "8 * record_edges r \<le> length (encode_record r)" for r
  proof -
    have "8 * mutation_edges mu \<le> length (encode_mutation mu)" for mu
      by (cases mu) (simp_all add: encode_edge_def)
    then show ?thesis by (cases r) (auto simp: encode_edge_def intro: trans_le_add2)
  qed
  ultimately show ?thesis by (simp add: length_concat comp_def)
qed

definition example_edge_chunk :: snapshot_chunk where
  "example_edge_chunk =
     \<lparr>ck_snapshot_id = Ident128 9, ck_ordinal = 0,
      ck_records =
        [SnapEdge \<lparr>ev_id = Ident128 1, ev_source = Ident128 2, ev_target = Ident128 3,
           ev_edge_type = ''KNOWS'', ev_version = 1, ev_valid_time = \<lparr>iv_start = 0, iv_end = 10\<rparr>,
           ev_transaction_time = 4, ev_properties = []\<rparr>],
      ck_digest = 0\<rparr>"

theorem encoded_len_undercounts_edges_witness:
  "encoded_len example_edge_chunk = Inr 158 \<and>
     length (concat (map encode_record (ck_records example_edge_chunk))) = 102"
proof -
  have "encoded_len example_edge_chunk = Inr 158"
    by (simp add: encoded_len_def example_edge_chunk_def snapshot_record_len_def edge_len_def
        properties_len_def string_len_def usize_length_def checked_add_def u64_add_def)
  with encoded_len_undercounts_edges [OF this] show ?thesis by (simp add: example_edge_chunk_def)
qed

section \<open>What a manifest pins down\<close>

fun record_sized :: "snapshot_record \<Rightarrow> bool" where
  "record_sized (SnapVertex v) = mutation_sized (PutVertex v)"
| "record_sized (SnapVertexTombstone t) = mutation_sized (DeleteVertex t)"
| "record_sized (SnapEdge e) = mutation_sized (PutEdge e)"
| "record_sized (SnapEdgeTombstone t) = mutation_sized (DeleteEdge t)"
| "record_sized (SnapTransaction t) = mutation_sized (PutTransaction t)"
| "record_sized (SnapReplicaMetadata m) = mutation_sized (PutReplicaMetadata m)"
| "record_sized (SnapReplay _) = True"
| "record_sized (SnapChange c) = mutation_sized (cr_mutation c)"

interpretation recc: prefix_code encode_record record_sized
proof
  fix x y r s
  assume "record_sized x" and "record_sized y" and "encode_record x @ r = encode_record y @ s"
  then show "x = y \<and> r = s"
    by (cases x; cases y)
      (auto simp: encode_vertex_def encode_edge_def encode_transaction_def encode_metadata_def
        codec_split mutc.split_iff mutc.enc_inj)
qed

definition chunk_sized :: "snapshot_chunk \<Rightarrow> bool" where
  "chunk_sized c \<longleftrightarrow> len_ok (ck_records c) \<and> list_all record_sized (ck_records c)"

lemma chunk_preimage_inj:
  assumes "chunk_sized c" and "chunk_sized d"
    and "chunk_preimage (ck_snapshot_id c) (ck_ordinal c) (ck_records c) =
      chunk_preimage (ck_snapshot_id d) (ck_ordinal d) (ck_records d)"
  shows "ck_snapshot_id c = ck_snapshot_id d \<and> ck_ordinal c = ck_ordinal d \<and> ck_records c = ck_records d"
proof -
  from assms have "ck_snapshot_id c = ck_snapshot_id d" "ck_ordinal c = ck_ordinal d"
    "length (ck_records c) = length (ck_records d)"
    "concat (map encode_record (ck_records c)) = concat (map encode_record (ck_records d))"
    by (auto simp: chunk_preimage_def chunk_sized_def len_ok_def codec_split)
  with assms(1,2) recc.concat_split [of "ck_records c" "ck_records d" "[]" "[]"] show ?thesis
    by (simp add: chunk_sized_def)
qed

definition chunk_digests_preimage :: "snapshot_chunk list \<Rightarrow> byte list" where
  "chunk_digests_preimage cs =
     str_bytes ''dtg-logical-snapshot-manifest-chunks-v2'' @ concat (map (\<lambda>c. b32_be (ck_digest c)) cs)"

lemma manifest_builder_push_Inr [result_simps]:
  "manifest_builder_push h mb c = Inr mb' \<longleftrightarrow>
     ck_records c \<noteq> [] \<and> ck_digest c = digest_chunk h (ck_snapshot_id c) (ck_ordinal c) (ck_records c) \<and>
     ck_snapshot_id c = sh_snapshot_id (mb_header mb) \<and> ck_ordinal c = mb_next_ordinal mb \<and>
     (\<exists>n. u64_add (mb_record_count mb) (word_of_nat (length (ck_records c))) = Some n \<and>
        mb' = mb\<lparr>mb_record_count := n, mb_hashed := mb_hashed mb @ b32_be (ck_digest c),
                 mb_next_ordinal := mb_next_ordinal mb + 1\<rparr>)"
  by (auto simp: manifest_builder_push_def snapshot_chunk_validate_def result_simps split: if_splits)

text \<open>The chunk counter of the builder cannot wrap: chunks are nonempty and the record counter,
  which is checked, is never behind.\<close>

lemma manifest_push_counts:
  assumes push: "manifest_builder_push h mb c = Inr mb'" and len: "len_ok (ck_records c)"
    and le: "unat (mb_next_ordinal mb) \<le> unat (mb_record_count mb)"
  shows "unat (mb_record_count mb') = unat (mb_record_count mb) + length (ck_records c)"
    "unat (mb_next_ordinal mb') = Suc (unat (mb_next_ordinal mb))"
    "unat (mb_next_ordinal mb') \<le> unat (mb_record_count mb')"
proof -
  from push obtain n where ne: "ck_records c \<noteq> []" and n: "u64_add (mb_record_count mb) (word_of_nat (length (ck_records c))) = Some n"
    and mb': "mb_record_count mb' = n" "mb_next_ordinal mb' = mb_next_ordinal mb + 1"
    by (auto simp: manifest_builder_push_Inr)
  have len': "unat (word_of_nat (length (ck_records c)) :: u64) = length (ck_records c)"
    using len by (simp add: len_ok_def unat_of_nat)
  with n have cnt: "unat n = unat (mb_record_count mb) + length (ck_records c)"
    by (simp add: unat_u64_add)
  with mb' show "unat (mb_record_count mb') = unat (mb_record_count mb) + length (ck_records c)" by simp
  have "mb_next_ordinal mb < n"
    using le cnt ne by (cases "ck_records c") (auto simp: word_less_nat_alt)
  then have "mb_next_ordinal mb \<noteq> - 1" using word_n1_ge [of n] by (auto simp: not_le [symmetric])
  then show suc: "unat (mb_next_ordinal mb') = Suc (unat (mb_next_ordinal mb))"
    using mb' by (simp add: unat_succ_word)
  show "unat (mb_next_ordinal mb') \<le> unat (mb_record_count mb')"
    using suc mb' cnt le ne by (cases "ck_records c") auto
qed

lemma manifest_fold:
  assumes "try_fold (manifest_builder_push h) mb cs = Inr mb'"
    and "unat (mb_next_ordinal mb) \<le> unat (mb_record_count mb)"
    and "list_all (\<lambda>c. len_ok (ck_records c)) cs"
  shows "mb_header mb' = mb_header mb \<and>
    mb_hashed mb' = mb_hashed mb @ concat (map (\<lambda>c. b32_be (ck_digest c)) cs) \<and>
    unat (mb_next_ordinal mb') = unat (mb_next_ordinal mb) + length cs \<and>
    unat (mb_record_count mb') = unat (mb_record_count mb) + sum_list (map (\<lambda>c. length (ck_records c)) cs)"
  using assms
proof (induction cs arbitrary: mb)
  case (Cons c cs)
  from Cons.prems(1) obtain mb1 where push: "manifest_builder_push h mb c = Inr mb1"
    and rest: "try_fold (manifest_builder_push h) mb1 cs = Inr mb'"
    by (auto simp: try_r_Inr)
  from Cons.prems(3) have len: "len_ok (ck_records c)" by simp
  note counts = manifest_push_counts [OF push len Cons.prems(2)]
  from push have "mb_header mb1 = mb_header mb" "mb_hashed mb1 = mb_hashed mb @ b32_be (ck_digest c)"
    by (auto simp: manifest_builder_push_Inr)
  with Cons.IH [OF rest counts(3)] Cons.prems(3) counts show ?case by simp
qed simp

lemma manifest_fold_chunks:
  assumes "try_fold (manifest_builder_push h) mb cs = Inr mb'" and "i < length cs"
  shows "snapshot_chunk_validate h (cs ! i) = Inr () \<and>
    ck_snapshot_id (cs ! i) = sh_snapshot_id (mb_header mb) \<and>
    ck_ordinal (cs ! i) = mb_next_ordinal mb + word_of_nat i"
  using assms
proof (induction cs arbitrary: mb i)
  case (Cons c cs)
  from Cons.prems(1) obtain mb1 where push: "manifest_builder_push h mb c = Inr mb1"
    and rest: "try_fold (manifest_builder_push h) mb1 cs = Inr mb'"
    by (auto simp: try_r_Inr)
  show ?case
  proof (cases i)
    case 0
    with push show ?thesis by (auto simp: manifest_builder_push_Inr snapshot_chunk_validate_def)
  next
    case (Suc j)
    with Cons.IH [OF rest, of j] Cons.prems(2) push show ?thesis
      by (auto simp: manifest_builder_push_Inr algebra_simps)
  qed
qed simp

lemma snapshot_manifest_newD:
  assumes "snapshot_manifest_new h hdr cs = Inr mf" and "list_all (\<lambda>c. len_ok (ck_records c)) cs"
  shows "sm_snapshot_id mf = sh_snapshot_id hdr" "unat (sm_chunk_count mf) = length cs"
    "unat (sm_record_count mf) = sum_list (map (\<lambda>c. length (ck_records c)) cs)"
    "sm_content_digest mf =
       digest_manifest_summary h hdr (word_of_nat (length cs)) (h (chunk_digests_preimage cs))"
    "i < length cs \<Longrightarrow> snapshot_chunk_validate h (cs ! i) = Inr () \<and>
       ck_snapshot_id (cs ! i) = sh_snapshot_id hdr \<and> ck_ordinal (cs ! i) = word_of_nat i"
proof -
  from assms(1) obtain mb where
    fold: "try_fold (manifest_builder_push h) (manifest_builder_new hdr) cs = Inr mb"
    and mf: "mf = manifest_builder_finish h mb"
    by (auto simp: snapshot_manifest_new_def try_r_Inr)
  from manifest_fold [OF fold _ assms(2)] have mb: "mb_header mb = hdr"
    "mb_hashed mb = chunk_digests_preimage cs" "unat (mb_next_ordinal mb) = length cs"
    "unat (mb_record_count mb) = sum_list (map (\<lambda>c. length (ck_records c)) cs)"
    by (simp_all add: manifest_builder_new_def chunk_digests_preimage_def)
  moreover have "word_of_nat (unat (mb_next_ordinal mb)) = mb_next_ordinal mb" by simp
  ultimately have "mb_next_ordinal mb = word_of_nat (length cs)" by simp
  with mb mf show "sm_snapshot_id mf = sh_snapshot_id hdr" "unat (sm_chunk_count mf) = length cs"
    "unat (sm_record_count mf) = sum_list (map (\<lambda>c. length (ck_records c)) cs)"
    "sm_content_digest mf =
       digest_manifest_summary h hdr (word_of_nat (length cs)) (h (chunk_digests_preimage cs))"
    by (simp_all add: manifest_builder_finish_def)
  show "snapshot_chunk_validate h (cs ! i) = Inr () \<and>
       ck_snapshot_id (cs ! i) = sh_snapshot_id hdr \<and> ck_ordinal (cs ! i) = word_of_nat i"
    if "i < length cs"
    using manifest_fold_chunks [OF fold that] by (simp add: manifest_builder_new_def)
qed

text \<open>C27.  Counting: a manifest built from chunks carries their exact number and the exact
  number of their records, neither counter wraps around, and chunk \<open>i\<close> is a valid chunk of this
  snapshot with ordinal \<open>i\<close>.\<close>

theorem manifest_counts_exact:
  assumes "snapshot_manifest_new blake3 hdr chunks = Inr mf"
    and "list_all (\<lambda>c. len_ok (ck_records c)) chunks"
  shows "unat (sm_chunk_count mf) = length chunks \<and>
     unat (sm_record_count mf) = sum_list (map (\<lambda>c. length (ck_records c)) chunks) \<and>
     (\<forall>i < length chunks. snapshot_chunk_validate blake3 (chunks ! i) = Inr () \<and>
        ck_snapshot_id (chunks ! i) = sh_snapshot_id hdr \<and> ck_ordinal (chunks ! i) = word_of_nat i)"
  using snapshot_manifest_newD [OF assms] by blast

text \<open>A one-chunk snapshot and a toy hash function, used by the witnesses.\<close>

definition example_binding :: replica_binding where
  "example_binding =
     \<lparr>rb_cluster_id = Ident 1, rb_graph_id = Ident 2, rb_shard_id = Ident 3,
      rb_placement_epoch = Ident 4, rb_replica_id = Ident 5, rb_backend_generation = Ident 6,
      rb_backend_class_digest = 7, rb_provider_kind = Fjall, rb_contract_version = 1,
      rb_layout_version = 1, rb_capability_digest = 8, rb_namespace_id = ''ns'',
      rb_endpoint_profile_ref = ''profile'', rb_credential_ref = ''secret'', rb_role = Active\<rparr>"

definition example_header :: snapshot_header where
  "example_header =
     \<lparr>sh_snapshot_id = Ident128 9, sh_source_binding = example_binding, sh_applied_index = 1,
      sh_format_version = 2\<rparr>"

definition length_hash :: "byte list \<Rightarrow> digest32" where
  "length_hash bs = word_of_nat (length bs)"

definition example_chunks :: "snapshot_chunk list" where
  "example_chunks =
     [\<lparr>ck_snapshot_id = Ident128 9, ck_ordinal = 0,
       ck_records = [SnapReplay \<lparr>sp_raft_index = 1, sp_raft_term = 1, sp_command_id = Ident128 1,
         sp_mutation_digest = 5\<rparr>],
       ck_digest = 126\<rparr>]"

lemma example_manifest:
  "snapshot_manifest_new length_hash example_header example_chunks =
     Inr \<lparr>sm_snapshot_id = Ident128 9, sm_chunk_count = 1, sm_record_count = 1, sm_content_digest = 132\<rparr>"
  by (simp add: snapshot_manifest_new_def example_header_def example_chunks_def manifest_builder_new_def
      manifest_builder_push_def snapshot_chunk_validate_def digest_chunk_def chunk_preimage_def
      length_hash_def u64_add_def manifest_builder_finish_def digest_manifest_summary_def
      manifest_summary_preimage_def)

theorem manifest_counts_exact_witness:
  "snapshot_chunk_validate length_hash (example_chunks ! 0) = Inr ()"
proof -
  have "list_all (\<lambda>c. len_ok (ck_records c)) example_chunks" and len: "length example_chunks = 1"
    by (simp_all add: example_chunks_def len_ok_def)
  from manifest_counts_exact [OF example_manifest this(1)] len show ?thesis by simp
qed

text \<open>The byte strings hashed while a manifest is built.\<close>

definition manifest_preimages ::
    "(byte list \<Rightarrow> digest32) \<Rightarrow> snapshot_header \<Rightarrow> snapshot_chunk list \<Rightarrow> byte list list" where
  "manifest_preimages h hdr cs =
     manifest_summary_preimage h hdr (word_of_nat (length cs)) (h (chunk_digests_preimage cs)) #
     chunk_digests_preimage cs # identity_preimage (sh_source_binding hdr) #
     map (\<lambda>c. chunk_preimage (ck_snapshot_id c) (ck_ordinal c) (ck_records c)) cs"

definition header_sized :: "snapshot_header \<Rightarrow> bool" where
  "header_sized hdr \<longleftrightarrow> binding_sized (sh_source_binding hdr)"

lemma summary_preimage_inj:
  "manifest_summary_preimage h hdr n d = manifest_summary_preimage h hdr' n' d' \<longleftrightarrow>
     sh_snapshot_id hdr = sh_snapshot_id hdr' \<and>
     identity_digest h (sh_source_binding hdr) = identity_digest h (sh_source_binding hdr') \<and>
     sh_applied_index hdr = sh_applied_index hdr' \<and> sh_format_version hdr = sh_format_version hdr' \<and>
     n = n' \<and> d = d'"
  by (auto simp: manifest_summary_preimage_def)

lemma chunk_digests_preimage_inj:
  assumes "length cs = length ds" and "chunk_digests_preimage cs = chunk_digests_preimage ds"
  shows "map ck_digest cs = map ck_digest ds"
proof -
  from assms have "concat (map b32_be (map ck_digest cs)) = concat (map b32_be (map ck_digest ds))"
    by (simp add: chunk_digests_preimage_def comp_def)
  with assms(1) b32c.concat_split [of "map ck_digest cs" "map ck_digest ds" "[]" "[]"] show ?thesis
    by (simp add: list_all_iff)
qed

lemma chunk_digest_eq:
  assumes "snapshot_chunk_validate h c = Inr ()" and "snapshot_chunk_validate h d = Inr ()"
    and "ck_digest c = ck_digest d" and "chunk_sized c" and "chunk_sized d" and "inj_on h X"
    and "chunk_preimage (ck_snapshot_id c) (ck_ordinal c) (ck_records c) \<in> X"
    and "chunk_preimage (ck_snapshot_id d) (ck_ordinal d) (ck_records d) \<in> X"
  shows "c = d"
proof -
  from assms(1-3) have "h (chunk_preimage (ck_snapshot_id c) (ck_ordinal c) (ck_records c)) =
      h (chunk_preimage (ck_snapshot_id d) (ck_ordinal d) (ck_records d))"
    by (simp add: snapshot_chunk_validate_def digest_chunk_def split: if_splits)
  with assms(6-8) have "chunk_preimage (ck_snapshot_id c) (ck_ordinal c) (ck_records c) =
      chunk_preimage (ck_snapshot_id d) (ck_ordinal d) (ck_records d)"
    by (simp add: inj_on_eq_iff)
  with chunk_preimage_inj [OF assms(4,5)] assms(3) show ?thesis
    by (intro snapshot_chunk.equality) simp_all
qed

text \<open>C26.  Integrity of snapshot transfer: if the hash function does not collide on the byte
  strings hashed for two snapshots, then two snapshots with the same manifest have the same header
  and the same chunks, record for record.\<close>

theorem manifest_determines_snapshot:
  assumes new: "snapshot_manifest_new blake3 hdr cs = Inr mf"
    and new': "snapshot_manifest_new blake3 hdr' ds = Inr mf"
    and sized: "list_all chunk_sized (cs @ ds)" "header_sized hdr" "header_sized hdr'"
    and inj: "inj_on blake3 (set (manifest_preimages blake3 hdr cs @ manifest_preimages blake3 hdr' ds))"
  shows "hdr = hdr' \<and> cs = ds"
proof -
  let ?X = "set (manifest_preimages blake3 hdr cs @ manifest_preimages blake3 hdr' ds)"
  from sized(1) have len: "list_all (\<lambda>c. len_ok (ck_records c)) cs" "list_all (\<lambda>c. len_ok (ck_records c)) ds"
    by (auto simp: list_all_iff chunk_sized_def)
  note c = snapshot_manifest_newD [OF new len(1)] and d = snapshot_manifest_newD [OF new' len(2)]
  have lens: "length cs = length ds" using c(2) d(2) by simp
  let ?sum = "\<lambda>hdr cs. manifest_summary_preimage blake3 hdr (word_of_nat (length cs)) (blake3 (chunk_digests_preimage cs))"
  have "blake3 (?sum hdr cs) = blake3 (?sum hdr' ds)"
    using c(4) d(4) by (simp add: digest_manifest_summary_def)
  then have "?sum hdr cs = ?sum hdr' ds"
    by (rule inj_onD [OF inj]) (simp_all add: manifest_preimages_def)
  then have h: "sh_snapshot_id hdr = sh_snapshot_id hdr'" "sh_applied_index hdr = sh_applied_index hdr'"
    "sh_format_version hdr = sh_format_version hdr'"
    "blake3 (identity_preimage (sh_source_binding hdr)) = blake3 (identity_preimage (sh_source_binding hdr'))"
    "blake3 (chunk_digests_preimage cs) = blake3 (chunk_digests_preimage ds)"
    by (simp_all add: summary_preimage_inj identity_digest_def)
  have "identity_preimage (sh_source_binding hdr) = identity_preimage (sh_source_binding hdr')"
    by (rule inj_onD [OF inj h(4)]) (simp_all add: manifest_preimages_def)
  then have "sh_source_binding hdr = sh_source_binding hdr'"
    using identity_preimage_inj sized(2,3) by (simp add: header_sized_def)
  with h(1-3) have "hdr = hdr'" by simp
  moreover have "chunk_digests_preimage cs = chunk_digests_preimage ds"
    by (rule inj_onD [OF inj h(5)]) (simp_all add: manifest_preimages_def)
  then have digs: "map ck_digest cs = map ck_digest ds"
    by (rule chunk_digests_preimage_inj [OF lens])
  have "cs = ds"
  proof (rule nth_equalityI [OF lens])
    fix i
    assume i: "i < length cs"
    then have "ck_digest (cs ! i) = ck_digest (ds ! i)" using digs lens by (metis nth_map)
    moreover have mem: "cs ! i \<in> set cs" "ds ! i \<in> set ds" using i lens by simp_all
    then have "chunk_sized (cs ! i)" "chunk_sized (ds ! i)" using sized(1) by (simp_all add: list_all_iff)
    moreover have "snapshot_chunk_validate blake3 (cs ! i) = Inr ()"
      "snapshot_chunk_validate blake3 (ds ! i) = Inr ()" using c(5) d(5) i lens by simp_all
    ultimately show "cs ! i = ds ! i"
      using mem by (intro chunk_digest_eq [OF _ _ _ _ _ inj]) (auto simp: manifest_preimages_def)
  qed
  ultimately show ?thesis by blast
qed

theorem manifest_determines_snapshot_witness:
  "inj_on length_hash (set (manifest_preimages length_hash example_header example_chunks)) \<and>
     example_header = example_header \<and> example_chunks = example_chunks"
proof -
  have sized: "list_all chunk_sized (example_chunks @ example_chunks)" "header_sized example_header"
    by (simp_all add: example_chunks_def chunk_sized_def len_ok_def header_sized_def example_header_def
        example_binding_def binding_sized_def)
  have inj: "inj_on length_hash (set (manifest_preimages length_hash example_header example_chunks))"
    by (simp add: manifest_preimages_def inj_on_def length_hash_def manifest_summary_preimage_def
        chunk_digests_preimage_def identity_preimage_def chunk_preimage_def example_header_def
        example_chunks_def example_binding_def encode_string_def)
  then have "inj_on length_hash (set (manifest_preimages length_hash example_header example_chunks @
      manifest_preimages length_hash example_header example_chunks))" by simp
  from manifest_determines_snapshot [OF example_manifest example_manifest sized(1) sized(2) sized(2) this] inj
  show ?thesis by blast
qed

end
