(* ===== verification/Consensus.thy ===== *)
theory Consensus
  imports Snapshot
begin

text \<open>
  The consensus store: the entry and metadata types of \<^verbatim>\<open>dtg-storage/src/consensus.rs\<close> and
  their implementation on the embedded key-value store in
  \<^verbatim>\<open>dtg-storage-fjall/src/consensus.rs\<close>.  The key-value library and the byte codec of stored
  rows are external: a keyspace holds the rows themselves, and whether a write succeeds is drawn
  from a schedule \<open>fc_faults\<close> that the theorems quantify over.  A failed batch changes nothing.
\<close>

section \<open>Entries and metadata\<close>

record command_envelope =
  en_format_version :: u32
  en_payload :: "byte list"
  en_digest :: digest32

definition command_envelope_new ::
    "(byte list \<Rightarrow> digest32) \<Rightarrow> u32 \<Rightarrow> byte list \<Rightarrow> (storage_error, command_envelope) result" where
  "command_envelope_new blake3 v payload =
     (if v \<noteq> 1 \<or> payload = []
      then Inl (InvalidConsensus ''unsupported or empty consensus command envelope'')
      else Inr \<lparr>en_format_version = v, en_payload = payload,
                en_digest = blake3 (str_bytes ''dtg-consensus-command-envelope-v1'' @ u32_be v @
                  len_be (length payload) @ payload)\<rparr>)"

record consensus_entry =
  ce_wal_format_version :: u32
  ce_term :: u64
  ce_index :: u64
  ce_command_id :: command_id
  ce_command_digest :: digest32
  ce_command :: command_envelope

definition consensus_entry_new ::
    "u32 \<Rightarrow> u64 \<Rightarrow> u64 \<Rightarrow> command_id \<Rightarrow> command_envelope \<Rightarrow> (storage_error, consensus_entry) result" where
  "consensus_entry_new v term index cid command =
     (if v \<noteq> 1 \<or> term = 0 \<or> index = 0
      then Inl (InvalidConsensus ''unsupported consensus WAL format or incomplete entry identity'')
      else Inr \<lparr>ce_wal_format_version = v, ce_term = term, ce_index = index, ce_command_id = cid,
                ce_command_digest = en_digest command, ce_command = command\<rparr>)"

record raft_hard_state =
  hs_current_term :: u64
  hs_voted_for :: "replica_id option"
  hs_committed_index :: u64

definition hard_state_default :: raft_hard_state where
  "hard_state_default = \<lparr>hs_current_term = 0, hs_voted_for = None, hs_committed_index = 0\<rparr>"

record raft_membership =
  mem_voters :: "replica_id list"
  mem_learners :: "replica_id list"
  mem_configuration_index :: u64

record consensus_snapshot_metadata =
  csm_snapshot_id :: u128
  csm_last_included_term :: u64
  csm_last_included_index :: u64
  csm_content_digest :: digest32

record snapshot_install =
  si_candidate :: candidate_receipt
  si_active_binding :: replica_binding
  si_hard_state :: raft_hard_state
  si_membership :: raft_membership
  si_metadata :: consensus_snapshot_metadata

definition snapshot_install_new ::
    "candidate_receipt \<Rightarrow> replica_binding \<Rightarrow> raft_hard_state \<Rightarrow> raft_membership
      \<Rightarrow> consensus_snapshot_metadata \<Rightarrow> (storage_error, snapshot_install) result" where
  "snapshot_install_new c active hs mem md =
     try_r (activation_receipt_new c active) (\<lambda>_.
       if rb_role (cd_candidate_binding c) \<noteq> Candidate \<or> rb_role active \<noteq> Active
          \<or> csm_snapshot_id md \<noteq> ident128_get (sh_snapshot_id (cd_header c))
          \<or> csm_last_included_index md \<noteq> sh_applied_index (cd_header c)
          \<or> csm_content_digest md \<noteq> sm_content_digest (cd_manifest c)
          \<or> csm_last_included_term md = 0
          \<or> hs_current_term hs < csm_last_included_term md
          \<or> hs_committed_index hs < csm_last_included_index md
          \<or> length (filter (\<lambda>r. r = rb_replica_id active) (mem_voters mem @ mem_learners mem)) \<noteq> 1
       then Inl (InvalidConsensus ''snapshot install journal is inconsistent'')
       else Inr \<lparr>si_candidate = c, si_active_binding = active, si_hard_state = hs,
                 si_membership = mem, si_metadata = md\<rparr>)"

section \<open>The store\<close>

record fjall_consensus =
  fc_binding :: replica_binding
  fc_owner :: "replica_binding option"
  fc_raft_log :: "(u64, consensus_entry) bmap"
  fc_hard_state :: "raft_hard_state option"
  fc_membership :: "raft_membership option"
  fc_snapshot :: "consensus_snapshot_metadata option"
  fc_install :: "snapshot_install option"
  fc_faults :: "storage_error option list"

type_synonym 'a store_op = "(fjall_consensus, storage_error, 'a) eff"

text \<open>One write of the key-value library: it takes effect whole or reports an error.\<close>

definition fjall_commit :: "(fjall_consensus \<Rightarrow> fjall_consensus) \<Rightarrow> unit store_op" where
  "fjall_commit f s =
     (case fc_faults s of
        [] \<Rightarrow> (Inr (), f s)
      | None # fs \<Rightarrow> (Inr (), f (s\<lparr>fc_faults := fs\<rparr>))
      | Some e # fs \<Rightarrow> (Inl e, s\<lparr>fc_faults := fs\<rparr>))"

definition ensure_binding :: "unit store_op" where
  "ensure_binding s =
     (case fc_owner s of
        None \<Rightarrow> (Inl (Internal ''missing namespace owner''), s)
      | Some actual \<Rightarrow>
          if actual = fc_binding s then (Inr (), s)
          else (Inl (NamespaceOwnerMismatch actual (fc_binding s)), s))"

definition sat_succ :: "u64 \<Rightarrow> u64" where
  "sat_succ x = (if x = - 1 then x else x + 1)"

fun contiguous :: "u64 list \<Rightarrow> bool" where
  "contiguous (i # j # xs) = (j = sat_succ i \<and> contiguous (j # xs))"
| "contiguous _ = True"

definition load_log :: "fjall_consensus \<Rightarrow> (storage_error, (u64, consensus_entry) bmap) result" where
  "load_log s =
     (if \<not> list_all (\<lambda>p. ce_index (snd p) = fst p) (fc_raft_log s)
      then Inl (InvalidConsensus ''stored consensus log identity is malformed'')
      else if \<not> contiguous (map fst (fc_raft_log s))
      then Inl (InvalidConsensus ''stored consensus log is discontiguous'')
      else Inr (fc_raft_log s))"

text \<open>The first entry that the stored log does not already hold.\<close>

primrec find_conflict :: "(u64, consensus_entry) bmap \<Rightarrow> consensus_entry list \<Rightarrow> u64 option" where
  "find_conflict stored [] = None"
| "find_conflict stored (e # es) =
     (if map_of stored (ce_index e) = Some e then find_conflict stored es else Some (ce_index e))"

definition replace_suffix ::
    "u64 \<Rightarrow> consensus_entry list \<Rightarrow> (u64, consensus_entry) bmap \<Rightarrow> (u64, consensus_entry) bmap" where
  "replace_suffix conflict es m =
     fold (\<lambda>e. bm_insert (ce_index e) e) (filter (\<lambda>e. conflict \<le> ce_index e) es)
       (filter (\<lambda>p. fst p < conflict) m)"

definition append_entries :: "consensus_entry list \<Rightarrow> unit store_op" where
  "append_entries es = eff_bind ensure_binding (\<lambda>_ s.
     if \<not> contiguous (map ce_index es)
     then (Inl (InvalidConsensus ''consensus append entries must be contiguous''), s)
     else if es = [] then (Inr (), s)
     else case load_log s of
       Inl e \<Rightarrow> (Inl e, s)
     | Inr stored \<Rightarrow>
         if stored \<noteq> [] \<and> (ce_index (hd es) < fst (hd stored) \<or>
              sat_succ (fst (last stored)) < ce_index (hd es))
         then (Inl (InvalidConsensus ''consensus append would create a discontiguous log''), s)
         else case find_conflict stored es of
           None \<Rightarrow> (Inr (), s)
         | Some conflict \<Rightarrow>
             if stored \<noteq> [] \<and> sat_succ (fst (last stored)) < conflict
             then (Inl (InvalidConsensus ''consensus append would create a log gap''), s)
             else fjall_commit (\<lambda>s. s\<lparr>fc_raft_log := replace_suffix conflict es (fc_raft_log s)\<rparr>) s)"

text \<open>The scan of \<open>entries\<close>; \<open>entry_size\<close> is the length of a stored row.\<close>

fun scan_entries ::
    "(consensus_entry \<Rightarrow> u64) \<Rightarrow> u64 \<Rightarrow> u64 \<Rightarrow> u64 option \<Rightarrow> (u64, consensus_entry) bmap
      \<Rightarrow> (storage_error, consensus_entry list) result" where
  "scan_entries entry_size max_bytes used previous [] = Inr []"
| "scan_entries entry_size max_bytes used previous ((index, entry) # rows) =
     (let size = entry_size entry in
      if max_bytes < (case u64_add used size of None \<Rightarrow> - 1 | Some t \<Rightarrow> t) then Inr []
      else if ce_index entry \<noteq> index \<or> (case previous of None \<Rightarrow> False | Some p \<Rightarrow> index \<noteq> p + 1)
      then Inl (InvalidConsensus ''stored consensus log is malformed or discontiguous'')
      else try_r (scan_entries entry_size max_bytes (used + size) (Some index) rows)
             (\<lambda>es. Inr (entry # es)))"

definition log_entries ::
    "(consensus_entry \<Rightarrow> u64) \<Rightarrow> u64 \<Rightarrow> u64 \<Rightarrow> u64 \<Rightarrow> consensus_entry list store_op" where
  "log_entries entry_size low high max_bytes = eff_bind ensure_binding (\<lambda>_ s.
     if high < low \<or> max_bytes = 0
     then (Inl (InvalidConsensus ''invalid consensus entry range''), s)
     else (scan_entries entry_size max_bytes 0 None
             (filter (\<lambda>p. low \<le> fst p \<and> fst p < high) (fc_raft_log s)), s))"

definition truncate_suffix :: "u64 \<Rightarrow> unit store_op" where
  "truncate_suffix from_index = eff_bind ensure_binding (\<lambda>_ s.
     if from_index = 0
     then (Inl (InvalidConsensus ''consensus truncation index must be nonzero''), s)
     else fjall_commit (\<lambda>s. s\<lparr>fc_raft_log := filter (\<lambda>p. fst p < from_index) (fc_raft_log s)\<rparr>) s)"

definition hard_state :: "raft_hard_state store_op" where
  "hard_state = eff_bind ensure_binding (\<lambda>_ s.
     (Inr (case fc_hard_state s of None \<Rightarrow> hard_state_default | Some v \<Rightarrow> v), s))"

text \<open>The setters write the row and then flush the journal; either may fail.\<close>

definition set_hard_state :: "raft_hard_state \<Rightarrow> unit store_op" where
  "set_hard_state v = eff_bind ensure_binding (\<lambda>_.
     eff_bind (fjall_commit (\<lambda>s. s\<lparr>fc_hard_state := Some v\<rparr>)) (\<lambda>_. fjall_commit id))"

definition membership :: "raft_membership store_op" where
  "membership = eff_bind ensure_binding (\<lambda>_ s. (ok_or (fc_membership s) NotFound, s))"

definition set_membership :: "raft_membership \<Rightarrow> unit store_op" where
  "set_membership v = eff_bind ensure_binding (\<lambda>_.
     eff_bind (fjall_commit (\<lambda>s. s\<lparr>fc_membership := Some v\<rparr>)) (\<lambda>_. fjall_commit id))"

definition snapshot_metadata :: "consensus_snapshot_metadata option store_op" where
  "snapshot_metadata = eff_bind ensure_binding (\<lambda>_ s. (Inr (fc_snapshot s), s))"

definition set_snapshot_metadata :: "consensus_snapshot_metadata \<Rightarrow> unit store_op" where
  "set_snapshot_metadata v = eff_bind ensure_binding (\<lambda>_.
     eff_bind (fjall_commit (\<lambda>s. s\<lparr>fc_snapshot := Some v\<rparr>)) (\<lambda>_. fjall_commit id))"

definition snapshot_install_journal :: "snapshot_install option store_op" where
  "snapshot_install_journal = eff_bind ensure_binding (\<lambda>_ s. (Inr (fc_install s), s))"

definition same_replica_generation :: "replica_binding \<Rightarrow> replica_binding \<Rightarrow> bool" where
  "same_replica_generation a b \<longleftrightarrow>
     rb_cluster_id a = rb_cluster_id b \<and> rb_graph_id a = rb_graph_id b \<and>
     rb_shard_id a = rb_shard_id b \<and> rb_replica_id a = rb_replica_id b \<and>
     rb_placement_epoch a = rb_placement_epoch b \<and>
     rb_backend_generation a = rb_backend_generation b"

definition stage_snapshot_install :: "snapshot_install \<Rightarrow> unit store_op" where
  "stage_snapshot_install i = eff_bind ensure_binding (\<lambda>_ s.
     if \<not> same_replica_generation (si_active_binding i) (fc_binding s)
     then (Inl (InvalidConsensus ''snapshot install journal binding differs from consensus owner''), s)
     else case fc_install s of
       Some existing \<Rightarrow>
         if existing = i then (Inr (), s)
         else (Inl (InvalidConsensus ''a different snapshot install is already staged''), s)
     | None \<Rightarrow>
         eff_bind (fjall_commit (\<lambda>s. s\<lparr>fc_install := Some i\<rparr>)) (\<lambda>_. fjall_commit id) s)"

definition commit_snapshot_install :: "snapshot_install \<Rightarrow> unit store_op" where
  "commit_snapshot_install i = eff_bind ensure_binding (\<lambda>_ s.
     if \<not> same_replica_generation (si_active_binding i) (fc_binding s)
     then (Inl (InvalidConsensus ''snapshot install commit binding differs from consensus owner''), s)
     else case fc_install s of
       None \<Rightarrow> (Inl (InvalidConsensus ''snapshot install commit has no staged journal''), s)
     | Some staged \<Rightarrow>
         if staged \<noteq> i
         then (Inl (InvalidConsensus ''snapshot install commit differs from staged journal''), s)
         else fjall_commit (\<lambda>s. s\<lparr>fc_membership := Some (si_membership i),
                fc_snapshot := Some (si_metadata i), fc_hard_state := Some (si_hard_state i),
                fc_install := None\<rparr>) s)"

section \<open>Contiguous logs\<close>

definition wf_log :: "(u64, consensus_entry) bmap \<Rightarrow> bool" where
  "wf_log m \<longleftrightarrow> bm_ok m \<and> list_all (\<lambda>p. ce_index (snd p) = fst p) m \<and> contiguous (map fst m)"

lemma sat_succ_less: "x \<noteq> - 1 \<Longrightarrow> x < sat_succ x"
  by (simp add: sat_succ_def word_succ_less)

lemma sat_succ_le: "x < y \<Longrightarrow> sat_succ x \<le> y"
proof -
  assume "x < y"
  moreover from this have "x \<noteq> - 1" using word_n1_ge [of y] by (auto simp: not_le [symmetric])
  ultimately show ?thesis
    by (simp add: sat_succ_def word_less_nat_alt word_le_nat_alt unat_succ_word)
qed

lemma contiguous_Cons:
  "contiguous (x # xs) \<longleftrightarrow> contiguous xs \<and> (xs \<noteq> [] \<longrightarrow> hd xs = sat_succ x)"
  by (cases xs) auto

lemma contiguous_append:
  "contiguous (xs @ ys) \<longleftrightarrow>
     contiguous xs \<and> contiguous ys \<and> (xs \<noteq> [] \<longrightarrow> ys \<noteq> [] \<longrightarrow> hd ys = sat_succ (last xs))"
  by (induction xs) (auto simp: contiguous_Cons)

lemma contiguous_sorted: "contiguous xs \<Longrightarrow> \<forall>x \<in> set xs. x \<noteq> - 1 \<Longrightarrow> sorted_wrt (<) xs"
proof (induction xs rule: contiguous.induct)
  case (1 i j xs)
  then have "i < j" "sorted_wrt (<) (j # xs)" by (auto simp: sat_succ_less)
  then show ?case by (auto intro: less_trans)
qed auto

lemma contiguous_gapless:
  "contiguous xs \<Longrightarrow> sorted_wrt (<) xs \<Longrightarrow> xs \<noteq> [] \<Longrightarrow> hd xs \<le> x \<Longrightarrow> x \<le> last xs \<Longrightarrow> x \<in> set xs"
proof (induction xs rule: contiguous.induct)
  case (1 i j xs)
  show ?case
  proof (cases "x = i")
    case False
    with 1 have "j \<le> x" using sat_succ_le [of i x] by auto
    with 1 show ?thesis by auto
  qed simp
qed auto

lemma sorted_filter_less:
  "sorted_wrt (<) xs \<Longrightarrow> filter (\<lambda>x. x < (c :: 'a::linorder)) xs = takeWhile (\<lambda>x. x < c) xs"
proof (induction xs)
  case (Cons x xs)
  have "filter (\<lambda>y. y < c) xs = []" if "\<not> x < c" using that Cons.prems by (fastforce simp: filter_empty_conv)
  with Cons show ?case by simp
qed simp

lemma sorted_last_max: "sorted_wrt (<) xs \<Longrightarrow> x \<in> set xs \<Longrightarrow> x \<le> last (xs :: 'a::linorder list)"
  by (induction xs) (auto dest: last_in_set split: if_splits intro: less_imp_le)

lemma sorted_hd_min: "sorted_wrt (<) xs \<Longrightarrow> x \<in> set xs \<Longrightarrow> hd xs \<le> (x :: 'a::linorder)"
  by (cases xs) (auto intro: less_imp_le)

text \<open>Cutting a contiguous log below an index within reach leaves it ending right before it.\<close>

lemma contiguous_cut:
  assumes xs: "contiguous xs" "sorted_wrt (<) xs" "xs \<noteq> []" and c: "hd xs \<le> c" "c \<le> sat_succ (last xs)"
    and l: "filter (\<lambda>x. x < c) xs \<noteq> []"
  shows "contiguous (filter (\<lambda>x. x < c) xs)" "c = sat_succ (last (filter (\<lambda>x. x < c) xs))"
proof -
  let ?l = "last (filter (\<lambda>x. x < c) xs)"
  from xs(2) obtain ys where "xs = filter (\<lambda>x. x < c) xs @ ys"
    by (metis sorted_filter_less takeWhile_dropWhile_id)
  with xs(1) show "contiguous (filter (\<lambda>x. x < c) xs)" by (metis contiguous_append)
  from last_in_set [OF l] have in_xs: "?l \<in> set xs" and less: "?l < c" by auto
  have "\<not> sat_succ ?l < c"
  proof
    assume lt: "sat_succ ?l < c"
    from less have neq: "?l \<noteq> - 1" using word_n1_ge [of c] by (auto simp: not_le [symmetric])
    have le: "sat_succ ?l \<le> last xs"
    proof (cases "?l = last xs")
      case True
      with lt c(2) show ?thesis by simp
    next
      case False
      with sorted_last_max [OF xs(2) in_xs] show ?thesis by (intro sat_succ_le) simp
    qed
    have "hd xs \<le> ?l" by (rule sorted_hd_min [OF xs(2) in_xs])
    then have "hd xs \<le> sat_succ ?l" using sat_succ_less [OF neq] by simp
    with contiguous_gapless [OF xs] le lt have "sat_succ ?l \<in> set (filter (\<lambda>x. x < c) xs)" by simp
    moreover have "sorted_wrt (<) (filter (\<lambda>x. x < c) xs)" using xs(2) by (simp add: sorted_wrt_filter)
    ultimately show False using sorted_last_max sat_succ_less [OF neq] by (metis not_less)
  qed
  with sat_succ_le [OF less] show "c = sat_succ ?l" by simp
qed

section \<open>Appending\<close>

lemma find_conflict_Some:
  "find_conflict m es = Some c \<Longrightarrow>
     \<exists>pre e post. es = pre @ e # post \<and> c = ce_index e \<and> (\<forall>x \<in> set pre. map_of m (ce_index x) = Some x)"
proof (induction es)
  case (Cons x es)
  show ?case
  proof (cases "map_of m (ce_index x) = Some x")
    case True
    with Cons obtain pre e post where "es = pre @ e # post" "c = ce_index e"
      "\<forall>x \<in> set pre. map_of m (ce_index x) = Some x" by auto
    with True have "x # es = (x # pre) @ e # post \<and> c = ce_index e \<and>
        (\<forall>y \<in> set (x # pre). map_of m (ce_index y) = Some y)" by simp
    then show ?thesis by blast
  next
    case False
    with Cons.prems show ?thesis by (intro exI [of _ "[]"]) auto
  qed
qed simp

lemma find_conflict_None:
  "find_conflict m es = None \<longleftrightarrow> (\<forall>e \<in> set es. map_of m (ce_index e) = Some e)"
  by (induction es) auto

lemma fold_insert_sorted:
  "sorted_wrt (<) (map ce_index es) \<Longrightarrow> \<forall>e \<in> set es. \<forall>p \<in> set m. fst p < ce_index e \<Longrightarrow>
     fold (\<lambda>e. bm_insert (ce_index e) e) es m = m @ map (\<lambda>e. (ce_index e, e)) es"
proof (induction es arbitrary: m)
  case (Cons e es)
  then have "bm_insert (ce_index e) e m = m @ [(ce_index e, e)]" by (intro bm_insert_last) auto
  with Cons show ?case by auto
qed simp

lemma replace_suffix_eq:
  assumes sorted: "sorted_wrt (<) (map ce_index (pre @ e # post))"
  shows "replace_suffix (ce_index e) (pre @ e # post) m =
     filter (\<lambda>p. fst p < ce_index e) m @ map (\<lambda>e. (ce_index e, e)) (e # post)"
proof -
  have "filter (\<lambda>x. ce_index e \<le> ce_index x) (pre @ e # post) = e # post"
    using sorted by (auto simp: sorted_wrt_append filter_empty_conv not_le intro!: filter_True less_imp_le)
  then have "replace_suffix (ce_index e) (pre @ e # post) m =
      fold (\<lambda>e. bm_insert (ce_index e) e) (e # post) (filter (\<lambda>p. fst p < ce_index e) m)"
    by (simp only: replace_suffix_def)
  also have "\<dots> = filter (\<lambda>p. fst p < ce_index e) m @ map (\<lambda>e. (ce_index e, e)) (e # post)"
    by (rule fold_insert_sorted) (use sorted in \<open>auto simp: sorted_wrt_append intro: less_trans\<close>)
  finally show ?thesis .
qed

lemma wf_log_sorted: "wf_log m \<Longrightarrow> sorted_wrt (<) (map fst m)"
  by (simp add: wf_log_def bm_ok_def)

lemma filter_keys: "map fst (filter (\<lambda>p. fst p < c) m) = filter (\<lambda>x. x < c) (map fst m)"
  by (simp add: filter_map comp_def)

lemma wf_log_replace:
  assumes m: "wf_log m" and es: "contiguous (map ce_index es)" "\<forall>e \<in> set es. ce_index e \<noteq> - 1"
    and split: "es = pre @ e # post"
    and reach: "m \<noteq> [] \<Longrightarrow> fst (hd m) \<le> ce_index e \<and> ce_index e \<le> sat_succ (fst (last m))"
  shows "wf_log (replace_suffix (ce_index e) es m)"
proof -
  have sorted: "sorted_wrt (<) (map ce_index es)" using contiguous_sorted es by auto
  let ?keep = "filter (\<lambda>p. fst p < ce_index e) m"
  have eq: "replace_suffix (ce_index e) es m = ?keep @ map (\<lambda>e. (ce_index e, e)) (e # post)"
    unfolding split by (rule replace_suffix_eq [OF sorted [unfolded split]])
  have keys: "map fst ?keep = filter (\<lambda>x. x < ce_index e) (map fst m)" by (rule filter_keys)
  have tail: "contiguous (map ce_index (e # post))" using es(1) split by (simp add: contiguous_append)
  have cut: "contiguous (map fst ?keep) \<and> (?keep \<noteq> [] \<longrightarrow> ce_index e = sat_succ (last (map fst ?keep)))"
  proof (cases "?keep = []")
    case False
    then have "m \<noteq> []" and f: "filter (\<lambda>x. x < ce_index e) (map fst m) \<noteq> []" using keys by auto
    with contiguous_cut [OF _ wf_log_sorted [OF m] _ _ _ f] reach m keys show ?thesis
      by (simp add: wf_log_def hd_map last_map)
  qed simp
  have "contiguous (map fst (?keep @ map (\<lambda>e. (ce_index e, e)) (e # post)))"
    using cut tail by (simp add: contiguous_append comp_def)
  moreover have "bm_ok (?keep @ map (\<lambda>e. (ce_index e, e)) (e # post))"
    using wf_log_sorted [OF m] sorted split
    by (auto simp: bm_ok_def sorted_wrt_append sorted_wrt_map sorted_wrt_filter comp_def intro: less_trans)
  moreover have "list_all (\<lambda>p. ce_index (snd p) = fst p) (?keep @ map (\<lambda>e. (ce_index e, e)) (e # post))"
    using m by (auto simp: wf_log_def list_all_iff)
  ultimately show ?thesis unfolding wf_log_def eq by blast
qed

lemma map_of_filter_less:
  "map_of (filter (\<lambda>p. fst p < c) m) i = (if i < c then map_of m i else None)"
  by (induction m) auto

lemma map_of_entries:
  "distinct (map ce_index es) \<Longrightarrow> e \<in> set es \<Longrightarrow> map_of (map (\<lambda>e. (ce_index e, e)) es) (ce_index e) = Some e"
  by (rule map_of_is_SomeI) (auto simp: comp_def)

lemma replace_suffix_lookup:
  assumes sorted: "sorted_wrt (<) (map ce_index es)" and split: "es = pre @ e # post"
    and pre: "\<forall>x \<in> set pre. map_of m (ce_index x) = Some x"
  shows "x \<in> set es \<Longrightarrow> map_of (replace_suffix (ce_index e) es m) (ce_index x) = Some x"
    "i < ce_index e \<Longrightarrow> map_of (replace_suffix (ce_index e) es m) i = map_of m i"
    "ce_index e \<le> i \<Longrightarrow> map_of (replace_suffix (ce_index e) es m) i \<noteq> None \<Longrightarrow> i \<in> ce_index ` set es"
proof -
  let ?keep = "filter (\<lambda>p. fst p < ce_index e) m"
  have eq: "replace_suffix (ce_index e) es m = ?keep @ map (\<lambda>e. (ce_index e, e)) (e # post)"
    unfolding split by (rule replace_suffix_eq [OF sorted [unfolded split]])
  have above: "ce_index e \<le> ce_index y" if "y \<in> set (e # post)" for y
    using that sorted split by (auto simp: sorted_wrt_append intro: less_imp_le)
  have none: "map_of (map (\<lambda>e. (ce_index e, e)) (e # post)) i = None" if "i < ce_index e" for i
    using above that by (force simp: map_of_eq_None_iff)
  have below: "ce_index y < ce_index e" if "y \<in> set pre" for y
    using that sorted split by (auto simp: sorted_wrt_append)
  have dist: "distinct (map ce_index (e # post))"
    using sorted split by (auto simp: sorted_wrt_append strict_sorted_iff)
  show "map_of (replace_suffix (ce_index e) es m) (ce_index x) = Some x" if x: "x \<in> set es"
  proof (cases "x \<in> set pre")
    case True
    with below [OF True] pre show ?thesis by (simp add: eq map_add_def map_of_filter_less)
  next
    case False
    with x split have "x \<in> set (e # post)" by auto
    moreover from above [OF this] have "map_of ?keep (ce_index x) = None"
      by (simp add: map_of_filter_less not_less)
    ultimately show ?thesis
      using map_of_entries [OF dist] by (simp only: eq map_of_append map_add_def option.simps)
  qed
  show "map_of (replace_suffix (ce_index e) es m) i = map_of m i" if "i < ce_index e"
    using none [OF that] that
    by (simp only: eq map_of_append map_add_def map_of_filter_less if_True split: option.splits) simp
  show "i \<in> ce_index ` set es" if "ce_index e \<le> i" "map_of (replace_suffix (ce_index e) es m) i \<noteq> None"
  proof -
    have "map_of ?keep i = None" using that(1) by (simp add: map_of_filter_less not_less)
    with that(2) have "map_of (map (\<lambda>e. (ce_index e, e)) (e # post)) i \<noteq> None"
      by (simp only: eq map_of_append map_add_def option.simps not_False_eq_True)
    then have "i \<in> ce_index ` set (e # post)" by (simp only: map_of_eq_None_iff) (simp add: image_image)
    with split show ?thesis by auto
  qed
qed

lemma fjall_commit_cases:
  assumes "fjall_commit f s = (r, s')"
  obtains fs where "r = Inr ()" "s' = f (s\<lparr>fc_faults := fs\<rparr>)"
  | e fs where "r = Inl e" "s' = s\<lparr>fc_faults := fs\<rparr>"
proof (cases "fc_faults s")
  case Nil
  then have "s\<lparr>fc_faults := []\<rparr> = s" by (cases s) simp
  with Nil assms that(1) [of "[]"] show ?thesis by (auto simp: fjall_commit_def)
next
  case (Cons a fs)
  with assms that show ?thesis by (cases a) (auto simp: fjall_commit_def)
qed

lemma ensure_binding_Inr [result_simps]:
  "ensure_binding s = (Inr u, s') \<longleftrightarrow> fc_owner s = Some (fc_binding s) \<and> s' = s"
  by (auto simp: ensure_binding_def split: option.splits)

lemma ensure_binding_Inl:
  "ensure_binding s = (Inl e, s') \<Longrightarrow> s' = s"
  by (auto simp: ensure_binding_def split: option.splits if_splits)

lemma load_log_wf [simp]: "wf_log (fc_raft_log s) \<Longrightarrow> load_log s = Inr (fc_raft_log s)"
  by (simp add: load_log_def wf_log_def)

text \<open>A scan without a byte limit returns the rows of a contiguous range.\<close>

lemma scan_all:
  assumes "list_all (\<lambda>p. ce_index (snd p) = fst p) m" and "contiguous (map fst m)"
    and "\<forall>p \<in> set m. fst p \<noteq> - 1"
    and "\<forall>p. prev = Some p \<longrightarrow> p \<noteq> - 1 \<and> (m \<noteq> [] \<longrightarrow> fst (hd m) = sat_succ p)"
  shows "scan_entries esize (- 1) used prev m = Inr (map snd m)"
  using assms
proof (induction m arbitrary: used prev)
  case (Cons p m)
  have rest: "scan_entries esize (- 1) (used + esize (snd p)) (Some (fst p)) m = Inr (map snd m)"
    using Cons.prems by (intro Cons.IH) (auto simp: contiguous_Cons hd_map)
  have "case prev of None \<Rightarrow> True | Some q \<Rightarrow> fst p = q + 1"
    using Cons.prems(4) by (auto simp: sat_succ_def split: option.splits)
  then show ?case
    using Cons.prems(1) rest by (cases p) (auto simp: Let_def split: option.splits)
qed simp

text \<open>The outcomes of an append to a well-formed log.\<close>

lemma append_entries_cases:
  assumes wf: "wf_log (fc_raft_log s)" and ap: "append_entries es s = (r, s')"
  obtains e fs where "r = Inl e" "s' = s\<lparr>fc_faults := fs\<rparr>"
  | "r = Inr ()" "s' = s" "contiguous (map ce_index es)"
    "\<forall>e \<in> set es. map_of (fc_raft_log s) (ce_index e) = Some e"
  | c fs where "r = Inr ()" "contiguous (map ce_index es)" "find_conflict (fc_raft_log s) es = Some c"
    "fc_raft_log s \<noteq> [] \<Longrightarrow> fst (hd (fc_raft_log s)) \<le> ce_index (hd es) \<and>
       c \<le> sat_succ (fst (last (fc_raft_log s)))"
    "s' = s\<lparr>fc_faults := fs, fc_raft_log := replace_suffix c es (fc_raft_log s)\<rparr>"
proof -
  let ?m = "fc_raft_log s"
  note out = that
  have fail: ?thesis if "append_entries es s = (Inl e, s)" for e
    using that ap by (intro out(1) [of e "fc_faults s"]) auto
  show ?thesis
  proof (cases "fc_owner s = Some (fc_binding s)")
    case False
    then have "\<exists>e. append_entries es s = (Inl e, s)"
      by (auto simp: append_entries_def eff_bind_app ensure_binding_def split: option.splits)
    with fail show ?thesis by blast
  next
    case owner: True
    then have eq: "append_entries es s =
       (if \<not> contiguous (map ce_index es)
        then (Inl (InvalidConsensus ''consensus append entries must be contiguous''), s)
        else if es = [] then (Inr (), s)
        else if ?m \<noteq> [] \<and> (ce_index (hd es) < fst (hd ?m) \<or> sat_succ (fst (last ?m)) < ce_index (hd es))
        then (Inl (InvalidConsensus ''consensus append would create a discontiguous log''), s)
        else case find_conflict ?m es of
           None \<Rightarrow> (Inr (), s)
         | Some conflict \<Rightarrow>
             if ?m \<noteq> [] \<and> sat_succ (fst (last ?m)) < conflict
             then (Inl (InvalidConsensus ''consensus append would create a log gap''), s)
             else fjall_commit (\<lambda>s. s\<lparr>fc_raft_log := replace_suffix conflict es (fc_raft_log s)\<rparr>) s)"
      using wf by (simp add: append_entries_def eff_bind_app ensure_binding_def)
    show ?thesis
    proof (cases "contiguous (map ce_index es) \<and> (es \<noteq> [] \<longrightarrow> ?m \<noteq> [] \<longrightarrow>
        \<not> (ce_index (hd es) < fst (hd ?m) \<or> sat_succ (fst (last ?m)) < ce_index (hd es)))")
      case False
      then have "\<exists>e. append_entries es s = (Inl e, s)" unfolding eq by auto
      with fail show ?thesis by blast
    next
      case ok: True
      show ?thesis
      proof (cases "find_conflict ?m es")
        case None
        with ok have "append_entries es s = (Inr (), s)" unfolding eq by auto
        with ap out(2) ok None show ?thesis by (simp add: find_conflict_None)
      next
        case (Some c)
        then have ne: "es \<noteq> []" by auto
        show ?thesis
        proof (cases "?m \<noteq> [] \<and> sat_succ (fst (last ?m)) < c")
          case True
          with ok ne Some have "\<exists>e. append_entries es s = (Inl e, s)" unfolding eq by auto
          with fail show ?thesis by blast
        next
          case False
          with ok ne Some ap
          have "fjall_commit (\<lambda>s. s\<lparr>fc_raft_log := replace_suffix c es (fc_raft_log s)\<rparr>) s = (r, s')"
            unfolding eq by auto
          then show ?thesis
          proof (cases rule: fjall_commit_cases)
            case (1 fs)
            with ok ne Some False show ?thesis by (intro out(3) [of c fs]) (auto simp: not_less)
          qed (rule out(1))
        qed
      qed
    qed
  qed
qed

lemma append_entries_wf:
  assumes wf: "wf_log (fc_raft_log s)" and max: "\<forall>e \<in> set es. ce_index e \<noteq> - 1"
    and ap: "append_entries es s = (r, s')"
  shows "wf_log (fc_raft_log s')"
  using wf ap
proof (cases rule: append_entries_cases)
  case (3 c fs)
  from find_conflict_Some [OF 3(3)] obtain pre e post where split: "es = pre @ e # post"
    and c: "c = ce_index e" by blast
  have "sorted_wrt (<) (map ce_index es)" using contiguous_sorted [OF 3(2)] max by simp
  then have "hd (map ce_index es) \<le> ce_index e" by (rule sorted_hd_min) (simp add: split)
  then have "ce_index (hd es) \<le> ce_index e" using split by (cases pre) auto
  then show ?thesis
    using wf_log_replace [OF wf 3(2) max split] 3(4,5) c by (auto intro: order_trans)
qed (use wf in auto)


definition example_entry :: "u64 \<Rightarrow> u64 \<Rightarrow> consensus_entry" where
  "example_entry term index =
     \<lparr>ce_wal_format_version = 1, ce_term = term, ce_index = index, ce_command_id = Ident128 1,
      ce_command_digest = 0,
      ce_command = \<lparr>en_format_version = 1, en_payload = [7], en_digest = 0\<rparr>\<rparr>"

definition example_store :: fjall_consensus where
  "example_store =
     \<lparr>fc_binding = example_binding, fc_owner = Some example_binding,
      fc_raft_log = [(1, example_entry 1 1), (2, example_entry 1 2), (3, example_entry 1 3)],
      fc_hard_state = None, fc_membership = None, fc_snapshot = None, fc_install = None,
      fc_faults = []\<rparr>"


end
