(* ===== verification/Timestamp_Log.thy ===== *)
theory Timestamp_Log
  imports Timestamp_Codec Timestamp_Safety
begin

text \<open>
  Batches and durability of the timestamp authority.  \<open>atomic_log\<close> is the contract of
  \<open>TimestampCommandLog\<close>; under it the in-memory state is at every moment the state that a
  restart would replay from the log.
\<close>

section \<open>Batches stage the operations in order\<close>

primrec ts_results ::
    "timestamp_state \<Rightarrow> timestamp_operation list \<Rightarrow> (txn_error, transaction_time) result list" where
  "ts_results st [] = []"
| "ts_results st (op # ops) =
     (case stage_operation st op of Inl e \<Rightarrow> Inl e | Inr (t, _, _) \<Rightarrow> Inr t) #
     ts_results (ts_step st op) ops"

text \<open>The commands a batch logs, and for each operation whether it logged one.\<close>

definition staged_command :: "timestamp_state \<Rightarrow> timestamp_operation \<Rightarrow> timestamp_command option" where
  "staged_command st op = (case stage_operation st op of Inr (_, c, _) \<Rightarrow> c | Inl _ \<Rightarrow> None)"

primrec ts_commands :: "timestamp_state \<Rightarrow> timestamp_operation list \<Rightarrow> timestamp_command option list" where
  "ts_commands st [] = []"
| "ts_commands st (op # ops) = staged_command st op # ts_commands (ts_step st op) ops"

definition somes :: "'a option list \<Rightarrow> 'a list" where
  "somes xs = map the (filter (\<lambda>x. x \<noteq> None) xs)"

definition some_positions :: "nat \<Rightarrow> 'a option list \<Rightarrow> nat list" where
  "some_positions k xs = map fst (filter (\<lambda>p. snd p \<noteq> None) (zip [k..<k + length xs] xs))"

lemma somes_simps [simp]:
  "somes [] = []" "somes (None # xs) = somes xs" "somes (Some x # xs) = x # somes xs"
  by (simp_all add: somes_def)

lemma somes_length: "length (somes xs) \<le> length xs"
  by (simp add: somes_def)

lemma some_positions_simps [simp]:
  "some_positions k [] = []"
  "some_positions k (None # xs) = some_positions (Suc k) xs"
  "some_positions k (Some x # xs) = k # some_positions (Suc k) xs"
  by (simp_all add: some_positions_def upt_conv_Cons del: upt_Suc)

lemma ts_results_length [simp]: "length (ts_results st ops) = length ops"
  by (induction ops arbitrary: st) auto

lemma ts_commands_length [simp]: "length (ts_commands st ops) = length ops"
  by (induction ops arbitrary: st) auto

lemma stage_one_simps:
  "stage_operation st op = Inl e \<Longrightarrow> stage_one h (st, cs, rs, ps) op = (st, cs, rs @ [Inl e], ps)"
  "stage_operation st op = Inr (t, None, st') \<Longrightarrow>
     stage_one h (st, cs, rs, ps) op = (st', cs, rs @ [Inr t], ps)"
  "stage_operation st op = Inr (t, Some c, st') \<Longrightarrow>
     stage_one h (st, cs, rs, ps) op =
       (st', cs @ [encode_command h c], rs @ [Inr t], ps @ [length rs])"
  by (simp_all add: stage_one_def)

lemma stage_batch:
  "foldl (stage_one h) (st, cs, rs, ps) ops =
     (ts_run st ops, cs @ map (encode_command h) (somes (ts_commands st ops)),
      rs @ ts_results st ops, ps @ some_positions (length rs) (ts_commands st ops))"
proof (induction ops arbitrary: st cs rs ps)
  case (Cons op ops)
  show ?case
  proof (cases "stage_operation st op")
    case (Inl e)
    then show ?thesis by (simp add: Cons.IH stage_one_simps ts_step_def staged_command_def)
  next
    case (Inr p)
    obtain t c st' where "p = (t, c, st')" by (cases p)
    with Inr show ?thesis
      by (cases c) (simp_all add: Cons.IH stage_one_simps ts_step_def staged_command_def)
  qed
qed simp

lemma fail_positions:
  "length rs = length cs \<Longrightarrow>
     fail_persisted e (pre @ rs) (some_positions (length pre) cs) =
       pre @ map2 (\<lambda>c r. if c = None then r else Inl e) cs rs"
proof (induction cs arbitrary: pre rs)
  case (Cons c cs)
  then obtain r rs' where rs: "rs = r # rs'" by (cases rs) auto
  with Cons.prems Cons.IH [of rs' "pre @ [r]"] Cons.IH [of rs' "pre @ [Inl e]"] show ?case
    by (cases c) (simp_all add: fail_persisted_def)
qed (simp add: fail_persisted_def)

lemma apply_batch_eq:
  "apply_batch h log ops (st, w) =
     (if somes (ts_commands st ops) \<noteq> [] then
        case tl_append_batch log (map (encode_command h) (somes (ts_commands st ops))) w of
          (Inl e, w') \<Rightarrow>
            (map2 (\<lambda>c r. if c = None then r else Inl e) (ts_commands st ops) (ts_results st ops), st, w')
        | (Inr _, w') \<Rightarrow> (ts_results st ops, ts_run st ops, w')
      else (ts_results st ops, st, w))"
  using fail_positions [of "ts_results st ops" "ts_commands st ops" _ "[]"]
  by (simp add: apply_batch_def stage_batch split: prod.splits sum.splits)

definition authority_run ::
    "(byte list \<Rightarrow> digest32) \<Rightarrow> 'w timestamp_log \<Rightarrow> timestamp_operation list list \<Rightarrow> timestamp_state \<times> 'w
      \<Rightarrow> timestamp_state \<times> 'w" where
  "authority_run h log batches sw = foldl (\<lambda>sw ops. snd (apply_batch h log ops sw)) sw batches"

section \<open>Replaying the logged commands\<close>

fun operation_ok :: "timestamp_operation \<Rightarrow> bool" where
  "operation_ok (OpAllocateStart tx) = ident128_ok tx"
| "operation_ok (OpReserveCommit tx) = ident128_ok tx"
| "operation_ok (OpResolveCommit tx _ _) = ident128_ok tx"

lemma staged_command_ok:
  assumes inv: "ts_inv st" and op: "operation_ok op" and c: "staged_command st op = Some c"
  shows "command_ok c"
proof -
  from c obtain t st' where st: "stage_operation st op = Inr (t, Some c, st')"
    by (auto simp: staged_command_def split: sum.splits)
  note bounds = ts_orderD(3-5) [OF inv] ts_orderD(3-5) [OF stage_operation_inv [OF inv st]]
  show ?thesis
  proof (cases op)
    case (OpAllocateStart tx)
    with st have "c = CmdAllocateStart tx t" and "map_of (start_times st') tx = Some t"
      using stage_allocate_recorded [of st tx t "Some c" st']
      by (auto simp: result_simps simp del: apply_command.simps split: option.splits)
    with OpAllocateStart op ts_startsD [OF stage_operation_inv [OF inv st], of tx t] bounds show ?thesis
      by (auto simp: command_ok_def time_ok_def)
  next
    case (OpReserveCommit tx)
    with st have "c = CmdReserveCommit tx t" "t = last_issued st + 1" "last_issued st < i64_max"
      by (auto simp: result_simps next_timestamp_def i64_succ_def transaction_time_new_def
          simp del: apply_command.simps split: option.splits if_splits)
    with OpReserveCommit op bounds show ?thesis by (simp add: command_ok_def time_ok_def)
  next
    case (OpResolveCommit tx u res)
    with st obtain r where "c = CmdResolveCommit tx u res" "map_of (reservations st) tx = Some r"
      "rsv_commit_time r = u"
      by (auto simp: result_simps simp del: apply_command.simps split: option.splits if_splits)
    with OpResolveCommit op ts_settledD(1,2) [OF inv] bounds show ?thesis
      by (fastforce simp: command_ok_def time_ok_def)
  qed
qed

lemma staged_command_step:
  "staged_command st op = Some c \<Longrightarrow> apply_command st c = Inr (ts_step st op)"
  "staged_command st op = None \<Longrightarrow> ts_step st op = st"
  by (auto simp: staged_command_def ts_step_def split: sum.splits
      dest: stage_operation_command stage_operation_no_command)

lemma replay_staged:
  assumes "ts_inv st" and "list_all operation_ok ops"
  shows "replay_commands h st (map (encode_command h) (somes (ts_commands st ops))) =
     Inr (ts_run st ops)"
  using assms
proof (induction ops arbitrary: st)
  case (Cons op ops)
  have step: "ts_inv (ts_step st op)"
    using ts_run_inv [OF Cons.prems(1), of "[op]"] by simp
  show ?case
  proof (cases "staged_command st op")
    case None
    with Cons.IH [OF step] Cons.prems(2) staged_command_step(2) [OF None] show ?thesis by simp
  next
    case (Some c)
    with Cons.prems have "command_ok c" by (auto intro: staged_command_ok)
    with Some Cons.IH [OF step] Cons.prems(2) staged_command_step(1) [OF Some] show ?thesis
      by (simp add: replay_commands_def decode_encode_command del: apply_command.simps)
  qed
qed (simp add: replay_commands_def)

lemma replay_append:
  "replay_commands h st (xs @ ys) = try_r (replay_commands h st xs) (\<lambda>st'. replay_commands h st' ys)"
  by (simp add: replay_commands_def try_fold_append)

section \<open>The log contract\<close>

text \<open>
  \<open>contents\<close> is what a restart would read from the log's world, \<open>wf\<close> the provider's own
  invariant: a batch is appended whole and in order, or not at all, and replay reads the contents.
\<close>

locale atomic_log =
  fixes log :: "'w timestamp_log" and contents :: "'w \<Rightarrow> byte list list" and wf :: "'w \<Rightarrow> bool"
  assumes append_all: "wf w \<Longrightarrow> cs \<noteq> [] \<Longrightarrow> [] \<notin> set cs \<Longrightarrow> len_ok cs \<Longrightarrow>
      tl_append_batch log cs w = (Inr u, w') \<Longrightarrow> wf w' \<and> contents w' = contents w @ cs"
    and append_none: "wf w \<Longrightarrow> cs \<noteq> [] \<Longrightarrow> [] \<notin> set cs \<Longrightarrow> len_ok cs \<Longrightarrow>
      tl_append_batch log cs w = (Inl e, w') \<Longrightarrow> wf w' \<and> contents w' = contents w"
    and replay_reads: "wf w \<Longrightarrow> tl_replay log w = (Inr bss, w') \<Longrightarrow> bss = contents w \<and> w' = w"
begin

text \<open>The state in memory is the one a restart would rebuild.\<close>

definition durable :: "(byte list \<Rightarrow> digest32) \<Rightarrow> timestamp_state \<times> 'w \<Rightarrow> bool" where
  "durable h sw \<longleftrightarrow> wf (snd sw) \<and> ts_inv (fst sw) \<and>
     replay_commands h timestamp_state_default (contents (snd sw)) = Inr (fst sw)"

lemma apply_batch_durable:
  assumes dur: "durable h (st, w)" and ops: "list_all operation_ok ops" "len_ok ops"
    and ap: "apply_batch h log ops (st, w) = (rs, st', w')"
  shows "durable h (st', w')"
proof (cases "somes (ts_commands st ops) = []")
  case True
  with dur ap show ?thesis by (simp add: apply_batch_eq)
next
  case False
  let ?cs = "map (encode_command h) (somes (ts_commands st ops))"
  from dur have wf: "wf w" and inv: "ts_inv st"
    and old: "replay_commands h timestamp_state_default (contents w) = Inr st"
    by (simp_all add: durable_def)
  have "[] \<noteq> encode_command h c" for c using encode_command_length [of h c] by auto
  with False have cs: "?cs \<noteq> []" "[] \<notin> set ?cs" by auto
  have len: "len_ok ?cs" using somes_length [of "ts_commands st ops"] ops(2) by (simp add: len_ok_def)
  show ?thesis
  proof (cases "tl_append_batch log ?cs w")
    case (Pair r v)
    show ?thesis
    proof (cases r)
      case (Inl e)
      with Pair False ap append_none [OF wf cs len, of e v] inv old show ?thesis
        by (auto simp: apply_batch_eq durable_def)
    next
      case (Inr u)
      with Pair False ap append_all [OF wf cs len, of u v] inv old replay_staged [OF inv ops(1)] ts_run_inv [OF inv]
      show ?thesis by (auto simp: apply_batch_eq durable_def replay_append)
    qed
  qed
qed

lemma authority_run_durable:
  assumes "durable h sw" and "list_all (\<lambda>ops. list_all operation_ok ops \<and> len_ok ops) batches"
  shows "durable h (authority_run h log batches sw)"
  using assms
proof (induction batches arbitrary: sw)
  case (Cons ops batches)
  obtain st w where sw: "sw = (st, w)" by (cases sw)
  obtain rs st' w' where ap: "apply_batch h log ops (st, w) = (rs, st', w')"
    by (cases "apply_batch h log ops (st, w)")
  have "durable h (st', w')" by (rule apply_batch_durable [OF _ _ _ ap]) (use Cons.prems sw in auto)
  with Cons.IH Cons.prems(2) ap sw show ?case by (simp add: authority_run_def)
qed (simp add: authority_run_def)

lemma open_after_crash:
  "durable h (st, w) \<Longrightarrow> tl_replay log w = (Inr bss, w') \<Longrightarrow> authority_open h log w = (Inr st, w)"
  using replay_reads [of w bss w'] by (simp add: durable_def authority_open_def)

end

end
