(* ===== verification/Meta_Log.thy ===== *)
theory Meta_Log
  imports Consensus Timestamp_Log
begin

text \<open>
  The durable log behind the timestamp authority in the meta process
  (\<^verbatim>\<open>FjallTimestampLog\<close> in \<^verbatim>\<open>dtg-meta/src/service.rs\<close>): timestamp commands as the payloads
  of consensus entries with consecutive indices.  It satisfies the contract \<open>atomic_log\<close>, so
  the authority running on it recovers its exact state.
\<close>

definition timestamp_consensus_entry ::
    "(byte list \<Rightarrow> digest32) \<Rightarrow> u64 \<Rightarrow> byte list \<Rightarrow> (storage_error, consensus_entry) result" where
  "timestamp_consensus_entry blake3 index payload =
     try_r (command_id_new (ucast index)) (\<lambda>cid.
     try_r (command_envelope_new blake3 1 payload) (\<lambda>command.
       consensus_entry_new 1 1 index cid command))"

record fjall_timestamp_log =
  ft_store :: fjall_consensus
  ft_next_index :: u64

definition ft_lift :: "'a store_op \<Rightarrow> (fjall_timestamp_log, txn_error, 'a) eff" where
  "ft_lift m w = (case m (ft_store w) of (r, s) \<Rightarrow> (map_err StorageFailure r, w\<lparr>ft_store := s\<rparr>))"

definition ft_open ::
    "(consensus_entry \<Rightarrow> u64) \<Rightarrow> fjall_consensus \<Rightarrow> (storage_error, fjall_timestamp_log) result" where
  "ft_open entry_size store =
     (case log_entries entry_size 1 (- 1) (- 1) store of
        (Inl e, _) \<Rightarrow> Inl e
      | (Inr es, s) \<Rightarrow> Inr \<lparr>ft_store = s,
          ft_next_index = (if es = [] then 1 else sat_succ (ce_index (last es)))\<rparr>)"

definition ft_replay ::
    "(consensus_entry \<Rightarrow> u64) \<Rightarrow> (fjall_timestamp_log, txn_error, byte list list) eff" where
  "ft_replay entry_size = eff_bind (ft_lift (log_entries entry_size 1 (- 1) (- 1)))
     (\<lambda>es. eff_ret (map (\<lambda>e. en_payload (ce_command e)) es))"

definition ft_entries ::
    "(byte list \<Rightarrow> digest32) \<Rightarrow> u64 \<Rightarrow> byte list list \<Rightarrow> (txn_error, consensus_entry list) result" where
  "ft_entries blake3 first_index commands =
     try_map (\<lambda>(offset, command).
       try_r (ok_or (u64_add first_index (word_of_nat offset)) ResourceLimit) (\<lambda>index.
         map_err StorageFailure (timestamp_consensus_entry blake3 index command)))
       (zip [0..<length commands] commands)"

definition ft_append_batch ::
    "(byte list \<Rightarrow> digest32) \<Rightarrow> byte list list \<Rightarrow> (fjall_timestamp_log, txn_error, unit) eff" where
  "ft_append_batch blake3 commands w =
     (if commands = [] then (Inr (), w)
      else case ft_entries blake3 (ft_next_index w) commands of
        Inl e \<Rightarrow> (Inl e, w)
      | Inr es \<Rightarrow>
          (case u64_add (ft_next_index w) (word_of_nat (length es)) of
             None \<Rightarrow> (Inl ResourceLimit, w)
           | Some next_index \<Rightarrow>
               eff_bind (ft_lift (append_entries es))
                 (\<lambda>_ w. (Inr (), w\<lparr>ft_next_index := next_index\<rparr>)) w))"

definition ft_log ::
    "(byte list \<Rightarrow> digest32) \<Rightarrow> (consensus_entry \<Rightarrow> u64) \<Rightarrow> fjall_timestamp_log timestamp_log" where
  "ft_log blake3 entry_size =
     \<lparr>tl_replay = ft_replay entry_size, tl_append_batch = ft_append_batch blake3\<rparr>"

section \<open>The log satisfies its contract\<close>

definition ft_contents :: "fjall_timestamp_log \<Rightarrow> byte list list" where
  "ft_contents w = map (\<lambda>p. en_payload (ce_command (snd p))) (fc_raft_log (ft_store w))"

definition ft_wf :: "fjall_timestamp_log \<Rightarrow> bool" where
  "ft_wf w \<longleftrightarrow>
     (let s = ft_store w; m = fc_raft_log s in
      fc_owner s = Some (fc_binding s) \<and> wf_log m \<and> (\<forall>p \<in> set m. 1 \<le> fst p \<and> fst p < ft_next_index w) \<and>
      ft_next_index w \<noteq> 0 \<and> (m \<noteq> [] \<longrightarrow> ft_next_index w = sat_succ (fst (last m))))"

lemma ft_replay_wf:
  assumes "ft_wf w"
  shows "ft_replay esize w = (Inr (ft_contents w), w)"
proof -
  let ?m = "fc_raft_log (ft_store w)"
  from assms have "filter (\<lambda>p. 1 \<le> fst p \<and> fst p < - 1) ?m = ?m" and max: "\<forall>p \<in> set ?m. fst p \<noteq> - 1"
    using word_n1_ge by (auto simp: ft_wf_def Let_def intro!: filter_True dest: less_le_trans leD)
  moreover have "scan_entries esize (- 1) 0 None ?m = Inr (map snd ?m)"
    using assms max by (intro scan_all) (auto simp: ft_wf_def wf_log_def Let_def)
  ultimately show ?thesis
    using assms
    by (simp add: ft_replay_def ft_lift_def log_entries_def eff_bind_app ensure_binding_def ft_wf_def
        ft_contents_def Let_def comp_def)
qed

lemma contiguous_nth: "(\<And>i. Suc i < length xs \<Longrightarrow> xs ! Suc i = sat_succ (xs ! i)) \<Longrightarrow> contiguous xs"
proof (induction xs)
  case (Cons x xs)
  have "contiguous xs" using Cons.prems [of "Suc _"] by (intro Cons.IH) simp
  moreover have "xs \<noteq> [] \<Longrightarrow> hd xs = sat_succ x" using Cons.prems [of 0] by (simp add: hd_conv_nth)
  ultimately show ?case by (simp add: contiguous_Cons)
qed simp

lemma timestamp_consensus_entryD:
  "timestamp_consensus_entry h i p = Inr e \<Longrightarrow> ce_index e = i \<and> en_payload (ce_command e) = p"
  by (auto simp: result_simps timestamp_consensus_entry_def command_id_new_def
      command_envelope_new_def consensus_entry_new_def split: if_splits)

lemma ft_entries_nth:
  assumes "ft_entries h first cs = Inr es"
  shows "length es = length cs"
    "i < length cs \<Longrightarrow> u64_add first (word_of_nat i) = Some (ce_index (es ! i)) \<and>
       en_payload (ce_command (es ! i)) = cs ! i"
proof -
  from assms have all: "list_all2 (\<lambda>(offset, command) e.
      try_r (ok_or (u64_add first (word_of_nat offset)) ResourceLimit) (\<lambda>index.
         map_err StorageFailure (timestamp_consensus_entry h index command)) = Inr e)
      (zip [0..<length cs] cs) es"
    by (simp add: ft_entries_def try_map_Inr_iff case_prod_beta')
  then show "length es = length cs" by (auto dest: list_all2_lengthD)
  show "u64_add first (word_of_nat i) = Some (ce_index (es ! i)) \<and>
       en_payload (ce_command (es ! i)) = cs ! i" if "i < length cs"
    using list_all2_nthD [OF all, of i] that
    by (auto simp: result_simps dest: timestamp_consensus_entryD)
qed

lemma ft_entries_indices:
  assumes es: "ft_entries h first cs = Inr es" and nxt: "u64_add first (word_of_nat (length es)) = Some n"
    and len: "len_ok cs"
  shows "contiguous (map ce_index es)" "\<forall>e \<in> set es. ce_index e \<noteq> - 1"
    "cs \<noteq> [] \<Longrightarrow> ce_index (hd es) = first \<and> n = sat_succ (ce_index (last es))"
    "\<forall>e \<in> set es. first \<le> ce_index e \<and> ce_index e < n"
proof -
  have ln: "length es = length cs" by (rule ft_entries_nth(1) [OF es])
  have un: "unat n = unat first + length cs"
    using unat_u64_add [OF nxt] len ln by (simp add: len_ok_def unat_of_nat)
  have ix: "unat (ce_index (es ! i)) = unat first + i" if "i < length cs" for i
    using unat_u64_add ft_entries_nth(2) [OF es that] that len by (fastforce simp: len_ok_def unat_of_nat)
  have bound: "unat n < 2 ^ 64" using unsigned_less [of n, where ?'a = nat] by simp
  have lt: "ce_index (es ! i) < n" if "i < length cs" for i
    using ix [OF that] un that by (simp add: word_less_nat_alt)
  have succ: "unat (sat_succ (ce_index (es ! i))) = unat first + Suc i" if "i < length cs" for i
  proof -
    have "ce_index (es ! i) \<noteq> - 1" using lt [OF that] word_n1_ge [of n] by (auto simp: not_le [symmetric])
    with ix [OF that] show ?thesis by (simp add: sat_succ_def unat_succ_word)
  qed
  show "contiguous (map ce_index es)"
    by (rule contiguous_nth) (use ix succ ln in \<open>simp add: word_unat_eq_iff\<close>)
  show "\<forall>e \<in> set es. ce_index e \<noteq> - 1"
    using lt word_n1_ge [of n] ln by (force simp: in_set_conv_nth not_le [symmetric])
  show "\<forall>e \<in> set es. first \<le> ce_index e \<and> ce_index e < n"
    using lt ix ln by (auto simp: in_set_conv_nth word_le_nat_alt)
  show "ce_index (hd es) = first \<and> n = sat_succ (ce_index (last es))" if "cs \<noteq> []"
    using that ix [of 0] succ [of "length cs - 1"] un ln
    by (simp add: hd_conv_nth last_conv_nth word_unat_eq_iff flip: length_greater_0_conv)
qed

lemma ft_append_fault:
  assumes wf: "ft_wf w" and ap: "ft_append_batch h cs w = (Inl e, w')"
  shows "ft_wf w' \<and> ft_contents w' = ft_contents w"
proof -
  have keep: "ft_wf (w\<lparr>ft_store := ft_store w\<lparr>fc_faults := fs\<rparr>\<rparr>) \<and>
      ft_contents (w\<lparr>ft_store := ft_store w\<lparr>fc_faults := fs\<rparr>\<rparr>) = ft_contents w" for fs
    using wf by (simp add: ft_wf_def ft_contents_def Let_def)
  show ?thesis
  proof (cases "w' = w")
    case False
    with ap obtain es n e' s where "append_entries es (ft_store w) = (Inl e', s)"
      and w': "w' = w\<lparr>ft_store := s\<rparr>"
      by (auto simp: ft_append_batch_def ft_lift_def eff_bind_app map_err_Inl
          split: if_splits sum.splits option.splits prod.splits)
    moreover from wf have "wf_log (fc_raft_log (ft_store w))" by (simp add: ft_wf_def Let_def)
    ultimately obtain fs where "s = ft_store w\<lparr>fc_faults := fs\<rparr>"
      by (auto elim: append_entries_cases)
    with keep w' show ?thesis by simp
  qed (use wf in simp)
qed

lemma append_at_end:
  assumes wf: "ft_wf w" and es: "es \<noteq> []" "contiguous (map ce_index es)" "\<forall>e \<in> set es. ce_index e \<noteq> - 1"
    and hd: "ce_index (hd es) = ft_next_index w"
    and ap: "append_entries es (ft_store w) = (Inr u, s)"
  shows "\<exists>fs. s = ft_store w\<lparr>fc_faults := fs,
     fc_raft_log := fc_raft_log (ft_store w) @ map (\<lambda>e. (ce_index e, e)) es\<rparr>"
proof -
  let ?m = "fc_raft_log (ft_store w)"
  from wf have wfl: "wf_log ?m" and below: "\<forall>p \<in> set ?m. fst p < ft_next_index w"
    by (auto simp: ft_wf_def Let_def)
  have new: "map_of ?m (ce_index (hd es)) = None"
    using below hd by (force simp: map_of_eq_None_iff)
  then have conf: "find_conflict ?m es = Some (ce_index (hd es))" using es(1) by (cases es) auto
  have sorted: "sorted_wrt (<) (map ce_index ([] @ hd es # tl es))"
    using contiguous_sorted [OF es(2)] es(1,3) by simp
  have eq: "replace_suffix (ce_index (hd es)) es ?m = ?m @ map (\<lambda>e. (ce_index e, e)) es"
    using replace_suffix_eq [OF sorted, of ?m] below hd es(1) by simp
  from wfl ap show ?thesis
  proof (cases rule: append_entries_cases)
    case 2
    from 2(4) hd_in_set [OF es(1)] new show ?thesis by simp
  next
    case (3 c fs)
    with conf eq show ?thesis by auto
  qed simp
qed

lemma ft_append_all:
  assumes wf: "ft_wf w" and cs: "cs \<noteq> []" "len_ok cs" and ap: "ft_append_batch h cs w = (Inr u, w')"
  shows "ft_wf w' \<and> ft_contents w' = ft_contents w @ cs"
proof -
  from ap cs(1) obtain es n s u' where es: "ft_entries h (ft_next_index w) cs = Inr es"
    and n: "u64_add (ft_next_index w) (word_of_nat (length es)) = Some n"
    and app: "append_entries es (ft_store w) = (Inr u', s)"
    and w': "w' = w\<lparr>ft_store := s, ft_next_index := n\<rparr>"
    by (auto simp: ft_append_batch_def ft_lift_def eff_bind_app map_err_Inr
        split: sum.splits option.splits prod.splits)
  note ix = ft_entries_indices [OF es n cs(2)]
  have ne: "es \<noteq> []" using cs(1) ft_entries_nth(1) [OF es] by auto
  from append_at_end [OF wf ne ix(1,2) _ app] ix(3) [OF cs(1)] obtain fs where
    s: "s = ft_store w\<lparr>fc_faults := fs,
          fc_raft_log := fc_raft_log (ft_store w) @ map (\<lambda>e. (ce_index e, e)) es\<rparr>"
    by blast
  have "map (\<lambda>e. en_payload (ce_command e)) es = cs"
    by (rule nth_equalityI) (use ft_entries_nth [OF es] in auto)
  then have cont: "ft_contents w' = ft_contents w @ cs"
    by (simp add: w' s ft_contents_def comp_def)
  have wfl: "wf_log (fc_raft_log s)"
    using append_entries_wf [OF _ ix(2) app] wf by (simp add: ft_wf_def Let_def)
  have "ft_next_index w \<le> n" using ix(4) ne by (cases es) auto
  moreover have "ft_next_index w \<noteq> 0" using wf by (simp add: ft_wf_def Let_def)
  moreover from this have "1 \<le> ft_next_index w" by (simp add: word_le_nat_alt Suc_leI unat_gt_0)
  ultimately have "ft_wf w'"
    using wf wfl ix(3) [OF cs(1)] ix(4) ne
    by (auto simp: ft_wf_def Let_def w' s last_map intro: order_trans less_le_trans)
  with cont show ?thesis by blast
qed

interpretation flog: atomic_log "ft_log h esize" ft_contents ft_wf for h esize
proof
  show "ft_wf w' \<and> ft_contents w' = ft_contents w @ cs"
    if "ft_wf w" "cs \<noteq> []" "len_ok cs" "tl_append_batch (ft_log h esize) cs w = (Inr u, w')" for w cs u w'
    using ft_append_all [of w cs h u w'] that by (simp add: ft_log_def)
  show "ft_wf w' \<and> ft_contents w' = ft_contents w"
    if "ft_wf w" "tl_append_batch (ft_log h esize) cs w = (Inl e, w')" for w cs e w'
    using ft_append_fault [of w h cs e w'] that by (simp add: ft_log_def)
  show "bss = ft_contents w \<and> w' = w"
    if "ft_wf w" "tl_replay (ft_log h esize) w = (Inr bss, w')" for w bss w'
    using ft_replay_wf [of w esize] that by (auto simp: ft_log_def)
qed

section \<open>Properties of the durable authority\<close>

lemma ft_open_fresh:
  "ft_open esize s = Inr w \<Longrightarrow> fc_raft_log s = [] \<Longrightarrow> flog.durable h (timestamp_state_default, w)"
  by (auto simp: ft_open_def log_entries_def eff_bind_app ensure_binding_def flog.durable_def ft_wf_def
      ft_contents_def wf_log_def ts_inv_default replay_commands_def Let_def
      split: option.splits if_splits)

text \<open>C10.  Durability: start the authority on an empty log and apply any batches of operations,
  with the storage writes failing at any point.  Opening the authority again from the log that is
  left always succeeds and rebuilds exactly the state that was in memory.\<close>

theorem authority_recovers_exactly:
  assumes "ft_open entry_size store = Inr w" and "fc_raft_log store = []"
    and "list_all (\<lambda>ops. list_all operation_ok ops \<and> len_ok ops) batches"
    and "authority_run blake3 (ft_log blake3 entry_size) batches (timestamp_state_default, w) = (st', w')"
  shows "authority_open blake3 (ft_log blake3 entry_size) w' = (Inr st', w')"
proof -
  have "flog.durable blake3 (authority_run blake3 (ft_log blake3 entry_size) batches
      (timestamp_state_default, w))"
    by (rule flog.authority_run_durable [OF ft_open_fresh [OF assms(1,2)] assms(3)])
  then have dur: "flog.durable blake3 (st', w')" by (simp add: assms(4))
  then have "ft_wf w'" by (simp add: flog.durable_def)
  then have "tl_replay (ft_log blake3 entry_size) w' = (Inr (ft_contents w'), w')"
    by (simp add: ft_log_def ft_replay_wf)
  with dur show ?thesis by (rule flog.open_after_crash)
qed

definition example_log :: "storage_error option list \<Rightarrow> fjall_timestamp_log" where
  "example_log faults =
     \<lparr>ft_store = example_store\<lparr>fc_raft_log := [], fc_faults := faults\<rparr>, ft_next_index = 1\<rparr>"

theorem authority_recovers_exactly_witness:
  "let sw = authority_run length_hash (ft_log length_hash (\<lambda>_. 1))
         [[OpReserveCommit (Ident128 1)], [OpReserveCommit (Ident128 2)]]
         (timestamp_state_default, example_log [None, Some NotFound])
   in authority_open length_hash (ft_log length_hash (\<lambda>_. 1)) (snd sw) = (Inr (fst sw), snd sw)"
proof -
  have "ft_open (\<lambda>_. 1) (ft_store (example_log [None, Some NotFound])) = Inr (example_log [None, Some NotFound])"
    by (simp add: ft_open_def log_entries_def eff_bind_app ensure_binding_def example_log_def example_store_def)
  from authority_recovers_exactly [OF this, of
      "[[OpReserveCommit (Ident128 1)], [OpReserveCommit (Ident128 2)]]" length_hash]
  show ?thesis
    by (simp add: Let_def example_log_def ident128_ok_def len_ok_def)
qed

text \<open>C17.  Batches: the loop of \<open>apply_batch\<close> does what staging the operations one after the
  other does.  When the append succeeds the results and the state are the serial ones; when it
  fails the state is untouched and every operation that logged a command reports the error.\<close>

theorem apply_batch_serial:
  "apply_batch blake3 log ops (st, w) =
     (if somes (ts_commands st ops) = [] then (ts_results st ops, ts_run st ops, w)
      else case tl_append_batch log (map (encode_command blake3) (somes (ts_commands st ops))) w of
          (Inr _, w') \<Rightarrow> (ts_results st ops, ts_run st ops, w')
        | (Inl e, w') \<Rightarrow>
            (map2 (\<lambda>c r. if c = None then r else Inl e) (ts_commands st ops) (ts_results st ops), st, w'))"
proof -
  have "ts_run st ops = st" if "somes (ts_commands st ops) = []"
    using that
  proof (induction ops arbitrary: st)
    case (Cons op ops)
    then show ?case by (cases "staged_command st op") (auto simp: staged_command_step(2))
  qed simp
  then show ?thesis by (auto simp: apply_batch_eq split: prod.splits sum.splits)
qed

lemmas example_append_defs = ft_log_def ft_append_batch_def ft_entries_def timestamp_consensus_entry_def
  command_id_new_def command_envelope_new_def consensus_entry_new_def example_log_def example_store_def
  u64_add_def eff_bind_app ft_lift_def append_entries_def ensure_binding_def load_log_def
  fjall_commit_def

lemma example_append_fault:
  "c \<noteq> [] \<Longrightarrow> tl_append_batch (ft_log h esize) [c] (example_log [Some e]) =
     (Inl (StorageFailure e), example_log [])"
  by (simp add: example_append_defs)

lemma example_append_ok:
  "c \<noteq> [] \<Longrightarrow> fst (tl_append_batch (ft_log h esize) [c] (example_log [])) = Inr ()"
  by (simp add: example_append_defs)


end
