(* ===== verification/Overlay.thy ===== *)
theory Overlay
  imports Txn_Base
begin

text \<open>
  Write conflicts (\<^verbatim>\<open>dtg-transaction/src/conflict.rs\<close>) and the staging overlay of a transaction
  (\<^verbatim>\<open>dtg-transaction/src/overlay.rs\<close>): which committed writes a transaction conflicts with, what
  it reads through its overlay, and when the graph it would leave is accepted.
\<close>

section \<open>Write conflicts\<close>

datatype entity_identity = VertexEntity vertex_id | EdgeEntity edge_id

datatype write_extent = ExtInterval valid_interval | CompleteIdentity

record interval_write =
  iw_identity :: entity_identity
  iw_extent :: write_extent
  iw_transaction_time :: transaction_time

definition interval_write_new ::
    "entity_identity \<Rightarrow> valid_interval \<Rightarrow> transaction_time \<Rightarrow> interval_write" where
  "interval_write_new e iv t = \<lparr>iw_identity = e, iw_extent = ExtInterval iv, iw_transaction_time = t\<rparr>"

definition interval_write_tombstone :: "entity_identity \<Rightarrow> transaction_time \<Rightarrow> interval_write" where
  "interval_write_tombstone e t =
     \<lparr>iw_identity = e, iw_extent = CompleteIdentity, iw_transaction_time = t\<rparr>"

fun extents_overlap :: "write_extent \<Rightarrow> write_extent \<Rightarrow> bool" where
  "extents_overlap (ExtInterval a) (ExtInterval b) = overlaps a b"
| "extents_overlap CompleteIdentity _ = True"
| "extents_overlap _ CompleteIdentity = True"

definition detect_conflict :: "interval_write \<Rightarrow> interval_write list \<Rightarrow> (txn_error, unit) result" where
  "detect_conflict staged committed =
     (if list_ex (\<lambda>c. iw_identity c = iw_identity staged \<and>
            iw_transaction_time staged < iw_transaction_time c \<and>
            extents_overlap (iw_extent c) (iw_extent staged)) committed
      then Inl WriteConflict else Inr ())"

definition time_or :: "transaction_time option \<Rightarrow> transaction_time \<Rightarrow> transaction_time" where
  "time_or o' t = (case o' of None \<Rightarrow> t | Some u \<Rightarrow> u)"

fun write_from_mutation :: "logical_mutation \<Rightarrow> transaction_time option \<Rightarrow> interval_write option" where
  "write_from_mutation (PutVertex v) t = Some (interval_write_new (VertexEntity (vv_id v))
     (vv_valid_time v) (time_or t (vv_transaction_time v)))"
| "write_from_mutation (DeleteVertex v) t =
     Some (interval_write_tombstone (VertexEntity (vt_id v)) (time_or t (vt_transaction_time v)))"
| "write_from_mutation (PutEdge e) t = Some (interval_write_new (EdgeEntity (ev_id e))
     (ev_valid_time e) (time_or t (ev_transaction_time e)))"
| "write_from_mutation (DeleteEdge e) t =
     Some (interval_write_tombstone (EdgeEntity (et_id e)) (time_or t (et_transaction_time e)))"
| "write_from_mutation (PutTransaction _) t = None"
| "write_from_mutation (PutReplicaMetadata _) t = None"

definition detect_mutation_conflicts ::
    "logical_mutation list \<Rightarrow> logical_mutation list \<Rightarrow> transaction_time \<Rightarrow> (txn_error, unit) result" where
  "detect_mutation_conflicts staged committed start =
     (let writes = List.map_filter (\<lambda>mu. write_from_mutation mu None) committed in
      try_all (\<lambda>mu. case write_from_mutation mu (Some start) of
          Some w \<Rightarrow> detect_conflict w writes
        | None \<Rightarrow> Inr ()) staged)"

section \<open>The overlay\<close>

definition max_staged_mutations :: nat where
  "max_staged_mutations = 4096"

record base_graph_snapshot =
  bg_vertices :: "(vertex_id, vertex_version list) bmap"
  bg_edges :: "(edge_id, edge_version list) bmap"

record transaction_overlay =
  ov_mutations :: "logical_mutation list"

definition overlay_new :: transaction_overlay where
  "overlay_new = \<lparr>ov_mutations = []\<rparr>"

fun is_internal :: "logical_mutation \<Rightarrow> bool" where
  "is_internal (PutTransaction _) = True"
| "is_internal (PutReplicaMetadata _) = True"
| "is_internal _ = False"

definition overlay_stage ::
    "transaction_overlay \<Rightarrow> logical_mutation \<Rightarrow> (txn_error, transaction_overlay) result" where
  "overlay_stage ov mu =
     (if length (ov_mutations ov) = max_staged_mutations then Inl ResourceLimit
      else if is_internal mu then Inl InvalidMutation
      else Inr (ov\<lparr>ov_mutations := ov_mutations ov @ [mu]\<rparr>))"

text \<open>\<open>Iterator::max_by_key\<close>: the last of the greatest elements.\<close>

definition max_by_key :: "('a \<Rightarrow> 'k::linorder) \<Rightarrow> 'a list \<Rightarrow> 'a option" where
  "max_by_key f xs =
     foldl (\<lambda>best x. case best of None \<Rightarrow> Some x | Some b \<Rightarrow> if f x < f b then best else Some x) None xs"

definition staged_vertices :: "logical_mutation list \<Rightarrow> vertex_version list" where
  "staged_vertices mus = List.map_filter (\<lambda>mu. case mu of PutVertex v \<Rightarrow> Some v | _ \<Rightarrow> None) mus"

definition staged_edges :: "logical_mutation list \<Rightarrow> edge_version list" where
  "staged_edges mus = List.map_filter (\<lambda>mu. case mu of PutEdge e \<Rightarrow> Some e | _ \<Rightarrow> None) mus"

definition deletes_vertex :: "logical_mutation list \<Rightarrow> vertex_id \<Rightarrow> bool" where
  "deletes_vertex mus i =
     list_ex (\<lambda>mu. case mu of DeleteVertex t \<Rightarrow> vt_id t = i | _ \<Rightarrow> False) mus"

definition deletes_edge :: "logical_mutation list \<Rightarrow> edge_id \<Rightarrow> bool" where
  "deletes_edge mus i =
     list_ex (\<lambda>mu. case mu of DeleteEdge t \<Rightarrow> et_id t = i | _ \<Rightarrow> False) mus"

definition get_vertex ::
    "transaction_overlay \<Rightarrow> vertex_version list \<Rightarrow> vertex_id \<Rightarrow> int \<Rightarrow> vertex_version option" where
  "get_vertex ov base i at =
     (if deletes_vertex (ov_mutations ov) i then None
      else case max_by_key vv_version
          (filter (\<lambda>v. vv_id v = i \<and> covers_at (vv_valid_time v) at) (staged_vertices (ov_mutations ov))) of
        Some v \<Rightarrow> Some v
      | None \<Rightarrow> max_by_key vv_version (filter (\<lambda>v. vv_id v = i \<and> covers_at (vv_valid_time v) at) base))"

definition get_edge ::
    "transaction_overlay \<Rightarrow> edge_version list \<Rightarrow> edge_id \<Rightarrow> int \<Rightarrow> edge_version option" where
  "get_edge ov base i at =
     (if deletes_edge (ov_mutations ov) i then None
      else case max_by_key ev_version
          (filter (\<lambda>e. ev_id e = i \<and> covers_at (ev_valid_time e) at) (staged_edges (ov_mutations ov))) of
        Some e \<Rightarrow> Some e
      | None \<Rightarrow> max_by_key ev_version (filter (\<lambda>e. ev_id e = i \<and> covers_at (ev_valid_time e) at) base))"

section \<open>Validation\<close>

text \<open>Whether some element is related to a later one: the doubly nested index loop.\<close>

fun any_pair :: "('a \<Rightarrow> 'a \<Rightarrow> bool) \<Rightarrow> 'a list \<Rightarrow> bool" where
  "any_pair P [] = False"
| "any_pair P (x # xs) = (list_ex (P x) xs \<or> any_pair P xs)"

definition sort_vertex_history :: "vertex_version list \<Rightarrow> vertex_version list" where
  "sort_vertex_history vs =
     sort_key (\<lambda>v. (iv_start (vv_valid_time v), iv_end (vv_valid_time v), vv_version v)) vs"

definition sort_edge_history :: "edge_version list \<Rightarrow> edge_version list" where
  "sort_edge_history es =
     sort_key (\<lambda>e. (iv_start (ev_valid_time e), iv_end (ev_valid_time e), ev_version e)) es"

definition vertex_clash :: "vertex_version \<Rightarrow> vertex_version \<Rightarrow> bool" where
  "vertex_clash a b = (vv_version a = vv_version b \<or> overlaps (vv_valid_time a) (vv_valid_time b))"

definition edge_clash :: "edge_version \<Rightarrow> edge_version \<Rightarrow> bool" where
  "edge_clash a b = (ev_version a = ev_version b \<or> overlaps (ev_valid_time a) (ev_valid_time b))"

definition same_edge :: "edge_version \<Rightarrow> edge_version \<Rightarrow> bool" where
  "same_edge a b =
     (ev_source a = ev_source b \<and> ev_target a = ev_target b \<and> ev_edge_type a = ev_edge_type b)"

definition validate_vertex_history :: "vertex_version list \<Rightarrow> (txn_error, unit) result" where
  "validate_vertex_history vs = (if any_pair vertex_clash vs then Inl DuplicateIdentity else Inr ())"

text \<open>Histories of the maps below are never empty, so \<open>versions[0]\<close> exists.\<close>

definition validate_edge_history :: "edge_version list \<Rightarrow> (txn_error, unit) result" where
  "validate_edge_history es =
     (if list_ex (\<lambda>e. \<not> same_edge e (hd es)) es \<or> any_pair edge_clash es
      then Inl DuplicateIdentity else Inr ())"

definition push_vertex ::
    "vertex_version \<Rightarrow> (vertex_id, vertex_version list) bmap \<Rightarrow> (vertex_id, vertex_version list) bmap" where
  "push_vertex v m = bm_entry (vv_id v) [] (\<lambda>h. h @ [v]) m"

definition push_edge ::
    "edge_version \<Rightarrow> (edge_id, edge_version list) bmap \<Rightarrow> (edge_id, edge_version list) bmap" where
  "push_edge e m = bm_entry (ev_id e) [] (\<lambda>h. h @ [e]) m"

definition sort_vertex_histories ::
    "(vertex_id, vertex_version list) bmap \<Rightarrow> (vertex_id, vertex_version list) bmap" where
  "sort_vertex_histories m = map (\<lambda>p. (fst p, sort_vertex_history (snd p))) m"

definition sort_edge_histories ::
    "(edge_id, edge_version list) bmap \<Rightarrow> (edge_id, edge_version list) bmap" where
  "sort_edge_histories m = map (\<lambda>p. (fst p, sort_edge_history (snd p))) m"

definition base_graph_snapshot_new ::
    "vertex_version list \<Rightarrow> edge_version list \<Rightarrow> (txn_error, base_graph_snapshot) result" where
  "base_graph_snapshot_new vs es =
     (let vertices = sort_vertex_histories (fold push_vertex vs []);
          edges = sort_edge_histories (fold push_edge es []) in
      try_r (try_all (\<lambda>p. validate_vertex_history (snd p)) vertices) (\<lambda>_.
      try_r (try_all (\<lambda>p. validate_edge_history (snd p)) edges) (\<lambda>_.
        Inr \<lparr>bg_vertices = vertices, bg_edges = edges\<rparr>)))"

definition overlapping_vertex_versions :: "vertex_version list \<Rightarrow> bool" where
  "overlapping_vertex_versions vs = any_pair (\<lambda>a b. overlaps (vv_valid_time a) (vv_valid_time b)) vs"

definition overlapping_edge_versions :: "edge_version list \<Rightarrow> bool" where
  "overlapping_edge_versions es = any_pair (\<lambda>a b. overlaps (ev_valid_time a) (ev_valid_time b)) es"

definition validate_vertex_identity ::
    "transaction_overlay \<Rightarrow> base_graph_snapshot \<Rightarrow> (txn_error, unit) result" where
  "validate_vertex_identity ov base =
     try_all (\<lambda>(i, versions).
       if deletes_vertex (ov_mutations ov) i \<or> overlapping_vertex_versions versions \<or>
          (case map_of (bg_vertices base) i of
             None \<Rightarrow> False
           | Some existing \<Rightarrow>
               list_ex (\<lambda>staged. list_ex (\<lambda>b. vv_version staged = vv_version b) existing) versions)
       then Inl DuplicateIdentity else Inr ())
       (fold push_vertex (staged_vertices (ov_mutations ov)) [])"

definition validate_edge_identity ::
    "transaction_overlay \<Rightarrow> base_graph_snapshot \<Rightarrow> (txn_error, unit) result" where
  "validate_edge_identity ov base =
     try_all (\<lambda>(i, versions).
       if deletes_edge (ov_mutations ov) i \<or>
          list_ex (\<lambda>e. \<not> same_edge e (hd versions)) (tl versions) \<or>
          overlapping_edge_versions versions \<or>
          (case map_of (bg_edges base) i of
             None \<Rightarrow> False
           | Some existing \<Rightarrow>
               list_ex (\<lambda>b. \<not> same_edge b (hd versions) \<or>
                 list_ex (\<lambda>staged. ev_version staged = ev_version b) versions) existing)
       then Inl DuplicateIdentity else Inr ())
       (fold push_edge (staged_edges (ov_mutations ov)) [])"

text \<open>The loop of \<open>history_covers\<close> over the sorted intervals.\<close>

fun covers_from :: "int \<Rightarrow> int \<Rightarrow> valid_interval list \<Rightarrow> bool" where
  "covers_from through required_end [] = False"
| "covers_from through required_end (iv # ivs) =
     (if iv_end iv \<le> through \<or> required_end \<le> iv_start iv then covers_from through required_end ivs
      else if through < iv_start iv then False
      else if required_end \<le> max through (iv_end iv) then True
      else covers_from (max through (iv_end iv)) required_end ivs)"

definition history_covers :: "vertex_version list \<Rightarrow> valid_interval \<Rightarrow> bool" where
  "history_covers vs required =
     covers_from (iv_start required) (iv_end required)
       (sort_key (\<lambda>iv. (iv_start iv, iv_end iv)) (map vv_valid_time vs))"

type_synonym graph_maps =
  "(vertex_id, vertex_version list) bmap \<times> (edge_id, edge_version list) bmap"

fun apply_mutation :: "graph_maps \<Rightarrow> logical_mutation \<Rightarrow> (txn_error, graph_maps) result" where
  "apply_mutation (vs, es) (PutVertex v) = Inr (push_vertex v vs, es)"
| "apply_mutation (vs, es) (DeleteVertex t) = Inr (bm_remove (vt_id t) vs, es)"
| "apply_mutation (vs, es) (PutEdge e) = Inr (vs, push_edge e es)"
| "apply_mutation (vs, es) (DeleteEdge t) = Inr (vs, bm_remove (et_id t) es)"
| "apply_mutation (vs, es) (PutTransaction _) = Inl InvalidMutation"
| "apply_mutation (vs, es) (PutReplicaMetadata _) = Inl InvalidMutation"

definition validate_endpoints ::
    "(vertex_id, vertex_version list) bmap \<Rightarrow> edge_version \<Rightarrow> (txn_error, unit) result" where
  "validate_endpoints vertices e =
     try_r (ok_or (map_of vertices (ev_source e)) ReferentialIntegrity) (\<lambda>source.
     try_r (ok_or (map_of vertices (ev_target e)) ReferentialIntegrity) (\<lambda>target.
       if \<not> history_covers source (ev_valid_time e) \<or> \<not> history_covers target (ev_valid_time e)
       then Inl ReferentialIntegrity else Inr ()))"

definition overlay_validate ::
    "transaction_overlay \<Rightarrow> base_graph_snapshot \<Rightarrow> (txn_error, unit) result" where
  "overlay_validate ov base =
     try_r (validate_vertex_identity ov base) (\<lambda>_.
     try_r (validate_edge_identity ov base) (\<lambda>_.
     try_r (try_fold apply_mutation (bg_vertices base, bg_edges base) (ov_mutations ov)) (\<lambda>(vs, es).
       let vertices = sort_vertex_histories vs; edges = sort_edge_histories es in
       try_r (try_all (\<lambda>p. validate_vertex_history (snd p)) vertices) (\<lambda>_.
       try_r (try_all (\<lambda>p. validate_edge_history (snd p)) edges) (\<lambda>_.
         try_all (\<lambda>p. try_all (validate_endpoints vertices) (snd p)) edges)))))"

end
