(* ===== verification/Overlay_Props.thy ===== *)
theory Overlay_Props
  imports Overlay
begin

text \<open>
  What conflict detection and overlay validation establish, in terms of the instants of valid time
  that writes touch and at which vertices exist.
\<close>

section \<open>Conflicts are common instants\<close>

text \<open>The entity and instants a mutation writes; a deletion writes the whole identity.\<close>

fun touches :: "logical_mutation \<Rightarrow> entity_identity \<Rightarrow> int \<Rightarrow> bool" where
  "touches (PutVertex v) e t = (e = VertexEntity (vv_id v) \<and> covers_at (vv_valid_time v) t)"
| "touches (DeleteVertex d) e t = (e = VertexEntity (vt_id d))"
| "touches (PutEdge v) e t = (e = EdgeEntity (ev_id v) \<and> covers_at (ev_valid_time v) t)"
| "touches (DeleteEdge d) e t = (e = EdgeEntity (et_id d))"
| "touches (PutTransaction _) e t = False"
| "touches (PutReplicaMetadata _) e t = False"

fun mutation_time :: "logical_mutation \<Rightarrow> transaction_time" where
  "mutation_time (PutVertex v) = vv_transaction_time v"
| "mutation_time (DeleteVertex d) = vt_transaction_time d"
| "mutation_time (PutEdge v) = ev_transaction_time v"
| "mutation_time (DeleteEdge d) = et_transaction_time d"
| "mutation_time (PutTransaction r) = tr_transaction_time r"
| "mutation_time (PutReplicaMetadata _) = 0"

fun mutation_interval_ok :: "logical_mutation \<Rightarrow> bool" where
  "mutation_interval_ok (PutVertex v) = interval_ok (vv_valid_time v)"
| "mutation_interval_ok (PutEdge e) = interval_ok (ev_valid_time e)"
| "mutation_interval_ok _ = True"

lemma interval_ok_instant: "interval_ok i \<Longrightarrow> \<exists>t. covers_at i t"
  by (auto simp: interval_ok_def covers_at_def)

lemma write_overlap_iff:
  assumes "mutation_interval_ok s" and "mutation_interval_ok c"
    and "write_from_mutation s (Some start) = Some ws" and "write_from_mutation c None = Some wc"
  shows "iw_identity wc = iw_identity ws \<and> extents_overlap (iw_extent wc) (iw_extent ws) \<longleftrightarrow>
     (\<exists>e t. touches s e t \<and> touches c e t)"
  using assms interval_ok_instant
  by (cases s; cases c)
    (auto simp: interval_write_new_def interval_write_tombstone_def overlaps_iff_common_instant)

lemma write_times:
  "write_from_mutation s (Some start) = Some ws \<Longrightarrow> iw_transaction_time ws = start"
  "write_from_mutation c None = Some wc \<Longrightarrow> iw_transaction_time wc = mutation_time c"
  by (cases s; auto simp: interval_write_new_def interval_write_tombstone_def time_or_def)
    (cases c; auto simp: interval_write_new_def interval_write_tombstone_def time_or_def)

lemma write_None: "write_from_mutation mu t = None \<Longrightarrow> \<not> touches mu e u"
  by (cases mu) auto

lemma list_ex_map_filter:
  "list_ex P (List.map_filter f xs) \<longleftrightarrow> (\<exists>x \<in> set xs. \<exists>y. f x = Some y \<and> P y)"
  by (induction xs) (auto simp: List.map_filter_def split: option.splits)

text \<open>C21.  First committer wins, exactly: the conflict check lets a transaction through if and
  only if no mutation committed after its start time writes an entity at an instant of valid time
  that one of its own mutations also writes.\<close>

theorem detect_mutation_conflicts_exact:
  assumes "list_all mutation_interval_ok (staged @ committed)"
  shows "detect_mutation_conflicts staged committed start = Inr () \<longleftrightarrow>
     \<not> (\<exists>s \<in> set staged. \<exists>c \<in> set committed.
          start < mutation_time c \<and> (\<exists>e t. touches s e t \<and> touches c e t))"
proof -
  have step: "(case write_from_mutation s (Some start) of
        Some w \<Rightarrow> detect_conflict w (List.map_filter (\<lambda>mu. write_from_mutation mu None) committed)
      | None \<Rightarrow> Inr ()) = Inr () \<longleftrightarrow>
      \<not> (\<exists>c \<in> set committed. start < mutation_time c \<and> (\<exists>e t. touches s e t \<and> touches c e t))"
    if s: "s \<in> set staged" for s
  proof (cases "write_from_mutation s (Some start)")
    case None
    then show ?thesis using write_None by auto
  next
    case (Some ws)
    have "(\<exists>wc. write_from_mutation c None = Some wc \<and> iw_identity wc = iw_identity ws \<and>
        iw_transaction_time ws < iw_transaction_time wc \<and>
        extents_overlap (iw_extent wc) (iw_extent ws)) \<longleftrightarrow>
        start < mutation_time c \<and> (\<exists>e t. touches s e t \<and> touches c e t)" if c: "c \<in> set committed" for c
    proof (cases "write_from_mutation c None")
      case None
      then show ?thesis using write_None by auto
    next
      case wc: (Some wc)
      show ?thesis
        using write_overlap_iff [OF _ _ Some wc] write_times(1) [OF Some] write_times(2) [OF wc]
          assms s c wc by (auto simp: list_all_iff)
    qed
    with Some show ?thesis by (simp add: detect_conflict_def list_ex_map_filter)
  qed
  show ?thesis
    unfolding detect_mutation_conflicts_def Let_def try_all_Inr_iff using step by auto
qed

definition example_put_vertex :: "int \<Rightarrow> int \<Rightarrow> transaction_time \<Rightarrow> logical_mutation" where
  "example_put_vertex a b t =
     PutVertex \<lparr>vv_id = Ident128 1, vv_version = 1, vv_valid_time = \<lparr>iv_start = a, iv_end = b\<rparr>,
       vv_transaction_time = t, vv_properties = []\<rparr>"

theorem detect_mutation_conflicts_exact_witness:
  "detect_mutation_conflicts [example_put_vertex 0 10 0] [example_put_vertex 10 20 9] 5 = Inr () \<and>
   detect_mutation_conflicts [example_put_vertex 0 10 0] [example_put_vertex 9 20 9] 5 \<noteq> Inr ()"
proof -
  have ok: "list_all mutation_interval_ok ([example_put_vertex 0 10 0] @ [example_put_vertex a 20 9])"
    if "a = 9 \<or> a = 10" for a
    using that by (auto simp: example_put_vertex_def interval_ok_def i64_ok_def i64_max_def)
  show ?thesis
    using detect_mutation_conflicts_exact [OF ok [of 10], of 5]
      detect_mutation_conflicts_exact [OF ok [of 9], of 5]
    by (auto simp: example_put_vertex_def covers_at_def)
qed

section \<open>Coverage of an interval by a history\<close>

lemma covers_from_iff:
  assumes "sorted_wrt (\<lambda>a b. iv_start a \<le> iv_start b) ivs" and "through < required_end"
  shows "covers_from through required_end ivs \<longleftrightarrow>
     (\<forall>t. through \<le> t \<and> t < required_end \<longrightarrow> (\<exists>iv \<in> set ivs. covers_at iv t))"
  using assms
proof (induction through required_end ivs rule: covers_from.induct)
  case (1 through required_end)
  then show ?case by auto
next
  case (2 through required_end iv ivs)
  consider (skip) "iv_end iv \<le> through \<or> required_end \<le> iv_start iv"
    | (gap) "\<not> (iv_end iv \<le> through \<or> required_end \<le> iv_start iv)" "through < iv_start iv"
    | (full) "\<not> (iv_end iv \<le> through \<or> required_end \<le> iv_start iv)" "\<not> through < iv_start iv"
      "required_end \<le> iv_end iv"
    | (more) "\<not> (iv_end iv \<le> through \<or> required_end \<le> iv_start iv)" "\<not> through < iv_start iv"
      "\<not> required_end \<le> iv_end iv"
    by linarith
  then show ?case
  proof cases
    case skip
    then have "\<not> covers_at iv t" if "through \<le> t" "t < required_end" for t
      using that by (auto simp: covers_at_def)
    with skip "2.IH"(1) "2.prems" show ?thesis by auto
  next
    case gap
    then have "\<forall>i \<in> set (iv # ivs). \<not> covers_at i through"
      using "2.prems"(1) by (auto simp: covers_at_def)
    with gap "2.prems"(2) show ?thesis by auto
  next
    case full
    then show ?thesis by (auto simp: covers_at_def)
  next
    case more
    have "(\<forall>t. through \<le> t \<and> t < required_end \<longrightarrow> (\<exists>i \<in> set (iv # ivs). covers_at i t)) \<longleftrightarrow>
        (\<forall>t. iv_end iv \<le> t \<and> t < required_end \<longrightarrow> (\<exists>i \<in> set ivs. covers_at i t))" (is "?all \<longleftrightarrow> ?rest")
    proof
      assume all: ?all
      show ?rest
      proof (intro allI impI)
        fix t
        assume t: "iv_end iv \<le> t \<and> t < required_end"
        with all more have "\<exists>i \<in> set (iv # ivs). covers_at i t" by auto
        with t show "\<exists>i \<in> set ivs. covers_at i t" by (auto simp: covers_at_def)
      qed
    next
      assume rest: ?rest
      show ?all
      proof (intro allI impI)
        fix t
        assume t: "through \<le> t \<and> t < required_end"
        show "\<exists>i \<in> set (iv # ivs). covers_at i t"
        proof (cases "t < iv_end iv")
          case True
          with t more show ?thesis by (simp add: covers_at_def)
        next
          case False
          with rest t show ?thesis by auto
        qed
      qed
    qed
    moreover have "max through (iv_end iv) = iv_end iv" using more by simp
    ultimately show ?thesis using more "2.IH"(2) "2.prems" by simp
  qed
qed

lemma sorted_intervals:
  "sorted_wrt (\<lambda>a b. iv_start a \<le> iv_start b) (sort_key (\<lambda>iv. (iv_start iv, iv_end iv)) ivs)"
proof -
  have "sorted_wrt (\<lambda>a b. (iv_start a, iv_end a) \<le> (iv_start b, iv_end b))
      (sort_key (\<lambda>iv. (iv_start iv, iv_end iv)) ivs)"
    using sorted_sort_key [of "\<lambda>iv. (iv_start iv, iv_end iv)" ivs] by (simp add: sorted_wrt_map)
  then show ?thesis by (rule sorted_wrt_mono_rel [rotated]) (auto simp: less_eq_prod_def)
qed

lemma history_covers_iff:
  assumes "iv_start required < iv_end required"
  shows "history_covers vs required \<longleftrightarrow>
     (\<forall>t. covers_at required t \<longrightarrow> (\<exists>v \<in> set vs. covers_at (vv_valid_time v) t))"
  using covers_from_iff [OF sorted_intervals assms] by (auto simp: history_covers_def covers_at_def)

section \<open>Accepted overlays\<close>

lemma any_pair_sorted: "\<not> any_pair P xs \<longleftrightarrow> sorted_wrt (\<lambda>a b. \<not> P a b) xs"
  by (induction xs) (auto simp: list_ex_iff)

text \<open>At every instant at most one version of a history is valid, and version numbers differ.\<close>

definition uniquely_versioned :: "('a \<Rightarrow> version) \<Rightarrow> ('a \<Rightarrow> valid_interval) \<Rightarrow> 'a list \<Rightarrow> bool" where
  "uniquely_versioned ver iv h \<longleftrightarrow>
     distinct (map ver h) \<and> (\<forall>t. length (filter (\<lambda>v. covers_at (iv v) t) h) \<le> 1)"

lemma covers_overlap: "covers_at a t \<Longrightarrow> covers_at b t \<Longrightarrow> overlaps a b"
  by (auto simp: covers_at_def overlaps_def)

lemma no_clash_uniquely_versioned:
  "sorted_wrt (\<lambda>a b. \<not> (ver a = ver b \<or> overlaps (iv a) (iv b))) h \<Longrightarrow> uniquely_versioned ver iv h"
proof (induction h)
  case (Cons a h)
  then have ih: "uniquely_versioned ver iv h" and a: "\<forall>b \<in> set h. ver a \<noteq> ver b \<and> \<not> overlaps (iv a) (iv b)"
    by auto
  have "length (filter (\<lambda>v. covers_at (iv v) t) (a # h)) \<le> 1" for t
  proof (cases "covers_at (iv a) t")
    case True
    with a covers_overlap have "filter (\<lambda>v. covers_at (iv v) t) h = []" by (metis filter_False)
    with True show ?thesis by simp
  next
    case False
    with ih show ?thesis by (simp add: uniquely_versioned_def)
  qed
  with ih a show ?case by (auto simp: uniquely_versioned_def)
qed (simp add: uniquely_versioned_def)

lemma uniquely_versioned_sort: "uniquely_versioned ver iv (sort_key f h) \<longleftrightarrow> uniquely_versioned ver iv h"
  by (simp add: uniquely_versioned_def filter_sort distinct_map)

lemma validate_vertex_history_ok:
  "validate_vertex_history (sort_vertex_history h) = Inr () \<Longrightarrow> uniquely_versioned vv_version vv_valid_time h"
  using no_clash_uniquely_versioned [of vv_version vv_valid_time "sort_vertex_history h"]
  by (auto simp: validate_vertex_history_def any_pair_sorted vertex_clash_def uniquely_versioned_sort
      sort_vertex_history_def split: if_splits)

lemma validate_edge_history_ok:
  assumes "validate_edge_history (sort_edge_history h) = Inr ()"
  shows "uniquely_versioned ev_version ev_valid_time h" "\<forall>a \<in> set h. \<forall>b \<in> set h. same_edge a b"
proof -
  let ?h = "sort_edge_history h"
  from assms have no: "\<not> list_ex (\<lambda>e. \<not> same_edge e (hd ?h)) ?h" and pair: "\<not> any_pair edge_clash ?h"
    by (auto simp: validate_edge_history_def split: if_splits)
  from pair no_clash_uniquely_versioned [of ev_version ev_valid_time ?h]
  show "uniquely_versioned ev_version ev_valid_time h"
    by (auto simp: any_pair_sorted edge_clash_def uniquely_versioned_sort sort_edge_history_def)
  have "set ?h = set h" by (simp add: sort_edge_history_def)
  with no have "\<forall>a \<in> set h. same_edge a (hd ?h)" by (auto simp: list_ex_iff)
  then show "\<forall>a \<in> set h. \<forall>b \<in> set h. same_edge a b" by (simp add: same_edge_def)
qed

definition vertex_exists :: "(vertex_id, vertex_version list) bmap \<Rightarrow> vertex_id \<Rightarrow> int \<Rightarrow> bool" where
  "vertex_exists m i t =
     (case map_of m i of None \<Rightarrow> False | Some h \<Rightarrow> list_ex (\<lambda>v. covers_at (vv_valid_time v) t) h)"

lemma map_of_sort_histories:
  "map_of (sort_vertex_histories m) i = map_option sort_vertex_history (map_of m i)"
  by (induction m) (auto simp: sort_vertex_histories_def)

lemma validate_endpoints_ok:
  assumes "validate_endpoints (sort_vertex_histories m) e = Inr ()" and t: "covers_at (ev_valid_time e) t"
  shows "vertex_exists m (ev_source e) t" "vertex_exists m (ev_target e) t"
proof -
  have req: "iv_start (ev_valid_time e) < iv_end (ev_valid_time e)" using t by (simp add: covers_at_def)
  have "vertex_exists m i t"
    if "map_of m i = Some h" "history_covers (sort_vertex_history h) (ev_valid_time e)" for i h
    using that history_covers_iff [OF req] t
    by (auto simp: vertex_exists_def list_ex_iff sort_vertex_history_def)
  with assms(1) show "vertex_exists m (ev_source e) t" "vertex_exists m (ev_target e) t"
    by (auto simp: validate_endpoints_def result_simps map_of_sort_histories split: if_splits)
qed

lemma overlay_validate_result:
  assumes "overlay_validate ov base = Inr ()"
  shows "\<exists>vs es. try_fold apply_mutation (bg_vertices base, bg_edges base) (ov_mutations ov) = Inr (vs, es) \<and>
     (\<forall>(i, h) \<in> set vs. uniquely_versioned vv_version vv_valid_time h) \<and>
     (\<forall>(i, h) \<in> set es. uniquely_versioned ev_version ev_valid_time h \<and>
        (\<forall>a \<in> set h. \<forall>b \<in> set h. same_edge a b) \<and>
        (\<forall>e \<in> set h. \<forall>t. covers_at (ev_valid_time e) t \<longrightarrow>
           vertex_exists vs (ev_source e) t \<and> vertex_exists vs (ev_target e) t))"
proof -
  from assms obtain vs es where
    fold: "try_fold apply_mutation (bg_vertices base, bg_edges base) (ov_mutations ov) = Inr (vs, es)"
    and v: "\<forall>p \<in> set (sort_vertex_histories vs). validate_vertex_history (snd p) = Inr ()"
    and e: "\<forall>p \<in> set (sort_edge_histories es). validate_edge_history (snd p) = Inr ()"
    and ends: "\<forall>p \<in> set (sort_edge_histories es). \<forall>x \<in> set (snd p).
      validate_endpoints (sort_vertex_histories vs) x = Inr ()"
    by (auto simp: overlay_validate_def result_simps Let_def split: prod.splits)
  from v have "\<forall>p \<in> set vs. uniquely_versioned vv_version vv_valid_time (snd p)"
    by (auto simp: sort_vertex_histories_def intro: validate_vertex_history_ok)
  moreover from e have "\<forall>p \<in> set es. uniquely_versioned ev_version ev_valid_time (snd p) \<and>
      (\<forall>a \<in> set (snd p). \<forall>b \<in> set (snd p). same_edge a b)"
    by (auto simp: sort_edge_histories_def dest: validate_edge_history_ok)
  moreover from ends have "\<forall>p \<in> set es. \<forall>x \<in> set (snd p). \<forall>t. covers_at (ev_valid_time x) t \<longrightarrow>
      vertex_exists vs (ev_source x) t \<and> vertex_exists vs (ev_target x) t"
    by (auto simp: sort_edge_histories_def sort_edge_history_def intro: validate_endpoints_ok)
  ultimately show ?thesis using fold by fastforce
qed

text \<open>C22.  Overlay validation is sound: when it accepts a transaction, the graph that its
  mutations make of the base snapshot has at every instant at most one version of each vertex and
  edge, with distinct version numbers, keeps source, target and type of every edge fixed, and has
  no dangling edge: at every instant an edge is valid, both of its end points exist.\<close>

theorem overlay_validate_sound:
  assumes "overlay_validate ov base = Inr ()"
  shows "\<exists>vs es. try_fold apply_mutation (bg_vertices base, bg_edges base) (ov_mutations ov) = Inr (vs, es) \<and>
     (\<forall>(i, h) \<in> set vs. uniquely_versioned vv_version vv_valid_time h) \<and>
     (\<forall>(i, h) \<in> set es. uniquely_versioned ev_version ev_valid_time h \<and>
        (\<forall>a \<in> set h. \<forall>b \<in> set h. same_edge a b) \<and>
        (\<forall>e \<in> set h. \<forall>t. covers_at (ev_valid_time e) t \<longrightarrow>
           vertex_exists vs (ev_source e) t \<and> vertex_exists vs (ev_target e) t))"
  using assms by (rule overlay_validate_result)

definition example_vertex :: "u128 \<Rightarrow> int \<Rightarrow> int \<Rightarrow> vertex_version" where
  "example_vertex i a b =
     \<lparr>vv_id = Ident128 i, vv_version = 1, vv_valid_time = \<lparr>iv_start = a, iv_end = b\<rparr>,
      vv_transaction_time = 0, vv_properties = []\<rparr>"

definition example_overlay :: transaction_overlay where
  "example_overlay =
     \<lparr>ov_mutations =
        [PutVertex (example_vertex 1 0 10), PutVertex (example_vertex 2 5 20),
         PutEdge \<lparr>ev_id = Ident128 3, ev_source = Ident128 1, ev_target = Ident128 2,
           ev_edge_type = ''KNOWS'', ev_version = 1, ev_valid_time = \<lparr>iv_start = 5, iv_end = 10\<rparr>,
           ev_transaction_time = 0, ev_properties = []\<rparr>]\<rparr>"

definition empty_base :: base_graph_snapshot where
  "empty_base = \<lparr>bg_vertices = [], bg_edges = []\<rparr>"

theorem overlay_validate_sound_witness:
  "overlay_validate example_overlay empty_base = Inr () \<and>
   (\<exists>vs es. try_fold apply_mutation ([], []) (ov_mutations example_overlay) = Inr (vs, es))"
proof -
  have "overlay_validate example_overlay empty_base = Inr ()" by code_simp
  from overlay_validate_sound [OF this] this show ?thesis by (auto simp: empty_base_def)
qed

section \<open>Reads through the overlay\<close>

definition base_ok :: "base_graph_snapshot \<Rightarrow> bool" where
  "base_ok base \<longleftrightarrow> bm_ok (bg_vertices base) \<and>
     (\<forall>i h. map_of (bg_vertices base) i = Some h \<longrightarrow> (\<forall>v \<in> set h. vv_id v = i))"

definition staged_for :: "logical_mutation list \<Rightarrow> vertex_id \<Rightarrow> vertex_version list" where
  "staged_for mus i = filter (\<lambda>v. vv_id v = i) (staged_vertices mus)"

definition history_of :: "(vertex_id, vertex_version list) bmap \<Rightarrow> vertex_id \<Rightarrow> vertex_version list" where
  "history_of m i = (case map_of m i of None \<Rightarrow> [] | Some h \<Rightarrow> h)"

lemma staged_for_simps [simp]:
  "staged_for [] i = []"
  "staged_for (PutVertex v # mus) i = (if vv_id v = i then v # staged_for mus i else staged_for mus i)"
  "staged_for (DeleteVertex d # mus) i = staged_for mus i"
  "staged_for (PutEdge e # mus) i = staged_for mus i"
  "staged_for (DeleteEdge f # mus) i = staged_for mus i"
  by (simp_all add: staged_for_def staged_vertices_def List.map_filter_def)

lemma deletes_vertex_simps [simp]:
  "deletes_vertex [] i = False"
  "deletes_vertex (PutVertex v # mus) i = deletes_vertex mus i"
  "deletes_vertex (DeleteVertex d # mus) i = (vt_id d = i \<or> deletes_vertex mus i)"
  "deletes_vertex (PutEdge e # mus) i = deletes_vertex mus i"
  "deletes_vertex (DeleteEdge f # mus) i = deletes_vertex mus i"
  by (simp_all add: deletes_vertex_def)

lemma history_of_push: "history_of (push_vertex v m) i = (if i = vv_id v then history_of m i @ [v] else history_of m i)"
  by (simp add: history_of_def push_vertex_def map_of_bm_entry split: option.splits)

lemma applied_history:
  assumes "try_fold apply_mutation (vs, es) mus = Inr (vs', es')"
    and "\<not> (deletes_vertex mus i \<and> staged_for mus i \<noteq> [])"
  shows "history_of vs' i = (if deletes_vertex mus i then [] else history_of vs i @ staged_for mus i)"
  using assms
proof (induction mus arbitrary: vs es)
  case (Cons mu mus)
  show ?case
  proof (cases mu)
    case (PutVertex v)
    with Cons.IH [of "push_vertex v vs" es] Cons.prems show ?thesis
      by (auto simp: history_of_push split: if_splits)
  next
    case (DeleteVertex d)
    have "history_of (bm_remove (vt_id d) vs) i = (if i = vt_id d then [] else history_of vs i)"
      by (simp add: history_of_def)
    with DeleteVertex Cons.IH [of "bm_remove (vt_id d) vs" es] Cons.prems show ?thesis
      by (auto split: if_splits)
  next
    case (PutEdge e)
    with Cons.IH [of vs "push_edge e es"] Cons.prems show ?thesis by auto
  next
    case (DeleteEdge d)
    with Cons.IH [of vs "bm_remove (et_id d) es"] Cons.prems show ?thesis by auto
  qed (use Cons.prems in auto)
qed simp

lemma max_by_key_single: "length xs \<le> 1 \<Longrightarrow> max_by_key f xs = (case xs of [] \<Rightarrow> None | x # _ \<Rightarrow> Some x)"
  by (cases xs) (auto simp: max_by_key_def)

lemma map_of_fold_push:
  "map_of (fold push_vertex vs m) i =
     (if filter (\<lambda>v. vv_id v = i) vs = [] then map_of m i
      else Some (history_of m i @ filter (\<lambda>v. vv_id v = i) vs))"
proof (induction vs arbitrary: m)
  case (Cons v vs)
  have "map_of (push_vertex v m) i = (if i = vv_id v then Some (history_of m i @ [v]) else map_of m i)"
    by (simp add: push_vertex_def map_of_bm_entry history_of_def split: option.splits)
  with Cons.IH [of "push_vertex v m"] show ?case by (auto simp: history_of_push)
qed simp

lemma validated_no_put_delete:
  assumes "validate_vertex_identity ov base = Inr ()"
  shows "\<not> (deletes_vertex (ov_mutations ov) i \<and> staged_for (ov_mutations ov) i \<noteq> [])"
proof
  assume *: "deletes_vertex (ov_mutations ov) i \<and> staged_for (ov_mutations ov) i \<noteq> []"
  then have "map_of (fold push_vertex (staged_vertices (ov_mutations ov)) []) i =
      Some (staged_for (ov_mutations ov) i)"
    by (simp add: map_of_fold_push staged_for_def history_of_def)
  then have "(i, staged_for (ov_mutations ov) i) \<in> set (fold push_vertex (staged_vertices (ov_mutations ov)) [])"
    by (rule map_of_SomeD)
  with assms * show False
    by (auto simp: validate_vertex_identity_def result_simps split: if_splits)
qed

lemma base_versions_of:
  assumes "base_ok base"
  shows "filter (\<lambda>v. vv_id v = i) (concat (map snd (bg_vertices base))) = history_of (bg_vertices base) i"
proof -
  have "filter (\<lambda>v. vv_id v = i) (concat (map snd m)) = history_of m i"
    if "bm_ok m" "\<forall>j h. map_of m j = Some h \<longrightarrow> (\<forall>v \<in> set h. vv_id v = j)" for m
    using that
  proof (induction m)
    case (Cons p m)
    obtain j h where p: "p = (j, h)" by (cases p)
    have below: "map_of m j = None" using Cons.prems(1) p by (auto simp: map_of_eq_None_iff)
    have h: "\<forall>v \<in> set h. vv_id v = j" using Cons.prems(2) p by simp
    have "\<forall>k g. map_of m k = Some g \<longrightarrow> (\<forall>v \<in> set g. vv_id v = k)"
      using Cons.prems(2) p below by (metis fst_conv map_of_Cons_code(2) option.distinct(1))
    with Cons.IH Cons.prems(1) have ih: "filter (\<lambda>v. vv_id v = i) (concat (map snd m)) = history_of m i"
      by simp
    show ?case
    proof (cases "i = j")
      case True
      with h p ih below show ?thesis by (simp add: history_of_def)
    next
      case False
      with h have "filter (\<lambda>v. vv_id v = i) h = []" by (auto simp: filter_empty_conv)
      with False p ih show ?thesis by (simp add: history_of_def)
    qed
  qed (simp add: history_of_def)
  with assms show ?thesis by (simp add: base_ok_def)
qed

text \<open>C23.  Read your own writes: for an accepted overlay, reading a vertex at an instant through
  the overlay gives exactly the version that the graph left by the transaction has at that
  instant.\<close>

theorem get_vertex_reads_result:
  assumes valid: "overlay_validate ov base = Inr ()" and base: "base_ok base"
    and fold: "try_fold apply_mutation (bg_vertices base, bg_edges base) (ov_mutations ov) = Inr (vs, es)"
  shows "get_vertex ov (concat (map snd (bg_vertices base))) i at =
     find (\<lambda>v. covers_at (vv_valid_time v) at) (history_of vs i)"
proof -
  let ?mus = "ov_mutations ov" and ?c = "\<lambda>v. covers_at (vv_valid_time v) at"
  from valid have ident: "validate_vertex_identity ov base = Inr ()"
    by (auto simp: overlay_validate_def result_simps)
  note no = validated_no_put_delete [OF ident, of i]
  note hist = applied_history [OF fold no]
  show ?thesis
  proof (cases "deletes_vertex ?mus i")
    case True
    with hist show ?thesis by (simp add: get_vertex_def)
  next
    case False
    with hist have h: "history_of vs i = history_of (bg_vertices base) i @ staged_for ?mus i" by simp
    have "uniquely_versioned vv_version vv_valid_time (history_of vs i)"
    proof (cases "map_of vs i")
      case None
      then show ?thesis by (simp add: history_of_def uniquely_versioned_def)
    next
      case (Some g)
      with map_of_SomeD [OF Some] overlay_validate_result [OF valid] fold show ?thesis
        by (auto simp: history_of_def)
    qed
    then have one: "length (filter ?c (history_of vs i)) \<le> 1" by (simp add: uniquely_versioned_def)
    have f1: "filter (\<lambda>v. vv_id v = i \<and> ?c v) (staged_vertices ?mus) = filter ?c (staged_for ?mus i)"
      by (simp add: staged_for_def conj_commute)
    have f2: "filter (\<lambda>v. vv_id v = i \<and> ?c v) (concat (map snd (bg_vertices base))) =
        filter ?c (history_of (bg_vertices base) i)"
      using base_versions_of [OF base, of i] by (metis filter_filter)
    have find: "find ?c xs = (case filter ?c xs of [] \<Rightarrow> None | x # _ \<Rightarrow> Some x)" for xs
      by (induction xs) auto
    from one h have len: "length (filter ?c (history_of (bg_vertices base) i)) +
        length (filter ?c (staged_for ?mus i)) \<le> 1" by simp
    then show ?thesis
      unfolding get_vertex_def f1 f2 find h using False
      by (cases "filter ?c (staged_for ?mus i)")
        (auto simp: max_by_key_single split: list.splits)
  qed
qed

theorem get_vertex_reads_result_witness:
  "get_vertex example_overlay [] (Ident128 2) 7 = Some (example_vertex 2 5 20)"
proof -
  have valid: "overlay_validate example_overlay empty_base = Inr ()" by code_simp
  have base: "base_ok empty_base" by (simp add: base_ok_def empty_base_def)
  obtain vs es where fold: "try_fold apply_mutation (bg_vertices empty_base, bg_edges empty_base)
      (ov_mutations example_overlay) = Inr (vs, es)"
    and vs: "history_of vs (Ident128 2) = [example_vertex 2 5 20]"
    by (simp add: example_overlay_def empty_base_def push_vertex_def bm_entry_def history_of_def
        example_vertex_def)
  show ?thesis
    using get_vertex_reads_result [OF valid base fold, of "Ident128 2" 7]
    unfolding vs by (simp add: empty_base_def example_vertex_def covers_at_def)
qed

end
