(* ===== verification/Participant.thy ===== *)
theory Participant
  imports Overlay
begin

text \<open>
  The messages between a transaction coordinator and the shards
  (\<^verbatim>\<open>dtg-transaction/src/participant.rs\<close>): durable manifests, requests with their digests,
  receipts, recovered histories, and the executor trait, modelled as a record of operations over
  the world of the shards.
\<close>

section \<open>Leases and manifests\<close>

record recovery_lease =
  rl_transaction_id :: transaction_id
  rl_owner :: u128
  rl_epoch :: u64

definition recovery_lease_new ::
    "transaction_id \<Rightarrow> u128 \<Rightarrow> u64 \<Rightarrow> (txn_error, recovery_lease) result" where
  "recovery_lease_new tx owner epoch =
     (if owner = 0 \<or> epoch = 0 then Inl CorruptRecovery
      else Inr \<lparr>rl_transaction_id = tx, rl_owner = owner, rl_epoch = epoch\<rparr>)"

record participant_manifest =
  pm_shard_id :: shard_id
  pm_fence :: shard_snapshot_fence
  pm_intent_digest :: digest32

definition participant_manifest_new ::
    "shard_id \<Rightarrow> shard_snapshot_fence \<Rightarrow> digest32 \<Rightarrow> (txn_error, participant_manifest) result" where
  "participant_manifest_new shard fence d =
     (if d = 0 then Inl CorruptRecovery
      else Inr \<lparr>pm_shard_id = shard, pm_fence = fence, pm_intent_digest = d\<rparr>)"

record transaction_manifest =
  tm_transaction_id :: transaction_id
  tm_start_time :: transaction_time
  tm_catalog_version :: version
  tm_participants :: "participant_manifest list"

definition transaction_manifest_new ::
    "transaction_id \<Rightarrow> transaction_time \<Rightarrow> version \<Rightarrow> participant_manifest list
      \<Rightarrow> (txn_error, transaction_manifest) result" where
  "transaction_manifest_new tx start catalog participants =
     (let sorted = sort_key pm_shard_id participants;
          unique = bs_of (map pm_shard_id sorted) in
      if catalog = 0 \<or> sorted = [] \<or> length unique \<noteq> length sorted then Inl CorruptRecovery
      else Inr \<lparr>tm_transaction_id = tx, tm_start_time = start, tm_catalog_version = catalog,
                tm_participants = sorted\<rparr>)"

text \<open>The preimages of the home decision digests; \<^verbatim>\<open>coordinator.rs\<close> has the same two as free
  functions over the recovered intents.\<close>

definition commit_decision_preimage ::
    "transaction_id \<Rightarrow> transaction_time \<Rightarrow> (shard_id \<times> digest32) list \<Rightarrow> byte list" where
  "commit_decision_preimage tx t intents =
     str_bytes ''dtg-transaction-home-decision-v1'' @ u128_be (ident128_get tx) @ i64_be t @
     concat (map (\<lambda>(shard, d). u64_be (ident_get shard) @ b32_be d) intents)"

definition abort_decision_preimage ::
    "transaction_id \<Rightarrow> transaction_time \<Rightarrow> shard_id list \<Rightarrow> byte list" where
  "abort_decision_preimage tx t shards =
     str_bytes ''dtg-transaction-home-abort-v1'' @ u128_be (ident128_get tx) @ i64_be t @
     concat (map (\<lambda>shard. u64_be (ident_get shard)) shards)"

definition manifest_decision_digest ::
    "(byte list \<Rightarrow> digest32) \<Rightarrow> transaction_manifest \<Rightarrow> transaction_state \<Rightarrow> transaction_time
      \<Rightarrow> (txn_error, digest32) result" where
  "manifest_decision_digest blake3 m state t =
     (if state = Committed \<and> tm_start_time m < t
      then Inr (blake3 (commit_decision_preimage (tm_transaction_id m) t
             (map (\<lambda>p. (pm_shard_id p, pm_intent_digest p)) (tm_participants m))))
      else if state = Aborted \<and> t = tm_start_time m
      then Inr (blake3 (abort_decision_preimage (tm_transaction_id m) (tm_start_time m)
             (map pm_shard_id (tm_participants m))))
      else Inl CorruptRecovery)"

definition manifest_snapshot_token :: "transaction_manifest \<Rightarrow> (txn_error, snapshot_token) result" where
  "manifest_snapshot_token m =
     snapshot_token_new (tm_transaction_id m) (tm_start_time m) (tm_catalog_version m)
       (map (\<lambda>p. (pm_shard_id p, (pm_fence p)\<lparr>sf_closed_time := tm_start_time m\<rparr>)) (tm_participants m))"

section \<open>Requests\<close>

datatype submission_failure = Definitive txn_error | Ambiguous txn_error

fun into_error :: "submission_failure \<Rightarrow> txn_error" where
  "into_error (Definitive e) = e"
| "into_error (Ambiguous e) = e"

record shard_request_header =
  rh_command_id :: command_id
  rh_placement_epoch :: placement_epoch
  rh_backend_generation :: backend_generation

datatype shard_request =
    CommitSingleShard shard_request_header transaction_id transaction_time u64 "logical_mutation list"
  | PrewriteIntent shard_request_header transaction_id transaction_time u64 "logical_mutation list"
  | RecordHomeDecision shard_request_header transaction_record transaction_manifest
  | FinalizeParticipantCommit shard_request_header transaction_id transaction_time u64
      transaction_time digest32 "logical_mutation list"
  | FinalizeParticipantAbort shard_request_header transaction_record

fun request_header :: "shard_request \<Rightarrow> shard_request_header" where
  "request_header (CommitSingleShard h _ _ _ _) = h"
| "request_header (PrewriteIntent h _ _ _ _) = h"
| "request_header (RecordHomeDecision h _ _) = h"
| "request_header (FinalizeParticipantCommit h _ _ _ _ _ _) = h"
| "request_header (FinalizeParticipantAbort h _) = h"

text \<open>The private hashing functions of \<^verbatim>\<open>participant.rs\<close>, written out again there.\<close>

definition hash_bytes :: "byte list \<Rightarrow> byte list" where
  "hash_bytes bs = len_be (length bs) @ bs"

fun hash_value :: "value \<Rightarrow> byte list" where
  "hash_value VNull = [0]"
| "hash_value (VBoolean b) = [1, if b then 1 else 0]"
| "hash_value (VInteger i) = [2] @ i64_be i"
| "hash_value (VFloatBits f) = [3] @ u64_be f"
| "hash_value (VBytes bs) = [4] @ hash_bytes bs"
| "hash_value (VString s) = [5] @ hash_bytes (str_bytes s)"
| "hash_value (VList vs) = [6] @ len_be (length vs) @ concat (map hash_value vs)"
| "hash_value (VMap kvs) =
     [7] @ len_be (length kvs) @
     concat (map (\<lambda>kv. hash_bytes (str_bytes (fst kv)) @ hash_value (snd kv)) kvs)"

definition hash_interval :: "valid_interval \<Rightarrow> byte list" where
  "hash_interval iv = i64_be (iv_start iv) @ i64_be (iv_end iv)"

definition hash_properties :: "properties \<Rightarrow> byte list" where
  "hash_properties ps =
     len_be (length ps) @
     concat (map (\<lambda>kv. hash_bytes (str_bytes (fst kv)) @ hash_value (snd kv)) ps)"

definition hash_transaction :: "transaction_record \<Rightarrow> byte list" where
  "hash_transaction t =
     u128_be (ident128_get (tr_id t)) @
     [case tr_state t of Prepared \<Rightarrow> 1 | Committed \<Rightarrow> 2 | Aborted \<Rightarrow> 3] @
     i64_be (tr_transaction_time t) @ b32_be (tr_record_digest t)"

fun hash_mutation :: "logical_mutation \<Rightarrow> byte list" where
  "hash_mutation (PutVertex v) =
     [1] @ u128_be (ident128_get (vv_id v)) @ u64_be (vv_version v) @ hash_interval (vv_valid_time v) @
     i64_be (vv_transaction_time v) @ hash_properties (vv_properties v)"
| "hash_mutation (DeleteVertex v) =
     [2] @ u128_be (ident128_get (vt_id v)) @ u64_be (vt_version v) @ i64_be (vt_transaction_time v)"
| "hash_mutation (PutEdge e) =
     [3] @ u128_be (ident128_get (ev_id e)) @ u128_be (ident128_get (ev_source e)) @
     u128_be (ident128_get (ev_target e)) @ hash_bytes (str_bytes (ev_edge_type e)) @
     u64_be (ev_version e) @ hash_interval (ev_valid_time e) @ i64_be (ev_transaction_time e) @
     hash_properties (ev_properties e)"
| "hash_mutation (DeleteEdge e) =
     [4] @ u128_be (ident128_get (et_id e)) @ u64_be (et_version e) @ i64_be (et_transaction_time e)"
| "hash_mutation (PutTransaction t) = [5] @ hash_transaction t"
| "hash_mutation (PutReplicaMetadata m) =
     [6] @ hash_bytes (str_bytes (rm_name m)) @ hash_value (rm_value m)"

definition hash_mutations :: "logical_mutation list \<Rightarrow> byte list" where
  "hash_mutations ms = len_be (length ms) @ concat (map hash_mutation ms)"

definition hash_participant :: "participant_manifest \<Rightarrow> byte list" where
  "hash_participant p =
     u64_be (ident_get (pm_shard_id p)) @ u64_be (ident_get (sf_placement_epoch (pm_fence p))) @
     u64_be (ident_get (sf_backend_generation (pm_fence p))) @ u64_be (sf_applied_index (pm_fence p)) @
     b32_be (pm_intent_digest p)"

definition hash_manifest :: "transaction_manifest \<Rightarrow> byte list" where
  "hash_manifest m =
     u128_be (ident128_get (tm_transaction_id m)) @ i64_be (tm_start_time m) @
     u64_be (tm_catalog_version m) @ len_be (length (tm_participants m)) @
     concat (map hash_participant (tm_participants m))"

fun request_body :: "shard_request \<Rightarrow> byte list" where
  "request_body (CommitSingleShard _ tx start index ms) =
     [1] @ u128_be (ident128_get tx) @ i64_be start @ u64_be index @ hash_mutations ms"
| "request_body (PrewriteIntent _ tx start index ms) =
     [2] @ u128_be (ident128_get tx) @ i64_be start @ u64_be index @ hash_mutations ms"
| "request_body (RecordHomeDecision _ decision manifest) =
     [3] @ hash_transaction decision @ hash_manifest manifest"
| "request_body (FinalizeParticipantCommit _ tx start index commit d ms) =
     [4] @ u128_be (ident128_get tx) @ i64_be start @ u64_be index @ i64_be commit @ b32_be d @
     hash_mutations ms"
| "request_body (FinalizeParticipantAbort _ terminal) = [5] @ hash_transaction terminal"

definition request_preimage :: "shard_request \<Rightarrow> byte list" where
  "request_preimage r =
     str_bytes ''dtg-transaction-shard-request-v1'' @
     u128_be (ident128_get (rh_command_id (request_header r))) @
     u64_be (ident_get (rh_placement_epoch (request_header r))) @
     u64_be (ident_get (rh_backend_generation (request_header r))) @ request_body r"

definition request_digest :: "(byte list \<Rightarrow> digest32) \<Rightarrow> shard_request \<Rightarrow> digest32" where
  "request_digest blake3 r = blake3 (request_preimage r)"

section \<open>Receipts, histories and the executor\<close>

record submission_receipt =
  sr_applied_index :: u64
  sr_replayed :: bool
  sr_intent_digest :: "digest32 option"

record recovered_intent =
  ri_shard_id :: shard_id
  ri_start_time :: transaction_time
  ri_snapshot_applied_index :: u64
  ri_mutations :: "logical_mutation list"
  ri_digest :: digest32

record recovered_single_shard_commit =
  rc_command_id :: command_id
  rc_transaction_id :: transaction_id
  rc_start_time :: transaction_time
  rc_snapshot_applied_index :: u64
  rc_commit_time :: transaction_time
  rc_request_digest :: digest32

record transaction_history =
  th_prepared :: "transaction_record option"
  th_intent :: "recovered_intent option"
  th_terminal :: "transaction_record list"
  th_single_shard_commit :: "recovered_single_shard_commit option"

record 'w shard_executor =
  ex_submit :: "shard_id \<Rightarrow> shard_request \<Rightarrow> ('w, submission_failure, submission_receipt) eff"
  ex_changes_after :: "shard_id \<Rightarrow> u64 \<Rightarrow> ('w, txn_error, change_record list) eff"
  ex_transaction_history :: "shard_id \<Rightarrow> transaction_id \<Rightarrow> ('w, txn_error, transaction_history) eff"
  ex_acquire_recovery_lease :: "transaction_id \<Rightarrow> u128 \<Rightarrow> ('w, txn_error, recovery_lease) eff"
  ex_recovery_manifest ::
    "transaction_id \<Rightarrow> recovery_lease \<Rightarrow> ('w, txn_error, transaction_manifest option) eff"
  ex_release_recovery_lease :: "recovery_lease \<Rightarrow> ('w, txn_error, unit) eff"

record participant_write =
  pw_shard_id :: shard_id
  pw_mutations :: "logical_mutation list"

definition participant_write_new ::
    "shard_id \<Rightarrow> logical_mutation list \<Rightarrow> (txn_error, participant_write) result" where
  "participant_write_new shard ms =
     (if ms = [] \<or> list_ex is_internal ms then Inl InvalidMutation
      else Inr \<lparr>pw_shard_id = shard, pw_mutations = ms\<rparr>)"

section \<open>Request digests\<close>

lemma hash_bytes_str: "hash_bytes (str_bytes s) = encode_string s"
  by (simp add: hash_bytes_def encode_string_def)

lemma hash_value_eq: "hash_value v = encode_value v"
proof (induction v rule: hash_value.induct)
  case (7 vs)
  then have "map hash_value vs = map encode_value vs" by simp
  then show ?case by (simp only: hash_value.simps encode_value.simps)
next
  case (8 kvs)
  have "hash_value (snd kv) = encode_value (snd kv)" if "kv \<in> set kvs" for kv
    using that 8 by (cases kv) auto
  then have "map (\<lambda>kv. hash_bytes (str_bytes (fst kv)) @ hash_value (snd kv)) kvs =
      map (\<lambda>kv. encode_string (fst kv) @ encode_value (snd kv)) kvs"
    by (simp add: hash_bytes_str)
  then show ?case by (simp only: hash_value.simps encode_value.simps)
qed (simp_all add: hash_bytes_def encode_string_def)

lemma hash_properties_eq: "hash_properties ps = encode_properties ps"
  by (simp add: hash_properties_def encode_properties_def hash_bytes_str hash_value_eq)

lemma hash_transaction_eq: "hash_transaction t = encode_transaction t"
  by (simp add: hash_transaction_def encode_transaction_def transaction_state_tag_def)

lemma hash_mutation_eq: "hash_mutation mu = encode_mutation mu"
  by (cases mu) (simp_all add: hash_interval_def encode_interval_def hash_properties_eq hash_bytes_str
      hash_value_eq hash_transaction_eq encode_vertex_def encode_edge_def encode_metadata_def)

text \<open>The two copies of the mutation encoder, in the transaction crate and in the storage crate,
  write the same bytes.\<close>

lemma hash_mutations_eq: "hash_mutations ms = len_be (length ms) @ concat (map encode_mutation ms)"
  by (simp add: hash_mutations_def hash_mutation_eq cong: map_cong)

definition mutations_sized :: "logical_mutation list \<Rightarrow> bool" where
  "mutations_sized ms \<longleftrightarrow> len_ok ms \<and> list_all mutation_sized ms"

interpretation mutsc: prefix_code hash_mutations mutations_sized
proof
  fix x y r s
  assume "mutations_sized x" "mutations_sized y" "hash_mutations x @ r = hash_mutations y @ s"
  then have "length x = length y" "concat (map encode_mutation x) @ r = concat (map encode_mutation y) @ s"
    by (auto simp: hash_mutations_eq mutations_sized_def len_ok_def codec_split)
  with \<open>mutations_sized x\<close> \<open>mutations_sized y\<close> show "x = y \<and> r = s"
    by (simp add: mutc.concat_split mutations_sized_def)
qed

interpretation txnc: prefix_code hash_transaction "\<lambda>t. i64_ok (tr_transaction_time t)"
  by unfold_locales (auto simp: hash_transaction_eq encode_transaction_def codec_split)

text \<open>A manifest hashes every field of a participant but the closed time of its fence.
  \<open>manifest_hashed\<close> is what the stream keeps.\<close>

definition participant_hashed :: "participant_manifest \<Rightarrow> participant_manifest" where
  "participant_hashed p = p\<lparr>pm_fence := (pm_fence p)\<lparr>sf_closed_time := 0\<rparr>\<rparr>"

definition manifest_hashed :: "transaction_manifest \<Rightarrow> transaction_manifest" where
  "manifest_hashed m = m\<lparr>tm_participants := map participant_hashed (tm_participants m)\<rparr>"

definition manifest_sized :: "transaction_manifest \<Rightarrow> bool" where
  "manifest_sized m \<longleftrightarrow> i64_ok (tm_start_time m) \<and> len_ok (tm_participants m)"

interpretation pmc: prefix_code hash_participant "\<lambda>p. sf_closed_time (pm_fence p) = 0"
  by unfold_locales (auto simp: hash_participant_def codec_split)

lemma hash_participant_hashed: "hash_participant (participant_hashed p) = hash_participant p"
  by (simp add: hash_participant_def participant_hashed_def)

lemma hash_participants_hashed:
  "concat (map hash_participant ps) = concat (map hash_participant (map participant_hashed ps))"
  by (simp add: comp_def hash_participant_hashed)

lemma participant_hashed_closed [simp]: "sf_closed_time (pm_fence (participant_hashed p)) = 0"
  by (simp add: participant_hashed_def)

lemma hash_manifest_split:
  assumes "manifest_sized m" and "manifest_sized m'"
  shows "hash_manifest m @ r = hash_manifest m' @ s \<longleftrightarrow> manifest_hashed m = manifest_hashed m' \<and> r = s"
proof -
  let ?ps = "map participant_hashed (tm_participants m)"
  let ?qs = "map participant_hashed (tm_participants m')"
  have "hash_manifest m @ r = hash_manifest m' @ s \<longleftrightarrow>
      tm_transaction_id m = tm_transaction_id m' \<and> tm_start_time m = tm_start_time m' \<and>
      tm_catalog_version m = tm_catalog_version m' \<and> length ?ps = length ?qs \<and>
      concat (map hash_participant ?ps) @ r = concat (map hash_participant ?qs) @ s"
    using assms
    by (auto simp: hash_manifest_def hash_participants_hashed [of "tm_participants m"]
        hash_participants_hashed [of "tm_participants m'"] manifest_sized_def len_ok_def codec_split
        simp del: map_map)
  also have "\<dots> \<longleftrightarrow> manifest_hashed m = manifest_hashed m' \<and> r = s"
    using pmc.concat_split [of ?ps ?qs r s] map_eq_imp_length_eq
    by (cases m; cases m') (auto simp: manifest_hashed_def list_all_iff)
  finally show ?thesis .
qed

fun request_hashed :: "shard_request \<Rightarrow> shard_request" where
  "request_hashed (RecordHomeDecision h d m) = RecordHomeDecision h d (manifest_hashed m)"
| "request_hashed r = r"

fun request_sized :: "shard_request \<Rightarrow> bool" where
  "request_sized (CommitSingleShard _ _ start _ ms) = (i64_ok start \<and> mutations_sized ms)"
| "request_sized (PrewriteIntent _ _ start _ ms) = (i64_ok start \<and> mutations_sized ms)"
| "request_sized (RecordHomeDecision _ d m) = (i64_ok (tr_transaction_time d) \<and> manifest_sized m)"
| "request_sized (FinalizeParticipantCommit _ _ start _ commit _ ms) =
     (i64_ok start \<and> i64_ok commit \<and> mutations_sized ms)"
| "request_sized (FinalizeParticipantAbort _ d) = i64_ok (tr_transaction_time d)"

lemma request_body_exact:
  assumes "request_sized r" and "request_sized r'" and "request_header r = request_header r'"
  shows "request_body r = request_body r' \<longleftrightarrow> request_hashed r = request_hashed r'"
proof -
  have m: "hash_manifest m = hash_manifest m' \<longleftrightarrow> manifest_hashed m = manifest_hashed m'"
    if "manifest_sized m" "manifest_sized m'" for m m'
    using hash_manifest_split [OF that, of "[]" "[]"] by simp
  show ?thesis
    using assms
    by (cases r; cases r')
      (simp_all add: codec_split mutsc.enc_inj txnc.enc_inj txnc.split_iff m del: append_assoc)
qed

lemma request_hashed_header [simp]: "request_header (request_hashed r) = request_header r"
  by (cases r) simp_all

lemma request_preimage_exact:
  assumes "request_sized r" and "request_sized r'"
  shows "request_preimage r = request_preimage r' \<longleftrightarrow> request_hashed r = request_hashed r'"
proof -
  have "request_preimage r = request_preimage r' \<longleftrightarrow>
      request_header r = request_header r' \<and> request_body r = request_body r'"
    unfolding request_preimage_def same_append_eq
    by (cases "request_header r"; cases "request_header r'") (simp add: codec_split ident.expand ident128.expand)
  with request_body_exact [OF assms] show ?thesis
    using request_hashed_header by metis
qed


definition example_prewrite :: "u64 \<Rightarrow> shard_request" where
  "example_prewrite index =
     PrewriteIntent \<lparr>rh_command_id = Ident128 5, rh_placement_epoch = Ident 1, rh_backend_generation = Ident 1\<rparr>
       (Ident128 7) 10 index [DeleteVertex \<lparr>vt_id = Ident128 3, vt_version = 1, vt_transaction_time = 12\<rparr>]"

text \<open>A hash of the two example preimages that tells them apart: their last bytes before the
  mutation stream hold the applied index.\<close>

definition sum_hash :: "byte list \<Rightarrow> digest32" where
  "sum_hash bs = of_nat (sum_list (map unat bs))"


end
