(* ===== verification/Recovery.thy ===== *)
theory Recovery
  imports Participant
begin

text \<open>
  Recovery of transactions (\<^verbatim>\<open>dtg-transaction/src/recovery.rs\<close>) together with the parts of
  \<^verbatim>\<open>coordinator.rs\<close> it uses: the timestamp authority trait, transaction contexts, outcomes, command
  identifiers, stamped mutations and decision digests.  The coordinator is a pair of trait objects;
  its methods are computations over the world behind them.  Indexing the fences of the snapshot by
  a participant cannot fail once \<^verbatim>\<open>validate_participants\<close> has passed; the model returns
  \<open>IncompleteSnapshot\<close> there.
\<close>

section \<open>Coordinator types\<close>

record 'w timestamp_authority =
  ta_allocate_start_time :: "transaction_id \<Rightarrow> ('w, txn_error, transaction_time) eff"
  ta_reserve_commit_time :: "transaction_id \<Rightarrow> ('w, txn_error, transaction_time) eff"
  ta_commit_time_reservation ::
    "transaction_id \<Rightarrow> ('w, txn_error, commit_time_reservation option) eff"
  ta_resolve_commit_time ::
    "transaction_id \<Rightarrow> transaction_time \<Rightarrow> commit_resolution \<Rightarrow> ('w, txn_error, unit) eff"

record 'w coordinator =
  co_timestamps :: "'w timestamp_authority"
  co_participants :: "'w shard_executor"

record transaction_context =
  tc_snapshot :: snapshot_token
  tc_base :: base_graph_snapshot
  tc_overlay :: transaction_overlay

definition transaction_context_new :: "snapshot_token \<Rightarrow> transaction_context" where
  "transaction_context_new tok =
     \<lparr>tc_snapshot = tok, tc_base = \<lparr>bg_vertices = [], bg_edges = []\<rparr>, tc_overlay = overlay_new\<rparr>"

definition transaction_context_with_base ::
    "snapshot_token \<Rightarrow> base_graph_snapshot \<Rightarrow> transaction_context" where
  "transaction_context_with_base tok base =
     \<lparr>tc_snapshot = tok, tc_base = base, tc_overlay = overlay_new\<rparr>"

definition context_stage ::
    "transaction_context \<Rightarrow> logical_mutation \<Rightarrow> (txn_error, transaction_context) result" where
  "context_stage ctx mu =
     try_r (overlay_stage (tc_overlay ctx) mu) (\<lambda>ov. Inr (ctx\<lparr>tc_overlay := ov\<rparr>))"

datatype transaction_outcome = OutCommitted transaction_time | OutAborted | OutUnresolved

abbreviation ctx_tx :: "transaction_context \<Rightarrow> transaction_id" where
  "ctx_tx ctx \<equiv> st_transaction_id (tc_snapshot ctx)"

abbreviation ctx_start :: "transaction_context \<Rightarrow> transaction_time" where
  "ctx_start ctx \<equiv> st_start_time (tc_snapshot ctx)"

abbreviation ctx_fence :: "transaction_context \<Rightarrow> shard_id \<Rightarrow> shard_snapshot_fence option" where
  "ctx_fence ctx \<equiv> map_of (st_shards (tc_snapshot ctx))"

section \<open>Command identifiers, stamped mutations, decision digests\<close>

definition command_id_preimage :: "transaction_id \<Rightarrow> string \<Rightarrow> shard_id \<Rightarrow> byte list" where
  "command_id_preimage tx phase shard =
     str_bytes ''dtg-transaction-command-id-v1'' @ u128_be (ident128_get tx) @
     len_be (length phase) @ str_bytes phase @ u64_be (ident_get shard)"

definition command_id ::
    "(byte list \<Rightarrow> digest32) \<Rightarrow> transaction_id \<Rightarrow> string \<Rightarrow> shard_id \<Rightarrow> (txn_error, command_id) result" where
  "command_id blake3 tx phase shard =
     (let value = max 1 (ucast (drop_bit 128 (blake3 (command_id_preimage tx phase shard)))) in
      map_err StorageFailure (command_id_new value))"

fun stamp_mutation ::
    "transaction_time \<Rightarrow> logical_mutation \<Rightarrow> (txn_error, logical_mutation) result" where
  "stamp_mutation t (PutVertex v) =
     try_r (map_err StorageFailure (vertex_version_new (vv_id v) (vv_version v) (vv_valid_time v) t
       (vv_properties v))) (\<lambda>v'. Inr (PutVertex v'))"
| "stamp_mutation t (DeleteVertex v) = Inr (DeleteVertex (v\<lparr>vt_transaction_time := t\<rparr>))"
| "stamp_mutation t (PutEdge e) =
     try_r (map_err StorageFailure (edge_version_new (ev_id e) (ev_source e) (ev_target e)
       (ev_edge_type e) (ev_version e) (ev_valid_time e) t (ev_properties e))) (\<lambda>e'. Inr (PutEdge e'))"
| "stamp_mutation t (DeleteEdge e) = Inr (DeleteEdge (e\<lparr>et_transaction_time := t\<rparr>))"
| "stamp_mutation t (PutTransaction _) = Inl InvalidMutation"
| "stamp_mutation t (PutReplicaMetadata _) = Inl InvalidMutation"

definition stamp_mutations ::
    "logical_mutation list \<Rightarrow> transaction_time \<Rightarrow> (txn_error, logical_mutation list) result" where
  "stamp_mutations ms t = try_map (stamp_mutation t) ms"

definition decision_digest ::
    "(byte list \<Rightarrow> digest32) \<Rightarrow> transaction_id \<Rightarrow> transaction_time \<Rightarrow> (shard_id \<times> digest32) list \<Rightarrow> digest32" where
  "decision_digest blake3 tx t intents = blake3 (commit_decision_preimage tx t intents)"

definition abort_decision_digest ::
    "(byte list \<Rightarrow> digest32) \<Rightarrow> transaction_id \<Rightarrow> transaction_time \<Rightarrow> shard_id list \<Rightarrow> digest32" where
  "abort_decision_digest blake3 tx start shards = blake3 (abort_decision_preimage tx start shards)"

definition context_manifest ::
    "transaction_context \<Rightarrow> (shard_id \<times> digest32) list \<Rightarrow> (txn_error, transaction_manifest) result" where
  "context_manifest ctx participants =
     try_r (try_map (\<lambda>(shard, d).
         try_r (ok_or (ctx_fence ctx shard) IncompleteSnapshot) (\<lambda>fence.
           participant_manifest_new shard fence d)) participants)
       (transaction_manifest_new (ctx_tx ctx) (ctx_start ctx) (st_catalog_version (tc_snapshot ctx)))"

definition request_header_for ::
    "(byte list \<Rightarrow> digest32) \<Rightarrow> transaction_context \<Rightarrow> string \<Rightarrow> shard_id \<Rightarrow> shard_snapshot_fence
      \<Rightarrow> (txn_error, shard_request_header) result" where
  "request_header_for blake3 ctx phase shard fence =
     try_r (command_id blake3 (ctx_tx ctx) phase shard) (\<lambda>cid.
       Inr \<lparr>rh_command_id = cid, rh_placement_epoch = sf_placement_epoch fence,
            rh_backend_generation = sf_backend_generation fence\<rparr>)"

section \<open>The recovered state and its validation\<close>

record recovery_state =
  rs_histories :: "(shard_id, transaction_history) bmap"
  rs_intents :: "(shard_id, recovered_intent) bmap"

datatype abort_prevalidation = Proceed "transaction_time option" | Terminal transaction_outcome

definition history_is_empty :: "transaction_history \<Rightarrow> bool" where
  "history_is_empty hist \<longleftrightarrow> th_prepared hist = None \<and> th_intent hist = None \<and>
     th_terminal hist = [] \<and> th_single_shard_commit hist = None"

definition single_shard_request ::
    "(byte list \<Rightarrow> digest32) \<Rightarrow> transaction_context \<Rightarrow> shard_id \<Rightarrow> shard_snapshot_fence
      \<Rightarrow> transaction_time \<Rightarrow> (txn_error, shard_request) result" where
  "single_shard_request blake3 ctx shard fence t =
     try_r (request_header_for blake3 ctx ''single-commit'' shard fence) (\<lambda>header.
     try_r (stamp_mutations (ov_mutations (tc_overlay ctx)) t) (\<lambda>ms.
       Inr (CommitSingleShard header (ctx_tx ctx) (ctx_start ctx) (sf_applied_index fence) ms)))"

definition find_single_shard_commit ::
    "recovery_state \<Rightarrow> (txn_error, (shard_id \<times> recovered_single_shard_commit) option) result" where
  "find_single_shard_commit state =
     try_fold (\<lambda>recovered (shard, hist). case th_single_shard_commit hist of
         None \<Rightarrow> Inr recovered
       | Some commit \<Rightarrow>
           if recovered \<noteq> None then Inl CorruptRecovery else Inr (Some (shard, commit)))
       None (rs_histories state)"

definition recovery_home_shard :: "recovery_state \<Rightarrow> (txn_error, shard_id) result" where
  "recovery_home_shard state = (case rs_intents state of
     [] \<Rightarrow> Inl CorruptRecovery | (shard, _) # _ \<Rightarrow> Inr shard)"

definition validate_commit_reservation ::
    "commit_time_reservation option \<Rightarrow> transaction_time \<Rightarrow> (txn_error, unit) result" where
  "validate_commit_reservation reservation t = (case reservation of
     Some r \<Rightarrow> if rsv_commit_time r = t \<and> rsv_resolution r \<noteq> Some ResAborted then Inr ()
               else Inl CorruptRecovery
   | None \<Rightarrow> Inl CorruptRecovery)"

definition validate_abort_reservation ::
    "commit_time_reservation option \<Rightarrow> transaction_time \<Rightarrow> (txn_error, unit) result" where
  "validate_abort_reservation reservation start = (case reservation of
     None \<Rightarrow> Inr ()
   | Some r \<Rightarrow> if start < rsv_commit_time r \<and> rsv_resolution r \<noteq> Some ResCommitted then Inr ()
               else Inl CorruptRecovery)"

definition recover_intent ::
    "transaction_context \<Rightarrow> shard_id \<Rightarrow> transaction_history
      \<Rightarrow> (txn_error, recovered_intent option) result" where
  "recover_intent ctx shard hist = (case (th_prepared hist, th_intent hist) of
     (None, None) \<Rightarrow> Inr None
   | (Some prepared, Some intent) \<Rightarrow>
       if tr_id prepared = ctx_tx ctx \<and> tr_state prepared = Prepared \<and>
          tr_transaction_time prepared = ctx_start ctx \<and> ri_shard_id intent = shard \<and>
          ri_start_time intent = ctx_start ctx \<and>
          (case ctx_fence ctx shard of None \<Rightarrow> False
           | Some fence \<Rightarrow> ri_snapshot_applied_index intent = sf_applied_index fence) \<and>
          tr_record_digest prepared = ri_digest intent
       then Inr (Some intent) else Inl CorruptRecovery
   | _ \<Rightarrow> Inl CorruptRecovery)"

definition intent_digests :: "recovery_state \<Rightarrow> (shard_id \<times> digest32) list" where
  "intent_digests state = map (\<lambda>(shard, intent). (shard, ri_digest intent)) (rs_intents state)"

definition home_record_valid ::
    "(byte list \<Rightarrow> digest32) \<Rightarrow> transaction_context \<Rightarrow> recovery_state \<Rightarrow> transaction_record \<Rightarrow> bool" where
  "home_record_valid blake3 ctx state record = (case tr_state record of
     Committed \<Rightarrow>
       ctx_start ctx < tr_transaction_time record \<and> rs_intents state \<noteq> [] \<and>
       decision_digest blake3 (ctx_tx ctx) (tr_transaction_time record) (intent_digests state) =
         tr_record_digest record
   | Aborted \<Rightarrow>
       tr_transaction_time record = ctx_start ctx \<and>
       abort_decision_digest blake3 (ctx_tx ctx) (ctx_start ctx) (map fst (rs_intents state)) =
         tr_record_digest record
   | Prepared \<Rightarrow> False)"

definition home_decision_step ::
    "(byte list \<Rightarrow> digest32) \<Rightarrow> transaction_context \<Rightarrow> recovery_state \<Rightarrow> digest32 option
      \<Rightarrow> transaction_record option \<Rightarrow> transaction_record \<Rightarrow> (txn_error, transaction_record option) result" where
  "home_decision_step blake3 ctx state local_digest decision record =
     (if tr_id record \<noteq> ctx_tx ctx \<or> tr_state record = Prepared then Inl CorruptRecovery
      else if local_digest = Some (tr_record_digest record) then Inr decision
      else if \<not> home_record_valid blake3 ctx state record then Inl CorruptRecovery
      else if decision \<noteq> None \<and> decision \<noteq> Some record then Inl CorruptRecovery
      else Inr (Some record))"

text \<open>The home shard is a key of the intents, and every key of the intents is a key of the
  histories, so the lookup in the histories finds an entry.\<close>

definition recover_home_decision ::
    "(byte list \<Rightarrow> digest32) \<Rightarrow> transaction_context \<Rightarrow> shard_id \<Rightarrow> recovery_state
      \<Rightarrow> (txn_error, transaction_record option) result" where
  "recover_home_decision blake3 ctx home state =
     try_fold
       (home_decision_step blake3 ctx state (map_option ri_digest (map_of (rs_intents state) home)))
       None
       (case map_of (rs_histories state) home of None \<Rightarrow> [] | Some hist \<Rightarrow> th_terminal hist)"

definition terminal_record_ok ::
    "transaction_context \<Rightarrow> transaction_record \<Rightarrow> recovery_state \<Rightarrow> shard_id \<Rightarrow> transaction_record
      \<Rightarrow> (txn_error, unit) result" where
  "terminal_record_ok ctx decision state shard record =
     try_r (ok_or (map_of (rs_intents state) shard) CorruptRecovery) (\<lambda>intent.
       guard_r (tr_id record = ctx_tx ctx \<and> tr_state record = tr_state decision \<and>
          tr_transaction_time record = tr_transaction_time decision \<and>
          tr_record_digest record = ri_digest intent) CorruptRecovery)"

definition validate_terminal_history ::
    "transaction_context \<Rightarrow> shard_id \<Rightarrow> transaction_record \<Rightarrow> recovery_state \<Rightarrow> (txn_error, unit) result" where
  "validate_terminal_history ctx home decision state =
     try_all (\<lambda>(shard, hist). try_all (\<lambda>record.
         if shard = home \<and> record = decision then Inr ()
         else terminal_record_ok ctx decision state shard record) (th_terminal hist))
       (rs_histories state)"

definition observe_terminal ::
    "transaction_context \<Rightarrow> recovery_state \<Rightarrow> shard_id \<Rightarrow> (transaction_state \<times> transaction_time) option
      \<Rightarrow> transaction_record \<Rightarrow> (txn_error, (transaction_state \<times> transaction_time) option) result" where
  "observe_terminal ctx state shard observed record =
     try_r (ok_or (map_of (rs_intents state) shard) CorruptRecovery) (\<lambda>intent.
       if tr_id record \<noteq> ctx_tx ctx \<or> tr_record_digest record \<noteq> ri_digest intent \<or>
          tr_state record = Prepared \<or>
          (tr_state record = Aborted \<and> tr_transaction_time record \<noteq> ctx_start ctx) \<or>
          (tr_state record = Committed \<and> tr_transaction_time record \<le> ctx_start ctx)
       then Inl CorruptRecovery
       else let candidate = (tr_state record, tr_transaction_time record) in
         if observed \<noteq> None \<and> observed \<noteq> Some candidate then Inl CorruptRecovery
         else Inr (Some candidate))"

definition validate_terminal_history_without_decision ::
    "transaction_context \<Rightarrow> recovery_state \<Rightarrow> (txn_error, unit) result" where
  "validate_terminal_history_without_decision ctx state =
     try_r (try_fold (\<lambda>observed (shard, hist).
         try_fold (observe_terminal ctx state shard) observed (th_terminal hist))
       None (rs_histories state)) (\<lambda>_. Inr ())"

definition any_terminal :: "recovery_state \<Rightarrow> bool" where
  "any_terminal state \<longleftrightarrow> list_ex (\<lambda>(_, hist). th_terminal hist \<noteq> []) (rs_histories state)"

section \<open>Recovery operations\<close>

definition load_history ::
    "'w coordinator \<Rightarrow> transaction_context \<Rightarrow> shard_id
      \<Rightarrow> ('w, txn_error, shard_id \<times> transaction_history \<times> recovered_intent option) eff" where
  "load_history co ctx shard =
     eff_bind (ex_transaction_history (co_participants co) shard (ctx_tx ctx)) (\<lambda>hist.
     eff_bind (eff_of (recover_intent ctx shard hist)) (\<lambda>intent.
       eff_ret (shard, hist, intent)))"

text \<open>The shards are visited in ascending order, so both maps are built by appending.\<close>

definition load_recovery_state ::
    "'w coordinator \<Rightarrow> transaction_context \<Rightarrow> ('w, txn_error, recovery_state) eff" where
  "load_recovery_state co ctx =
     eff_bind (eff_map (load_history co ctx) (map fst (st_shards (tc_snapshot ctx)))) (\<lambda>rows.
       eff_ret \<lparr>rs_histories = map (\<lambda>(shard, hist, _). (shard, hist)) rows,
                rs_intents = List.map_filter (\<lambda>(shard, _, intent). map_option (Pair shard) intent) rows\<rparr>)"

definition recover_durable_single_shard ::
    "(byte list \<Rightarrow> digest32) \<Rightarrow> 'w coordinator \<Rightarrow> transaction_context \<Rightarrow> shard_id
      \<Rightarrow> recovered_single_shard_commit \<Rightarrow> ('w, txn_error, transaction_outcome) eff" where
  "recover_durable_single_shard blake3 co ctx shard commit =
     eff_bind (ta_commit_time_reservation (co_timestamps co) (ctx_tx ctx)) (\<lambda>found. case found of
       None \<Rightarrow> eff_err CorruptRecovery
     | Some reservation \<Rightarrow>
         if rc_commit_time commit \<le> ctx_start ctx \<or> rsv_resolution reservation = Some ResAborted \<or>
            rsv_commit_time reservation \<noteq> rc_commit_time commit
         then eff_err CorruptRecovery
         else
           eff_bind (eff_of (ok_or (ctx_fence ctx shard) IncompleteSnapshot)) (\<lambda>fence.
           eff_bind (eff_of (single_shard_request blake3 ctx shard fence (rc_commit_time commit))) (\<lambda>request.
             if rc_transaction_id commit \<noteq> ctx_tx ctx \<or>
                rc_command_id commit \<noteq> rh_command_id (request_header request) \<or>
                rc_start_time commit \<noteq> ctx_start ctx \<or>
                rc_snapshot_applied_index commit \<noteq> sf_applied_index fence \<or>
                rc_request_digest commit \<noteq> request_digest blake3 request
             then eff_err CorruptRecovery
             else
               eff_bind (ta_resolve_commit_time (co_timestamps co) (ctx_tx ctx) (rc_commit_time commit)
                   ResCommitted) (\<lambda>_.
                 eff_ret (OutCommitted (rc_commit_time commit))))))"

text \<open>Errors of \<open>load_recovery_state\<close> other than corruption leave the outcome open.\<close>

definition load_or_unresolved ::
    "'w coordinator \<Rightarrow> transaction_context \<Rightarrow> 'a
      \<Rightarrow> (recovery_state \<Rightarrow> ('w, txn_error, 'a) eff) \<Rightarrow> ('w, txn_error, 'a) eff" where
  "load_or_unresolved co ctx unresolved k =
     eff_match (load_recovery_state co ctx) (\<lambda>r. case r of
       Inr state \<Rightarrow> k state
     | Inl e \<Rightarrow> if e = CorruptRecovery then eff_err CorruptRecovery else eff_ret unresolved)"

definition resolve_definitive_single_shard_failure ::
    "(byte list \<Rightarrow> digest32) \<Rightarrow> 'w coordinator \<Rightarrow> transaction_context \<Rightarrow> transaction_time
      \<Rightarrow> txn_error \<Rightarrow> ('w, txn_error, transaction_outcome) eff" where
  "resolve_definitive_single_shard_failure blake3 co ctx t error =
     eff_match (ta_commit_time_reservation (co_timestamps co) (ctx_tx ctx)) (\<lambda>r. case r of
       Inl _ \<Rightarrow> eff_ret OutUnresolved
     | Inr reservation \<Rightarrow>
         load_or_unresolved co ctx OutUnresolved (\<lambda>state.
           eff_bind (eff_of (find_single_shard_commit state)) (\<lambda>found. case found of
             Some (shard, commit) \<Rightarrow> recover_durable_single_shard blake3 co ctx shard commit
           | None \<Rightarrow>
               if list_ex (\<lambda>(_, hist). \<not> history_is_empty hist) (rs_histories state)
               then eff_err CorruptRecovery
               else (case reservation of
                 None \<Rightarrow> eff_err CorruptRecovery
               | Some rv \<Rightarrow>
                   if rsv_commit_time rv \<noteq> t \<or> rsv_commit_time rv \<le> ctx_start ctx
                   then eff_err CorruptRecovery
                   else (case rsv_resolution rv of
                     Some ResCommitted \<Rightarrow> eff_ret (OutCommitted t)
                   | Some ResAborted \<Rightarrow> eff_ret OutAborted
                   | None \<Rightarrow>
                       eff_match (ta_resolve_commit_time (co_timestamps co) (ctx_tx ctx) t ResAborted)
                         (\<lambda>r. case r of Inl _ \<Rightarrow> eff_ret OutUnresolved | Inr _ \<Rightarrow> eff_err error))))))"

definition recover_single_shard ::
    "(byte list \<Rightarrow> digest32) \<Rightarrow> 'w coordinator \<Rightarrow> transaction_context
      \<Rightarrow> ('w, txn_error, transaction_outcome) eff" where
  "recover_single_shard blake3 co ctx =
     eff_bind (ta_commit_time_reservation (co_timestamps co) (ctx_tx ctx)) (\<lambda>found. case found of
       None \<Rightarrow> eff_ret OutUnresolved
     | Some reservation \<Rightarrow>
         if rsv_resolution reservation = Some ResAborted then eff_ret OutAborted
         else if rsv_commit_time reservation \<le> ctx_start ctx then eff_err CorruptRecovery
         else (case st_shards (tc_snapshot ctx) of
           [] \<Rightarrow> eff_err IncompleteSnapshot
         | (shard, fence) # _ \<Rightarrow>
             eff_bind (eff_of (single_shard_request blake3 ctx shard fence (rsv_commit_time reservation)))
               (\<lambda>request.
             eff_match (ex_submit (co_participants co) shard request) (\<lambda>r. case r of
               Inl (Definitive error) \<Rightarrow>
                 resolve_definitive_single_shard_failure blake3 co ctx (rsv_commit_time reservation) error
             | Inl (Ambiguous error) \<Rightarrow> eff_err error
             | Inr _ \<Rightarrow>
                 eff_bind (ta_resolve_commit_time (co_timestamps co) (ctx_tx ctx)
                     (rsv_commit_time reservation) ResCommitted) (\<lambda>_.
                   eff_ret (OutCommitted (rsv_commit_time reservation)))))))"

definition submit_or_error ::
    "'w coordinator \<Rightarrow> shard_id \<Rightarrow> shard_request \<Rightarrow> ('w, txn_error, submission_receipt) eff" where
  "submit_or_error co shard request =
     eff_match (ex_submit (co_participants co) shard request) (\<lambda>r. eff_of (map_err into_error r))"

definition recover_finalize_commit ::
    "(byte list \<Rightarrow> digest32) \<Rightarrow> 'w coordinator \<Rightarrow> transaction_context \<Rightarrow> transaction_time
      \<Rightarrow> shard_id \<times> recovered_intent \<Rightarrow> ('w, txn_error, unit) eff" where
  "recover_finalize_commit blake3 co ctx t p = (case p of (shard, intent) \<Rightarrow>
     eff_bind (eff_of (ok_or (ctx_fence ctx shard) CorruptRecovery)) (\<lambda>fence.
     eff_bind (eff_of (request_header_for blake3 ctx ''finalize-commit'' shard fence)) (\<lambda>header.
     eff_bind (submit_or_error co shard (FinalizeParticipantCommit header (ctx_tx ctx) (ctx_start ctx)
         (ri_snapshot_applied_index intent) t (ri_digest intent) (ri_mutations intent))) (\<lambda>_.
       eff_ret ()))))"

definition recover_finalize_abort ::
    "(byte list \<Rightarrow> digest32) \<Rightarrow> 'w coordinator \<Rightarrow> transaction_context
      \<Rightarrow> shard_id \<times> recovered_intent \<Rightarrow> ('w, txn_error, unit) eff" where
  "recover_finalize_abort blake3 co ctx p = (case p of (shard, intent) \<Rightarrow>
     eff_bind (eff_of (ok_or (ctx_fence ctx shard) CorruptRecovery)) (\<lambda>fence.
     eff_bind (eff_of (map_err StorageFailure
         (transaction_record_new (ctx_tx ctx) Aborted (ctx_start ctx) (ri_digest intent)))) (\<lambda>terminal.
     eff_bind (eff_of (request_header_for blake3 ctx ''finalize-abort'' shard fence)) (\<lambda>header.
     eff_bind (submit_or_error co shard (FinalizeParticipantAbort header terminal)) (\<lambda>_.
       eff_ret ())))))"

definition recover_committed ::
    "(byte list \<Rightarrow> digest32) \<Rightarrow> 'w coordinator \<Rightarrow> transaction_context \<Rightarrow> recovery_state
      \<Rightarrow> transaction_time \<Rightarrow> ('w, txn_error, transaction_outcome) eff" where
  "recover_committed blake3 co ctx state t =
     eff_bind (ta_commit_time_reservation (co_timestamps co) (ctx_tx ctx)) (\<lambda>reservation.
     eff_bind (eff_of (validate_commit_reservation reservation t)) (\<lambda>_.
     eff_bind (eff_all (recover_finalize_commit blake3 co ctx t) (rs_intents state)) (\<lambda>_.
     eff_bind (ta_resolve_commit_time (co_timestamps co) (ctx_tx ctx) t ResCommitted) (\<lambda>_.
       eff_ret (OutCommitted t)))))"

definition recover_aborted ::
    "(byte list \<Rightarrow> digest32) \<Rightarrow> 'w coordinator \<Rightarrow> transaction_context \<Rightarrow> recovery_state
      \<Rightarrow> ('w, txn_error, transaction_outcome) eff" where
  "recover_aborted blake3 co ctx state =
     eff_match (ta_commit_time_reservation (co_timestamps co) (ctx_tx ctx)) (\<lambda>r. case r of
       Inl _ \<Rightarrow> eff_ret OutUnresolved
     | Inr reservation \<Rightarrow>
         eff_bind (eff_of (validate_abort_reservation reservation (ctx_start ctx))) (\<lambda>_.
         eff_bind (eff_all (recover_finalize_abort blake3 co ctx) (rs_intents state)) (\<lambda>_.
           case reservation of
             None \<Rightarrow> eff_ret OutAborted
           | Some rv \<Rightarrow>
               eff_bind (ta_resolve_commit_time (co_timestamps co) (ctx_tx ctx) (rsv_commit_time rv)
                   ResAborted) (\<lambda>_. eff_ret OutAborted))))"

definition recover_without_intents ::
    "'w coordinator \<Rightarrow> transaction_context \<Rightarrow> recovery_state \<Rightarrow> ('w, txn_error, transaction_outcome) eff" where
  "recover_without_intents co ctx state =
     eff_bind (eff_of (validate_terminal_history_without_decision ctx state)) (\<lambda>_.
       if \<not> list_all (\<lambda>(_, hist). history_is_empty hist) (rs_histories state) then eff_ret OutUnresolved
       else
         eff_bind (ta_commit_time_reservation (co_timestamps co) (ctx_tx ctx)) (\<lambda>found. case found of
           None \<Rightarrow> eff_ret OutUnresolved
         | Some rv \<Rightarrow>
             if rsv_commit_time rv \<le> ctx_start ctx then eff_err CorruptRecovery
             else (case rsv_resolution rv of
               Some ResAborted \<Rightarrow> eff_ret OutAborted
             | Some ResCommitted \<Rightarrow> eff_err CorruptRecovery
             | None \<Rightarrow> eff_ret OutUnresolved)))"

definition recover_decided ::
    "(byte list \<Rightarrow> digest32) \<Rightarrow> 'w coordinator \<Rightarrow> transaction_context \<Rightarrow> recovery_state
      \<Rightarrow> ('w, txn_error, transaction_outcome) eff" where
  "recover_decided blake3 co ctx state =
     eff_bind (eff_of (recovery_home_shard state)) (\<lambda>home.
     eff_bind (eff_of (recover_home_decision blake3 ctx home state)) (\<lambda>found. case found of
       None \<Rightarrow>
         eff_bind (eff_of (validate_terminal_history_without_decision ctx state)) (\<lambda>_.
           eff_ret OutUnresolved)
     | Some decision \<Rightarrow>
         eff_bind (eff_of (validate_terminal_history ctx home decision state)) (\<lambda>_.
           case tr_state decision of
             Committed \<Rightarrow> recover_committed blake3 co ctx state (tr_transaction_time decision)
           | Aborted \<Rightarrow> recover_aborted blake3 co ctx state
           | Prepared \<Rightarrow> eff_err CorruptRecovery)))"

definition recover ::
    "(byte list \<Rightarrow> digest32) \<Rightarrow> 'w coordinator \<Rightarrow> transaction_context
      \<Rightarrow> ('w, txn_error, transaction_outcome) eff" where
  "recover blake3 co ctx =
     eff_bind (load_recovery_state co ctx) (\<lambda>state.
     eff_bind (eff_of (find_single_shard_commit state)) (\<lambda>found. case found of
       Some (shard, commit) \<Rightarrow> recover_durable_single_shard blake3 co ctx shard commit
     | None \<Rightarrow>
         if length (st_shards (tc_snapshot ctx)) = 1 \<and>
            list_all (\<lambda>(_, hist). history_is_empty hist) (rs_histories state)
         then recover_single_shard blake3 co ctx
         else if rs_intents state = [] then recover_without_intents co ctx state
         else recover_decided blake3 co ctx state))"

definition prevalidate_reservation ::
    "transaction_context \<Rightarrow> commit_time_reservation option \<Rightarrow> (txn_error, abort_prevalidation) result" where
  "prevalidate_reservation ctx reservation = (case reservation of
     None \<Rightarrow> Inr (Proceed None)
   | Some rv \<Rightarrow>
       if rsv_commit_time rv \<le> ctx_start ctx then Inl CorruptRecovery
       else if rsv_resolution rv = Some ResCommitted
       then Inr (Terminal (OutCommitted (rsv_commit_time rv)))
       else if rsv_resolution rv = Some ResAborted then Inr (Terminal OutAborted)
       else Inr (Proceed (Some (rsv_commit_time rv))))"

definition prevalidate_abort_authority ::
    "(byte list \<Rightarrow> digest32) \<Rightarrow> 'w coordinator \<Rightarrow> transaction_context
      \<Rightarrow> ('w, txn_error, abort_prevalidation) eff" where
  "prevalidate_abort_authority blake3 co ctx =
     eff_match (ta_commit_time_reservation (co_timestamps co) (ctx_tx ctx)) (\<lambda>r. case r of
       Inl _ \<Rightarrow> eff_ret (Terminal OutUnresolved)
     | Inr reservation \<Rightarrow>
         load_or_unresolved co ctx (Terminal OutUnresolved) (\<lambda>state.
           eff_bind (eff_of (find_single_shard_commit state)) (\<lambda>found. case found of
             Some (shard, commit) \<Rightarrow>
               eff_bind (recover_durable_single_shard blake3 co ctx shard commit) (\<lambda>out.
                 eff_ret (Terminal out))
           | None \<Rightarrow>
               eff_bind (if rs_intents state = [] then eff_ret None
                 else eff_of (try_r (recovery_home_shard state) (\<lambda>home.
                   recover_home_decision blake3 ctx home state))) (\<lambda>decision.
                 if decision \<noteq> None
                 then eff_bind (recover blake3 co ctx) (\<lambda>out. eff_ret (Terminal out))
                 else if any_terminal state
                 then eff_bind (eff_of (validate_terminal_history_without_decision ctx state)) (\<lambda>_.
                   eff_ret (Terminal OutUnresolved))
                 else eff_of (prevalidate_reservation ctx reservation)))))"

definition resolve_without_intents ::
    "'w coordinator \<Rightarrow> transaction_context \<Rightarrow> recovery_state \<Rightarrow> ('w, txn_error, transaction_outcome) eff" where
  "resolve_without_intents co ctx state =
     (if any_terminal state
      then eff_bind (eff_of (validate_terminal_history_without_decision ctx state)) (\<lambda>_.
        eff_ret OutUnresolved)
      else
        eff_bind (ta_commit_time_reservation (co_timestamps co) (ctx_tx ctx)) (\<lambda>found. case found of
          None \<Rightarrow> eff_ret OutAborted
        | Some rv \<Rightarrow>
            eff_bind (ta_resolve_commit_time (co_timestamps co) (ctx_tx ctx) (rsv_commit_time rv)
                ResAborted) (\<lambda>_. eff_ret OutAborted)))"

definition record_abort_decision ::
    "(byte list \<Rightarrow> digest32) \<Rightarrow> 'w coordinator \<Rightarrow> transaction_context \<Rightarrow> recovery_state \<Rightarrow> shard_id
      \<Rightarrow> ('w, txn_error, transaction_outcome) eff" where
  "record_abort_decision blake3 co ctx state home =
     eff_bind (eff_of (ok_or (ctx_fence ctx home) IncompleteSnapshot)) (\<lambda>fence.
     eff_bind (eff_of (context_manifest ctx (intent_digests state))) (\<lambda>manifest.
     eff_bind (eff_of (manifest_decision_digest blake3 manifest Aborted (ctx_start ctx))) (\<lambda>d.
     eff_bind (eff_of (map_err StorageFailure
         (transaction_record_new (ctx_tx ctx) Aborted (ctx_start ctx) d))) (\<lambda>decision.
     eff_bind (eff_of (request_header_for blake3 ctx ''decision'' home fence)) (\<lambda>header.
     eff_match (ex_submit (co_participants co) home (RecordHomeDecision header decision manifest)) (\<lambda>r. case r of
       Inl _ \<Rightarrow>
         eff_match (recover blake3 co ctx) (\<lambda>r. case r of
           Inr out \<Rightarrow> eff_ret out
         | Inl e \<Rightarrow> if e = CorruptRecovery then eff_err CorruptRecovery else eff_ret OutUnresolved)
     | Inr _ \<Rightarrow> recover blake3 co ctx))))))"

definition resolve_failed_prewrite ::
    "(byte list \<Rightarrow> digest32) \<Rightarrow> 'w coordinator \<Rightarrow> transaction_context
      \<Rightarrow> ('w, txn_error, transaction_outcome) eff" where
  "resolve_failed_prewrite blake3 co ctx =
     eff_bind (prevalidate_abort_authority blake3 co ctx) (\<lambda>pre. case pre of
       Terminal out \<Rightarrow> eff_ret out
     | Proceed _ \<Rightarrow>
         load_or_unresolved co ctx OutUnresolved (\<lambda>state.
           if rs_intents state = [] then resolve_without_intents co ctx state
           else
             eff_bind (eff_of (recovery_home_shard state)) (\<lambda>home.
             eff_bind (eff_of (recover_home_decision blake3 ctx home state)) (\<lambda>decision.
               if decision \<noteq> None then recover blake3 co ctx
               else if any_terminal state
               then eff_bind (eff_of (validate_terminal_history_without_decision ctx state)) (\<lambda>_.
                 eff_ret OutUnresolved)
               else record_abort_decision blake3 co ctx state home))))"

definition recover_from_manifest ::
    "(byte list \<Rightarrow> digest32) \<Rightarrow> 'w coordinator \<Rightarrow> transaction_id \<Rightarrow> recovery_lease
      \<Rightarrow> ('w, txn_error, transaction_outcome) eff" where
  "recover_from_manifest blake3 co tx lease =
     eff_bind (ex_recovery_manifest (co_participants co) tx lease) (\<lambda>found.
     eff_bind (eff_of (ok_or found CorruptRecovery)) (\<lambda>manifest.
       if tm_transaction_id manifest \<noteq> tx then eff_err CorruptRecovery
       else
         eff_bind (eff_of (manifest_snapshot_token manifest)) (\<lambda>tok.
         let ctx = transaction_context_new tok in
         eff_bind (load_recovery_state co ctx) (\<lambda>state.
           if list_ex (\<lambda>p. map_option ri_digest (map_of (rs_intents state) (pm_shard_id p)) \<noteq>
                Some (pm_intent_digest p)) (tm_participants manifest)
           then eff_err CorruptRecovery
           else
             eff_bind (recover blake3 co ctx) (\<lambda>out.
               if out = OutUnresolved then resolve_failed_prewrite blake3 co ctx else eff_ret out)))))"

definition recover_transaction ::
    "(byte list \<Rightarrow> digest32) \<Rightarrow> 'w coordinator \<Rightarrow> transaction_id \<Rightarrow> u128
      \<Rightarrow> ('w, txn_error, transaction_outcome) eff" where
  "recover_transaction blake3 co tx owner =
     eff_bind (ex_acquire_recovery_lease (co_participants co) tx owner) (\<lambda>lease.
     eff_match (recover_from_manifest blake3 co tx lease) (\<lambda>outcome.
     eff_match (ex_release_recovery_lease (co_participants co) lease) (\<lambda>release.
       case (outcome, release) of
         (Inr out, Inr _) \<Rightarrow> eff_ret out
       | (Inl e, _) \<Rightarrow> eff_err e
       | (Inr _, Inl e) \<Rightarrow> eff_err e)))"

end
