(* ===== verification/Coordinator.thy ===== *)
theory Coordinator
  imports Recovery
begin

text \<open>
  The transaction coordinator (\<^verbatim>\<open>dtg-transaction/src/coordinator.rs\<close>): beginning a transaction,
  two-phase commit over the shards with the one-shard shortcut, and abort.
\<close>

section \<open>Matching the participants with the staged mutations\<close>

fun position :: "('a \<Rightarrow> bool) \<Rightarrow> 'a list \<Rightarrow> nat option" where
  "position P [] = None"
| "position P (x # xs) = (if P x then Some 0 else map_option Suc (position P xs))"

text \<open>\<open>Vec::swap_remove\<close>: the last element takes the place of the removed one.\<close>

definition swap_remove :: "nat \<Rightarrow> 'a list \<Rightarrow> 'a list" where
  "swap_remove i xs = butlast (xs[i := last xs])"

definition match_mutation ::
    "logical_mutation list \<Rightarrow> logical_mutation \<Rightarrow> (txn_error, logical_mutation list) result" where
  "match_mutation unmatched mu = (case position (\<lambda>candidate. candidate = mu) unmatched of
     None \<Rightarrow> Inl ParticipantsMismatch
   | Some i \<Rightarrow> Inr (swap_remove i unmatched))"

definition validate_participants ::
    "transaction_context \<Rightarrow> participant_write list \<Rightarrow> (txn_error, unit) result" where
  "validate_participants ctx participants =
     (let staged = ov_mutations (tc_overlay ctx) in
      if sum_list (map (\<lambda>p. length (pw_mutations p)) participants) \<noteq> length staged
      then Inl ParticipantsMismatch
      else try_r (try_fold match_mutation staged (concat (map pw_mutations participants))) (\<lambda>unmatched.
        if unmatched \<noteq> [] then Inl ParticipantsMismatch
        else let shard_ids = bs_of (map pw_shard_id participants) in
          if length shard_ids \<noteq> length participants \<or>
             \<not> list_all (\<lambda>shard. ctx_fence ctx shard \<noteq> None) shard_ids \<or>
             (participants = []) \<noteq> (staged = [])
          then Inl ParticipantsMismatch
          else Inr ()))"

section \<open>Begin\<close>

definition begin_transaction ::
    "'w coordinator \<Rightarrow> transaction_id \<Rightarrow> version \<Rightarrow> (shard_id \<times> shard_snapshot_fence) list
      \<Rightarrow> ('w, txn_error, transaction_context) eff" where
  "begin_transaction co tx catalog fences =
     eff_bind (ta_allocate_start_time (co_timestamps co) tx) (\<lambda>start.
     eff_bind (eff_of (snapshot_token_new tx start catalog fences)) (\<lambda>tok.
       eff_ret (transaction_context_new tok)))"

section \<open>Commit\<close>

text \<open>The body of the conflict loop; the left side of the result is the early return of the
  surrounding method.\<close>

definition check_participant ::
    "(byte list \<Rightarrow> digest32) \<Rightarrow> 'w coordinator \<Rightarrow> transaction_context \<Rightarrow> bool
      \<Rightarrow> transaction_time option \<Rightarrow> participant_write
      \<Rightarrow> ('w, txn_error, transaction_outcome + unit) eff" where
  "check_participant blake3 co ctx several existing p =
     eff_bind (eff_of (ok_or (ctx_fence ctx (pw_shard_id p)) IncompleteSnapshot)) (\<lambda>fence.
     eff_bind (ex_changes_after (co_participants co) (pw_shard_id p) (sf_applied_index fence)) (\<lambda>changes.
     eff_bind (eff_of (case existing of
         Some t \<Rightarrow> stamp_mutations (pw_mutations p) t | None \<Rightarrow> Inr [])) (\<lambda>intended.
     let committed = filter (\<lambda>mu. mu \<notin> set intended) (map cr_mutation changes) in
     case detect_mutation_conflicts (pw_mutations p) committed (ctx_start ctx) of
       Inr _ \<Rightarrow> eff_ret (Inr ())
     | Inl error \<Rightarrow>
         (case existing of
           None \<Rightarrow> eff_err error
         | Some t \<Rightarrow>
             if several then eff_bind (resolve_failed_prewrite blake3 co ctx) (\<lambda>out. eff_ret (Inl out))
             else eff_bind (ta_resolve_commit_time (co_timestamps co) (ctx_tx ctx) t ResAborted) (\<lambda>_.
               eff_err error)))))"

definition commit_single_shard ::
    "(byte list \<Rightarrow> digest32) \<Rightarrow> 'w coordinator \<Rightarrow> transaction_context \<Rightarrow> transaction_time
      \<Rightarrow> participant_write \<Rightarrow> ('w, txn_error, transaction_outcome) eff" where
  "commit_single_shard blake3 co ctx t p =
     eff_bind (eff_of (ok_or (ctx_fence ctx (pw_shard_id p)) IncompleteSnapshot)) (\<lambda>fence.
     eff_bind (eff_of (request_header_for blake3 ctx ''single-commit'' (pw_shard_id p) fence)) (\<lambda>header.
     eff_bind (eff_of (stamp_mutations (pw_mutations p) t)) (\<lambda>ms.
     eff_match (ex_submit (co_participants co) (pw_shard_id p)
         (CommitSingleShard header (ctx_tx ctx) (ctx_start ctx) (sf_applied_index fence) ms)) (\<lambda>r. case r of
       Inl (Definitive error) \<Rightarrow> resolve_definitive_single_shard_failure blake3 co ctx t error
     | Inl (Ambiguous error) \<Rightarrow> eff_err error
     | Inr _ \<Rightarrow>
         eff_bind (ta_resolve_commit_time (co_timestamps co) (ctx_tx ctx) t ResCommitted) (\<lambda>_.
           eff_ret (OutCommitted t))))))"

text \<open>The body of the prewrite loops of \<open>commit\<close> and \<open>abort\<close>, which differ in the phase name and
  in the time the mutations are stamped with.\<close>

definition prewrite_participant ::
    "(byte list \<Rightarrow> digest32) \<Rightarrow> 'w coordinator \<Rightarrow> transaction_context \<Rightarrow> string \<Rightarrow> transaction_time
      \<Rightarrow> (shard_id \<times> logical_mutation list \<times> digest32) list \<Rightarrow> participant_write
      \<Rightarrow> ('w, txn_error, transaction_outcome + (shard_id \<times> logical_mutation list \<times> digest32) list) eff" where
  "prewrite_participant blake3 co ctx phase t intents p =
     eff_bind (eff_of (ok_or (ctx_fence ctx (pw_shard_id p)) IncompleteSnapshot)) (\<lambda>fence.
     eff_bind (eff_of (stamp_mutations (pw_mutations p) t)) (\<lambda>ms.
     eff_bind (eff_of (request_header_for blake3 ctx phase (pw_shard_id p) fence)) (\<lambda>header.
     eff_match (ex_submit (co_participants co) (pw_shard_id p)
         (PrewriteIntent header (ctx_tx ctx) (ctx_start ctx) (sf_applied_index fence) ms)) (\<lambda>r.
       case (case r of Inr receipt \<Rightarrow> sr_intent_digest receipt | Inl _ \<Rightarrow> None) of
         None \<Rightarrow> eff_bind (resolve_failed_prewrite blake3 co ctx) (\<lambda>out. eff_ret (Inl out))
       | Some d \<Rightarrow> eff_ret (Inr (intents @ [(pw_shard_id p, ms, d)]))))))"

definition finalize_commit ::
    "(byte list \<Rightarrow> digest32) \<Rightarrow> 'w coordinator \<Rightarrow> transaction_context \<Rightarrow> transaction_time
      \<Rightarrow> shard_id \<times> logical_mutation list \<times> digest32 \<Rightarrow> ('w, txn_error, unit) eff" where
  "finalize_commit blake3 co ctx t i = (case i of (shard, ms, d) \<Rightarrow>
     eff_bind (eff_of (ok_or (ctx_fence ctx shard) IncompleteSnapshot)) (\<lambda>fence.
     eff_bind (eff_of (request_header_for blake3 ctx ''finalize-commit'' shard fence)) (\<lambda>header.
     eff_bind (submit_or_error co shard (FinalizeParticipantCommit header (ctx_tx ctx) (ctx_start ctx)
         (sf_applied_index fence) t d ms)) (\<lambda>_. eff_ret ()))))"

definition finalize_abort ::
    "(byte list \<Rightarrow> digest32) \<Rightarrow> 'w coordinator \<Rightarrow> transaction_context
      \<Rightarrow> shard_id \<times> logical_mutation list \<times> digest32 \<Rightarrow> ('w, txn_error, unit) eff" where
  "finalize_abort blake3 co ctx i = (case i of (shard, _, d) \<Rightarrow>
     eff_bind (eff_of (ok_or (ctx_fence ctx shard) IncompleteSnapshot)) (\<lambda>fence.
     eff_bind (eff_of (map_err StorageFailure
         (transaction_record_new (ctx_tx ctx) Aborted (ctx_start ctx) d))) (\<lambda>terminal.
     eff_bind (eff_of (request_header_for blake3 ctx ''finalize-abort'' shard fence)) (\<lambda>header.
     eff_bind (submit_or_error co shard (FinalizeParticipantAbort header terminal)) (\<lambda>_.
       eff_ret ())))))"

text \<open>Recording the decision at the home shard, the first participant.\<close>

definition record_home_decision ::
    "(byte list \<Rightarrow> digest32) \<Rightarrow> 'w coordinator \<Rightarrow> transaction_context \<Rightarrow> shard_id
      \<Rightarrow> transaction_state \<Rightarrow> transaction_time \<Rightarrow> (shard_id \<times> logical_mutation list \<times> digest32) list
      \<Rightarrow> ('w, txn_error, unit) eff" where
  "record_home_decision blake3 co ctx home state t intents =
     eff_bind (eff_of (ok_or (ctx_fence ctx home) IncompleteSnapshot)) (\<lambda>fence.
     eff_bind (eff_of (context_manifest ctx (map (\<lambda>(shard, _, d). (shard, d)) intents))) (\<lambda>manifest.
     eff_bind (eff_of (manifest_decision_digest blake3 manifest state t)) (\<lambda>d.
     eff_bind (eff_of (map_err StorageFailure (transaction_record_new (ctx_tx ctx) state t d))) (\<lambda>decision.
     eff_bind (eff_of (request_header_for blake3 ctx ''decision'' home fence)) (\<lambda>header.
     eff_bind (submit_or_error co home (RecordHomeDecision header decision manifest)) (\<lambda>_.
       eff_ret ()))))))"

definition commit_two_phase ::
    "(byte list \<Rightarrow> digest32) \<Rightarrow> 'w coordinator \<Rightarrow> transaction_context \<Rightarrow> transaction_time
      \<Rightarrow> participant_write list \<Rightarrow> ('w, txn_error, transaction_outcome) eff" where
  "commit_two_phase blake3 co ctx t participants =
     eff_bind (eff_loop (prewrite_participant blake3 co ctx ''prewrite'' t) [] participants) (\<lambda>r. case r of
       Inl out \<Rightarrow> eff_ret out
     | Inr intents \<Rightarrow>
         eff_bind (record_home_decision blake3 co ctx (pw_shard_id (hd participants)) Committed t intents) (\<lambda>_.
         eff_bind (eff_all (finalize_commit blake3 co ctx t) intents) (\<lambda>_.
         eff_bind (ta_resolve_commit_time (co_timestamps co) (ctx_tx ctx) t ResCommitted) (\<lambda>_.
           eff_ret (OutCommitted t)))))"

definition commit_checked ::
    "(byte list \<Rightarrow> digest32) \<Rightarrow> 'w coordinator \<Rightarrow> transaction_context \<Rightarrow> transaction_time option
      \<Rightarrow> participant_write list \<Rightarrow> ('w, txn_error, transaction_outcome) eff" where
  "commit_checked blake3 co ctx existing participants =
     eff_bind (eff_loop (\<lambda>_. check_participant blake3 co ctx (1 < length participants) existing) ()
         participants) (\<lambda>r. case r of
       Inl out \<Rightarrow> eff_ret out
     | Inr _ \<Rightarrow>
         eff_bind (case existing of Some t \<Rightarrow> eff_ret t
           | None \<Rightarrow> ta_reserve_commit_time (co_timestamps co) (ctx_tx ctx)) (\<lambda>t.
           if t \<le> ctx_start ctx then eff_err InconsistentSnapshot
           else if length participants = 1 then commit_single_shard blake3 co ctx t (hd participants)
           else commit_two_phase blake3 co ctx t participants))"

definition commit ::
    "(byte list \<Rightarrow> digest32) \<Rightarrow> 'w coordinator \<Rightarrow> transaction_context \<Rightarrow> participant_write list
      \<Rightarrow> ('w, txn_error, transaction_outcome) eff" where
  "commit blake3 co ctx writes =
     eff_bind (eff_of (overlay_validate (tc_overlay ctx) (tc_base ctx))) (\<lambda>_.
     eff_bind (eff_of (validate_participants ctx writes)) (\<lambda>_.
     let participants = sort_key pw_shard_id writes in
     if participants = [] then eff_ret (OutCommitted (ctx_start ctx))
     else
       eff_bind (ta_commit_time_reservation (co_timestamps co) (ctx_tx ctx)) (\<lambda>existing. case existing of
         None \<Rightarrow> commit_checked blake3 co ctx None participants
       | Some rv \<Rightarrow>
           if rsv_resolution rv = Some ResAborted then eff_ret OutAborted
           else if length participants = 1 \<and> rsv_resolution rv = Some ResCommitted
           then (if rsv_commit_time rv \<le> ctx_start ctx then eff_err CorruptRecovery
                 else eff_ret (OutCommitted (rsv_commit_time rv)))
           else commit_checked blake3 co ctx (Some (rsv_commit_time rv)) participants)))"

section \<open>Abort\<close>

definition abort_two_phase ::
    "(byte list \<Rightarrow> digest32) \<Rightarrow> 'w coordinator \<Rightarrow> transaction_context \<Rightarrow> transaction_time option
      \<Rightarrow> participant_write list \<Rightarrow> ('w, txn_error, transaction_outcome) eff" where
  "abort_two_phase blake3 co ctx pending participants =
     eff_bind (eff_loop (prewrite_participant blake3 co ctx ''prewrite-abort'' (ctx_start ctx)) []
         participants) (\<lambda>r. case r of
       Inl out \<Rightarrow> eff_ret out
     | Inr intents \<Rightarrow>
         eff_bind (record_home_decision blake3 co ctx (pw_shard_id (hd participants)) Aborted
             (ctx_start ctx) intents) (\<lambda>_.
         eff_bind (eff_all (finalize_abort blake3 co ctx) intents) (\<lambda>_. case pending of
           None \<Rightarrow> eff_ret OutAborted
         | Some t \<Rightarrow>
             eff_match (ta_resolve_commit_time (co_timestamps co) (ctx_tx ctx) t ResAborted) (\<lambda>r. case r of
               Inl _ \<Rightarrow> eff_ret OutUnresolved | Inr _ \<Rightarrow> eff_ret OutAborted))))"

definition abort ::
    "(byte list \<Rightarrow> digest32) \<Rightarrow> 'w coordinator \<Rightarrow> transaction_context \<Rightarrow> participant_write list
      \<Rightarrow> ('w, txn_error, transaction_outcome) eff" where
  "abort blake3 co ctx writes =
     eff_bind (eff_of (overlay_validate (tc_overlay ctx) (tc_base ctx))) (\<lambda>_.
     eff_bind (eff_of (validate_participants ctx writes)) (\<lambda>_.
     let participants = sort_key pw_shard_id writes in
     if participants = [] then eff_ret OutAborted
     else
       eff_bind (prevalidate_abort_authority blake3 co ctx) (\<lambda>pre. case pre of
         Terminal out \<Rightarrow> eff_ret out
       | Proceed pending \<Rightarrow> abort_two_phase blake3 co ctx pending participants)))"

section \<open>Calls on a coordinator\<close>

datatype coordinator_call =
    CallBegin transaction_id version "(shard_id \<times> shard_snapshot_fence) list"
  | CallCommit transaction_context "participant_write list"
  | CallAbort transaction_context "participant_write list"
  | CallRecover transaction_context
  | CallRecoverTransaction transaction_id u128

fun call_tx :: "coordinator_call \<Rightarrow> transaction_id" where
  "call_tx (CallBegin tx _ _) = tx"
| "call_tx (CallCommit ctx _) = ctx_tx ctx"
| "call_tx (CallAbort ctx _) = ctx_tx ctx"
| "call_tx (CallRecover ctx) = ctx_tx ctx"
| "call_tx (CallRecoverTransaction tx _) = tx"

text \<open>A commit or abort without participants is answered without consulting anybody.\<close>

fun call_writes :: "coordinator_call \<Rightarrow> bool" where
  "call_writes (CallCommit _ writes) = (writes \<noteq> [])"
| "call_writes (CallAbort _ writes) = (writes \<noteq> [])"
| "call_writes _ = True"

fun run_call ::
    "(byte list \<Rightarrow> digest32) \<Rightarrow> 'w coordinator \<Rightarrow> coordinator_call \<Rightarrow> ('w, txn_error, transaction_outcome option) eff" where
  "run_call blake3 co (CallBegin tx catalog fences) =
     eff_bind (begin_transaction co tx catalog fences) (\<lambda>_. eff_ret None)"
| "run_call blake3 co (CallCommit ctx writes) =
     eff_bind (commit blake3 co ctx writes) (\<lambda>out. eff_ret (Some out))"
| "run_call blake3 co (CallAbort ctx writes) =
     eff_bind (abort blake3 co ctx writes) (\<lambda>out. eff_ret (Some out))"
| "run_call blake3 co (CallRecover ctx) = eff_bind (recover blake3 co ctx) (\<lambda>out. eff_ret (Some out))"
| "run_call blake3 co (CallRecoverTransaction tx owner) =
     eff_bind (recover_transaction blake3 co tx owner) (\<lambda>out. eff_ret (Some out))"

primrec run_calls :: "(byte list \<Rightarrow> digest32) \<Rightarrow> 'w coordinator \<Rightarrow> coordinator_call list \<Rightarrow> 'w \<Rightarrow> 'w" where
  "run_calls blake3 co [] w = w"
| "run_calls blake3 co (c # cs) w = run_calls blake3 co cs (snd (run_call blake3 co c w))"

end
