(* ===== verification/Coordinator_Safety.thy ===== *)
theory Coordinator_Safety
  imports Coordinator Timestamp_Log
begin

text \<open>
  Agreement of transaction outcomes.  What the coordinator needs of the timestamp authority and of
  the shards is the interface \<open>reservation_contract\<close>: reservations are read and resolved as asked,
  and nothing any call does (of this coordinator or of others running beside it) changes the commit
  time or the resolution of a reservation.  From it every outcome the coordinator reports is
  justified by the authority.  The contract holds for the durable authority of
  \<^verbatim>\<open>timestamp.rs\<close>, with arbitrary shards and arbitrary other clients.
\<close>

section \<open>The interface of the authority and the shards\<close>

definition reservations_later ::
    "(transaction_id \<Rightarrow> commit_time_reservation option)
      \<Rightarrow> (transaction_id \<Rightarrow> commit_time_reservation option) \<Rightarrow> bool" where
  "reservations_later m m' \<longleftrightarrow> (\<forall>tx r. m tx = Some r \<longrightarrow>
     (\<exists>r'. m' tx = Some r' \<and> rsv_commit_time r' = rsv_commit_time r \<and>
        (rsv_resolution r \<noteq> None \<longrightarrow> r' = r)))"

lemma reservations_later_refl: "reservations_later m m"
  by (simp add: reservations_later_def)

lemma reservations_later_keeps:
  "reservations_later m m' \<Longrightarrow> m tx = Some r \<Longrightarrow> rsv_resolution r \<noteq> None \<Longrightarrow> m' tx = Some r"
  by (auto simp: reservations_later_def)

lemma reservations_later_trans:
  assumes "reservations_later a b" and "reservations_later b c"
  shows "reservations_later a c"
  unfolding reservations_later_def
proof (intro allI impI)
  fix tx r
  assume "a tx = Some r"
  with assms(1) obtain r1 where r1: "b tx = Some r1" "rsv_commit_time r1 = rsv_commit_time r"
      "rsv_resolution r \<noteq> None \<longrightarrow> r1 = r"
    unfolding reservations_later_def by blast
  with assms(2) obtain r2 where "c tx = Some r2" "rsv_commit_time r2 = rsv_commit_time r1"
      "rsv_resolution r1 \<noteq> None \<longrightarrow> r2 = r1"
    unfolding reservations_later_def by blast
  with r1 show "\<exists>r'. c tx = Some r' \<and> rsv_commit_time r' = rsv_commit_time r \<and>
      (rsv_resolution r \<noteq> None \<longrightarrow> r' = r)"
    by auto
qed

locale reservation_contract =
  fixes co :: "'w coordinator" and resv :: "'w \<Rightarrow> transaction_id \<Rightarrow> commit_time_reservation option"
    and inv :: "'w \<Rightarrow> bool"
  assumes allocate: "inv w \<Longrightarrow> ta_allocate_start_time (co_timestamps co) tx w = (r1, w') \<Longrightarrow>
      inv w' \<and> reservations_later (resv w) (resv w')"
    and reserve: "inv w \<Longrightarrow> ta_reserve_commit_time (co_timestamps co) tx w = (r1, w') \<Longrightarrow>
      inv w' \<and> reservations_later (resv w) (resv w')"
    and reservation: "inv w \<Longrightarrow> ta_commit_time_reservation (co_timestamps co) tx w = (r2, w') \<Longrightarrow>
      inv w' \<and> reservations_later (resv w) (resv w') \<and> (\<forall>found. r2 = Inr found \<longrightarrow> resv w' tx = found)"
    and resolve: "inv w \<Longrightarrow> ta_resolve_commit_time (co_timestamps co) tx t res w = (r3, w') \<Longrightarrow>
      inv w' \<and> reservations_later (resv w) (resv w') \<and>
      (\<forall>u. r3 = Inr u \<longrightarrow> resv w' tx = Some \<lparr>rsv_commit_time = t, rsv_resolution = Some res\<rparr>)"
    and submit: "inv w \<Longrightarrow> ex_submit (co_participants co) shard req w = (r4, w') \<Longrightarrow>
      inv w' \<and> reservations_later (resv w) (resv w')"
    and changes: "inv w \<Longrightarrow> ex_changes_after (co_participants co) shard i w = (r5, w') \<Longrightarrow>
      inv w' \<and> reservations_later (resv w) (resv w')"
    and history: "inv w \<Longrightarrow> ex_transaction_history (co_participants co) shard tx w = (r6, w') \<Longrightarrow>
      inv w' \<and> reservations_later (resv w) (resv w')"
    and acquire: "inv w \<Longrightarrow> ex_acquire_recovery_lease (co_participants co) tx owner w = (r7, w') \<Longrightarrow>
      inv w' \<and> reservations_later (resv w) (resv w')"
    and manifest: "inv w \<Longrightarrow> ex_recovery_manifest (co_participants co) tx lease w = (r8, w') \<Longrightarrow>
      inv w' \<and> reservations_later (resv w) (resv w')"
    and release: "inv w \<Longrightarrow> ex_release_recovery_lease (co_participants co) lease w = (r9, w') \<Longrightarrow>
      inv w' \<and> reservations_later (resv w) (resv w')"
begin

text \<open>\<open>quiet m\<close>: the computation keeps the contract, whatever it returns.\<close>

definition quiet :: "('w, 'e, 'a) eff \<Rightarrow> bool" where
  "quiet m \<longleftrightarrow> (\<forall>w r w'. inv w \<longrightarrow> m w = (r, w') \<longrightarrow> inv w' \<and> reservations_later (resv w) (resv w'))"

lemma quietI:
  "(\<And>w r w'. inv w \<Longrightarrow> m w = (r, w') \<Longrightarrow> inv w' \<and> reservations_later (resv w) (resv w')) \<Longrightarrow> quiet m"
  by (simp add: quiet_def)

lemma quietD: "quiet m \<Longrightarrow> inv w \<Longrightarrow> inv (snd (m w)) \<and> reservations_later (resv w) (resv (snd (m w)))"
  unfolding quiet_def by (metis prod.collapse)

lemma quiet_pure: "quiet (eff_ret a)" "quiet (eff_err e)" "quiet (eff_of x)"
  by (auto simp: quiet_def reservations_later_refl)

lemma quiet_calls:
  "quiet (ta_allocate_start_time (co_timestamps co) tx)"
  "quiet (ta_reserve_commit_time (co_timestamps co) tx)"
  "quiet (ta_commit_time_reservation (co_timestamps co) tx)"
  "quiet (ta_resolve_commit_time (co_timestamps co) tx t res)"
  "quiet (ex_submit (co_participants co) shard req)"
  "quiet (ex_changes_after (co_participants co) shard i)"
  "quiet (ex_transaction_history (co_participants co) shard tx)"
  "quiet (ex_acquire_recovery_lease (co_participants co) tx owner)"
  "quiet (ex_recovery_manifest (co_participants co) tx lease)"
  "quiet (ex_release_recovery_lease (co_participants co) lease)"
  by (rule quietI, erule (1) allocate, rule quietI, erule (1) reserve,
      rule quietI, drule (1) reservation, blast, rule quietI, drule (1) resolve, blast,
      rule quietI, erule (1) submit, rule quietI, erule (1) changes, rule quietI, erule (1) history,
      rule quietI, erule (1) acquire, rule quietI, erule (1) manifest, rule quietI, erule (1) release)

lemma quiet_match:
  assumes "quiet m" and "\<And>r. quiet (k r)"
  shows "quiet (eff_match m k)"
proof (rule quietI)
  fix w r w'
  assume "inv w" and run: "eff_match m k w = (r, w')"
  with quietD [OF assms(1)] have q: "inv (snd (m w))" "reservations_later (resv w) (resv (snd (m w)))"
    by simp_all
  from run quietD [OF assms(2) q(1), of "fst (m w)"]
  have "inv w'" "reservations_later (resv (snd (m w))) (resv w')" by simp_all
  with reservations_later_trans [OF q(2)] show "inv w' \<and> reservations_later (resv w) (resv w')" by simp
qed

lemma quiet_bind:
  assumes "quiet m" and "\<And>a. quiet (k a)"
  shows "quiet (eff_bind m k)"
  unfolding eff_bind_def
  by (rule quiet_match [OF assms(1)]) (use assms(2) quiet_pure in \<open>auto split: sum.split\<close>)

lemma quiet_map: "(\<And>x. quiet (f x)) \<Longrightarrow> quiet (eff_map f xs)"
  by (induction xs) (simp_all add: quiet_pure quiet_bind)

lemma quiet_all: "(\<And>x. quiet (f x)) \<Longrightarrow> quiet (eff_all f xs)"
  by (simp add: eff_all_def quiet_bind quiet_map quiet_pure)

lemmas quiet_rules = quiet_pure quiet_calls quiet_bind quiet_match quiet_map quiet_all

lemma quiet_load: "quiet (load_recovery_state co ctx)"
  unfolding load_recovery_state_def load_history_def by (intro quiet_rules)

lemma quiet_submit: "quiet (submit_or_error co shard req)"
  unfolding submit_or_error_def by (intro quiet_rules)

lemma quiet_finalizers:
  "quiet (recover_finalize_commit blake3 co ctx t p)" "quiet (recover_finalize_abort blake3 co ctx p)"
  "quiet (finalize_commit blake3 co ctx t i)" "quiet (finalize_abort blake3 co ctx i)"
  unfolding recover_finalize_commit_def recover_finalize_abort_def finalize_commit_def finalize_abort_def
  by (auto intro!: quiet_rules quiet_submit split: prod.split)

lemma quiet_record: "quiet (record_home_decision blake3 co ctx home state t intents)"
  unfolding record_home_decision_def by (intro quiet_rules quiet_submit)

section \<open>Justified outcomes\<close>

text \<open>
  \<open>justified s tx lo\<close> compares an outcome for \<open>tx\<close> reported at \<open>w\<close> with the world \<open>s\<close> in which the
  call began.  A commit is reported at the time, above \<open>lo\<close>, at which the authority has resolved
  the reservation; an abort only if the reservation had not been committed at \<open>s\<close>.
\<close>

definition committed_at :: "'w \<Rightarrow> transaction_id \<Rightarrow> transaction_time \<Rightarrow> bool" where
  "committed_at w tx t \<longleftrightarrow> resv w tx = Some \<lparr>rsv_commit_time = t, rsv_resolution = Some ResCommitted\<rparr>"

fun justified :: "'w \<Rightarrow> transaction_id \<Rightarrow> transaction_time \<Rightarrow> transaction_outcome \<Rightarrow> 'w \<Rightarrow> bool" where
  "justified s tx lo (OutCommitted t) w \<longleftrightarrow> lo < t \<and> committed_at w tx t"
| "justified s tx lo OutAborted w \<longleftrightarrow> (\<forall>t. \<not> committed_at s tx t)"
| "justified s tx lo OutUnresolved w \<longleftrightarrow> True"

text \<open>\<open>sound s tx x V m\<close>: started after \<open>s\<close>, when \<open>x\<close> (if any) was the reservation at some moment
  since, a successful run of \<open>m\<close> establishes \<open>V\<close>.\<close>

definition seen :: "'w \<Rightarrow> transaction_id \<Rightarrow> commit_time_reservation option option \<Rightarrow> 'w \<Rightarrow> bool" where
  "seen s tx x w \<longleftrightarrow> (case x of None \<Rightarrow> True | Some found \<Rightarrow> \<exists>w0. resv w0 tx = found \<and>
     reservations_later (resv s) (resv w0) \<and> reservations_later (resv w0) (resv w))"

definition sound :: "'w \<Rightarrow> transaction_id \<Rightarrow> commit_time_reservation option option \<Rightarrow> ('a \<Rightarrow> 'w \<Rightarrow> bool)
    \<Rightarrow> ('w, 'e, 'a) eff \<Rightarrow> bool" where
  "sound s tx x V m \<longleftrightarrow> (\<forall>w r w'. inv w \<longrightarrow> reservations_later (resv s) (resv w) \<longrightarrow> seen s tx x w \<longrightarrow>
     m w = (r, w') \<longrightarrow> inv w' \<and> reservations_later (resv w) (resv w') \<and> (\<forall>a. r = Inr a \<longrightarrow> V a w'))"

lemma seen_later: "seen s tx x w \<Longrightarrow> reservations_later (resv w) (resv w') \<Longrightarrow> seen s tx x w'"
  unfolding seen_def using reservations_later_trans [of _ "resv w" "resv w'"] by (cases x) fastforce+

lemma soundI:
  assumes "\<And>w r w'. inv w \<Longrightarrow> reservations_later (resv s) (resv w) \<Longrightarrow> seen s tx x w \<Longrightarrow> m w = (r, w') \<Longrightarrow>
    inv w' \<and> reservations_later (resv w) (resv w') \<and> (\<forall>a. r = Inr a \<longrightarrow> V a w')"
  shows "sound s tx x V m"
  unfolding sound_def using assms by blast

lemma soundD:
  "sound s tx x V m \<Longrightarrow> inv w \<Longrightarrow> reservations_later (resv s) (resv w) \<Longrightarrow> seen s tx x w \<Longrightarrow> m w = (r, w') \<Longrightarrow>
     inv w' \<and> reservations_later (resv w) (resv w') \<and> (\<forall>a. r = Inr a \<longrightarrow> V a w')"
  unfolding sound_def by blast

lemma sound_any: "quiet m \<Longrightarrow> sound s tx x (\<lambda>_ _. True) m"
  by (rule soundI) (use quietD in force)

lemma sound_weaken: "sound s tx None V m \<Longrightarrow> sound s tx x V m"
  by (rule soundI) (erule (2) soundD, simp_all add: seen_def)

lemma sound_post:
  assumes "sound s tx x U m" and "\<And>a w. U a w \<Longrightarrow> V a w"
  shows "sound s tx x V m"
proof (rule soundI)
  fix w r w'
  assume "inv w" "reservations_later (resv s) (resv w)" "seen s tx x w" "m w = (r, w')"
  from soundD [OF assms(1) this] assms(2)
  show "inv w' \<and> reservations_later (resv w) (resv w') \<and> (\<forall>a. r = Inr a \<longrightarrow> V a w')" by auto
qed

text \<open>The general rule of composition: what the first computation returns and leaves decides what
  the second may assume.\<close>

lemma sound_match_gen:
  assumes q: "quiet m"
    and k: "\<And>w r w1. inv w \<Longrightarrow> reservations_later (resv s) (resv w) \<Longrightarrow> seen s tx x w \<Longrightarrow> m w = (r, w1) \<Longrightarrow>
      \<exists>y. seen s tx y w1 \<and> sound s tx y V (k r)"
  shows "sound s tx x V (eff_match m k)"
proof (rule soundI)
  fix w r w'
  assume w: "inv w" "reservations_later (resv s) (resv w)" "seen s tx x w"
    and run: "eff_match m k w = (r, w')"
  obtain r1 w1 where m: "m w = (r1, w1)" by (cases "m w")
  with quietD [OF q w(1)] have q1: "inv w1" "reservations_later (resv w) (resv w1)" by simp_all
  from k [OF w m] obtain y where y: "seen s tx y w1" "sound s tx y V (k r1)" by blast
  from soundD [OF y(2) q1(1) reservations_later_trans [OF w(2) q1(2)] y(1), of r w'] run m
  have "inv w'" "reservations_later (resv w1) (resv w')" "\<forall>a. r = Inr a \<longrightarrow> V a w'" by simp_all
  with reservations_later_trans [OF q1(2)]
  show "inv w' \<and> reservations_later (resv w) (resv w') \<and> (\<forall>a. r = Inr a \<longrightarrow> V a w')" by simp
qed

lemma sound_match:
  assumes "quiet m" and "\<And>r. sound s tx x V (k r)"
  shows "sound s tx x V (eff_match m k)"
proof (rule sound_match_gen [OF assms(1)])
  fix w r w1
  assume "inv w" "seen s tx x w" "m w = (r, w1)"
  with quietD [OF assms(1), of w] seen_later [of s tx x w w1] assms(2)
  show "\<exists>y. seen s tx y w1 \<and> sound s tx y V (k r)" by auto
qed

lemma sound_err: "sound s tx x V (eff_err e)"
  by (rule soundI) (auto simp: reservations_later_refl)

lemma sound_ret:
  "(\<And>w. reservations_later (resv s) (resv w) \<Longrightarrow> seen s tx x w \<Longrightarrow> V a w) \<Longrightarrow> sound s tx x V (eff_ret a)"
  by (rule soundI) (auto simp: reservations_later_refl)

lemma sound_bind: "quiet m \<Longrightarrow> (\<And>a. sound s tx x V (k a)) \<Longrightarrow> sound s tx x V (eff_bind m k)"
  unfolding eff_bind_def by (rule sound_match) (auto simp: sound_err split: sum.split)

lemma sound_bind_of: "(\<And>a. p = Inr a \<Longrightarrow> sound s tx x V (k a)) \<Longrightarrow> sound s tx x V (eff_bind (eff_of p) k)"
  by (cases p) (simp_all add: sound_err)

text \<open>Reading the reservation: if it was committed at the start of the call, this is what is read.\<close>

lemma sound_read_match:
  assumes err: "\<And>e. sound s tx x V (k (Inl e))"
    and ok: "\<And>found. (\<And>t. committed_at s tx t \<Longrightarrow>
        found = Some \<lparr>rsv_commit_time = t, rsv_resolution = Some ResCommitted\<rparr>) \<Longrightarrow>
      sound s tx (Some found) V (k (Inr found))"
  shows "sound s tx x V (eff_match (ta_commit_time_reservation (co_timestamps co) tx) k)"
proof (rule sound_match_gen [OF quiet_calls(3)])
  fix w r w1
  assume w: "inv w" "reservations_later (resv s) (resv w)" "seen s tx x w"
    and run: "ta_commit_time_reservation (co_timestamps co) tx w = (r, w1)"
  from reservation [OF w(1) run] have later: "reservations_later (resv w) (resv w1)"
    and found: "\<And>found. r = Inr found \<Longrightarrow> resv w1 tx = found" by auto
  show "\<exists>y. seen s tx y w1 \<and> sound s tx y V (k r)"
  proof (cases r)
    case (Inl e)
    with err seen_later [OF w(3) later] show ?thesis by blast
  next
    case (Inr f)
    have sw1: "reservations_later (resv s) (resv w1)" by (rule reservations_later_trans [OF w(2) later])
    with found [OF Inr] have "seen s tx (Some f) w1"
      by (auto simp: seen_def intro: reservations_later_refl)
    moreover have "sound s tx (Some f) V (k (Inr f))"
      by (rule ok) (use found [OF Inr] reservations_later_keeps [OF sw1] in \<open>force simp: committed_at_def\<close>)
    ultimately show ?thesis using Inr by blast
  qed
qed

lemma sound_read_bind:
  assumes "\<And>found. (\<And>t. committed_at s tx t \<Longrightarrow>
        found = Some \<lparr>rsv_commit_time = t, rsv_resolution = Some ResCommitted\<rparr>) \<Longrightarrow>
      sound s tx (Some found) V (k found)"
  shows "sound s tx x V (eff_bind (ta_commit_time_reservation (co_timestamps co) tx) k)"
  unfolding eff_bind_def by (rule sound_read_match) (use assms in \<open>simp_all add: sound_err\<close>)

text \<open>Resolving the reservation.\<close>

lemma sound_resolve_match:
  assumes err: "\<And>e. sound s tx x V (k (Inl e))"
    and ok: "(\<And>t'. committed_at s tx t' \<Longrightarrow> t' = t \<and> res = ResCommitted) \<Longrightarrow>
      sound s tx (Some (Some \<lparr>rsv_commit_time = t, rsv_resolution = Some res\<rparr>)) V (k (Inr ()))"
  shows "sound s tx x V (eff_match (ta_resolve_commit_time (co_timestamps co) tx t res) k)"
proof (rule sound_match_gen [OF quiet_calls(4)])
  fix w r w1
  assume w: "inv w" "reservations_later (resv s) (resv w)" "seen s tx x w"
    and run: "ta_resolve_commit_time (co_timestamps co) tx t res w = (r, w1)"
  let ?rv = "\<lparr>rsv_commit_time = t, rsv_resolution = Some res\<rparr>"
  from resolve [OF w(1) run] have later: "reservations_later (resv w) (resv w1)"
    and set: "\<And>u. r = Inr u \<Longrightarrow> resv w1 tx = Some ?rv" by auto
  show "\<exists>y. seen s tx y w1 \<and> sound s tx y V (k r)"
  proof (cases r)
    case (Inl e)
    with err seen_later [OF w(3) later] show ?thesis by blast
  next
    case (Inr u)
    have sw1: "reservations_later (resv s) (resv w1)" by (rule reservations_later_trans [OF w(2) later])
    with set [OF Inr] have "seen s tx (Some (Some ?rv)) w1"
      by (auto simp: seen_def intro: reservations_later_refl)
    moreover have "sound s tx (Some (Some ?rv)) V (k (Inr ()))"
      by (rule ok) (use set [OF Inr] reservations_later_keeps [OF sw1] in \<open>force simp: committed_at_def\<close>)
    ultimately show ?thesis using Inr by auto
  qed
qed

lemma sound_resolve_bind:
  assumes "(\<And>t'. committed_at s tx t' \<Longrightarrow> t' = t \<and> res = ResCommitted) \<Longrightarrow>
      sound s tx (Some (Some \<lparr>rsv_commit_time = t, rsv_resolution = Some res\<rparr>)) V (k ())"
  shows "sound s tx x V (eff_bind (ta_resolve_commit_time (co_timestamps co) tx t res) k)"
  unfolding eff_bind_def by (rule sound_resolve_match) (use assms in \<open>simp_all add: sound_err\<close>)

lemma seen_committed:
  assumes "seen s tx (Some (Some rv)) w" and "rsv_resolution rv = Some ResCommitted"
  shows "committed_at w tx (rsv_commit_time rv)"
  using assms reservations_later_keeps [of _ "resv w" tx rv]
  by (cases rv) (auto simp: seen_def committed_at_def)

text \<open>The control structures of the methods.\<close>

lemma sound_control:
  "(b \<Longrightarrow> sound s tx x V m) \<Longrightarrow> (\<not> b \<Longrightarrow> sound s tx x V n) \<Longrightarrow> sound s tx x V (if b then m else n)"
  "(opt = None \<Longrightarrow> sound s tx x V m) \<Longrightarrow> (\<And>a. opt = Some a \<Longrightarrow> sound s tx x V (k a)) \<Longrightarrow>
     sound s tx x V (case opt of None \<Rightarrow> m | Some a \<Rightarrow> k a)"
  "(\<And>a b. p = (a, b) \<Longrightarrow> sound s tx x V (k2 a b)) \<Longrightarrow> sound s tx x V (case p of (a, b) \<Rightarrow> k2 a b)"
  "(\<And>e. r = Inl e \<Longrightarrow> sound s tx x V (kl e)) \<Longrightarrow> (\<And>a. r = Inr a \<Longrightarrow> sound s tx x V (kr a)) \<Longrightarrow>
     sound s tx x V (case r of Inl e \<Rightarrow> kl e | Inr a \<Rightarrow> kr a)"
  "(\<And>e. f = Definitive e \<Longrightarrow> sound s tx x V (kd e)) \<Longrightarrow> (\<And>e. f = Ambiguous e \<Longrightarrow> sound s tx x V (ka e)) \<Longrightarrow>
     sound s tx x V (case f of Definitive e \<Rightarrow> kd e | Ambiguous e \<Rightarrow> ka e)"
  "(res = ResCommitted \<Longrightarrow> sound s tx x V m) \<Longrightarrow> (res = ResAborted \<Longrightarrow> sound s tx x V n) \<Longrightarrow>
     sound s tx x V (case res of ResCommitted \<Rightarrow> m | ResAborted \<Rightarrow> n)"
  "(l = [] \<Longrightarrow> sound s tx x V m) \<Longrightarrow> (\<And>y ys. l = y # ys \<Longrightarrow> sound s tx x V (k3 y ys)) \<Longrightarrow>
     sound s tx x V (case l of [] \<Rightarrow> m | y # ys \<Rightarrow> k3 y ys)"
  by (simp_all split: option.split prod.split sum.split submission_failure.split commit_resolution.split
      list.split)

lemma sound_committed:
  "rsv_resolution rv = Some ResCommitted \<Longrightarrow> rsv_commit_time rv = t \<Longrightarrow> lo < t \<Longrightarrow>
     sound s tx (Some (Some rv)) (justified s tx lo) (eff_ret (OutCommitted t))"
  by (rule sound_ret) (use seen_committed in fastforce)

lemma sound_aborted:
  "(\<And>t. committed_at s tx t \<Longrightarrow> False) \<Longrightarrow> sound s tx x (justified s tx lo) (eff_ret OutAborted)"
  by (rule sound_ret) auto

lemma sound_unresolved: "sound s tx x (justified s tx lo) (eff_ret OutUnresolved)"
  by (rule sound_ret) simp

lemmas sound_rules =
  sound_control sound_err sound_committed sound_aborted sound_unresolved sound_bind_of
  sound_read_bind sound_read_match sound_resolve_bind sound_resolve_match
  sound_bind [OF quiet_load] sound_match [OF quiet_load] sound_match [OF quiet_calls(5)]
  sound_bind [OF quiet_all [OF quiet_finalizers(1)]] sound_bind [OF quiet_all [OF quiet_finalizers(2)]]
  sound_bind [OF quiet_all [OF quiet_finalizers(3)]] sound_bind [OF quiet_all [OF quiet_finalizers(4)]]
  sound_bind [OF quiet_record]

section \<open>Every method reports justified outcomes\<close>

lemma sound_durable_single:
  "sound s (ctx_tx ctx) x (justified s (ctx_tx ctx) (ctx_start ctx))
     (recover_durable_single_shard blake3 co ctx shard c)"
  unfolding recover_durable_single_shard_def by (intro sound_rules) auto

lemma sound_load_or_unresolved:
  assumes "\<And>state. sound s tx x V (k state)" and "\<And>w. V u w"
  shows "sound s tx x V (load_or_unresolved co ctx u k)"
  unfolding load_or_unresolved_def using assms by (intro sound_rules sound_ret) auto

lemma sound_definitive:
  "sound s (ctx_tx ctx) x (justified s (ctx_tx ctx) (ctx_start ctx))
     (resolve_definitive_single_shard_failure blake3 co ctx t e)"
  unfolding resolve_definitive_single_shard_failure_def
  by (intro sound_rules sound_load_or_unresolved sound_durable_single) (auto intro!: sound_committed)

lemma sound_recover_single:
  "sound s (ctx_tx ctx) x (justified s (ctx_tx ctx) (ctx_start ctx)) (recover_single_shard blake3 co ctx)"
  unfolding recover_single_shard_def
  by (intro sound_rules sound_definitive) auto

lemma sound_recover_committed:
  "ctx_start ctx < t \<Longrightarrow>
     sound s (ctx_tx ctx) x (justified s (ctx_tx ctx) (ctx_start ctx)) (recover_committed blake3 co ctx state t)"
  unfolding recover_committed_def by (intro sound_rules) auto

lemma sound_recover_aborted:
  "sound s (ctx_tx ctx) x (justified s (ctx_tx ctx) (ctx_start ctx)) (recover_aborted blake3 co ctx state)"
  unfolding recover_aborted_def by (intro sound_rules) auto

lemma sound_recover_without_intents:
  "sound s (ctx_tx ctx) x (justified s (ctx_tx ctx) (ctx_start ctx)) (recover_without_intents co ctx state)"
  unfolding recover_without_intents_def by (intro sound_rules) auto

text \<open>A recovered commit decision lies above the start time of the transaction.\<close>

lemma recover_home_decision_time:
  assumes "recover_home_decision blake3 ctx home state = Inr (Some d)" and "tr_state d = Committed"
  shows "ctx_start ctx < tr_transaction_time d"
proof -
  let ?P = "\<lambda>decision. \<forall>d. decision = Some d \<longrightarrow> tr_state d = Committed \<longrightarrow> ctx_start ctx < tr_transaction_time d"
  from assms(1) have "?P (Some d)"
    unfolding recover_home_decision_def
    by (rule try_fold_invariant [where P = ?P])
      (auto simp: home_decision_step_def home_record_valid_def split: if_splits transaction_state.splits)
  with assms(2) show ?thesis by simp
qed

lemma sound_recover_decided:
  "sound s (ctx_tx ctx) x (justified s (ctx_tx ctx) (ctx_start ctx)) (recover_decided blake3 co ctx state)"
  unfolding recover_decided_def
  by (intro sound_rules)
    (auto split: transaction_state.split
      intro!: sound_recover_committed sound_recover_aborted sound_err recover_home_decision_time)

lemma sound_recover:
  "sound s (ctx_tx ctx) x (justified s (ctx_tx ctx) (ctx_start ctx)) (recover blake3 co ctx)"
  unfolding recover_def
  by (intro sound_rules sound_durable_single sound_recover_single sound_recover_without_intents
      sound_recover_decided)

text \<open>Before an abort proceeds, the reservation has been seen uncommitted.\<close>

fun prejustified :: "'w \<Rightarrow> transaction_id \<Rightarrow> transaction_time \<Rightarrow> abort_prevalidation \<Rightarrow> 'w \<Rightarrow> bool" where
  "prejustified s tx lo (Terminal out) w \<longleftrightarrow> justified s tx lo out w"
| "prejustified s tx lo (Proceed p) w \<longleftrightarrow> (\<forall>t. \<not> committed_at s tx t)"

lemma sound_bind_gen:
  assumes m: "sound s tx x U m"
    and k: "\<And>a w. inv w \<Longrightarrow> reservations_later (resv s) (resv w) \<Longrightarrow> seen s tx x w \<Longrightarrow> U a w \<Longrightarrow>
      sound s tx x V (k a) \<or> (\<exists>b. k a = eff_ret b \<and> V b w)"
  shows "sound s tx x V (eff_bind m k)"
proof (rule soundI)
  fix w r w'
  assume w: "inv w" "reservations_later (resv s) (resv w)" "seen s tx x w" and run: "eff_bind m k w = (r, w')"
  obtain r1 w1 where m1: "m w = (r1, w1)" by (cases "m w")
  from soundD [OF m w m1] have q: "inv w1" "reservations_later (resv w) (resv w1)"
    and U: "\<And>a. r1 = Inr a \<Longrightarrow> U a w1" by auto
  have s1: "reservations_later (resv s) (resv w1)" "seen s tx x w1"
    by (rule reservations_later_trans [OF w(2) q(2)], rule seen_later [OF w(3) q(2)])
  show "inv w' \<and> reservations_later (resv w) (resv w') \<and> (\<forall>a. r = Inr a \<longrightarrow> V a w')"
  proof (cases r1)
    case (Inl e)
    with run m1 q show ?thesis by auto
  next
    case (Inr a)
    with run m1 have ka: "k a w1 = (r, w')" by simp
    from k [OF q(1) s1 U [OF Inr]] show ?thesis
    proof
      assume "sound s tx x V (k a)"
      from soundD [OF this q(1) s1 ka] reservations_later_trans [OF q(2)] show ?thesis by auto
    next
      assume "\<exists>b. k a = eff_ret b \<and> V b w1"
      with ka q show ?thesis by auto
    qed
  qed
qed

lemma sound_bind_ret:
  "sound s tx x U m \<Longrightarrow> (\<And>a w. U a w \<Longrightarrow> V (f a) w) \<Longrightarrow> sound s tx x V (eff_bind m (\<lambda>a. eff_ret (f a)))"
  by (erule sound_bind_gen) auto

lemma sound_pre_bind:
  "sound s tx x (prejustified s tx lo) m \<Longrightarrow>
     (\<And>p. (\<And>t. \<not> committed_at s tx t) \<Longrightarrow> sound s tx x (justified s tx lo) (k p)) \<Longrightarrow>
     sound s tx x (justified s tx lo)
       (eff_bind m (\<lambda>pre. case pre of Terminal out \<Rightarrow> eff_ret out | Proceed p \<Rightarrow> k p))"
  by (erule sound_bind_gen) (auto split: abort_prevalidation.split)

text \<open>Loops with an early return.\<close>

definition early :: "('a \<Rightarrow> 'w \<Rightarrow> bool) \<Rightarrow> 'a + 'b \<Rightarrow> 'w \<Rightarrow> bool" where
  "early V r w = (case r of Inl out \<Rightarrow> V out w | Inr _ \<Rightarrow> True)"

lemma early_simps [simp]: "early V (Inl out) w = V out w" "early V (Inr b) w"
  by (simp_all add: early_def)

lemma sound_early_bind:
  assumes "sound s tx x (early V) m" and "\<And>a. sound s tx x V (k a)"
  shows "sound s tx x V (eff_bind m (\<lambda>r. case r of Inl out \<Rightarrow> eff_ret out | Inr a \<Rightarrow> k a))"
proof (rule sound_bind_gen [OF assms(1)], goal_cases)
  case (1 r w)
  then show ?case using assms(2) by (cases r) auto
qed

lemma sound_early_step:
  assumes "sound s tx x (early V) m" and "\<And>a. sound s tx x (early V) (k a)"
  shows "sound s tx x (early V) (eff_bind m (\<lambda>r. case r of Inl out \<Rightarrow> eff_ret (Inl out) | Inr a \<Rightarrow> k a))"
proof (rule sound_bind_gen [OF assms(1)], goal_cases)
  case (1 r w)
  then show ?case using assms(2) by (cases r) auto
qed

lemma sound_loop:
  "(\<And>st y. sound s tx x (early V) (f st y)) \<Longrightarrow> sound s tx x (early V) (eff_loop f st ys)"
proof (induction ys arbitrary: st)
  case Nil
  show ?case unfolding eff_loop.simps by (rule sound_ret) simp
next
  case (Cons y ys)
  show ?case unfolding eff_loop.simps by (rule sound_early_step) (use Cons in auto)
qed

lemma sound_prevalidate_reservation:
  assumes "\<And>t. committed_at s (ctx_tx ctx) t \<Longrightarrow>
    found = Some \<lparr>rsv_commit_time = t, rsv_resolution = Some ResCommitted\<rparr>"
  shows "sound s (ctx_tx ctx) (Some found) (prejustified s (ctx_tx ctx) (ctx_start ctx))
    (eff_of (prevalidate_reservation ctx found))"
proof (rule soundI)
  fix w r w'
  assume w: "inv w" "seen s (ctx_tx ctx) (Some found) w"
    and run: "eff_of (prevalidate_reservation ctx found) w = (r, w')"
  have "prejustified s (ctx_tx ctx) (ctx_start ctx) pre w"
    if "prevalidate_reservation ctx found = Inr pre" for pre
    using that assms w(2) seen_committed [of s "ctx_tx ctx" _ w]
    by (fastforce simp: prevalidate_reservation_def split: option.splits if_splits)
  with w run show "inv w' \<and> reservations_later (resv w) (resv w') \<and>
      (\<forall>a. r = Inr a \<longrightarrow> prejustified s (ctx_tx ctx) (ctx_start ctx) a w')"
    by (auto simp: reservations_later_refl)
qed

lemma sound_prevalidate:
  "sound s (ctx_tx ctx) x (prejustified s (ctx_tx ctx) (ctx_start ctx))
     (prevalidate_abort_authority blake3 co ctx)"
  unfolding prevalidate_abort_authority_def if_distrib [of "\<lambda>m. eff_bind m _"]
  by (intro sound_control sound_read_match sound_load_or_unresolved sound_bind_of sound_err
      sound_bind_ret [OF sound_durable_single] sound_bind_ret [OF sound_recover]
      sound_prevalidate_reservation sound_ret)
    (auto intro!: sound_prevalidate_reservation sound_bind_of sound_ret sound_bind_ret [OF sound_recover])

lemma sound_resolve_without_intents:
  "sound s (ctx_tx ctx) x (justified s (ctx_tx ctx) (ctx_start ctx)) (resolve_without_intents co ctx state)"
  unfolding resolve_without_intents_def by (intro sound_rules) auto

lemma sound_recover_match:
  "sound s (ctx_tx ctx) x (justified s (ctx_tx ctx) (ctx_start ctx))
     (eff_match (recover blake3 co ctx) (\<lambda>r. case r of
        Inr out \<Rightarrow> eff_ret out
      | Inl e \<Rightarrow> if e = CorruptRecovery then eff_err CorruptRecovery else eff_ret OutUnresolved))"
proof (rule soundI)
  fix w r w'
  let ?m = "eff_match (recover blake3 co ctx) (\<lambda>r. case r of
        Inr out \<Rightarrow> eff_ret out
      | Inl e \<Rightarrow> if e = CorruptRecovery then eff_err CorruptRecovery else eff_ret OutUnresolved)"
  assume w: "inv w" "reservations_later (resv s) (resv w)" "seen s (ctx_tx ctx) x w" and run: "?m w = (r, w')"
  obtain r1 w1 where m: "recover blake3 co ctx w = (r1, w1)" by (cases "recover blake3 co ctx w")
  from soundD [OF sound_recover w m] run m
  show "inv w' \<and> reservations_later (resv w) (resv w') \<and>
      (\<forall>a. r = Inr a \<longrightarrow> justified s (ctx_tx ctx) (ctx_start ctx) a w')"
    by (cases r1) (auto split: if_splits)
qed

lemma sound_record_abort:
  "sound s (ctx_tx ctx) x (justified s (ctx_tx ctx) (ctx_start ctx))
     (record_abort_decision blake3 co ctx state home)"
  unfolding record_abort_decision_def by (intro sound_rules sound_recover_match sound_recover)

lemma sound_failed_prewrite:
  "sound s (ctx_tx ctx) x (justified s (ctx_tx ctx) (ctx_start ctx)) (resolve_failed_prewrite blake3 co ctx)"
  unfolding resolve_failed_prewrite_def
  by (intro sound_pre_bind [OF sound_prevalidate] sound_load_or_unresolved sound_rules
      sound_resolve_without_intents sound_recover sound_record_abort) simp

lemma sound_early_failed_prewrite:
  "sound s (ctx_tx ctx) x (early (justified s (ctx_tx ctx) (ctx_start ctx)))
     (eff_bind (resolve_failed_prewrite blake3 co ctx) (\<lambda>out. eff_ret (Inl out)))"
  by (rule sound_bind_ret [OF sound_failed_prewrite]) (simp add: early_def)

lemma sound_check_participant:
  "sound s (ctx_tx ctx) x (early (justified s (ctx_tx ctx) (ctx_start ctx)))
     (check_participant blake3 co ctx several existing p)"
  unfolding check_participant_def Let_def
  by (intro sound_control sound_bind_of sound_bind [OF quiet_calls(6)] sound_resolve_bind sound_err
      sound_early_failed_prewrite sound_ret) (simp add: early_def)

lemma sound_prewrite:
  "sound s (ctx_tx ctx) x (early (justified s (ctx_tx ctx) (ctx_start ctx)))
     (prewrite_participant blake3 co ctx phase t intents p)"
  unfolding prewrite_participant_def
  by (intro sound_control sound_bind_of sound_match [OF quiet_calls(5)] sound_early_failed_prewrite
      sound_ret) (simp add: early_def)

lemma sound_commit_single:
  "ctx_start ctx < t \<Longrightarrow>
     sound s (ctx_tx ctx) x (justified s (ctx_tx ctx) (ctx_start ctx)) (commit_single_shard blake3 co ctx t p)"
  unfolding commit_single_shard_def by (intro sound_rules sound_definitive) auto

lemma sound_commit_two_phase:
  "ctx_start ctx < t \<Longrightarrow>
     sound s (ctx_tx ctx) x (justified s (ctx_tx ctx) (ctx_start ctx)) (commit_two_phase blake3 co ctx t ps)"
  unfolding commit_two_phase_def
  by (intro sound_early_bind [OF sound_loop [OF sound_prewrite]] sound_rules) auto

lemma sound_commit_checked:
  "sound s (ctx_tx ctx) x (justified s (ctx_tx ctx) (ctx_start ctx)) (commit_checked blake3 co ctx existing ps)"
  unfolding commit_checked_def
  by (intro sound_early_bind [OF sound_loop [OF sound_check_participant]] sound_control sound_err
      sound_bind sound_commit_single sound_commit_two_phase) (auto simp: quiet_rules split: option.split)

lemma sound_commit:
  assumes "writes \<noteq> []"
  shows "sound s (ctx_tx ctx) x (justified s (ctx_tx ctx) (ctx_start ctx)) (commit blake3 co ctx writes)"
proof -
  have "sort_key pw_shard_id writes \<noteq> []" using assms by (metis length_0_conv length_sort)
  then show ?thesis
    unfolding commit_def Let_def
    by (intro sound_rules sound_commit_checked) (auto intro!: sound_committed)
qed

lemma sound_abort_two_phase:
  assumes "\<And>t. \<not> committed_at s (ctx_tx ctx) t"
  shows "sound s (ctx_tx ctx) x (justified s (ctx_tx ctx) (ctx_start ctx))
    (abort_two_phase blake3 co ctx pending ps)"
  unfolding abort_two_phase_def
  by (intro sound_early_bind [OF sound_loop [OF sound_prewrite]] sound_rules) (use assms in simp_all)

lemma sound_abort:
  assumes "writes \<noteq> []"
  shows "sound s (ctx_tx ctx) x (justified s (ctx_tx ctx) (ctx_start ctx)) (abort blake3 co ctx writes)"
proof -
  have "sort_key pw_shard_id writes \<noteq> []" using assms by (metis length_0_conv length_sort)
  then show ?thesis
    unfolding abort_def Let_def
    by (intro sound_bind_of sound_control(1) sound_pre_bind [OF sound_prevalidate] sound_abort_two_phase)
      simp_all
qed

text \<open>Recovery from the durable manifest does not know the start time beforehand.\<close>

fun reported :: "'w \<Rightarrow> transaction_id \<Rightarrow> transaction_outcome \<Rightarrow> 'w \<Rightarrow> bool" where
  "reported s tx (OutCommitted t) w \<longleftrightarrow> committed_at w tx t"
| "reported s tx OutAborted w \<longleftrightarrow> (\<forall>t. \<not> committed_at s tx t)"
| "reported s tx OutUnresolved w \<longleftrightarrow> True"

lemma justified_reported: "justified s tx lo out w \<Longrightarrow> reported s tx out w"
  by (cases out) auto

lemma sound_reported:
  "sound s tx x (justified s tx lo) m \<Longrightarrow> sound s tx x (reported s tx) m"
  by (erule sound_post) (rule justified_reported)

lemma manifest_token_tx:
  "manifest_snapshot_token m = Inr tok \<Longrightarrow> ctx_tx (transaction_context_new tok) = tm_transaction_id m"
  by (auto simp: manifest_snapshot_token_def snapshot_token_new_def transaction_context_new_def result_simps
      split: if_splits)

lemma sound_recover_or_resolve:
  "sound s (ctx_tx ctx) x (reported s (ctx_tx ctx))
     (eff_bind (recover blake3 co ctx) (\<lambda>out.
        if out = OutUnresolved then resolve_failed_prewrite blake3 co ctx else eff_ret out))"
  by (rule sound_bind_gen [OF sound_reported [OF sound_recover]])
    (use sound_reported [OF sound_failed_prewrite] in auto)

lemma sound_from_manifest: "sound s tx x (reported s tx) (recover_from_manifest blake3 co tx lease)"
  unfolding recover_from_manifest_def Let_def
proof (intro sound_bind [OF quiet_calls(9)] sound_control sound_err sound_bind_of
    sound_bind [OF quiet_load], goal_cases)
  case (1 found m tok state)
  from 1(2) manifest_token_tx [OF 1(3)] have "ctx_tx (transaction_context_new tok) = tx" by simp
  with sound_recover_or_resolve [of s "transaction_context_new tok" x blake3] show ?case by simp
qed

lemma sound_recover_transaction: "sound s tx x (reported s tx) (recover_transaction blake3 co tx owner)"
  unfolding recover_transaction_def
proof (rule sound_bind [OF quiet_calls(8)], rule soundI)
  fix lease w r w'
  assume w: "inv w" "reservations_later (resv s) (resv w)" "seen s tx x w"
    and run: "eff_match (recover_from_manifest blake3 co tx lease) (\<lambda>outcome.
        eff_match (ex_release_recovery_lease (co_participants co) lease) (\<lambda>release.
          case (outcome, release) of (Inr out, Inr _) \<Rightarrow> eff_ret out
          | (Inl e, _) \<Rightarrow> eff_err e | (Inr _, Inl e) \<Rightarrow> eff_err e)) w = (r, w')"
  obtain o1 w1 where m1: "recover_from_manifest blake3 co tx lease w = (o1, w1)"
    by (cases "recover_from_manifest blake3 co tx lease w")
  obtain r2 w2 where m2: "ex_release_recovery_lease (co_participants co) lease w1 = (r2, w2)"
    by (cases "ex_release_recovery_lease (co_participants co) lease w1")
  from soundD [OF sound_from_manifest w m1] have q1: "inv w1" "reservations_later (resv w) (resv w1)"
    and rep: "\<And>out. o1 = Inr out \<Longrightarrow> reported s tx out w1" by auto
  from release [OF q1(1) m2] have q2: "inv w2" "reservations_later (resv w1) (resv w2)" by auto
  have "reported s tx out w2" if "o1 = Inr out" for out
    using rep [OF that] reservations_later_keeps [OF q2(2), of tx]
    by (cases out) (auto simp: committed_at_def)
  with run m1 m2 q2 reservations_later_trans [OF q1(2) q2(2)]
  show "inv w' \<and> reservations_later (resv w) (resv w') \<and> (\<forall>a. r = Inr a \<longrightarrow> reported s tx a w')"
    by (auto split: sum.splits)
qed

lemma sound_begin: "sound s tx x (\<lambda>_ _. True) (begin_transaction co tx' catalog fences)"
  unfolding begin_transaction_def by (rule sound_any) (intro quiet_rules)

section \<open>Calls in sequence\<close>

lemma sound_call:
  assumes "call_writes c"
  shows "sound s (call_tx c) x (\<lambda>o1 w. \<forall>out. o1 = Some out \<longrightarrow> reported s (call_tx c) out w)
    (run_call blake3 co c)"
proof (cases c)
  case (CallBegin tx cat f)
  then show ?thesis by (simp, intro sound_bind_ret [OF sound_begin]) simp
next
  case (CallCommit ctx writes)
  with assms show ?thesis
    by (simp, intro sound_bind_ret [OF sound_reported [OF sound_commit]]) auto
next
  case (CallAbort ctx writes)
  with assms show ?thesis
    by (simp, intro sound_bind_ret [OF sound_reported [OF sound_abort]]) auto
next
  case (CallRecover ctx)
  then show ?thesis by (simp, intro sound_bind_ret [OF sound_reported [OF sound_recover]]) auto
next
  case (CallRecoverTransaction tx owner)
  then show ?thesis by (simp, intro sound_bind_ret [OF sound_recover_transaction]) auto
qed

lemma quiet_call: "quiet (run_call blake3 co c)"
proof (cases "call_writes c")
  case True
  show ?thesis
  proof (rule quietI)
    fix w r w'
    assume w: "inv w" "run_call blake3 co c w = (r, w')"
    from soundD [OF sound_call [OF True, of w None] w(1) reservations_later_refl _ w(2)]
    show "inv w' \<and> reservations_later (resv w) (resv w')" by (simp add: seen_def)
  qed
next
  case False
  then show ?thesis
    by (cases c) (auto simp: commit_def abort_def intro!: quiet_rules)
qed

lemma run_calls_later:
  "inv w \<Longrightarrow> inv (run_calls blake3 co cs w) \<and> reservations_later (resv w) (resv (run_calls blake3 co cs w))"
proof (induction cs arbitrary: w)
  case (Cons c cs)
  let ?w1 = "snd (run_call blake3 co c w)"
  from quietD [OF quiet_call Cons.prems]
  have "inv ?w1" "reservations_later (resv w) (resv ?w1)" by auto
  with Cons.IH [of ?w1] show ?case by (auto intro: reservations_later_trans)
qed (simp add: reservations_later_refl)

lemma call_reported:
  assumes "inv w" and "call_writes c" and "run_call blake3 co c w = (Inr (Some out), w')"
  shows "inv w' \<and> reservations_later (resv w) (resv w') \<and> reported w (call_tx c) out w'"
  using soundD [OF sound_call [OF assms(2), of w None] assms(1) reservations_later_refl _ assms(3)]
  by (simp add: seen_def)

text \<open>Once a commit has been reported, no later call reports an abort or another commit time.\<close>

lemma outcomes_agree:
  assumes "inv w" and "call_writes c" and "call_writes c'" and "call_tx c' = call_tx c"
    and first: "run_call blake3 co c w = (Inr (Some (OutCommitted t)), w1)"
    and second: "run_call blake3 co c' (run_calls blake3 co cs w1) = (Inr (Some out), w2)"
  shows "out = OutCommitted t \<or> out = OutUnresolved"
proof -
  let ?rv = "\<lparr>rsv_commit_time = t, rsv_resolution = Some ResCommitted\<rparr>"
  from call_reported [OF assms(1,2) first]
  have w1: "inv w1" "resv w1 (call_tx c) = Some ?rv" by (auto simp: committed_at_def)
  from run_calls_later [OF w1(1), of blake3 cs] reservations_later_keeps [of "resv w1" _ _ ?rv] w1(2)
  have mid: "inv (run_calls blake3 co cs w1)" "resv (run_calls blake3 co cs w1) (call_tx c) = Some ?rv"
    by auto
  from call_reported [OF mid(1) assms(3) second] mid(2) assms(4)
    reservations_later_keeps [of "resv (run_calls blake3 co cs w1)" "resv w2" "call_tx c" ?rv]
  show ?thesis by (cases out) (auto simp: committed_at_def)
qed

end

end
