(* ===== verification/Coordinator_Agreement.thy ===== *)
theory Coordinator_Agreement
  imports Coordinator_Safety
begin

text \<open>
  The coordinator on top of the durable timestamp authority.  The world is the authority with its
  log, and the shards.  Before every call of this coordinator other clients of the authority may
  run: a schedule \<open>env\<close> in the world of the shards chooses the batch of operations they submit.
  The shards themselves are arbitrary.
\<close>

section \<open>The durable authority with other clients\<close>

type_synonym ('l, 's) txn_world = "(timestamp_state \<times> 'l) \<times> 's"

definition other_clients ::
    "(byte list \<Rightarrow> digest32) \<Rightarrow> 'l timestamp_log \<Rightarrow> ('s \<Rightarrow> timestamp_operation list \<times> 's)
      \<Rightarrow> ('l, 's) txn_world \<Rightarrow> ('l, 's) txn_world" where
  "other_clients blake3 log env w = (case w of (sw, s) \<Rightarrow>
     case env s of (ops, s') \<Rightarrow> (snd (apply_batch blake3 log ops sw), s'))"

definition on_authority ::
    "(byte list \<Rightarrow> digest32) \<Rightarrow> 'l timestamp_log \<Rightarrow> ('s \<Rightarrow> timestamp_operation list \<times> 's)
      \<Rightarrow> (timestamp_state \<times> 'l, 'e, 'a) eff \<Rightarrow> (('l, 's) txn_world, 'e, 'a) eff" where
  "on_authority blake3 log env m w = (case other_clients blake3 log env w of (sw, s) \<Rightarrow>
     case m sw of (r, sw') \<Rightarrow> (r, (sw', s)))"

definition on_shards ::
    "(byte list \<Rightarrow> digest32) \<Rightarrow> 'l timestamp_log \<Rightarrow> ('s \<Rightarrow> timestamp_operation list \<times> 's)
      \<Rightarrow> ('s, 'e, 'a) eff \<Rightarrow> (('l, 's) txn_world, 'e, 'a) eff" where
  "on_shards blake3 log env m w = (case other_clients blake3 log env w of (sw, s) \<Rightarrow>
     case m s of (r, s') \<Rightarrow> (r, (sw, s')))"

definition durable_authority ::
    "(byte list \<Rightarrow> digest32) \<Rightarrow> 'l timestamp_log \<Rightarrow> ('s \<Rightarrow> timestamp_operation list \<times> 's)
      \<Rightarrow> ('l, 's) txn_world timestamp_authority" where
  "durable_authority blake3 log env =
     \<lparr>ta_allocate_start_time = (\<lambda>tx. on_authority blake3 log env (allocate_start_time blake3 log tx)),
      ta_reserve_commit_time = (\<lambda>tx. on_authority blake3 log env (reserve_commit_time blake3 log tx)),
      ta_commit_time_reservation = (\<lambda>tx. on_authority blake3 log env (commit_time_reservation_of tx)),
      ta_resolve_commit_time =
        (\<lambda>tx t res. on_authority blake3 log env (resolve_commit_time blake3 log tx t res))\<rparr>"

definition shards_beside ::
    "(byte list \<Rightarrow> digest32) \<Rightarrow> 'l timestamp_log \<Rightarrow> ('s \<Rightarrow> timestamp_operation list \<times> 's)
      \<Rightarrow> 's shard_executor \<Rightarrow> ('l, 's) txn_world shard_executor" where
  "shards_beside blake3 log env ex =
     \<lparr>ex_submit = (\<lambda>shard req. on_shards blake3 log env (ex_submit ex shard req)),
      ex_changes_after = (\<lambda>shard i. on_shards blake3 log env (ex_changes_after ex shard i)),
      ex_transaction_history = (\<lambda>shard tx. on_shards blake3 log env (ex_transaction_history ex shard tx)),
      ex_acquire_recovery_lease =
        (\<lambda>tx owner. on_shards blake3 log env (ex_acquire_recovery_lease ex tx owner)),
      ex_recovery_manifest = (\<lambda>tx lease. on_shards blake3 log env (ex_recovery_manifest ex tx lease)),
      ex_release_recovery_lease = (\<lambda>lease. on_shards blake3 log env (ex_release_recovery_lease ex lease))\<rparr>"

definition durable_coordinator ::
    "(byte list \<Rightarrow> digest32) \<Rightarrow> 'l timestamp_log \<Rightarrow> ('s \<Rightarrow> timestamp_operation list \<times> 's)
      \<Rightarrow> 's shard_executor \<Rightarrow> ('l, 's) txn_world coordinator" where
  "durable_coordinator blake3 log env ex =
     \<lparr>co_timestamps = durable_authority blake3 log env, co_participants = shards_beside blake3 log env ex\<rparr>"

section \<open>The contract holds\<close>

abbreviation world_reservations ::
    "('l, 's) txn_world \<Rightarrow> transaction_id \<Rightarrow> commit_time_reservation option" where
  "world_reservations w \<equiv> map_of (reservations (fst (fst w)))"

abbreviation world_ok :: "('l, 's) txn_world \<Rightarrow> bool" where
  "world_ok w \<equiv> ts_inv (fst (fst w))"

lemma ts_later_reservations:
  "ts_later st st' \<Longrightarrow> reservations_later (map_of (reservations st)) (map_of (reservations st'))"
  by (simp add: ts_later_def reservations_later_def)

lemma apply_batch_state:
  "apply_batch h log ops sw = (rs, sw') \<Longrightarrow> fst sw' = fst sw \<or> fst sw' = ts_run (fst sw) ops"
  by (cases sw) (auto simp: apply_batch_eq split: if_splits prod.splits sum.splits)

lemma apply_batch_steps:
  assumes "ts_inv (fst sw)" and "apply_batch h log ops sw = (rs, sw')"
  shows "ts_inv (fst sw') \<and> reservations_later (map_of (reservations (fst sw))) (map_of (reservations (fst sw')))"
  using apply_batch_state [OF assms(2)] ts_run_inv [OF assms(1), of ops]
    ts_later_reservations [OF ts_run_later [OF assms(1), of ops]] assms(1)
  by (auto simp: reservations_later_refl)

lemma other_clients_steps:
  assumes "world_ok w" and "other_clients h log env w = w'"
  shows "world_ok w' \<and> reservations_later (world_reservations w) (world_reservations w')"
proof -
  obtain sw s ops s1 where w: "w = (sw, s)" and e: "env s = (ops, s1)"
    by (cases w; cases "env (snd w)") auto
  obtain rs sw' where ap: "apply_batch h log ops sw = (rs, sw')" by (cases "apply_batch h log ops sw")
  from apply_batch_steps [OF _ ap] assms w e ap show ?thesis by (auto simp: other_clients_def)
qed

lemma on_shards_steps:
  assumes "world_ok w" and "on_shards h log env m w = (r, w')"
  shows "world_ok w' \<and> reservations_later (world_reservations w) (world_reservations w')"
  using other_clients_steps [OF assms(1), of h log env] assms(2)
  by (auto simp: on_shards_def split: prod.splits)

lemma on_authority_steps:
  assumes "world_ok w" and "on_authority h log env m w = (r, w')"
    and m: "\<And>sw r sw'. ts_inv (fst sw) \<Longrightarrow> m sw = (r, sw') \<Longrightarrow>
      ts_inv (fst sw') \<and> reservations_later (map_of (reservations (fst sw))) (map_of (reservations (fst sw'))) \<and>
      P r (map_of (reservations (fst sw')))"
  shows "world_ok w' \<and> reservations_later (world_reservations w) (world_reservations w') \<and>
    P r (world_reservations w')"
proof -
  obtain sw s where o1: "other_clients h log env w = (sw, s)" by (cases "other_clients h log env w")
  obtain r1 sw' where m1: "m sw = (r1, sw')" by (cases "m sw")
  from other_clients_steps [OF assms(1) o1] m [OF _ m1] assms(2) o1 m1 reservations_later_trans
  show ?thesis by (fastforce simp: on_authority_def)
qed

lemma single_batch:
  assumes "apply_batch h log [op] sw = (rs, sw')"
  shows "(\<exists>e. hd rs = Inl e) \<or>
    (\<exists>t c. hd rs = Inr t \<and> stage_operation (fst sw) op = Inr (t, c, fst sw'))"
  using assms stage_operation_no_command [of "fst sw" op]
  by (cases sw) (auto simp: apply_batch_eq staged_command_def ts_run_def ts_step_def somes_def
      split: if_splits prod.splits sum.splits)

lemma resolve_sets:
  assumes "ts_inv st" and "stage_operation st (OpResolveCommit tx t res) = Inr (t', c, st')"
  shows "map_of (reservations st') tx = Some \<lparr>rsv_commit_time = t, rsv_resolution = Some res\<rparr>"
proof (cases c)
  case None
  with assms(2) stage_operation_no_command [of st _ t' st'] show ?thesis
    by (auto simp: result_simps simp del: apply_command.simps split: option.splits if_splits)
next
  case (Some cmd)
  with assms(2) have "apply_command st (CmdResolveCommit tx t res) = Inr st'"
    by (auto simp: result_simps simp del: apply_command.simps split: option.splits if_splits)
  then show ?thesis
  proof (cases rule: apply_resolve_cases)
    case (1 r)
    then show ?thesis by (cases r) simp
  next
    case (2 r)
    from advance_spec [OF 2(4)] ts_orderD(4) [OF assms(1)] show ?thesis by auto
  qed
qed

lemma authority_calls:
  assumes "ts_inv (fst sw)"
  shows "allocate_start_time h log tx sw = (r1, sw') \<Longrightarrow> ts_inv (fst sw') \<and>
      reservations_later (map_of (reservations (fst sw))) (map_of (reservations (fst sw')))"
    and "reserve_commit_time h log tx sw = (r1, sw') \<Longrightarrow> ts_inv (fst sw') \<and>
      reservations_later (map_of (reservations (fst sw))) (map_of (reservations (fst sw')))"
    and "resolve_commit_time h log tx t res sw = (r2, sw') \<Longrightarrow> ts_inv (fst sw') \<and>
      reservations_later (map_of (reservations (fst sw))) (map_of (reservations (fst sw'))) \<and>
      (\<forall>u. r2 = Inr u \<longrightarrow>
        map_of (reservations (fst sw')) tx = Some \<lparr>rsv_commit_time = t, rsv_resolution = Some res\<rparr>)"
proof -
  show "ts_inv (fst sw') \<and> reservations_later (map_of (reservations (fst sw))) (map_of (reservations (fst sw')))"
    if "allocate_start_time h log tx sw = (r1, sw')"
    using that apply_batch_steps [OF assms, of h log "[OpAllocateStart tx]"]
    by (auto simp: allocate_start_time_def split: prod.splits)
  show "ts_inv (fst sw') \<and> reservations_later (map_of (reservations (fst sw))) (map_of (reservations (fst sw')))"
    if "reserve_commit_time h log tx sw = (r1, sw')"
    using that apply_batch_steps [OF assms, of h log "[OpReserveCommit tx]"]
    by (auto simp: reserve_commit_time_def split: prod.splits)
  assume run: "resolve_commit_time h log tx t res sw = (r2, sw')"
  then obtain rs where rs: "apply_batch h log [OpResolveCommit tx t res] sw = (rs, sw')"
    and r2: "r2 = try_r (hd rs) (\<lambda>_. Inr ())"
    by (auto simp: resolve_commit_time_def split: prod.splits)
  from single_batch [OF rs] resolve_sets [OF assms, of tx t res] r2 apply_batch_steps [OF assms rs]
  show "ts_inv (fst sw') \<and>
      reservations_later (map_of (reservations (fst sw))) (map_of (reservations (fst sw'))) \<and>
      (\<forall>u. r2 = Inr u \<longrightarrow>
        map_of (reservations (fst sw')) tx = Some \<lparr>rsv_commit_time = t, rsv_resolution = Some res\<rparr>)"
    by auto
qed

lemma on_authority_calls:
  assumes w: "world_ok w"
  shows "on_authority h log env (allocate_start_time h log tx) w = (r1, w') \<Longrightarrow>
      world_ok w' \<and> reservations_later (world_reservations w) (world_reservations w')"
    and "on_authority h log env (reserve_commit_time h log tx) w = (r1, w') \<Longrightarrow>
      world_ok w' \<and> reservations_later (world_reservations w) (world_reservations w')"
    and "on_authority h log env (commit_time_reservation_of tx) w = (r2, w') \<Longrightarrow>
      world_ok w' \<and> reservations_later (world_reservations w) (world_reservations w') \<and>
      (\<forall>found. r2 = Inr found \<longrightarrow> world_reservations w' tx = found)"
    and "on_authority h log env (resolve_commit_time h log tx t res) w = (r3, w') \<Longrightarrow>
      world_ok w' \<and> reservations_later (world_reservations w) (world_reservations w') \<and>
      (\<forall>u. r3 = Inr u \<longrightarrow>
        world_reservations w' tx = Some \<lparr>rsv_commit_time = t, rsv_resolution = Some res\<rparr>)"
proof -
  have drop: "A \<and> B" if "A \<and> B \<and> True" for A B using that by simp
  show "world_ok w' \<and> reservations_later (world_reservations w) (world_reservations w')"
    if "on_authority h log env (allocate_start_time h log tx) w = (r1, w')"
    by (rule drop, rule on_authority_steps [where P = "\<lambda>_ _. True", OF w that])
      (drule (1) authority_calls(1), simp)
  show "world_ok w' \<and> reservations_later (world_reservations w) (world_reservations w')"
    if "on_authority h log env (reserve_commit_time h log tx) w = (r1, w')"
    by (rule drop, rule on_authority_steps [where P = "\<lambda>_ _. True", OF w that])
      (drule (1) authority_calls(2), simp)
  show "world_ok w' \<and> reservations_later (world_reservations w) (world_reservations w') \<and>
      (\<forall>found. r2 = Inr found \<longrightarrow> world_reservations w' tx = found)"
    if "on_authority h log env (commit_time_reservation_of tx) w = (r2, w')"
    by (rule on_authority_steps [where P = "\<lambda>r m. \<forall>found. r = Inr found \<longrightarrow> m tx = found", OF w that])
      (auto simp: commit_time_reservation_of_def reservations_later_refl)
  show "world_ok w' \<and> reservations_later (world_reservations w) (world_reservations w') \<and>
      (\<forall>u. r3 = Inr u \<longrightarrow>
        world_reservations w' tx = Some \<lparr>rsv_commit_time = t, rsv_resolution = Some res\<rparr>)"
    if "on_authority h log env (resolve_commit_time h log tx t res) w = (r3, w')"
    by (rule on_authority_steps [where P = "\<lambda>r m. \<forall>u. r = Inr u \<longrightarrow>
        m tx = Some \<lparr>rsv_commit_time = t, rsv_resolution = Some res\<rparr>", OF w that])
      (erule (1) authority_calls(3))
qed

lemmas durable_coordinator_calls =
  durable_coordinator_def durable_authority_def shards_beside_def coordinator.simps
  timestamp_authority.simps shard_executor.simps

interpretation dco: reservation_contract "durable_coordinator h log env ex" world_reservations world_ok
  for h log env ex
proof (unfold_locales, unfold durable_coordinator_calls, goal_cases)
  case 1
  then show ?case by (rule on_authority_calls(1))
next
  case 2
  then show ?case by (rule on_authority_calls(2))
next
  case 3
  then show ?case by (rule on_authority_calls(3))
next
  case 4
  then show ?case by (rule on_authority_calls(4))
qed (rule on_shards_steps; assumption)+

section \<open>Agreement of outcomes\<close>

text \<open>C1.  Agreement.  Take the coordinator over the durable timestamp authority, with any log, any
  shards (they may fail, lie, or lose requests) and any other clients using the authority in
  between.  Once a call (\<^verbatim>\<open>commit\<close>, \<^verbatim>\<open>abort\<close>, \<^verbatim>\<open>recover\<close> or \<^verbatim>\<open>recover_transaction\<close>) has
  reported a transaction with writes as committed at time \<open>t\<close>, then after any further calls every
  outcome reported for the same transaction is committed at \<open>t\<close> or unresolved: never aborted, and
  never another commit time.\<close>

theorem outcomes_agree_durable:
  assumes "ts_inv st" and "call_writes c" and "call_writes c'" and "call_tx c' = call_tx c"
    and "run_call blake3 (durable_coordinator blake3 log env ex) c ((st, l), s) =
      (Inr (Some (OutCommitted t)), w1)"
    and "run_call blake3 (durable_coordinator blake3 log env ex) c'
      (run_calls blake3 (durable_coordinator blake3 log env ex) cs w1) = (Inr (Some out), w2)"
  shows "out = OutCommitted t \<or> out = OutUnresolved"
  by (rule dco.outcomes_agree [OF _ assms(2-6)]) (simp add: assms(1))

text \<open>The witness: a shard that accepts everything and remembers nothing, a log that keeps nothing,
  and no other client.\<close>

definition null_log :: "unit timestamp_log" where
  "null_log = \<lparr>tl_replay = (\<lambda>w. (Inr [], w)), tl_append_batch = (\<lambda>cs w. (Inr (), w))\<rparr>"

definition yes_shards :: "unit shard_executor" where
  "yes_shards =
     \<lparr>ex_submit = (\<lambda>_ _ w. (Inr \<lparr>sr_applied_index = 1, sr_replayed = False, sr_intent_digest = Some 1\<rparr>, w)),
      ex_changes_after = (\<lambda>_ _ w. (Inr [], w)),
      ex_transaction_history = (\<lambda>_ _ w. (Inr \<lparr>th_prepared = None, th_intent = None, th_terminal = [],
        th_single_shard_commit = None\<rparr>, w)),
      ex_acquire_recovery_lease = (\<lambda>tx owner w.
        (Inr \<lparr>rl_transaction_id = tx, rl_owner = owner, rl_epoch = 1\<rparr>, w)),
      ex_recovery_manifest = (\<lambda>_ _ w. (Inr None, w)),
      ex_release_recovery_lease = (\<lambda>_ w. (Inr (), w))\<rparr>"

definition const_hash :: "byte list \<Rightarrow> digest32" where
  "const_hash _ = 1"

definition example_coordinator :: "(unit, unit) txn_world coordinator" where
  "example_coordinator = durable_coordinator const_hash null_log (Pair []) yes_shards"

definition example_mutation :: logical_mutation where
  "example_mutation = DeleteVertex \<lparr>vt_id = Ident128 3, vt_version = 1, vt_transaction_time = 0\<rparr>"

definition example_fence :: shard_snapshot_fence where
  "example_fence = \<lparr>sf_placement_epoch = Ident 1, sf_backend_generation = Ident 1, sf_applied_index = 0,
     sf_closed_time = 0\<rparr>"

definition example_context :: transaction_context where
  "example_context =
     \<lparr>tc_snapshot = \<lparr>st_transaction_id = Ident128 7, st_start_time = 0, st_catalog_version = 1,
        st_shards = [(Ident 1, example_fence)]\<rparr>,
      tc_base = \<lparr>bg_vertices = [], bg_edges = []\<rparr>, tc_overlay = \<lparr>ov_mutations = [example_mutation]\<rparr>\<rparr>"

definition example_writes :: "participant_write list" where
  "example_writes = [\<lparr>pw_shard_id = Ident 1, pw_mutations = [example_mutation]\<rparr>]"

lemma example_context_fields:
  "ctx_tx example_context = Ident128 7" "ctx_start example_context = 0"
  "st_shards (tc_snapshot example_context) = [(Ident 1, example_fence)]"
  "ov_mutations (tc_overlay example_context) = [example_mutation]"
  "sf_applied_index example_fence = 0"
  by (simp_all add: example_context_def example_fence_def)

lemma example_valid:
  "overlay_validate (tc_overlay example_context) (tc_base example_context) = Inr ()"
  "validate_participants example_context example_writes = Inr ()"
  "sort_key pw_shard_id example_writes = [\<lparr>pw_shard_id = Ident 1, pw_mutations = [example_mutation]\<rparr>]"
  "detect_mutation_conflicts [example_mutation] [] 0 = Inr ()"
  "stamp_mutations [example_mutation] 1 =
     Inr [DeleteVertex \<lparr>vt_id = Ident128 3, vt_version = 1, vt_transaction_time = 1\<rparr>]"
  by code_simp+

lemma example_header:
  "request_header_for const_hash ctx phase shard fence =
     Inr \<lparr>rh_command_id = Ident128 1, rh_placement_epoch = sf_placement_epoch fence,
          rh_backend_generation = sf_backend_generation fence\<rparr>"
  by (simp add: request_header_for_def command_id_def const_hash_def command_id_new_def drop_bit_Suc)

definition example_reserved :: "commit_resolution option \<Rightarrow> timestamp_state" where
  "example_reserved res = \<lparr>last_issued = 1, published_frontier = (if res = None then 0 else 1), start_times = [],
     reservations = [(Ident128 7, \<lparr>rsv_commit_time = 1, rsv_resolution = res\<rparr>)]\<rparr>"

lemma idle_clients: "other_clients h log (Pair []) w = w"
  by (simp add: other_clients_def apply_batch_def split: prod.split)

lemma example_calls:
  "ta_commit_time_reservation (co_timestamps example_coordinator) tx ((st, ()), ()) =
     (Inr (map_of (reservations st) tx), ((st, ()), ()))"
  "ex_changes_after (co_participants example_coordinator) shard i ((st, ()), ()) = (Inr [], ((st, ()), ()))"
  "ex_submit (co_participants example_coordinator) shard req ((st, ()), ()) =
     (Inr \<lparr>sr_applied_index = 1, sr_replayed = False, sr_intent_digest = Some 1\<rparr>, ((st, ()), ()))"
  "ex_transaction_history (co_participants example_coordinator) shard tx ((st, ()), ()) =
     (Inr \<lparr>th_prepared = None, th_intent = None, th_terminal = [], th_single_shard_commit = None\<rparr>, ((st, ()), ()))"
  by (simp_all add: example_coordinator_def durable_coordinator_calls on_authority_def on_shards_def
      idle_clients commit_time_reservation_of_def yes_shards_def)

lemma example_authority:
  "ta_reserve_commit_time (co_timestamps example_coordinator) (Ident128 7) ((timestamp_state_default, ()), ()) =
     (Inr 1, ((example_reserved None, ()), ()))"
  "ta_resolve_commit_time (co_timestamps example_coordinator) (Ident128 7) 1 ResCommitted
       ((example_reserved None, ()), ()) = (Inr (), ((example_reserved (Some ResCommitted), ()), ()))"
  "ta_resolve_commit_time (co_timestamps example_coordinator) (Ident128 7) 1 ResCommitted
       ((example_reserved (Some ResCommitted), ()), ()) =
     (Inr (), ((example_reserved (Some ResCommitted), ()), ()))"
  by code_simp+

lemma eff_match_step: "eff_match m k w = (case m w of (r, w') \<Rightarrow> k r w')"
  by (simp split: prod.split)

lemma example_reservations:
  "map_of (reservations timestamp_state_default) tx = None"
  "map_of (reservations (example_reserved res)) (Ident128 7) = Some \<lparr>rsv_commit_time = 1, rsv_resolution = res\<rparr>"
  by (simp_all add: timestamp_state_default_def example_reserved_def)

lemmas example_eval = Let_def eff_bind_app eff_match_step example_valid example_context_fields example_calls
  example_authority example_header example_reservations

lemma example_commit_single:
  "commit_single_shard const_hash example_coordinator example_context 1
       \<lparr>pw_shard_id = Ident 1, pw_mutations = [example_mutation]\<rparr> ((example_reserved None, ()), ()) =
     (Inr (OutCommitted 1), ((example_reserved (Some ResCommitted), ()), ()))"
  by (simp add: commit_single_shard_def example_eval del: eff_match_app)

lemma example_check:
  "check_participant const_hash example_coordinator example_context False None
       \<lparr>pw_shard_id = Ident 1, pw_mutations = [example_mutation]\<rparr> ((st, ()), ()) = (Inr (Inr ()), ((st, ()), ()))"
  by (simp add: check_participant_def example_eval del: eff_match_app)

lemma example_commit_checked:
  "commit_checked const_hash example_coordinator example_context None
       [\<lparr>pw_shard_id = Ident 1, pw_mutations = [example_mutation]\<rparr>] ((timestamp_state_default, ()), ()) =
     (Inr (OutCommitted 1), ((example_reserved (Some ResCommitted), ()), ()))"
  by (simp add: commit_checked_def example_check example_commit_single example_eval del: eff_match_app)

lemma example_commit:
  "run_call const_hash example_coordinator (CallCommit example_context example_writes)
       ((timestamp_state_default, ()), ()) =
     (Inr (Some (OutCommitted 1)), ((example_reserved (Some ResCommitted), ()), ()))"
  by (simp add: commit_def example_commit_checked example_eval del: eff_match_app)

lemma example_recover_single:
  "recover_single_shard const_hash example_coordinator example_context
       ((example_reserved (Some ResCommitted), ()), ()) =
     (Inr (OutCommitted 1), ((example_reserved (Some ResCommitted), ()), ()))"
  by (simp add: recover_single_shard_def single_shard_request_def example_eval del: eff_match_app)

lemma example_recover:
  "run_call const_hash example_coordinator (CallRecover example_context)
       ((example_reserved (Some ResCommitted), ()), ()) =
     (Inr (Some (OutCommitted 1)), ((example_reserved (Some ResCommitted), ()), ()))"
  by (simp add: recover_def load_recovery_state_def load_history_def find_single_shard_commit_def
      example_recover_single recover_intent_def history_is_empty_def List.map_filter_def example_eval
      del: eff_match_app)

theorem outcomes_agree_durable_witness:
  "fst (run_call const_hash example_coordinator (CallCommit example_context example_writes)
       ((timestamp_state_default, ()), ())) = Inr (Some (OutCommitted 1)) \<and>
   (\<forall>w2. run_call const_hash example_coordinator (CallRecover example_context)
       (snd (run_call const_hash example_coordinator (CallCommit example_context example_writes)
         ((timestamp_state_default, ()), ()))) \<noteq> (Inr (Some OutAborted), w2)) \<and>
   (\<exists>w2. run_call const_hash example_coordinator (CallRecover example_context)
       (snd (run_call const_hash example_coordinator (CallCommit example_context example_writes)
         ((timestamp_state_default, ()), ()))) = (Inr (Some (OutCommitted 1)), w2))"
proof -
  have "OutCommitted 1 = OutCommitted 1 \<or> OutCommitted 1 = OutUnresolved"
    by (rule outcomes_agree_durable [where c = "CallCommit example_context example_writes"
        and c' = "CallRecover example_context" and cs = "[]" and ?blake3.0 = const_hash and log = null_log
        and env = "Pair []" and ex = yes_shards and l = "()" and s = "()" and st = timestamp_state_default])
      (use example_commit example_recover in
        \<open>simp_all add: example_coordinator_def ts_inv_default example_writes_def\<close>)
  with example_commit example_recover show ?thesis by simp
qed

end
