(* ===== verification/Coordinator_Trace.thy ===== *)
theory Coordinator_Trace
  imports Coordinator
begin

text \<open>
  The order of the messages of two-phase commit.  A coordinator is run beside a trace that records
  every request it submits, with whether it was accepted, and every transaction history it reads.
  Whatever the authority and the shards answer, no participant is told to commit or to abort before
  a matching decision is durable at the home shard, and no commit decision is submitted before every
  participant of its manifest has accepted its prewrite.
\<close>

section \<open>Traces\<close>

datatype txn_event = Submitted shard_id shard_request bool | ReadHistory shard_id transaction_history

fun prewritten :: "shard_id \<Rightarrow> transaction_id \<Rightarrow> txn_event \<Rightarrow> bool" where
  "prewritten shard tx (Submitted shard' (PrewriteIntent _ tx' _ _ _) accepted) =
     (accepted \<and> shard' = shard \<and> tx' = tx)"
| "prewritten shard tx _ = False"

definition decision_of :: "transaction_id \<Rightarrow> transaction_state \<Rightarrow> transaction_time \<Rightarrow> transaction_record \<Rightarrow> bool" where
  "decision_of tx state t d \<longleftrightarrow> tr_id d = tx \<and> tr_state d = state \<and> tr_transaction_time d = t"

fun decides :: "transaction_id \<Rightarrow> transaction_state \<Rightarrow> transaction_time \<Rightarrow> txn_event \<Rightarrow> bool" where
  "decides tx state t (Submitted _ (RecordHomeDecision _ d _) accepted) =
     (accepted \<and> decision_of tx state t d)"
| "decides tx state t (ReadHistory _ hist) = list_ex (decision_of tx state t) (th_terminal hist)"
| "decides tx state t _ = False"

text \<open>What must have happened before an event.\<close>

fun permitted :: "txn_event list \<Rightarrow> txn_event \<Rightarrow> bool" where
  "permitted before (Submitted _ (FinalizeParticipantCommit _ tx _ _ t _ _) _) =
     list_ex (decides tx Committed t) before"
| "permitted before (Submitted _ (FinalizeParticipantAbort _ d) _) =
     list_ex (decides (tr_id d) Aborted (tr_transaction_time d)) before"
| "permitted before (Submitted _ (RecordHomeDecision _ d m) _) =
     (tr_state d = Committed \<longrightarrow>
        list_all (\<lambda>p. list_ex (prewritten (pm_shard_id p) (tr_id d)) before) (tm_participants m))"
| "permitted before _ = True"

definition well_ordered :: "txn_event list \<Rightarrow> bool" where
  "well_ordered tr \<longleftrightarrow> (\<forall>i < length tr. permitted (take i tr) (tr ! i))"

lemma well_ordered_Nil [simp]: "well_ordered []"
  by (simp add: well_ordered_def)

lemma well_ordered_snoc [simp]: "well_ordered (tr @ [e]) \<longleftrightarrow> well_ordered tr \<and> permitted tr e"
  by (auto simp: well_ordered_def nth_append less_Suc_eq)

definition silent :: "('w, 'e, 'a) eff \<Rightarrow> ('w \<times> txn_event list, 'e, 'a) eff" where
  "silent m wt = (case wt of (w, tr) \<Rightarrow> case m w of (r, w') \<Rightarrow> (r, (w', tr)))"

definition noted :: "(('e, 'a) result \<Rightarrow> txn_event list) \<Rightarrow> ('w, 'e, 'a) eff
    \<Rightarrow> ('w \<times> txn_event list, 'e, 'a) eff" where
  "noted note m wt = (case wt of (w, tr) \<Rightarrow> case m w of (r, w') \<Rightarrow> (r, (w', tr @ note r)))"

definition traced :: "'w coordinator \<Rightarrow> ('w \<times> txn_event list) coordinator" where
  "traced co =
     \<lparr>co_timestamps =
        \<lparr>ta_allocate_start_time = (\<lambda>tx. silent (ta_allocate_start_time (co_timestamps co) tx)),
         ta_reserve_commit_time = (\<lambda>tx. silent (ta_reserve_commit_time (co_timestamps co) tx)),
         ta_commit_time_reservation = (\<lambda>tx. silent (ta_commit_time_reservation (co_timestamps co) tx)),
         ta_resolve_commit_time = (\<lambda>tx t res. silent (ta_resolve_commit_time (co_timestamps co) tx t res))\<rparr>,
      co_participants =
        \<lparr>ex_submit = (\<lambda>shard req. noted (\<lambda>r. [Submitted shard req (is_ok r)])
           (ex_submit (co_participants co) shard req)),
         ex_changes_after = (\<lambda>shard i. silent (ex_changes_after (co_participants co) shard i)),
         ex_transaction_history = (\<lambda>shard tx. noted
           (\<lambda>r. case r of Inr hist \<Rightarrow> [ReadHistory shard hist] | Inl _ \<Rightarrow> [])
           (ex_transaction_history (co_participants co) shard tx)),
         ex_acquire_recovery_lease = (\<lambda>tx owner. silent (ex_acquire_recovery_lease (co_participants co) tx owner)),
         ex_recovery_manifest = (\<lambda>tx lease. silent (ex_recovery_manifest (co_participants co) tx lease)),
         ex_release_recovery_lease = (\<lambda>lease. silent (ex_release_recovery_lease (co_participants co) lease))\<rparr>\<rparr>"

section \<open>A calculus for traces\<close>

text \<open>\<open>orderly K V m\<close>: started on a well-ordered trace with \<open>K\<close>, the computation leaves a
  well-ordered extension of it, with \<open>V\<close> if it succeeds.  \<open>K\<close> speaks of past events only, so it stays
  true when the trace grows.\<close>

definition growing :: "(txn_event list \<Rightarrow> bool) \<Rightarrow> bool" where
  "growing K \<longleftrightarrow> (\<forall>tr more1. K tr \<longrightarrow> K (tr @ more1))"

definition orderly :: "(txn_event list \<Rightarrow> bool) \<Rightarrow> ('a \<Rightarrow> txn_event list \<Rightarrow> bool)
    \<Rightarrow> ('w \<times> txn_event list, 'e, 'a) eff \<Rightarrow> bool" where
  "orderly K V m \<longleftrightarrow> (\<forall>w tr r w' tr'. well_ordered tr \<longrightarrow> K tr \<longrightarrow> m (w, tr) = (r, (w', tr')) \<longrightarrow>
     well_ordered tr' \<and> (\<exists>new. tr' = tr @ new) \<and> (\<forall>a. r = Inr a \<longrightarrow> V a tr'))"

lemma orderlyI:
  assumes "\<And>w tr r w' tr'. well_ordered tr \<Longrightarrow> K tr \<Longrightarrow> m (w, tr) = (r, (w', tr')) \<Longrightarrow>
    well_ordered tr' \<and> (\<exists>new. tr' = tr @ new) \<and> (\<forall>a. r = Inr a \<longrightarrow> V a tr')"
  shows "orderly K V m"
  unfolding orderly_def using assms by blast

lemma orderlyD:
  "orderly K V m \<Longrightarrow> well_ordered tr \<Longrightarrow> K tr \<Longrightarrow> m (w, tr) = (r, (w', tr')) \<Longrightarrow>
     well_ordered tr' \<and> (\<exists>new. tr' = tr @ new) \<and> (\<forall>a. r = Inr a \<longrightarrow> V a tr')"
  unfolding orderly_def by blast

abbreviation anything :: "'a \<Rightarrow> txn_event list \<Rightarrow> bool" where
  "anything \<equiv> \<lambda>_ _. True"

lemma growingD: "growing K \<Longrightarrow> K tr \<Longrightarrow> K (tr @ new)"
  by (simp add: growing_def)

lemma growing_intros [intro]:
  "growing (\<lambda>_. c)" "growing (list_ex P)"
  "growing K \<Longrightarrow> growing L \<Longrightarrow> growing (\<lambda>tr. K tr \<and> L tr)"
  "(\<And>x. growing (M x)) \<Longrightarrow> growing (\<lambda>tr. list_all (\<lambda>x. M x tr) xs)"
  by (auto simp: growing_def list_all_iff)

lemma orderly_weaken: "orderly L V m \<Longrightarrow> (\<And>tr. K tr \<Longrightarrow> L tr) \<Longrightarrow> orderly K V m"
  unfolding orderly_def by blast

lemma orderly_post: "orderly K U m \<Longrightarrow> (\<And>a tr. U a tr \<Longrightarrow> V a tr) \<Longrightarrow> orderly K V m"
  unfolding orderly_def by blast

lemma orderly_ret: "(\<And>tr. K tr \<Longrightarrow> V a tr) \<Longrightarrow> orderly K V (eff_ret a)"
  by (rule orderlyI) auto

lemma orderly_err: "orderly K V (eff_err e)"
  by (rule orderlyI) auto

lemma orderly_of: "orderly K (\<lambda>a _. p = Inr a) (eff_of p)"
  by (rule orderlyI) auto

lemma orderly_silent: "orderly K anything (silent m)"
  by (rule orderlyI) (auto simp: silent_def split: prod.splits)

lemma orderly_match:
  assumes m: "orderly K U m" and K: "growing K"
    and err: "\<And>e. orderly K V (k (Inl e))"
    and ok: "\<And>a. orderly (\<lambda>tr. K tr \<and> U a tr) V (k (Inr a))"
  shows "orderly K V (eff_match m k)"
proof (rule orderlyI)
  fix w tr r w' tr'
  assume tr: "well_ordered tr" "K tr" and run: "eff_match m k (w, tr) = (r, (w', tr'))"
  obtain r1 w1 tr1 where m1: "m (w, tr) = (r1, (w1, tr1))" by (cases "m (w, tr)") auto
  from orderlyD [OF m tr m1] obtain new where t1: "well_ordered tr1" "tr1 = tr @ new"
    and U: "\<And>a. r1 = Inr a \<Longrightarrow> U a tr1" by auto
  from growingD [OF K tr(2)] t1(2) have K1: "K tr1" by simp
  from run m1 have k1: "k r1 (w1, tr1) = (r, (w', tr'))" by simp
  have "well_ordered tr' \<and> (\<exists>new. tr' = tr1 @ new) \<and> (\<forall>a. r = Inr a \<longrightarrow> V a tr')"
  proof (cases r1)
    case (Inl e)
    with orderlyD [OF err t1(1) K1, of e w1] k1 show ?thesis by simp
  next
    case (Inr a)
    with orderlyD [OF ok t1(1), of a w1] K1 U k1 show ?thesis by simp
  qed
  with t1(2) show "well_ordered tr' \<and> (\<exists>new. tr' = tr @ new) \<and> (\<forall>a. r = Inr a \<longrightarrow> V a tr')" by auto
qed

lemma orderly_bind:
  assumes "orderly K U m" and "growing K" and "\<And>a. orderly (\<lambda>tr. K tr \<and> U a tr) V (k a)"
  shows "orderly K V (eff_bind m k)"
  unfolding eff_bind_def by (rule orderly_match [OF assms(1,2)]) (simp_all add: orderly_err assms(3))

lemma orderly_bind_of:
  "(\<And>a. p = Inr a \<Longrightarrow> orderly K V (k a)) \<Longrightarrow> orderly K V (eff_bind (eff_of p) k)"
  by (cases p) (simp_all add: orderly_err)

text \<open>Composition when nothing is remembered of the first computation.\<close>

lemma orderly_then:
  "orderly K U m \<Longrightarrow> growing K \<Longrightarrow> (\<And>a. orderly K V (k a)) \<Longrightarrow> orderly K V (eff_bind m k)"
  by (rule orderly_bind) (auto intro: orderly_weaken)

lemma orderly_match_then:
  "orderly K U m \<Longrightarrow> growing K \<Longrightarrow> (\<And>r. orderly K V (k r)) \<Longrightarrow> orderly K V (eff_match m k)"
  by (rule orderly_match) (auto intro: orderly_weaken)

lemma orderly_map:
  assumes f: "\<And>x. orderly K (V x) (f x)" and K: "growing K" and V: "\<And>x a. growing (V x a)"
  shows "orderly K (\<lambda>as tr. list_all2 (\<lambda>x a. V x a tr) xs as) (eff_map f xs)"
proof (induction xs)
  case Nil
  show ?case unfolding eff_map.simps by (rule orderly_ret) simp
next
  case (Cons x xs)
  have mono: "growing (\<lambda>tr. K tr \<and> V x a tr)" for a by (intro growing_intros K V)
  show ?case
    unfolding eff_map.simps
    by (rule orderly_bind [OF f K], rule orderly_bind [OF orderly_weaken [OF Cons.IH] mono])
      (auto intro: orderly_ret)
qed

lemma orderly_all:
  assumes "\<And>x. orderly K anything (f x)" and "growing K"
  shows "orderly K anything (eff_all f xs)"
  unfolding eff_all_def
  by (rule orderly_then [OF orderly_map [where V = "\<lambda>_ _ _. True"]]) (auto intro: assms orderly_ret)

lemma orderly_control:
  "(b \<Longrightarrow> orderly K V m) \<Longrightarrow> (\<not> b \<Longrightarrow> orderly K V n) \<Longrightarrow> orderly K V (if b then m else n)"
  "(opt = None \<Longrightarrow> orderly K V m) \<Longrightarrow> (\<And>a. opt = Some a \<Longrightarrow> orderly K V (k a)) \<Longrightarrow>
     orderly K V (case opt of None \<Rightarrow> m | Some a \<Rightarrow> k a)"
  "(\<And>a b. p = (a, b) \<Longrightarrow> orderly K V (k2 a b)) \<Longrightarrow> orderly K V (case p of (a, b) \<Rightarrow> k2 a b)"
  "(\<And>e. r = Inl e \<Longrightarrow> orderly K V (kl e)) \<Longrightarrow> (\<And>a. r = Inr a \<Longrightarrow> orderly K V (kr a)) \<Longrightarrow>
     orderly K V (case r of Inl e \<Rightarrow> kl e | Inr a \<Rightarrow> kr a)"
  "(\<And>e. f = Definitive e \<Longrightarrow> orderly K V (kd e)) \<Longrightarrow> (\<And>e. f = Ambiguous e \<Longrightarrow> orderly K V (ka e)) \<Longrightarrow>
     orderly K V (case f of Definitive e \<Rightarrow> kd e | Ambiguous e \<Rightarrow> ka e)"
  "(res = ResCommitted \<Longrightarrow> orderly K V m) \<Longrightarrow> (res = ResAborted \<Longrightarrow> orderly K V n) \<Longrightarrow>
     orderly K V (case res of ResCommitted \<Rightarrow> m | ResAborted \<Rightarrow> n)"
  "(l = [] \<Longrightarrow> orderly K V m) \<Longrightarrow> (\<And>y ys. l = y # ys \<Longrightarrow> orderly K V (k3 y ys)) \<Longrightarrow>
     orderly K V (case l of [] \<Rightarrow> m | y # ys \<Rightarrow> k3 y ys)"
  by (simp_all split: option.split prod.split sum.split submission_failure.split commit_resolution.split
      list.split)

section \<open>The methods of the coordinator\<close>

lemma traced_authority:
  "orderly K anything (ta_allocate_start_time (co_timestamps (traced co)) tx)"
  "orderly K anything (ta_reserve_commit_time (co_timestamps (traced co)) tx)"
  "orderly K anything (ta_commit_time_reservation (co_timestamps (traced co)) tx)"
  "orderly K anything (ta_resolve_commit_time (co_timestamps (traced co)) tx t res)"
  "orderly K anything (ex_changes_after (co_participants (traced co)) shard i)"
  "orderly K anything (ex_acquire_recovery_lease (co_participants (traced co)) tx owner)"
  "orderly K anything (ex_recovery_manifest (co_participants (traced co)) tx lease)"
  "orderly K anything (ex_release_recovery_lease (co_participants (traced co)) lease)"
  by (simp_all add: traced_def orderly_silent)

lemma traced_submit:
  assumes "\<And>tr. K tr \<Longrightarrow> permitted tr (Submitted shard req True) \<and> permitted tr (Submitted shard req False)"
  shows "orderly K (\<lambda>_ tr. Submitted shard req True \<in> set tr) (ex_submit (co_participants (traced co)) shard req)"
proof (rule orderlyI)
  fix w tr r w' tr'
  assume "well_ordered tr" "K tr" "ex_submit (co_participants (traced co)) shard req (w, tr) = (r, (w', tr'))"
  moreover from this have "tr' = tr @ [Submitted shard req (is_ok r)]"
    by (auto simp: traced_def noted_def split: prod.splits)
  ultimately show "well_ordered tr' \<and> (\<exists>new. tr' = tr @ new) \<and>
      (\<forall>a. r = Inr a \<longrightarrow> Submitted shard req True \<in> set tr')"
    using assms [of tr] by (cases "is_ok r") auto
qed

lemma traced_submit_error:
  assumes "\<And>tr. K tr \<Longrightarrow> permitted tr (Submitted shard req True) \<and> permitted tr (Submitted shard req False)"
    and "growing K"
  shows "orderly K (\<lambda>_ tr. Submitted shard req True \<in> set tr) (submit_or_error (traced co) shard req)"
  unfolding submit_or_error_def
  by (rule orderly_match [OF traced_submit [OF assms(1)] assms(2)]) (auto intro!: orderlyI)

lemma traced_load:
  assumes "growing K"
  shows "orderly K (\<lambda>state tr. \<forall>(shard, hist) \<in> set (rs_histories state). ReadHistory shard hist \<in> set tr)
    (load_recovery_state (traced co) ctx)"
proof -
  have hist: "orderly K (\<lambda>hist tr. ReadHistory shard hist \<in> set tr)
      (ex_transaction_history (co_participants (traced co)) shard tx)" for shard tx
    by (rule orderlyI) (auto simp: traced_def noted_def split: prod.splits sum.splits)
  have load: "orderly K (\<lambda>(shard, hist, _) tr. ReadHistory shard hist \<in> set tr) (load_history (traced co) ctx shard)"
    for shard
    unfolding load_history_def
    by (rule orderly_bind [OF hist assms], rule orderly_bind_of, rule orderly_ret) simp
  have mono: "growing (case a of (shard, hist, _) \<Rightarrow> \<lambda>tr. ReadHistory shard hist \<in> set tr)"
    for a :: "shard_id \<times> transaction_history \<times> recovered_intent option"
    by (auto simp: growing_def split: prod.split)
  show ?thesis
    unfolding load_recovery_state_def
    by (rule orderly_bind [OF orderly_map [where V = "\<lambda>_. case_prod (\<lambda>shard. case_prod (\<lambda>hist _ tr. ReadHistory shard hist \<in> set tr))",
          OF load assms mono] assms], rule orderly_ret)
      (fastforce simp: list_all2_conv_all_nth in_set_conv_nth)
qed

text \<open>Finalisation, once the decision is known.\<close>

lemma orderly_finalizers:
  "orderly (list_ex (decides (ctx_tx ctx) Committed t)) anything
     (recover_finalize_commit blake3 (traced co) ctx t p)"
  "orderly (list_ex (decides (ctx_tx ctx) Aborted (ctx_start ctx))) anything
     (recover_finalize_abort blake3 (traced co) ctx p)"
  "orderly (list_ex (decides (ctx_tx ctx) Committed t)) anything
     (finalize_commit blake3 (traced co) ctx t i)"
  "orderly (list_ex (decides (ctx_tx ctx) Aborted (ctx_start ctx))) anything
     (finalize_abort blake3 (traced co) ctx i)"
  unfolding recover_finalize_commit_def recover_finalize_abort_def finalize_commit_def finalize_abort_def
  by (intro orderly_control orderly_bind_of orderly_then [OF traced_submit_error] orderly_ret growing_intros;
      auto simp: transaction_record_new_def result_simps split: if_splits)+

text \<open>Operations that only read, resolve and submit unconstrained requests.\<close>

lemmas orderly_rules = orderly_control orderly_err orderly_ret orderly_bind_of
  orderly_then [OF traced_authority(1)] orderly_then [OF traced_authority(2)]
  orderly_then [OF traced_authority(3)] orderly_then [OF traced_authority(4)]
  orderly_then [OF traced_authority(5)] orderly_then [OF traced_authority(6)]
  orderly_then [OF traced_authority(7)] orderly_then [OF traced_authority(8)]
  orderly_match_then [OF traced_authority(3)] orderly_match_then [OF traced_authority(4)]
  orderly_match_then [OF traced_authority(8)] growing_intros

lemma orderly_durable_single: "growing K \<Longrightarrow>
    orderly K anything (recover_durable_single_shard blake3 (traced co) ctx shard c)"
  unfolding recover_durable_single_shard_def by (intro orderly_rules) auto

lemma orderly_load_or_unresolved:
  assumes "growing K" and "\<And>state. orderly K V (k state)" and "\<And>tr. V u tr"
  shows "orderly K V (load_or_unresolved (traced co) ctx u k)"
  unfolding load_or_unresolved_def
  by (rule orderly_match_then [OF traced_load [OF assms(1)] assms(1)]) (intro orderly_rules assms(2,3))

lemma orderly_definitive: "growing K \<Longrightarrow>
    orderly K anything (resolve_definitive_single_shard_failure blake3 (traced co) ctx t e)"
  unfolding resolve_definitive_single_shard_failure_def
  by (intro orderly_rules orderly_load_or_unresolved orderly_durable_single) auto

lemma orderly_free_submit:
  "(\<And>tr b. permitted tr (Submitted shard req b)) \<Longrightarrow> growing K \<Longrightarrow> (\<And>r. orderly K V (k r)) \<Longrightarrow>
     orderly K V (eff_match (ex_submit (co_participants (traced co)) shard req) k)"
  by (rule orderly_match_then [OF traced_submit]) simp_all

lemma single_request_permitted:
  "single_shard_request blake3 ctx shard fence t = Inr req \<Longrightarrow> permitted tr (Submitted shard' req b)"
  by (auto simp: single_shard_request_def result_simps)

lemma orderly_recover_single: "growing K \<Longrightarrow>
    orderly K anything (recover_single_shard blake3 (traced co) ctx)"
  unfolding recover_single_shard_def
  by (intro orderly_rules orderly_free_submit orderly_definitive) (auto simp: single_request_permitted)

lemma orderly_recover_committed:
  "orderly (list_ex (decides (ctx_tx ctx) Committed t)) anything
     (recover_committed blake3 (traced co) ctx state t)"
  unfolding recover_committed_def
  by (intro orderly_rules orderly_then [OF orderly_all [OF orderly_finalizers(1)]]) auto

lemma orderly_recover_aborted:
  "orderly (list_ex (decides (ctx_tx ctx) Aborted (ctx_start ctx))) anything
     (recover_aborted blake3 (traced co) ctx state)"
  unfolding recover_aborted_def
  by (intro orderly_rules orderly_then [OF orderly_all [OF orderly_finalizers(2)]]) auto

lemma orderly_recover_without_intents: "growing K \<Longrightarrow>
    orderly K anything (recover_without_intents (traced co) ctx state)"
  unfolding recover_without_intents_def by (intro orderly_rules) auto

text \<open>A recovered decision is in the history of the home shard.\<close>

lemma recovered_decision:
  assumes "recover_home_decision blake3 ctx home state = Inr (Some d)"
  shows "\<exists>hist. (home, hist) \<in> set (rs_histories state) \<and> d \<in> set (th_terminal hist) \<and> tr_id d = ctx_tx ctx \<and>
    (tr_state d = Aborted \<longrightarrow> tr_transaction_time d = ctx_start ctx)"
proof -
  let ?records = "case map_of (rs_histories state) home of None \<Rightarrow> [] | Some hist \<Rightarrow> th_terminal hist"
  let ?P = "\<lambda>decision. \<forall>d. decision = Some d \<longrightarrow> d \<in> set ?records \<and> tr_id d = ctx_tx ctx \<and>
    (tr_state d = Aborted \<longrightarrow> tr_transaction_time d = ctx_start ctx)"
  from assms have "?P (Some d)"
    unfolding recover_home_decision_def
    by (rule try_fold_invariant [where P = ?P])
      (auto simp: home_decision_step_def home_record_valid_def split: if_splits)
  then show ?thesis
    by (cases "map_of (rs_histories state) home") (auto dest: map_of_SomeD)
qed

lemma orderly_recover_decided:
  "orderly (\<lambda>tr. \<forall>(shard, hist) \<in> set (rs_histories state). ReadHistory shard hist \<in> set tr) anything
     (recover_decided blake3 (traced co) ctx state)"
  (is "orderly ?K _ _")
  unfolding recover_decided_def
proof (intro orderly_rules, goal_cases)
  case (2 home found decision u)
  from recovered_decision [of blake3 ctx home state decision] 2 obtain hist
    where hist: "(home, hist) \<in> set (rs_histories state)" "decision \<in> set (th_terminal hist)"
      "tr_id decision = ctx_tx ctx"
      "tr_state decision = Aborted \<longrightarrow> tr_transaction_time decision = ctx_start ctx" by auto
  have "list_ex (decides (ctx_tx ctx) (tr_state decision) (tr_transaction_time decision)) tr" if "?K tr" for tr
    unfolding list_ex_iff
    by (rule bexI [of _ "ReadHistory home hist"]) (use that hist in \<open>auto simp: list_ex_iff decision_of_def\<close>)
  with hist(4) show ?case
    by (cases "tr_state decision")
      (auto intro!: orderly_weaken [OF orderly_recover_committed] orderly_weaken [OF orderly_recover_aborted]
        orderly_err)
qed auto

lemma orderly_recover: "growing K \<Longrightarrow> orderly K anything (recover blake3 (traced co) ctx)"
  unfolding recover_def
  by (rule orderly_bind [OF traced_load], assumption+,
      intro orderly_control orderly_bind_of orderly_weaken [OF orderly_durable_single]
        orderly_weaken [OF orderly_recover_single] orderly_weaken [OF orderly_recover_without_intents]
        orderly_weaken [OF orderly_recover_decided])
    auto

lemma orderly_prevalidate: "growing K \<Longrightarrow>
    orderly K anything (prevalidate_abort_authority blake3 (traced co) ctx)"
  unfolding prevalidate_abort_authority_def if_distrib [of "\<lambda>m. eff_bind m _"] eff_bind_pure
  by (intro orderly_rules orderly_load_or_unresolved orderly_then [OF orderly_durable_single]
      orderly_then [OF orderly_recover] orderly_post [OF orderly_of]) auto

lemma orderly_resolve_without_intents: "growing K \<Longrightarrow>
    orderly K anything (resolve_without_intents (traced co) ctx state)"
  unfolding resolve_without_intents_def by (intro orderly_rules) auto

lemma orderly_record_abort: "growing K \<Longrightarrow>
    orderly K anything (record_abort_decision blake3 (traced co) ctx state home)"
  unfolding record_abort_decision_def
  by (intro orderly_rules orderly_free_submit orderly_match_then [OF orderly_recover] orderly_recover)
    (auto simp: transaction_record_new_def result_simps split: if_splits)

lemma orderly_failed_prewrite: "growing K \<Longrightarrow>
    orderly K anything (resolve_failed_prewrite blake3 (traced co) ctx)"
  unfolding resolve_failed_prewrite_def
  by (rule orderly_then [OF orderly_prevalidate], assumption+)
    (auto split: abort_prevalidation.split intro!: orderly_rules orderly_load_or_unresolved
      orderly_resolve_without_intents orderly_recover orderly_record_abort)

lemma orderly_from_manifest: "growing K \<Longrightarrow>
    orderly K anything (recover_from_manifest blake3 (traced co) tx lease)"
  unfolding recover_from_manifest_def Let_def
  by (intro orderly_then [OF traced_authority(7)] orderly_control orderly_err orderly_ret orderly_bind_of
      orderly_then [OF traced_load] orderly_then [OF orderly_recover] orderly_failed_prewrite) auto

lemma orderly_recover_transaction: "growing K \<Longrightarrow>
    orderly K anything (recover_transaction blake3 (traced co) tx owner)"
  unfolding recover_transaction_def
  by (intro orderly_then [OF traced_authority(6)] orderly_match_then [OF orderly_from_manifest]
      orderly_match_then [OF traced_authority(8)] orderly_control orderly_err orderly_ret) auto

lemma orderly_early_failed_prewrite: "growing K \<Longrightarrow>
    orderly K (\<lambda>r tr. \<forall>a. r = Inr a \<longrightarrow> V a tr)
      (eff_bind (resolve_failed_prewrite blake3 (traced co) ctx) (\<lambda>out. eff_ret (Inl out)))"
  by (rule orderly_then [OF orderly_failed_prewrite]) (auto intro: orderly_ret)

lemma orderly_check: "growing K \<Longrightarrow>
    orderly K anything (check_participant blake3 (traced co) ctx several existing p)"
  unfolding check_participant_def Let_def
  by (intro orderly_rules orderly_then [OF orderly_failed_prewrite]) auto

text \<open>The prewrite loop remembers the accepted prewrites.\<close>

definition all_prewritten ::
    "transaction_id \<Rightarrow> (shard_id \<times> logical_mutation list \<times> digest32) list \<Rightarrow> txn_event list \<Rightarrow> bool" where
  "all_prewritten tx intents tr \<longleftrightarrow> list_all (\<lambda>i. list_ex (prewritten (fst i) tx) tr) intents"

lemma growing_all_prewritten: "growing (all_prewritten tx intents)"
  unfolding all_prewritten_def by (intro growing_intros)

lemma orderly_prewrite:
  "orderly (all_prewritten (ctx_tx ctx) intents)
     (\<lambda>r tr. \<forall>intents'. r = Inr intents' \<longrightarrow> all_prewritten (ctx_tx ctx) intents' tr)
     (prewrite_participant blake3 (traced co) ctx phase t intents p)"
  unfolding prewrite_participant_def
proof (intro orderly_bind_of, rule orderly_match [OF traced_submit growing_all_prewritten], goal_cases)
  case (3 fence ms header receipt)
  have "all_prewritten (ctx_tx ctx) (intents @ [(pw_shard_id p, ms, d)]) tr"
    if "all_prewritten (ctx_tx ctx) intents tr"
      "Submitted (pw_shard_id p) (PrewriteIntent header (ctx_tx ctx) (ctx_start ctx) (sf_applied_index fence) ms) True
        \<in> set tr" for d tr
    using that by (force simp: all_prewritten_def list_ex_iff)
  then show ?case
    by (auto split: option.split intro!: orderly_ret
        orderly_weaken [OF orderly_early_failed_prewrite [OF growing_all_prewritten]])
qed (auto intro!: orderly_early_failed_prewrite growing_all_prewritten)

lemma orderly_loop:
  assumes "\<And>s x. orderly (K s) (\<lambda>r tr. \<forall>s'. r = Inr s' \<longrightarrow> K s' tr) (f s x)" and "\<And>s. growing (K s)"
  shows "orderly (K s) (\<lambda>r tr. \<forall>s'. r = Inr s' \<longrightarrow> K s' tr) (eff_loop f s xs)"
proof (induction xs arbitrary: s)
  case Nil
  show ?case unfolding eff_loop.simps by (rule orderly_ret) simp
next
  case (Cons x xs)
  show ?case
    unfolding eff_loop.simps
    by (rule orderly_bind [OF assms])
      (auto split: sum.split intro!: orderly_ret orderly_weaken [OF Cons.IH])
qed

lemma orderly_commit_single: "growing K \<Longrightarrow>
    orderly K anything (commit_single_shard blake3 (traced co) ctx t p)"
  unfolding commit_single_shard_def
  by (intro orderly_rules orderly_free_submit orderly_definitive) auto

text \<open>The manifest names exactly the shards of the intents.\<close>

lemma context_manifest_shards:
  assumes "context_manifest ctx ps = Inr m"
  shows "set (map pm_shard_id (tm_participants m)) = set (map fst ps)"
proof -
  from assms obtain ms where
    ms: "try_map (\<lambda>(shard, d). try_r (ok_or (ctx_fence ctx shard) IncompleteSnapshot) (\<lambda>fence.
      participant_manifest_new shard fence d)) ps = Inr ms" and m: "tm_participants m = sort_key pm_shard_id ms"
    by (auto simp: context_manifest_def transaction_manifest_new_def Let_def result_simps split: if_splits)
  from ms have "map pm_shard_id ms = map fst ps"
    by (induction ps arbitrary: ms)
      (auto simp: result_simps participant_manifest_new_def split: if_splits prod.splits)
  with m show ?thesis by (metis list.set_map set_sort)
qed

lemma orderly_record:
  "orderly (\<lambda>tr. state = Committed \<longrightarrow> all_prewritten (ctx_tx ctx) intents tr)
     (\<lambda>_. list_ex (decides (ctx_tx ctx) state t))
     (record_home_decision blake3 (traced co) ctx home state t intents)"
  unfolding record_home_decision_def
proof (intro orderly_bind_of, rule orderly_bind [OF traced_submit_error], goal_cases)
  case (1 fence m d decision header tr)
  from 1(4) have dec: "tr_id decision = ctx_tx ctx" "tr_state decision = state"
    by (auto simp: transaction_record_new_def result_simps split: if_splits)
  have "\<exists>i \<in> set intents. pm_shard_id p = fst i" if "p \<in> set (tm_participants m)" for p
    using context_manifest_shards [OF 1(2)] that by (force simp: image_iff)
  with 1(6) dec show ?case
    by (fastforce simp: all_prewritten_def list_all_iff)
next
  case 2
  show ?case using growing_all_prewritten by (auto simp: growing_def)
next
  case 3
  show ?case using growing_all_prewritten by (auto simp: growing_def)
next
  case (4 fence m d decision header receipt)
  then show ?case
    by (intro orderly_ret)
      (force simp: list_ex_iff decision_of_def transaction_record_new_def result_simps split: if_splits)
qed

lemma orderly_commit_two_phase:
  "orderly (\<lambda>_. True) anything (commit_two_phase blake3 (traced co) ctx t ps)"
  unfolding commit_two_phase_def
proof (rule orderly_bind [OF orderly_weaken [OF orderly_loop [OF orderly_prewrite growing_all_prewritten]]],
    goal_cases)
  case (3 r)
  have fin: "orderly (list_ex (decides (ctx_tx ctx) Committed t)) anything
      (eff_bind (eff_all (finalize_commit blake3 (traced co) ctx t) intents) (\<lambda>_.
       eff_bind (ta_resolve_commit_time (co_timestamps (traced co)) (ctx_tx ctx) t ResCommitted) (\<lambda>_.
         eff_ret (OutCommitted t))))" for intents
    by (intro orderly_then [OF orderly_all [OF orderly_finalizers(3)]] orderly_then [OF traced_authority(4)]
        orderly_ret growing_intros) simp
  have "orderly (all_prewritten (ctx_tx ctx) intents) anything
      (eff_bind (record_home_decision blake3 (traced co) ctx (pw_shard_id (hd ps)) Committed t intents) (\<lambda>_.
       eff_bind (eff_all (finalize_commit blake3 (traced co) ctx t) intents) (\<lambda>_.
       eff_bind (ta_resolve_commit_time (co_timestamps (traced co)) (ctx_tx ctx) t ResCommitted) (\<lambda>_.
         eff_ret (OutCommitted t)))))" for intents
    by (rule orderly_bind [OF orderly_weaken [OF orderly_record] growing_all_prewritten])
      (auto intro: orderly_weaken [OF fin])
  then show ?case
    by (auto split: sum.split intro!: orderly_ret intro: orderly_weaken)
qed (auto simp: all_prewritten_def)

lemma orderly_abort_two_phase:
  "orderly (\<lambda>_. True) anything (abort_two_phase blake3 (traced co) ctx pending ps)"
  unfolding abort_two_phase_def
proof (rule orderly_bind [OF orderly_weaken [OF orderly_loop [OF orderly_prewrite growing_all_prewritten]]],
    goal_cases)
  case (3 r)
  have fin: "orderly (list_ex (decides (ctx_tx ctx) Aborted (ctx_start ctx))) anything
      (eff_bind (eff_all (finalize_abort blake3 (traced co) ctx) intents) (\<lambda>_. case pending of
         None \<Rightarrow> eff_ret OutAborted
       | Some t \<Rightarrow> eff_match (ta_resolve_commit_time (co_timestamps (traced co)) (ctx_tx ctx) t ResAborted)
           (\<lambda>r. case r of Inl _ \<Rightarrow> eff_ret OutUnresolved | Inr _ \<Rightarrow> eff_ret OutAborted)))" for intents
    by (intro orderly_then [OF orderly_all [OF orderly_finalizers(4)]] orderly_match_then [OF traced_authority(4)]
        orderly_control orderly_ret growing_intros) simp_all
  then show ?case
    by (auto split: sum.split intro!: orderly_ret orderly_bind [OF orderly_weaken [OF orderly_record]]
        intro: orderly_weaken growing_all_prewritten growingD)
qed (auto simp: all_prewritten_def)

lemma orderly_commit_checked:
  "orderly (\<lambda>_. True) anything (commit_checked blake3 (traced co) ctx existing ps)"
proof -
  have loop: "orderly (\<lambda>_. True) (\<lambda>r tr. \<forall>s'. r = Inr s' \<longrightarrow> True)
      (eff_loop (\<lambda>_. check_participant blake3 (traced co) ctx several existing) () ps)" for several
    by (rule orderly_loop [where K = "\<lambda>_ _. True"]) (auto intro: orderly_check)
  have reserve: "orderly (\<lambda>_. True) anything (case existing of Some t \<Rightarrow> eff_ret t
      | None \<Rightarrow> ta_reserve_commit_time (co_timestamps (traced co)) (ctx_tx ctx))"
    by (cases existing) (simp_all add: orderly_ret traced_authority)
  show ?thesis
    unfolding commit_checked_def
    by (intro orderly_then [OF loop] orderly_then [OF reserve] orderly_control orderly_err orderly_ret
        orderly_commit_single orderly_commit_two_phase growing_intros) simp
qed

lemma orderly_commit: "orderly (\<lambda>_. True) anything (commit blake3 (traced co) ctx writes)"
  unfolding commit_def Let_def by (intro orderly_rules orderly_commit_checked) simp_all

lemma orderly_abort: "orderly (\<lambda>_. True) anything (abort blake3 (traced co) ctx writes)"
  unfolding abort_def Let_def
  by (intro orderly_control orderly_ret orderly_bind_of orderly_then [OF orderly_prevalidate] growing_intros)
    (auto split: abort_prevalidation.split intro!: orderly_ret orderly_abort_two_phase)

lemma orderly_call: "orderly (\<lambda>_. True) anything (run_call blake3 (traced co) c)"
  by (cases c)
    (auto simp: begin_transaction_def intro!: orderly_ret growing_intros orderly_then [OF orderly_commit]
      orderly_then [OF orderly_abort] orderly_then [OF orderly_recover]
      orderly_then [OF orderly_recover_transaction] orderly_then [OF orderly_then [OF traced_authority(1)]]
      orderly_bind_of)


end
