(* ===== verification/Coordinator_Props.thy ===== *)
theory Coordinator_Props
  imports Coordinator_Agreement Coordinator_Trace "HOL-Library.Multiset"
begin

text \<open>
  Functional properties of the coordinator: the participants of a commit carry exactly the staged
  mutations, a reported commit is backed by the authority, and recovery recognises exactly the
  decisions that were recorded for the intents it finds.
\<close>

section \<open>Participants and staged mutations\<close>

lemma position_Some: "position P xs = Some i \<Longrightarrow> i < length xs \<and> P (xs ! i)"
  by (induction xs arbitrary: i) (auto split: if_splits)

lemma position_None: "position P xs = None \<longleftrightarrow> (\<forall>x \<in> set xs. \<not> P x)"
  by (induction xs) auto

lemma mset_butlast: "xs \<noteq> [] \<Longrightarrow> mset (butlast xs) = mset xs - {#last xs#}"
  by (induction xs rule: rev_induct) auto

lemma mset_swap_remove:
  assumes "i < length xs"
  shows "mset (swap_remove i xs) = mset xs - {#xs ! i#}"
proof -
  have "xs \<noteq> []" using assms by auto
  then have "last (xs[i := last xs]) = last xs"
    by (simp add: last_list_update)
  moreover have "xs[i := last xs] \<noteq> []" using assms by auto
  ultimately show ?thesis
    unfolding swap_remove_def using assms by (simp add: mset_butlast mset_update)
qed

lemma match_mutation_Inr:
  "match_mutation xs mu = Inr ys \<Longrightarrow> mu \<in># mset xs \<and> mset ys = mset xs - {#mu#}"
  by (auto simp: match_mutation_def mset_swap_remove split: option.splits dest!: position_Some)

lemma match_mutation_Inl: "match_mutation xs mu = Inl e \<longleftrightarrow> e = ParticipantsMismatch \<and> mu \<notin> set xs"
  by (auto simp: match_mutation_def position_None split: option.splits dest!: position_Some)

text \<open>The loop finds every mutation exactly when the multiset of the mutations is contained in the
  multiset of the candidates, and it leaves the difference.\<close>

lemma match_all:
  "(\<exists>rest. try_fold match_mutation xs ms = Inr rest) \<longleftrightarrow> mset ms \<subseteq># mset xs"
  "try_fold match_mutation xs ms = Inr rest \<Longrightarrow> mset rest = mset xs - mset ms"
proof (induction ms arbitrary: xs)
  case (Cons mu ms)
  {
    case 1
    show ?case
    proof (cases "match_mutation xs mu")
      case (Inl e)
      then have "mu \<notin># mset xs" by (simp add: match_mutation_Inl)
      then show ?thesis using Inl by (auto dest: mset_subset_eqD)
    next
      case (Inr ys)
      from match_mutation_Inr [OF Inr] have "mu \<in># mset xs" "mset ys = mset xs - {#mu#}" by auto
      with Inr Cons.IH(1) [of ys] show ?thesis
        by (auto simp: insert_subset_eq_iff)
    qed
  next
    case 2
    then obtain ys where "match_mutation xs mu = Inr ys" and "try_fold match_mutation ys ms = Inr rest"
      by (auto simp: result_simps)
    with match_mutation_Inr [of xs mu ys] Cons.IH(2) [of ys] show ?case by simp
  }
qed auto

text \<open>C20.  \<^verbatim>\<open>validate_participants\<close> accepts exactly the partitions of the staged mutations: the
  mutations of the participants are the staged ones with the same multiplicities, in any order; no
  shard occurs twice; every shard is fenced by the snapshot; and there are participants exactly when
  something is staged.\<close>

theorem validate_participants_exact:
  "validate_participants ctx ps = Inr () \<longleftrightarrow>
     mset (concat (map pw_mutations ps)) = mset (ov_mutations (tc_overlay ctx)) \<and>
     distinct (map pw_shard_id ps) \<and>
     (set (map pw_shard_id ps) \<subseteq> dom (ctx_fence ctx)) \<and>
     (ps = []) = (ov_mutations (tc_overlay ctx) = [])"
proof -
  let ?ms = "concat (map pw_mutations ps)" and ?xs = "ov_mutations (tc_overlay ctx)"
  have len: "sum_list (map (\<lambda>p. length (pw_mutations p)) ps) = length ?ms"
    by (simp add: length_concat comp_def)
  have match: "(length ?ms = length ?xs \<and> (\<exists>rest. try_fold match_mutation ?xs ?ms = Inr rest \<and> rest = [])) \<longleftrightarrow>
      mset ?ms = mset ?xs"
  proof
    assume "length ?ms = length ?xs \<and> (\<exists>rest. try_fold match_mutation ?xs ?ms = Inr rest \<and> rest = [])"
    with match_all [of ?xs ?ms] have "mset ?ms \<subseteq># mset ?xs" "size (mset ?ms) = size (mset ?xs)" by auto
    then show "mset ?ms = mset ?xs" by (metis mset_subset_size subset_mset.le_neq_trans less_irrefl)
  next
    assume eq: "mset ?ms = mset ?xs"
    with match_all(1) [of ?xs ?ms] obtain rest where r: "try_fold match_mutation ?xs ?ms = Inr rest" by auto
    with match_all(2) [OF r] eq have "rest = []" by simp
    with r eq mset_eq_length [OF eq] show
      "length ?ms = length ?xs \<and> (\<exists>rest. try_fold match_mutation ?xs ?ms = Inr rest \<and> rest = [])" by simp
  qed
  have "validate_participants ctx ps = Inr () \<longleftrightarrow>
      (length ?ms = length ?xs \<and> (\<exists>rest. try_fold match_mutation ?xs ?ms = Inr rest \<and> rest = [])) \<and>
      length (bs_of (map pw_shard_id ps)) = length (map pw_shard_id ps) \<and>
      (\<forall>shard \<in> set (map pw_shard_id ps). ctx_fence ctx shard \<noteq> None) \<and> (ps = []) = (?xs = [])"
    unfolding validate_participants_def Let_def len
    by (auto simp: result_simps list_all_iff bs_of_set)
  then show ?thesis unfolding match bs_of_unique by (auto simp: dom_def)
qed

section \<open>Reported commits are backed by the authority\<close>

text \<open>C18.  When \<^verbatim>\<open>commit\<close> reports a transaction with participants as committed at \<open>t\<close>, then \<open>t\<close>
  is above its start time and the durable authority has resolved its reservation as committed at
  \<open>t\<close>; when it reports an abort, the reservation had not been committed before the call.  This holds
  for any shards, any log and any other clients of the authority.\<close>

theorem commit_outcome_backed:
  assumes "ts_inv st" and "writes \<noteq> []"
    and "commit blake3 (durable_coordinator blake3 log env ex) ctx writes ((st, l), s) = (Inr out, ((st', l'), s'))"
  shows "case out of
      OutCommitted t \<Rightarrow> ctx_start ctx < t \<and> map_of (reservations st') (ctx_tx ctx) =
        Some \<lparr>rsv_commit_time = t, rsv_resolution = Some ResCommitted\<rparr>
    | OutAborted \<Rightarrow> \<forall>rv. map_of (reservations st) (ctx_tx ctx) = Some rv \<longrightarrow> rsv_resolution rv \<noteq> Some ResCommitted
    | OutUnresolved \<Rightarrow> True"
proof -
  have "dco.justified ((st, l), s) (ctx_tx ctx) (ctx_start ctx) out ((st', l'), s')"
    using dco.soundD [OF dco.sound_commit [OF assms(2), of "((st, l), s)" ctx None] _ _ _ assms(3)] assms(1)
    by (simp add: dco.seen_def reservations_later_refl)
  moreover have "rsv_resolution rv \<noteq> Some ResCommitted"
    if "\<forall>t. \<not> dco.committed_at ((st, l), s) tx t" "map_of (reservations st) tx = Some rv" for tx rv
    using that by (cases rv) (auto simp: dco.committed_at_def)
  ultimately show ?thesis by (cases out) (auto simp: dco.committed_at_def)
qed

theorem commit_outcome_backed_witness:
  "\<exists>st'. commit const_hash example_coordinator example_context example_writes
       ((timestamp_state_default, ()), ()) = (Inr (OutCommitted 1), ((st', ()), ())) \<and>
     map_of (reservations st') (Ident128 7) =
       Some \<lparr>rsv_commit_time = 1, rsv_resolution = Some ResCommitted\<rparr>"
proof -
  have run: "commit const_hash example_coordinator example_context example_writes
      ((timestamp_state_default, ()), ()) = (Inr (OutCommitted 1), ((example_reserved (Some ResCommitted), ()), ()))"
    using example_commit by (auto simp: result_simps)
  have "example_writes \<noteq> []" by (simp add: example_writes_def)
  from commit_outcome_backed [OF ts_inv_default this run [unfolded example_coordinator_def]] run
  show ?thesis by (auto simp: example_context_fields)
qed

section \<open>Decisions and their recovery\<close>

lemma context_manifest_participants:
  assumes "context_manifest ctx ps = Inr m" and "sorted (map fst ps)"
  shows "map (\<lambda>p. (pm_shard_id p, pm_intent_digest p)) (tm_participants m) = ps \<and>
    tm_transaction_id m = ctx_tx ctx \<and> tm_start_time m = ctx_start ctx"
proof -
  from assms(1) obtain ms where
    ms: "try_map (\<lambda>(shard, d). try_r (ok_or (ctx_fence ctx shard) IncompleteSnapshot) (\<lambda>fence.
      participant_manifest_new shard fence d)) ps = Inr ms"
    and m: "tm_participants m = sort_key pm_shard_id ms" "tm_transaction_id m = ctx_tx ctx"
      "tm_start_time m = ctx_start ctx"
    by (auto simp: context_manifest_def transaction_manifest_new_def Let_def result_simps split: if_splits)
  from ms have eq: "map (\<lambda>p. (pm_shard_id p, pm_intent_digest p)) ms = ps"
    by (induction ps arbitrary: ms)
      (auto simp: result_simps participant_manifest_new_def split: if_splits prod.splits)
  then have "map pm_shard_id ms = map fst ps" by (auto simp: comp_def)
  with assms(2) have "sort_key pm_shard_id ms = ms" by (simp add: sort_key_id_if_sorted)
  with eq m show ?thesis by simp
qed

lemma manifest_digest_agrees:
  assumes "context_manifest ctx (intent_digests state) = Inr m" and "sorted (map fst (rs_intents state))"
  shows "manifest_decision_digest blake3 m Committed t = Inr d \<Longrightarrow>
      ctx_start ctx < t \<and> d = decision_digest blake3 (ctx_tx ctx) t (intent_digests state)"
    and "manifest_decision_digest blake3 m Aborted t = Inr d \<Longrightarrow>
      t = ctx_start ctx \<and> d = abort_decision_digest blake3 (ctx_tx ctx) (ctx_start ctx) (map fst (rs_intents state))"
proof -
  have fst: "map fst (intent_digests state) = map fst (rs_intents state)"
    by (simp add: intent_digests_def comp_def case_prod_beta)
  from context_manifest_participants [OF assms(1)] assms(2) fst
  have m: "map (\<lambda>p. (pm_shard_id p, pm_intent_digest p)) (tm_participants m) = intent_digests state"
    "tm_transaction_id m = ctx_tx ctx" "tm_start_time m = ctx_start ctx" by auto
  from m(1) fst have shards: "map pm_shard_id (tm_participants m) = map fst (rs_intents state)"
    by (metis (no_types, lifting) comp_def fst_conv list.map_comp map_eq_conv)
  show "ctx_start ctx < t \<and> d = decision_digest blake3 (ctx_tx ctx) t (intent_digests state)"
    if "manifest_decision_digest blake3 m Committed t = Inr d"
    using that m by (auto simp: manifest_decision_digest_def decision_digest_def split: if_splits)
  show "t = ctx_start ctx \<and>
      d = abort_decision_digest blake3 (ctx_tx ctx) (ctx_start ctx) (map fst (rs_intents state))"
    if "manifest_decision_digest blake3 m Aborted t = Inr d"
    using that m shards by (auto simp: manifest_decision_digest_def abort_decision_digest_def split: if_splits)
qed

text \<open>C19.  Recovery recognises what the coordinator recorded.  Let the home shard's history hold the
  decision record built from the manifest of the intents that recovery finds, and besides it only
  finalisation records of the home's own intent.  Then \<^verbatim>\<open>recover_home_decision\<close> returns exactly
  that decision.\<close>

theorem recorded_decision_recovered:
  assumes "context_manifest ctx (intent_digests state) = Inr m" and "sorted (map fst (rs_intents state))"
    and "rs_intents state \<noteq> []" and "st = Committed \<or> st = Aborted"
    and "manifest_decision_digest blake3 m st t = Inr d"
    and "transaction_record_new (ctx_tx ctx) st t d = Inr decision"
    and "map_of (rs_intents state) home = Some intent" and "ri_digest intent \<noteq> d"
    and "map_of (rs_histories state) home = Some hist" and "decision \<in> set (th_terminal hist)"
    and "\<forall>r \<in> set (th_terminal hist). r \<noteq> decision \<longrightarrow>
      tr_id r = ctx_tx ctx \<and> tr_state r \<noteq> Prepared \<and> tr_record_digest r = ri_digest intent"
  shows "recover_home_decision blake3 ctx home state = Inr (Some decision)"
proof -
  from assms(6) have dec: "tr_id decision = ctx_tx ctx" "tr_state decision = st"
    "tr_transaction_time decision = t" "tr_record_digest decision = d"
    by (auto simp: transaction_record_new_def split: if_splits)
  have valid: "home_record_valid blake3 ctx state decision"
    using manifest_digest_agrees [OF assms(1,2), of blake3 t d] assms(3-5) dec
    by (auto simp: home_record_valid_def split: transaction_state.splits)
  let ?step = "home_decision_step blake3 ctx state (Some (ri_digest intent))"
  have step: "?step (Some decision) r = Inr (Some decision)"
    "?step None r = Inr (if r = decision then Some decision else None)" if "r \<in> set (th_terminal hist)" for r
    using that assms(4,8,11) dec valid by (auto simp: home_decision_step_def)
  have "try_fold ?step acc rs = Inr (if acc = Some decision \<or> decision \<in> set rs then Some decision else None)"
    if "set rs \<subseteq> set (th_terminal hist)" "acc = None \<or> acc = Some decision" for acc rs
    using that by (induction rs arbitrary: acc) (auto simp: step)
  from this [of "th_terminal hist" None] assms(7,9,10) show ?thesis
    by (simp add: recover_home_decision_def)
qed

text \<open>The witness: two shards have prepared, the home shard holds the commit decision at time 5 and
  the finalisation record of its own intent.\<close>

definition two_shard_context :: transaction_context where
  "two_shard_context = example_context\<lparr>tc_snapshot := (tc_snapshot example_context)\<lparr>st_shards :=
     [(Ident 1, example_fence), (Ident 2, example_fence)]\<rparr>\<rparr>"

definition example_intent :: "u64 \<Rightarrow> recovered_intent" where
  "example_intent shard = \<lparr>ri_shard_id = Ident shard, ri_start_time = 0, ri_snapshot_applied_index = 0,
     ri_mutations = [], ri_digest = 8\<rparr>"

definition example_record :: "transaction_state \<Rightarrow> transaction_time \<Rightarrow> digest32 \<Rightarrow> transaction_record" where
  "example_record st t d =
     \<lparr>tr_id = Ident128 7, tr_state = st, tr_transaction_time = t, tr_record_digest = d\<rparr>"

definition example_history :: "transaction_record list \<Rightarrow> u64 \<Rightarrow> transaction_history" where
  "example_history records shard =
     \<lparr>th_prepared = Some (example_record Prepared 0 8), th_intent = Some (example_intent shard),
      th_terminal = records, th_single_shard_commit = None\<rparr>"

definition prepared_state :: "transaction_record list \<Rightarrow> recovery_state" where
  "prepared_state records =
     \<lparr>rs_histories = [(Ident 1, example_history records 1), (Ident 2, example_history [] 2)],
      rs_intents = [(Ident 1, example_intent 1), (Ident 2, example_intent 2)]\<rparr>"

lemma two_shard_fields:
  "ctx_tx two_shard_context = Ident128 7" "ctx_start two_shard_context = 0"
  "st_catalog_version (tc_snapshot two_shard_context) = 1"
  "st_shards (tc_snapshot two_shard_context) = [(Ident 1, example_fence), (Ident 2, example_fence)]"
  by (simp_all add: two_shard_context_def example_context_def)

definition example_manifest2 :: transaction_manifest where
  "example_manifest2 = \<lparr>tm_transaction_id = Ident128 7, tm_start_time = 0, tm_catalog_version = 1,
     tm_participants =
       [\<lparr>pm_shard_id = Ident 1, pm_fence = example_fence, pm_intent_digest = 8\<rparr>,
        \<lparr>pm_shard_id = Ident 2, pm_fence = example_fence, pm_intent_digest = 8\<rparr>]\<rparr>"

theorem recorded_decision_recovered_witness:
  "context_manifest two_shard_context [(Ident 1, 8), (Ident 2, 8)] = Inr example_manifest2 \<and>
   manifest_decision_digest const_hash example_manifest2 Committed 5 = Inr 1 \<and>
   recover_home_decision const_hash two_shard_context (Ident 1)
       (prepared_state [example_record Committed 5 8, example_record Committed 5 1]) =
     Inr (Some (example_record Committed 5 1))"
proof -
  let ?s = "prepared_state [example_record Committed 5 8, example_record Committed 5 1]"
  have digests: "intent_digests ?s = [(Ident 1, 8), (Ident 2, 8)]"
    by (simp add: intent_digests_def prepared_state_def example_intent_def)
  have m: "context_manifest two_shard_context [(Ident 1, 8), (Ident 2, 8)] = Inr example_manifest2"
    by code_simp
  have d: "manifest_decision_digest const_hash example_manifest2 Committed 5 = Inr 1"
    by (simp add: manifest_decision_digest_def const_hash_def example_manifest2_def)
  have "recover_home_decision const_hash two_shard_context (Ident 1) ?s = Inr (Some (example_record Committed 5 1))"
    by (rule recorded_decision_recovered [where m = example_manifest2 and st = Committed and t = 5 and d = 1
          and intent = "example_intent 1"
          and hist = "example_history [example_record Committed 5 8, example_record Committed 5 1] 1"])
      (simp_all add: digests m d two_shard_fields,
       simp_all add: prepared_state_def example_history_def example_intent_def example_record_def
         transaction_record_new_def less_eq_ident_def)
  with m d show ?thesis by simp
qed

section \<open>A prewrite that arrives late\<close>

lemma shard_list_inj:
  fixes xs ys :: "shard_id list"
  shows "concat (map (\<lambda>s. u64_be (ident_get s)) xs) = concat (map (\<lambda>s. u64_be (ident_get s)) ys) \<longleftrightarrow> xs = ys"
proof
  let ?f = "\<lambda>s :: shard_id. u64_be (ident_get s)"
  assume eq: "concat (map ?f xs) = concat (map ?f ys)"
  have len: "length (concat (map ?f zs)) = 8 * length zs" for zs
    by (induction zs) (simp_all add: be_length)
  from arg_cong [OF eq, of length] len have "length xs = length ys" by simp
  with eq concat_split_elements [of xs "\<lambda>_. True" ?f ys "[]" "[]"] show "xs = ys"
    by (auto simp: codec_split list_all_iff)
qed simp

lemma try_fold_reject:
  assumes "x \<in> set xs" and "\<And>s. f s x = Inl e" and "\<And>s y e'. f s y = Inl e' \<Longrightarrow> e' = e"
  shows "try_fold f s xs = Inl e"
  using assms(1)
proof (induction xs arbitrary: s)
  case (Cons y ys)
  show ?case
  proof (cases "f s y")
    case (Inl e')
    with assms(3) show ?thesis by simp
  next
    case (Inr s')
    with assms(2) [of s] Cons show ?thesis by auto
  qed
qed simp

text \<open>C30.  A prewrite that is applied after the coordinator has given up leaves the transaction
  unrecoverable.  Let the home shard hold an abort decision that was recorded when only the shards
  \<open>shards\<close> had prepared, and let recovery now find intents at a different set of shards.  Unless
  blake3 collides on the two preimages, recovery with that context stops with
  \<open>CorruptRecovery\<close> before it finalises any participant, so the late intent is never aborted.\<close>

theorem late_prewrite_unrecoverable:
  assumes "recovery_home_shard state = Inr home" and "map_of (rs_histories state) home = Some hist"
    and "decision \<in> set (th_terminal hist)" and "tr_state decision = Aborted"
    and "tr_record_digest decision = abort_decision_digest blake3 (ctx_tx ctx) (ctx_start ctx) shards"
    and "map_of (rs_intents state) home = Some intent" and "ri_digest intent \<noteq> tr_record_digest decision"
    and "map fst (rs_intents state) \<noteq> shards"
    and "inj_on blake3 {abort_decision_preimage (ctx_tx ctx) (ctx_start ctx) shards,
      abort_decision_preimage (ctx_tx ctx) (ctx_start ctx) (map fst (rs_intents state))}"
  shows "recover_decided blake3 co ctx state w = (Inl CorruptRecovery, w)"
proof -
  let ?p = "abort_decision_preimage (ctx_tx ctx) (ctx_start ctx) shards"
  let ?q = "abort_decision_preimage (ctx_tx ctx) (ctx_start ctx) (map fst (rs_intents state))"
  have "?p \<noteq> ?q"
    using assms(8) by (simp add: abort_decision_preimage_def shard_list_inj del: map_map)
  moreover have "blake3 ?q = blake3 ?p \<longleftrightarrow> ?q = ?p" by (rule inj_on_eq_iff [OF assms(9)]) simp_all
  ultimately have "abort_decision_digest blake3 (ctx_tx ctx) (ctx_start ctx) (map fst (rs_intents state))
      \<noteq> tr_record_digest decision"
    unfolding assms(5) abort_decision_digest_def by metis
  with assms(4,7) have reject: "home_decision_step blake3 ctx state (Some (ri_digest intent)) acc decision =
      Inl CorruptRecovery" for acc
    by (auto simp: home_decision_step_def home_record_valid_def)
  have "recover_home_decision blake3 ctx home state = Inl CorruptRecovery"
    unfolding recover_home_decision_def assms(2,6) option.case option.map
    by (rule try_fold_reject [OF assms(3)], rule reject)
      (auto simp: home_decision_step_def split: if_splits)
  with assms(1) show ?thesis by (simp add: recover_decided_def)
qed

theorem late_prewrite_unrecoverable_witness:
  "recover_decided sum_hash example_coordinator two_shard_context
     (prepared_state [example_record Aborted 0 (abort_decision_digest sum_hash (Ident128 7) 0 [Ident 1])])
     ((timestamp_state_default, ()), ()) = (Inl CorruptRecovery, ((timestamp_state_default, ()), ()))"
proof -
  let ?d = "abort_decision_digest sum_hash (Ident128 7) 0 [Ident 1]"
  have neq: "?d \<noteq> 8" "sum_hash (abort_decision_preimage (Ident128 7) 0 [Ident 1]) \<noteq>
      sum_hash (abort_decision_preimage (Ident128 7) 0 [Ident 1, Ident 2])"
    by code_simp+
  show ?thesis
    by (rule late_prewrite_unrecoverable [where home = "Ident 1" and shards = "[Ident 1]"
          and decision = "example_record Aborted 0 ?d" and intent = "example_intent 1"
          and hist = "example_history [example_record Aborted 0 ?d] 1"])
      (use neq in \<open>auto simp: recovery_home_shard_def prepared_state_def example_history_def example_intent_def
        example_record_def two_shard_fields inj_on_def\<close>)
qed

end
