(* ===== verification/Shard_Codec.thy ===== *)
theory Shard_Codec
  imports Mutation
begin

text \<open>
  The binary format of the crate \<^verbatim>\<open>dtg-shard\<close> (\<^verbatim>\<open>command.rs\<close>, \<open>Encoder\<close> and
  \<open>Decoder\<close>): length-prefixed fields, nested property values under a depth bound, and counted
  collections under an allocation budget.  An encoder appends to a buffer; a decoder consumes the
  unread suffix of its input.  \<open>reads\<close> is the relation between the two that every round trip is
  built from.
\<close>

section \<open>Errors\<close>

text \<open>A panic of the source (\<open>unreachable!\<close>, \<open>expect\<close>) is the value \<open>ShardPanic\<close>.  The
  names of two constructors that other crates also use carry a suffix.\<close>

datatype shard_error =
    InvalidCommand string
  | UnsupportedCommandVersion u32
  | InvalidRaftState string
  | SnapshotStateMissing u64 u64
  | InvalidLifecycle string
  | DuplicateReplica
  | HeterogeneousGeneration
  | ReplicaNotFound
  | RaftError
  | StalePlacementEpoch u64 u64
  | StaleBackendGeneration u64 u64
  | WriteConflictS
  | HomeDecisionConflict
  | CorruptIntentHistory string
  | BindingMismatch
  | StorageE storage_error
  | ShardPanic string

definition kernel_message :: "kernel_error \<Rightarrow> string" where
  "kernel_message e = (case e of
     ZeroIdentifier \<Rightarrow> ''identifier must be nonzero''
   | NegativeTransactionTime _ \<Rightarrow> ''transaction time must be nonnegative''
   | InvalidInterval _ _ \<Rightarrow> ''interval start must precede end'')"

text \<open>The \<open>From\<close> conversions applied by the question mark.\<close>

abbreviation of_kernel :: "(kernel_error, 'a) result \<Rightarrow> (shard_error, 'a) result" where
  "of_kernel \<equiv> map_err (\<lambda>e. InvalidCommand (kernel_message e))"

abbreviation of_storage :: "(storage_error, 'a) result \<Rightarrow> (shard_error, 'a) result" where
  "of_storage \<equiv> map_err StorageE"

section \<open>Encoder\<close>

definition max_command_bytes :: nat where "max_command_bytes = 16 * 1024 * 1024"
definition max_collection_items :: nat where "max_collection_items = 1000000"
definition max_allocation_items :: nat where "max_allocation_items = 65536"
definition max_value_depth :: nat where "max_value_depth = 64"

definition budget_consume :: "nat \<Rightarrow> nat \<Rightarrow> (shard_error, nat) result" where
  "budget_consume remaining count =
     (if count \<le> remaining then Inr (remaining - count)
      else Inl (InvalidCommand ''command collection exceeds allocation budget''))"

definition encoder_finish :: "byte list \<Rightarrow> (shard_error, byte list) result" where
  "encoder_finish buf =
     (if max_command_bytes < length buf
      then Inl (InvalidCommand ''command exceeds maximum encoded size'') else Inr buf)"

definition enc_bytes :: "byte list \<Rightarrow> byte list \<Rightarrow> (shard_error, byte list) result" where
  "enc_bytes v buf =
     (if 2 ^ 32 \<le> length v then Inl (InvalidCommand ''command field exceeds u32 length'')
      else let buf' = buf @ u32_be (word_of_nat (length v)) @ v in
        if max_command_bytes < length buf'
        then Inl (InvalidCommand ''command exceeds maximum encoded size'') else Inr buf')"

text \<open>Inside a list of mutations the encoder also threads the allocation budget.\<close>

type_synonym enc_state = "byte list \<times> nat"

definition enc_push :: "byte list \<Rightarrow> enc_state \<Rightarrow> enc_state" where
  "enc_push bs st = (fst st @ bs, snd st)"

definition enc_field :: "byte list \<Rightarrow> enc_state \<Rightarrow> (shard_error, enc_state) result" where
  "enc_field v st = try_r (enc_bytes v (fst st)) (\<lambda>buf. Inr (buf, snd st))"

definition enc_string :: "string \<Rightarrow> enc_state \<Rightarrow> (shard_error, enc_state) result" where
  "enc_string s = enc_field (str_bytes s)"

definition enc_count :: "nat \<Rightarrow> string \<Rightarrow> enc_state \<Rightarrow> (shard_error, enc_state) result" where
  "enc_count n msg st =
     (if max_collection_items < n then Inl (InvalidCommand msg)
      else try_r (budget_consume (snd st) n) (\<lambda>g. Inr (fst st @ u32_be (word_of_nat n), g)))"

fun enc_value :: "value \<Rightarrow> nat \<Rightarrow> enc_state \<Rightarrow> (shard_error, enc_state) result"
  and enc_values :: "value list \<Rightarrow> nat \<Rightarrow> enc_state \<Rightarrow> (shard_error, enc_state) result"
  and enc_fields :: "(string \<times> value) list \<Rightarrow> nat \<Rightarrow> enc_state \<Rightarrow> (shard_error, enc_state) result"
where
  "enc_value v depth st =
     (if max_value_depth < depth
      then Inl (InvalidCommand ''command value exceeds nesting depth budget'')
      else case v of
        VNull \<Rightarrow> Inr (enc_push [0] st)
      | VBoolean b \<Rightarrow> Inr (enc_push [1, if b then 1 else 0] st)
      | VInteger i \<Rightarrow> Inr (enc_push ([2] @ i64_be i) st)
      | VFloatBits f \<Rightarrow> Inr (enc_push ([3] @ u64_be f) st)
      | VBytes bs \<Rightarrow> enc_field bs (enc_push [4] st)
      | VString s \<Rightarrow> enc_string s (enc_push [5] st)
      | VList vs \<Rightarrow> try_r (enc_count (length vs) ''value list is too large'' (enc_push [6] st))
          (\<lambda>st'. enc_values vs (Suc depth) st')
      | VMap kvs \<Rightarrow> try_r (enc_count (length kvs) ''value map is too large'' (enc_push [7] st))
          (\<lambda>st'. enc_fields kvs (Suc depth) st'))"
| "enc_values [] depth st = Inr st"
| "enc_values (v # vs) depth st = try_r (enc_value v depth st) (\<lambda>st'. enc_values vs depth st')"
| "enc_fields [] depth st = Inr st"
| "enc_fields (kv # kvs) depth st =
     try_r (enc_string (fst kv) st) (\<lambda>st1.
     try_r (enc_value (snd kv) depth st1) (\<lambda>st2. enc_fields kvs depth st2))"

definition enc_interval :: "valid_interval \<Rightarrow> enc_state \<Rightarrow> enc_state" where
  "enc_interval iv = enc_push (i64_be (iv_start iv) @ i64_be (iv_end iv))"

definition enc_properties :: "properties \<Rightarrow> enc_state \<Rightarrow> (shard_error, enc_state) result" where
  "enc_properties ps st =
     try_r (enc_count (length ps) ''too many properties'' st) (\<lambda>st'. enc_fields ps 0 st')"

definition enc_transaction :: "transaction_record \<Rightarrow> byte list" where
  "enc_transaction t =
     u128_be (ident128_get (tr_id t)) @ [transaction_state_tag (tr_state t)] @
     i64_be (tr_transaction_time t) @ u32_be 32 @ b32_be (tr_record_digest t)"

definition enc_mutation :: "logical_mutation \<Rightarrow> enc_state \<Rightarrow> (shard_error, enc_state) result" where
  "enc_mutation m st = (case m of
     PutVertex v \<Rightarrow>
       enc_properties (vv_properties v)
         (enc_push (i64_be (vv_transaction_time v))
           (enc_interval (vv_valid_time v)
             (enc_push ([1] @ u128_be (ident128_get (vv_id v)) @ u64_be (vv_version v)) st)))
   | DeleteVertex t \<Rightarrow>
       Inr (enc_push ([2] @ u128_be (ident128_get (vt_id t)) @ u64_be (vt_version t) @
         i64_be (vt_transaction_time t)) st)
   | PutEdge e \<Rightarrow>
       try_r (enc_string (ev_edge_type e)
         (enc_push ([3] @ u128_be (ident128_get (ev_id e)) @ u128_be (ident128_get (ev_source e)) @
            u128_be (ident128_get (ev_target e))) st)) (\<lambda>st1.
       enc_properties (ev_properties e)
         (enc_push (i64_be (ev_transaction_time e))
           (enc_interval (ev_valid_time e) (enc_push (u64_be (ev_version e)) st1))))
   | DeleteEdge t \<Rightarrow>
       Inr (enc_push ([4] @ u128_be (ident128_get (et_id t)) @ u64_be (et_version t) @
         i64_be (et_transaction_time t)) st)
   | PutTransaction t \<Rightarrow>
       enc_field (b32_be (tr_record_digest t))
         (enc_push ([5] @ u128_be (ident128_get (tr_id t)) @ [transaction_state_tag (tr_state t)] @
            i64_be (tr_transaction_time t)) st)
   | PutReplicaMetadata md \<Rightarrow>
       try_r (enc_string (rm_name md) (enc_push [6] st)) (\<lambda>st1. enc_value (rm_value md) 0 st1))"

definition enc_mutations :: "logical_mutation list \<Rightarrow> byte list \<Rightarrow> (shard_error, byte list) result" where
  "enc_mutations ms buf =
     try_r (enc_count (length ms) ''too many logical mutations'' (buf, max_allocation_items)) (\<lambda>st.
     try_r (try_fold (\<lambda>st m. enc_mutation m st) st ms) (\<lambda>st'. Inr (fst st')))"

section \<open>Decoder\<close>

text \<open>The decoder holds the unread bytes and the remaining allocation budget.\<close>

type_synonym dec_state = "byte list \<times> nat"
type_synonym 'a dec = "dec_state \<Rightarrow> (shard_error, 'a \<times> dec_state) result"

definition dec_ret :: "'a \<Rightarrow> 'a dec" where
  "dec_ret a = (\<lambda>st. Inr (a, st))"

definition dec_of :: "(shard_error, 'a) result \<Rightarrow> 'a dec" where
  "dec_of r = (\<lambda>st. try_r r (\<lambda>a. Inr (a, st)))"

definition dec_err :: "string \<Rightarrow> 'a dec" where
  "dec_err msg = dec_of (Inl (InvalidCommand msg))"

definition dec_bind :: "'a dec \<Rightarrow> ('a \<Rightarrow> 'b dec) \<Rightarrow> 'b dec" where
  "dec_bind d k = (\<lambda>st. try_r (d st) (\<lambda>p. k (fst p) (snd p)))"

definition decoder_new :: "byte list \<Rightarrow> (shard_error, dec_state) result" where
  "decoder_new bs =
     (if bs = [] \<or> max_command_bytes < length bs
      then Inl (InvalidCommand ''command bytes are empty or oversized'')
      else Inr (bs, max_allocation_items))"

definition decoder_finish :: "dec_state \<Rightarrow> (shard_error, unit) result" where
  "decoder_finish st = guard_r (fst st = []) (InvalidCommand ''command contains trailing bytes'')"

definition dec_take :: "nat \<Rightarrow> byte list dec" where
  "dec_take n = (\<lambda>st.
     if n \<le> length (fst st) then Inr (take n (fst st), (drop n (fst st), snd st))
     else Inl (InvalidCommand ''truncated command''))"

definition dec_u8 :: "byte dec" where "dec_u8 = dec_bind (dec_take 1) (\<lambda>bs. dec_ret (hd bs))"
definition dec_u32 :: "u32 dec" where "dec_u32 = dec_bind (dec_take 4) (\<lambda>bs. dec_ret (u32_from_be bs))"
definition dec_u64 :: "u64 dec" where "dec_u64 = dec_bind (dec_take 8) (\<lambda>bs. dec_ret (u64_from_be bs))"
definition dec_u128 :: "u128 dec" where
  "dec_u128 = dec_bind (dec_take 16) (\<lambda>bs. dec_ret (u128_from_be bs))"
definition dec_i64 :: "int dec" where "dec_i64 = dec_bind (dec_take 8) (\<lambda>bs. dec_ret (i64_from_be bs))"

definition dec_bytes :: "byte list dec" where
  "dec_bytes = dec_bind dec_u32 (\<lambda>len. dec_take (unat len))"

definition dec_string :: "string dec" where
  "dec_string = dec_bind dec_bytes (\<lambda>bs.
     dec_of (ok_or (from_utf8 bs) (InvalidCommand ''command string is not UTF-8'')))"

definition dec_fixed_32 :: "digest32 dec" where
  "dec_fixed_32 = dec_bind dec_bytes (\<lambda>bs.
     if length bs = 32 then dec_ret (b32_from_be bs)
     else dec_err ''digest must contain exactly 32 bytes'')"

definition dec_time :: "transaction_time dec" where
  "dec_time = dec_bind dec_i64 (\<lambda>t. dec_of (of_kernel (transaction_time_new t)))"

definition dec_transaction_id :: "transaction_id dec" where
  "dec_transaction_id = dec_bind dec_u128 (\<lambda>i. dec_of (of_kernel (ident128_new i)))"

definition dec_shard_id :: "shard_id dec" where
  "dec_shard_id = dec_bind dec_u64 (\<lambda>i. dec_of (of_kernel (ident_new i)))"

definition dec_vertex_id :: "vertex_id dec" where
  "dec_vertex_id = dec_bind dec_u128 (\<lambda>i. dec_of (of_storage (vertex_id_new i)))"

definition dec_edge_id :: "edge_id dec" where
  "dec_edge_id = dec_bind dec_u128 (\<lambda>i. dec_of (of_storage (edge_id_new i)))"

definition dec_transaction_state :: "transaction_state dec" where
  "dec_transaction_state = dec_bind dec_u8 (\<lambda>tag.
     if tag = 1 then dec_ret Prepared
     else if tag = 2 then dec_ret Committed
     else if tag = 3 then dec_ret Aborted
     else dec_err ''unknown transaction state'')"

definition dec_transaction :: "transaction_record dec" where
  "dec_transaction =
     dec_bind dec_transaction_id (\<lambda>i.
     dec_bind dec_transaction_state (\<lambda>st.
     dec_bind dec_time (\<lambda>t.
     dec_bind dec_fixed_32 (\<lambda>d.
     dec_of (of_storage (transaction_record_new i st t d))))))"

definition dec_count :: "nat dec" where
  "dec_count = dec_bind dec_u32 (\<lambda>n.
     if max_collection_items < unat n then dec_err ''command collection exceeds item limit''
     else dec_ret (unat n))"

definition dec_consume :: "nat \<Rightarrow> unit dec" where
  "dec_consume n = (\<lambda>st. try_r (budget_consume (snd st) n) (\<lambda>g. Inr ((), (fst st, g))))"

definition dec_collection_count :: "nat dec" where
  "dec_collection_count = dec_bind dec_count (\<lambda>n. dec_bind (dec_consume n) (\<lambda>_. dec_ret n))"

text \<open>\<open>insert(key, value).is_some()\<close> refuses a repeated key.\<close>

definition dec_insert ::
    "string \<Rightarrow> string \<Rightarrow> value \<Rightarrow> (string, value) bmap \<Rightarrow> (string, value) bmap dec" where
  "dec_insert msg k v m =
     (if map_of m k \<noteq> None then dec_err msg else dec_ret (bm_insert k v m))"

function dec_value :: "nat \<Rightarrow> value dec"
  and dec_values :: "nat \<Rightarrow> nat \<Rightarrow> value list dec"
  and dec_fields :: "string \<Rightarrow> nat \<Rightarrow> nat \<Rightarrow> (string, value) bmap \<Rightarrow> (string, value) bmap dec"
where
  "dec_value depth =
     (if max_value_depth < depth then dec_err ''command value exceeds nesting depth budget''
      else dec_bind dec_u8 (\<lambda>tag.
        if tag = 0 then dec_ret VNull
        else if tag = 1 then dec_bind dec_u8 (\<lambda>b.
          if b = 0 then dec_ret (VBoolean False)
          else if b = 1 then dec_ret (VBoolean True)
          else dec_err ''invalid Boolean value'')
        else if tag = 2 then dec_bind dec_i64 (\<lambda>i. dec_ret (VInteger i))
        else if tag = 3 then dec_bind dec_u64 (\<lambda>f. dec_ret (VFloatBits f))
        else if tag = 4 then dec_bind dec_bytes (\<lambda>bs. dec_ret (VBytes bs))
        else if tag = 5 then dec_bind dec_string (\<lambda>s. dec_ret (VString s))
        else if tag = 6 then dec_bind dec_collection_count (\<lambda>n.
          dec_bind (dec_values (Suc depth) n) (\<lambda>vs. dec_ret (VList vs)))
        else if tag = 7 then dec_bind dec_collection_count (\<lambda>n.
          dec_bind (dec_fields ''duplicate value-map key'' (Suc depth) n []) (\<lambda>kvs. dec_ret (VMap kvs)))
        else dec_err ''unknown value tag''))"
| "dec_values depth 0 = dec_ret []"
| "dec_values depth (Suc n) =
     dec_bind (dec_value depth) (\<lambda>v. dec_bind (dec_values depth n) (\<lambda>vs. dec_ret (v # vs)))"
| "dec_fields dup depth 0 acc = dec_ret acc"
| "dec_fields dup depth (Suc n) acc =
     dec_bind dec_string (\<lambda>k. dec_bind (dec_value depth) (\<lambda>v.
       dec_bind (dec_insert dup k v acc) (\<lambda>acc'. dec_fields dup depth n acc')))"
  by pat_completeness auto
termination
  by (relation "measures [\<lambda>x. case x of
        Inl d \<Rightarrow> 66 - d | Inr (Inl (d, n)) \<Rightarrow> 66 - d | Inr (Inr (dup, d, n, acc)) \<Rightarrow> 66 - d,
      \<lambda>x. case x of Inl d \<Rightarrow> 0 | Inr (Inl (d, n)) \<Rightarrow> n | Inr (Inr (dup, d, n, acc)) \<Rightarrow> n]")
    (auto simp: max_value_depth_def)

definition dec_interval :: "valid_interval dec" where
  "dec_interval = dec_bind dec_i64 (\<lambda>a. dec_bind dec_i64 (\<lambda>b.
     dec_of (of_kernel (valid_interval_new a b))))"

definition dec_properties :: "properties dec" where
  "dec_properties = dec_bind dec_collection_count (\<lambda>n.
     dec_fields ''duplicate property name'' 0 n [])"

definition dec_put_vertex :: "logical_mutation dec" where
  "dec_put_vertex =
     dec_bind dec_vertex_id (\<lambda>i. dec_bind dec_u64 (\<lambda>ver. dec_bind dec_interval (\<lambda>iv.
     dec_bind dec_time (\<lambda>t. dec_bind dec_properties (\<lambda>ps.
     dec_bind (dec_of (of_storage (vertex_version_new i ver iv t ps))) (\<lambda>v.
     dec_ret (PutVertex v)))))))"

definition dec_put_edge :: "logical_mutation dec" where
  "dec_put_edge =
     dec_bind dec_edge_id (\<lambda>i. dec_bind dec_vertex_id (\<lambda>src. dec_bind dec_vertex_id (\<lambda>tgt.
     dec_bind dec_string (\<lambda>ty. dec_bind dec_u64 (\<lambda>ver. dec_bind dec_interval (\<lambda>iv.
     dec_bind dec_time (\<lambda>t. dec_bind dec_properties (\<lambda>ps.
     dec_bind (dec_of (of_storage (edge_version_new i src tgt ty ver iv t ps))) (\<lambda>e.
     dec_ret (PutEdge e))))))))))"

definition dec_mutation :: "logical_mutation dec" where
  "dec_mutation = dec_bind dec_u8 (\<lambda>tag.
     if tag = 1 then dec_put_vertex
     else if tag = 2 then dec_bind dec_vertex_id (\<lambda>i. dec_bind dec_u64 (\<lambda>ver. dec_bind dec_time (\<lambda>t.
       dec_ret (DeleteVertex \<lparr>vt_id = i, vt_version = ver, vt_transaction_time = t\<rparr>))))
     else if tag = 3 then dec_put_edge
     else if tag = 4 then dec_bind dec_edge_id (\<lambda>i. dec_bind dec_u64 (\<lambda>ver. dec_bind dec_time (\<lambda>t.
       dec_ret (DeleteEdge \<lparr>et_id = i, et_version = ver, et_transaction_time = t\<rparr>))))
     else if tag = 5 then dec_bind dec_transaction (\<lambda>t. dec_ret (PutTransaction t))
     else if tag = 6 then dec_bind dec_string (\<lambda>name. dec_bind (dec_value 0) (\<lambda>v.
       dec_bind (dec_of (of_storage (replica_metadata_new name v))) (\<lambda>md.
       dec_ret (PutReplicaMetadata md))))
     else dec_err ''unknown logical mutation tag'')"

primrec dec_times :: "nat \<Rightarrow> 'a dec \<Rightarrow> 'a list dec" where
  "dec_times 0 d = dec_ret []"
| "dec_times (Suc n) d = dec_bind d (\<lambda>x. dec_bind (dec_times n d) (\<lambda>xs. dec_ret (x # xs)))"

definition dec_mutations_with_limit :: "nat \<Rightarrow> string \<Rightarrow> logical_mutation list dec" where
  "dec_mutations_with_limit limit msg = dec_bind dec_count (\<lambda>n.
     if limit < n then dec_err msg
     else dec_bind (dec_consume n) (\<lambda>_. dec_times n dec_mutation))"

definition dec_mutations :: "logical_mutation list dec" where
  "dec_mutations =
     dec_mutations_with_limit max_collection_items ''command collection exceeds item limit''"

end
