(* ===== verification/Shard_Roundtrip.thy ===== *)
theory Shard_Roundtrip
  imports Shard_Codec
begin

text \<open>
  What the decoder reads is what the encoder wrote.  \<open>reads\<close> relates a decoder to the bytes it
  consumes, \<open>writes\<close> an encoding step to the decoder that undoes it; both compose along the
  sequencing of the two sides, so that the round trip of every format is a walk through its fields.
\<close>

named_theorems reads_intros \<open>primitive decoders and the bytes they consume\<close>

section \<open>The calculus\<close>

definition reads :: "'a dec \<Rightarrow> byte list \<Rightarrow> 'a \<Rightarrow> nat \<Rightarrow> nat \<Rightarrow> bool" where
  "reads d bs a g g' = (\<forall>rest. d (bs @ rest, g) = Inr (a, (rest, g')))"

lemma readsD: "reads d bs a g g' \<Longrightarrow> d (bs @ rest, g) = Inr (a, (rest, g'))"
  by (simp add: reads_def)

lemma reads_ret [reads_intros]: "reads (dec_ret a) [] a g g"
  by (simp add: reads_def dec_ret_def)

lemma reads_of: "r = Inr a \<Longrightarrow> reads (dec_of r) [] a g g"
  by (simp add: reads_def dec_of_def)

lemma reads_bind:
  "reads d bs a g h \<Longrightarrow> reads (k a) cs b h i \<Longrightarrow> reads (dec_bind d k) (bs @ cs) b g i"
  by (simp add: reads_def dec_bind_def)

lemma reads_bind_pure: "reads d bs a g h \<Longrightarrow> reads (k a) [] b h i \<Longrightarrow> reads (dec_bind d k) bs b g i"
  using reads_bind [of d bs a g h k "[]" b i] by simp

lemma reads_take: "length bs = n \<Longrightarrow> reads (dec_take n) bs bs g g"
  by (simp add: reads_def dec_take_def)

lemma reads_u8 [reads_intros]: "reads dec_u8 [b] b g g"
  unfolding dec_u8_def by (rule reads_bind_pure [OF reads_take]) (simp_all add: reads_def dec_ret_def)

lemma reads_words [reads_intros]:
  "reads dec_u32 (u32_be a) a g g" "reads dec_u64 (u64_be b) b g g" "reads dec_u128 (u128_be c) c g g"
  unfolding dec_u32_def dec_u64_def dec_u128_def
  by (rule reads_bind_pure [OF reads_take]; simp add: reads_def dec_ret_def)+

lemma reads_i64 [reads_intros]: "i64_ok i \<Longrightarrow> reads dec_i64 (i64_be i) i g g"
  unfolding dec_i64_def by (rule reads_bind_pure [OF reads_take]) (simp_all add: reads_def dec_ret_def)

lemma unat_u32_of_nat: "n < 2 ^ 32 \<Longrightarrow> unat (word_of_nat n :: u32) = n"
  by (simp add: unat_of_nat)

lemma reads_bytes:
  "length v < 2 ^ 32 \<Longrightarrow> reads dec_bytes (u32_be (word_of_nat (length v)) @ v) v g g"
  unfolding dec_bytes_def
  by (rule reads_bind [OF reads_words(1)]) (simp add: unat_u32_of_nat reads_take)

lemma reads_string:
  "str_ok s \<Longrightarrow> length s < 2 ^ 32 \<Longrightarrow>
     reads dec_string (u32_be (word_of_nat (length s)) @ str_bytes s) s g g"
  unfolding dec_string_def
  using reads_bytes [of "str_bytes s" g]
  by (intro reads_bind_pure [where a = "str_bytes s"]) (simp, rule reads_of, simp)

lemma reads_fixed_32 [reads_intros]: "reads dec_fixed_32 (u32_be 32 @ b32_be d) d g g"
  unfolding dec_fixed_32_def
  using reads_bytes [of "b32_be d" g]
  by (intro reads_bind_pure [where a = "b32_be d"]) (simp_all add: reads_def dec_ret_def)

lemma reads_time [reads_intros]: "time_ok t \<Longrightarrow> reads dec_time (i64_be t) t g g"
  unfolding dec_time_def
  by (rule reads_bind_pure [OF reads_i64]) (simp_all add: reads_of time_ok_i64 time_ok_def)

lemma reads_idents [reads_intros]:
  "ident128_ok i \<Longrightarrow> reads dec_transaction_id (u128_be (ident128_get i)) i g g"
  "ident_ok s \<Longrightarrow> reads dec_shard_id (u64_be (ident_get s)) s g g"
  "ident128_ok v \<Longrightarrow> reads dec_vertex_id (u128_be (ident128_get v)) v g g"
  "ident128_ok e \<Longrightarrow> reads dec_edge_id (u128_be (ident128_get e)) e g g"
  unfolding dec_transaction_id_def dec_shard_id_def dec_vertex_id_def dec_edge_id_def
  by (rule reads_bind_pure [OF reads_words(3)] reads_bind_pure [OF reads_words(2)];
      simp add: reads_of ident128_ok_def vertex_id_new_def edge_id_new_def)+

lemma reads_transaction_state [reads_intros]:
  "reads dec_transaction_state [transaction_state_tag s] s g g"
  unfolding dec_transaction_state_def
  by (rule reads_bind_pure [OF reads_u8]) (cases s; simp add: transaction_state_tag_def reads_ret)

lemma reads_interval [reads_intros]:
  "interval_ok iv \<Longrightarrow> reads dec_interval (i64_be (iv_start iv) @ i64_be (iv_end iv)) iv g g"
  unfolding dec_interval_def
  by (intro reads_bind reads_bind_pure) (auto intro!: reads_intros reads_of simp: interval_ok_def valid_interval_new_def)

text \<open>An encoding step and the decoder that undoes it.\<close>

definition writes :: "(shard_error, enc_state) result \<Rightarrow> enc_state \<Rightarrow> 'a dec \<Rightarrow> 'a \<Rightarrow> bool" where
  "writes r st d a = (\<forall>st'. r = Inr st' \<longrightarrow>
     (\<exists>bs. fst st' = fst st @ bs \<and> reads d bs a (snd st) (snd st')))"

lemma writesD:
  "writes r st d a \<Longrightarrow> r = Inr st' \<Longrightarrow> \<exists>bs. fst st' = fst st @ bs \<and> reads d bs a (snd st) (snd st')"
  by (simp add: writes_def)

lemma writes_error [simp]: "writes (Inl e) st d a"
  by (simp add: writes_def)

lemma writes_ret: "writes (Inr st) st (dec_ret a) a"
  by (simp add: writes_def reads_ret)

lemma writes_push_end: "(\<And>g. reads d bs a g g) \<Longrightarrow> writes (Inr (enc_push bs st)) st d a"
  by (simp add: writes_def enc_push_def)

lemma writes_bind:
  assumes "writes r st d a" and "\<And>st'. writes (f st') st' (k a) b"
  shows "writes (try_r r f) st (dec_bind d k) b"
  unfolding writes_def
proof (intro allI impI)
  fix st' assume "try_r r f = Inr st'"
  then obtain s1 where r: "r = Inr s1" and f: "f s1 = Inr st'" by (auto simp: result_simps)
  from writesD [OF assms(1) r] obtain bs
    where bs: "fst s1 = fst st @ bs" "reads d bs a (snd st) (snd s1)" by blast
  from writesD [OF assms(2) f] obtain cs
    where cs: "fst st' = fst s1 @ cs" "reads (k a) cs b (snd s1) (snd st')" by blast
  from bs cs show "\<exists>bs. fst st' = fst st @ bs \<and> reads (dec_bind d k) bs b (snd st) (snd st')"
    by (intro exI [of _ "bs @ cs"]) (simp add: reads_bind)
qed

text \<open>After a pushed field the decoder that reads it hands over to the rest.\<close>

lemma writes_push:
  assumes "\<And>g. reads d bs a g g" and "writes r (enc_push bs st) (k a) b"
  shows "writes r st (dec_bind d k) b"
  unfolding writes_def
proof (intro allI impI)
  fix st' assume "r = Inr st'"
  from writesD [OF assms(2) this] obtain cs
    where "fst st' = fst st @ bs @ cs" "reads (k a) cs b (snd st) (snd st')"
    by (auto simp: enc_push_def)
  then show "\<exists>bs. fst st' = fst st @ bs \<and> reads (dec_bind d k) bs b (snd st) (snd st')"
    using assms(1) by (intro exI [of _ "bs @ cs"]) (auto intro: reads_bind)
qed

lemma writes_tag: "writes r (enc_push [t] st) (k t) a \<Longrightarrow> writes r st (dec_bind dec_u8 k) a"
  by (rule writes_push [OF reads_u8])

lemma enc_push_append: "enc_push (bs @ cs) st = enc_push cs (enc_push bs st)"
  by (simp add: enc_push_def)

lemma enc_push_Cons: "enc_push (b # c # cs) st = enc_push (c # cs) (enc_push [b] st)"
  by (simp add: enc_push_def)

lemma writes_map: "writes r st d a \<Longrightarrow> writes r st (dec_bind d (\<lambda>x. dec_ret (f x))) (f a)"
  unfolding writes_def using reads_bind_pure reads_ret by metis

lemma writes_field:
  "writes (enc_field v st) st dec_bytes v"
  by (auto simp: writes_def enc_field_def enc_bytes_def result_simps Let_def not_le
      intro: reads_bytes split: if_splits)

lemma writes_string: "str_ok s \<Longrightarrow> writes (enc_string s st) st dec_string s"
  using reads_string [of s "snd st"]
  by (auto simp: writes_def enc_string_def enc_field_def enc_bytes_def result_simps Let_def not_le
      split: if_splits)

lemma writes_digest: "writes (enc_field (b32_be d) st) st dec_fixed_32 d"
  using reads_fixed_32 [of d "snd st"]
  by (auto simp: writes_def enc_field_def enc_bytes_def result_simps Let_def split: if_splits)

lemma reads_count: "n \<le> max_collection_items \<Longrightarrow> reads dec_count (u32_be (word_of_nat n)) n g g"
proof -
  assume "n \<le> max_collection_items"
  then have "unat (word_of_nat n :: u32) = n"
    by (intro unat_u32_of_nat) (simp add: max_collection_items_def)
  with \<open>n \<le> max_collection_items\<close> show ?thesis
    unfolding dec_count_def by (intro reads_bind_pure [OF reads_words(1)]) (simp add: reads_ret)
qed

lemma reads_consume: "budget_consume g n = Inr g' \<Longrightarrow> reads (dec_consume n) [] () g g'"
  by (simp add: reads_def dec_consume_def)

lemma writes_count: "writes (enc_count n msg st) st dec_collection_count n"
  unfolding writes_def
proof (intro allI impI)
  fix st' assume "enc_count n msg st = Inr st'"
  then obtain g where n: "n \<le> max_collection_items" and g: "budget_consume (snd st) n = Inr g"
    and st': "st' = (fst st @ u32_be (word_of_nat n), g)"
    by (auto simp: enc_count_def result_simps split: if_splits)
  have "reads dec_collection_count (u32_be (word_of_nat n)) n (snd st) g"
    unfolding dec_collection_count_def
    by (rule reads_bind_pure [OF reads_count [OF n]], rule reads_bind_pure [OF reads_consume [OF g]],
        rule reads_ret)
  with st' show "\<exists>bs. fst st' = fst st @ bs \<and> reads dec_collection_count bs n (snd st) (snd st')"
    by simp
qed

section \<open>Values\<close>

text \<open>The values a Rust \<open>Value\<close> can hold: integers within 64 bits, UTF-8 strings, and maps
  in key order.\<close>

fun value_wf :: "value \<Rightarrow> bool" where
  "value_wf VNull = True"
| "value_wf (VBoolean b) = True"
| "value_wf (VInteger i) = i64_ok i"
| "value_wf (VFloatBits f) = True"
| "value_wf (VBytes bs) = True"
| "value_wf (VString s) = str_ok s"
| "value_wf (VList vs) = (\<forall>v \<in> set vs. value_wf v)"
| "value_wf (VMap kvs) = (bm_ok kvs \<and> (\<forall>kv \<in> set kvs. str_ok (fst kv) \<and> value_wf (snd kv)))"

lemma reads_boolean:
  "reads (dec_bind dec_u8 (\<lambda>b. if b = 0 then dec_ret (VBoolean False)
          else if b = 1 then dec_ret (VBoolean True) else dec_err ''invalid Boolean value''))
     [if b then 1 else 0] (VBoolean b) g g"
  by (rule reads_bind_pure [OF reads_u8]) (simp add: reads_ret)

declare dec_value.simps [simp del] enc_value.simps [simp del]

lemma dec_insert_end:
  "bm_ok (acc @ (k, v) # kvs) \<Longrightarrow> dec_insert dup k v acc = dec_ret (acc @ [(k, v)])"
proof -
  assume ok: "bm_ok (acc @ (k, v) # kvs)"
  then have below: "\<forall>p \<in> set acc. fst p < k" by (auto simp: bm_ok_def sorted_wrt_append)
  then have "map_of acc k = None" by (auto simp: map_of_eq_None_iff)
  with below show ?thesis by (simp add: dec_insert_def bm_insert_last)
qed

lemma writes_value_fields:
  "(value_wf v \<longrightarrow> writes (enc_value v depth st) st (dec_value depth) v)"
  "((\<forall>v \<in> set vs. value_wf v) \<longrightarrow>
      writes (enc_values vs depth st) st (dec_values depth (length vs)) vs)"
  "(\<forall>acc dup. (\<forall>kv \<in> set kvs. str_ok (fst kv) \<and> value_wf (snd kv)) \<longrightarrow> bm_ok (acc @ kvs) \<longrightarrow>
      writes (enc_fields kvs depth st) st (dec_fields dup depth (length kvs) acc) (acc @ kvs))"
proof (induction v depth st and vs depth st and kvs depth st
    rule: enc_value_enc_values_enc_fields.induct)
  case (1 v depth st)
  show ?case
  proof (intro impI, cases "max_value_depth < depth")
    case True
    then show "writes (enc_value v depth st) st (dec_value depth) v" by (simp add: enc_value.simps)
  next
    case False
    assume wf: "value_wf v"
    show "writes (enc_value v depth st) st (dec_value depth) v"
    proof (cases v)
      case VNull
      with False show ?thesis
        by (simp add: enc_value.simps dec_value.simps)
          (rule writes_push_end, rule reads_bind_pure [OF reads_u8], simp add: reads_ret)
    next
      case (VBoolean b)
      with False show ?thesis
        by (simp only: enc_value.simps dec_value.simps "value.case" if_False enc_push_Cons)
          (rule writes_tag [where t = 1], simp split del: if_split, rule writes_push_end, rule reads_boolean)
    next
      case (VInteger i)
      with False wf show ?thesis
        by (simp only: enc_value.simps dec_value.simps "value.case" if_False enc_push_append value_wf.simps)
          (rule writes_tag [where t = 2], simp, rule writes_push_end,
            rule reads_bind_pure [OF reads_i64], simp_all add: reads_ret)
    next
      case (VFloatBits f)
      with False show ?thesis
        by (simp only: enc_value.simps dec_value.simps "value.case" if_False enc_push_append)
          (rule writes_tag [where t = 3], simp, rule writes_push_end,
            rule reads_bind_pure [OF reads_words(2)], simp add: reads_ret)
    next
      case (VBytes bs)
      with False show ?thesis
        by (simp only: enc_value.simps dec_value.simps "value.case" if_False)
          (rule writes_tag [where t = 4], simp, rule writes_map [OF writes_field])
    next
      case (VString s)
      with False wf show ?thesis
        by (simp only: enc_value.simps dec_value.simps "value.case" if_False)
          (rule writes_tag [where t = 5], simp, rule writes_map [OF writes_string], simp)
    next
      case (VList vs)
      with wf have "\<And>st'. writes (enc_values vs (Suc depth) st') st' (dec_values (Suc depth) (length vs)) vs"
        using "1.IH"(1) [OF False VList] by simp
      with VList False show ?thesis
        by (simp only: enc_value.simps dec_value.simps "value.case" if_False)
          (rule writes_tag [where t = 6], simp,
            rule writes_bind [OF writes_count], rule writes_map)
    next
      case (VMap kvs)
      with wf have "\<And>st' dup. writes (enc_fields kvs (Suc depth) st') st'
          (dec_fields dup (Suc depth) (length kvs) []) kvs"
        using "1.IH"(2) [OF False VMap, THEN spec [of _ "[]"]] by simp
      with VMap False show ?thesis
        by (simp only: enc_value.simps dec_value.simps "value.case" if_False)
          (rule writes_tag [where t = 7], simp,
            rule writes_bind [OF writes_count], rule writes_map)
    qed
  qed
next
  case (2 depth st)
  show ?case by (simp add: writes_ret)
next
  case (3 v vs depth st)
  show ?case
  proof (intro impI)
    assume wf: "\<forall>w \<in> set (v # vs). value_wf w"
    then have "\<And>st'. writes (enc_values vs depth st') st' (dec_values depth (length vs)) vs"
      using "3.IH"(2) by simp
    with wf "3.IH"(1) show "writes (enc_values (v # vs) depth st) st
        (dec_values depth (length (v # vs))) (v # vs)"
      by (simp, intro writes_bind) (simp, rule writes_map, simp)
  qed
next
  case (4 depth st)
  show ?case by (simp add: writes_ret)
next
  case (5 kv kvs depth st)
  show ?case
  proof (intro allI impI)
    fix acc dup
    assume wf: "\<forall>w \<in> set (kv # kvs). str_ok (fst w) \<and> value_wf (snd w)" and ok: "bm_ok (acc @ kv # kvs)"
    obtain k v where kv: "kv = (k, v)" by (cases kv)
    have tail: "\<And>st'. writes (enc_fields kvs depth st') st'
        (dec_fields dup depth (length kvs) (acc @ [(k, v)])) ((acc @ [(k, v)]) @ kvs)"
      using "5.IH"(2) [THEN spec [of _ "acc @ [(k, v)]"]] wf ok kv by simp
    have "\<And>st'. writes (enc_fields kvs depth st') st'
        (dec_bind (dec_insert dup k v acc) (\<lambda>acc'. dec_fields dup depth (length kvs) acc')) (acc @ kv # kvs)"
      using tail ok kv by (simp add: dec_insert_end dec_bind_def dec_ret_def)
    moreover have "\<And>st'. writes (enc_value v depth st') st' (dec_value depth) v"
      using "5.IH"(1) wf kv by simp
    ultimately show "writes (enc_fields (kv # kvs) depth st) st
        (dec_fields dup depth (length (kv # kvs)) acc) (acc @ kv # kvs)"
      using wf kv by (simp, intro writes_bind) (auto intro: writes_string)
  qed
qed

lemma writes_value: "value_wf v \<Longrightarrow> writes (enc_value v depth st) st (dec_value depth) v"
  using writes_value_fields(1) by blast

lemma writes_fields:
  "\<forall>kv \<in> set kvs. str_ok (fst kv) \<and> value_wf (snd kv) \<Longrightarrow> bm_ok kvs \<Longrightarrow>
     writes (enc_fields kvs depth st) st (dec_fields dup depth (length kvs) []) kvs"
  using writes_value_fields(3) [of kvs depth st, THEN spec [of _ "[]"]] by simp

section \<open>Mutations\<close>

definition properties_wf :: "properties \<Rightarrow> bool" where
  "properties_wf ps =
     (bm_ok ps \<and> (\<forall>kv \<in> set ps. fst kv \<noteq> [] \<and> str_ok (fst kv) \<and> value_wf (snd kv)))"

definition transaction_wf :: "transaction_record \<Rightarrow> bool" where
  "transaction_wf t =
     (ident128_ok (tr_id t) \<and> time_ok (tr_transaction_time t) \<and> tr_record_digest t \<noteq> 0)"

text \<open>The mutations that the constructors of the program can build.\<close>

fun mutation_wf :: "logical_mutation \<Rightarrow> bool" where
  "mutation_wf (PutVertex v) =
     (ident128_ok (vv_id v) \<and> interval_ok (vv_valid_time v) \<and> time_ok (vv_transaction_time v) \<and>
      properties_wf (vv_properties v))"
| "mutation_wf (DeleteVertex t) = (ident128_ok (vt_id t) \<and> time_ok (vt_transaction_time t))"
| "mutation_wf (PutEdge e) =
     (ident128_ok (ev_id e) \<and> ident128_ok (ev_source e) \<and> ident128_ok (ev_target e) \<and>
      ev_edge_type e \<noteq> [] \<and> str_ok (ev_edge_type e) \<and> interval_ok (ev_valid_time e) \<and>
      time_ok (ev_transaction_time e) \<and> properties_wf (ev_properties e))"
| "mutation_wf (DeleteEdge t) = (ident128_ok (et_id t) \<and> time_ok (et_transaction_time t))"
| "mutation_wf (PutTransaction t) = transaction_wf t"
| "mutation_wf (PutReplicaMetadata m) = (rm_name m \<noteq> [] \<and> str_ok (rm_name m) \<and> value_wf (rm_value m))"

lemma properties_wf_validate: "properties_wf ps \<Longrightarrow> validate_properties ps = Inr ()"
  by (auto simp: properties_wf_def validate_properties_def list_ex_iff)

lemma writes_properties: "properties_wf ps \<Longrightarrow> writes (enc_properties ps st) st dec_properties ps"
  unfolding enc_properties_def dec_properties_def properties_wf_def
  by (rule writes_bind [OF writes_count], rule writes_fields) auto

lemma writes_interval:
  "interval_ok iv \<Longrightarrow> writes r (enc_interval iv st) (k iv) a \<Longrightarrow> writes r st (dec_bind dec_interval k) a"
  unfolding enc_interval_def by (rule writes_push [OF reads_interval])

lemma reads_transaction: "transaction_wf t \<Longrightarrow> reads dec_transaction (enc_transaction t) t g g"
  unfolding dec_transaction_def enc_transaction_def transaction_wf_def
  by (intro reads_bind reads_bind_pure)
    (auto intro!: reads_intros reads_of simp: transaction_record_new_def)

lemma writes_then: "writes r st d a \<Longrightarrow> (\<And>g. reads (k a) [] b g g) \<Longrightarrow> writes r st (dec_bind d k) b"
  unfolding writes_def using reads_bind_pure by metis

lemma writes_mutation:
  assumes "mutation_wf m"
  shows "writes (enc_mutation m st) st dec_mutation m"
proof (cases m)
  case (PutVertex v)
  with assms show ?thesis
    unfolding dec_mutation_def enc_mutation_def
    apply (simp only: enc_push_append logical_mutation.case)
    apply (rule writes_tag [where t = 1], simp only: simp_thms if_True dec_put_vertex_def)
    apply (rule writes_push [where a = "vv_id v", OF reads_idents(3)], simp)
    apply (rule writes_push [where a = "vv_version v", OF reads_words(2)])
    apply (rule writes_interval [where iv = "vv_valid_time v"], simp)
    apply (rule writes_push [where a = "vv_transaction_time v", OF reads_time], simp)
    apply (rule writes_then [OF writes_properties], simp)
    apply (rule reads_bind_pure [OF reads_of reads_ret, of _ v PutVertex, simplified])
    apply (simp add: vertex_version_new_def properties_wf_validate)
    done
next
  case (DeleteVertex t)
  with assms show ?thesis
    unfolding dec_mutation_def enc_mutation_def
    apply (simp only: enc_push_append logical_mutation.case)
    apply (rule writes_tag [where t = 2], simp)
    apply (rule writes_push [where a = "vt_id t", OF reads_idents(3)], simp)
    apply (rule writes_push [where a = "vt_version t", OF reads_words(2)])
    apply (rule writes_push [where a = "vt_transaction_time t", OF reads_time], simp)
    apply (cases t, simp add: writes_ret)
    done
next
  case (PutEdge e)
  with assms show ?thesis
    unfolding dec_mutation_def enc_mutation_def
    apply (simp only: enc_push_append logical_mutation.case)
    apply (rule writes_tag [where t = 3], simp add: dec_put_edge_def)
    apply (rule writes_push [where a = "ev_id e", OF reads_idents(4)], simp)
    apply (rule writes_push [where a = "ev_source e", OF reads_idents(3)], simp)
    apply (rule writes_push [where a = "ev_target e", OF reads_idents(3)], simp)
    apply (rule writes_bind [OF writes_string], simp)
    apply (rule writes_push [where a = "ev_version e", OF reads_words(2)])
    apply (rule writes_interval [where iv = "ev_valid_time e"], simp)
    apply (rule writes_push [where a = "ev_transaction_time e", OF reads_time], simp)
    apply (rule writes_then [OF writes_properties], simp)
    apply (rule reads_bind_pure [OF reads_of reads_ret, of _ e PutEdge, simplified])
    apply (simp add: edge_version_new_def properties_wf_validate)
    done
next
  case (DeleteEdge t)
  with assms show ?thesis
    unfolding dec_mutation_def enc_mutation_def
    apply (simp only: enc_push_append logical_mutation.case)
    apply (rule writes_tag [where t = 4], simp)
    apply (rule writes_push [where a = "et_id t", OF reads_idents(4)], simp)
    apply (rule writes_push [where a = "et_version t", OF reads_words(2)])
    apply (rule writes_push [where a = "et_transaction_time t", OF reads_time], simp)
    apply (cases t, simp add: writes_ret)
    done
next
  case (PutTransaction t)
  with assms show ?thesis
    unfolding dec_mutation_def enc_mutation_def
    apply (simp only: enc_push_append logical_mutation.case)
    apply (rule writes_tag [where t = 5], simp)
    apply (rule writes_map)
    apply (unfold dec_transaction_def transaction_wf_def)
    apply (rule writes_push [where a = "tr_id t", OF reads_idents(1)], simp)
    apply (rule writes_push [where a = "tr_state t", OF reads_transaction_state])
    apply (rule writes_push [where a = "tr_transaction_time t", OF reads_time], simp)
    apply (rule writes_then [OF writes_digest])
    apply (rule reads_of)
    apply (simp add: transaction_record_new_def)
    done
next
  case (PutReplicaMetadata md)
  with assms show ?thesis
    unfolding dec_mutation_def enc_mutation_def
    apply (simp only: logical_mutation.case)
    apply (rule writes_tag [where t = 6], simp)
    apply (rule writes_bind [OF writes_string], simp)
    apply (rule writes_then [OF writes_value], simp)
    apply (rule reads_bind_pure [OF reads_of reads_ret, of _ md PutReplicaMetadata, simplified])
    apply (simp add: replica_metadata_new_def)
    done
qed

end
