(* ===== verification/Shard_Command.thy ===== *)
theory Shard_Command
  imports Shard_Roundtrip
begin

text \<open>
  The replicated commands of a shard (\<^verbatim>\<open>dtg-shard\<close>, \<^verbatim>\<open>command.rs\<close> and
  \<^verbatim>\<open>migration.rs\<close>): their constructors and shape checks, the mutations each one commits, and
  their encoding in the Raft log.  The hash function is a parameter.
\<close>

section \<open>Headers\<close>

record command_header =
  ch_command_id :: command_id
  ch_placement_epoch :: placement_epoch
  ch_backend_generation :: backend_generation

definition command_header_new ::
    "command_id \<Rightarrow> u64 \<Rightarrow> u64 \<Rightarrow> (shard_error, command_header) result" where
  "command_header_new cid epoch gen =
     try_r (map_err (\<lambda>_. InvalidCommand ''placement epoch must be nonzero'') (ident_new epoch)) (\<lambda>e.
     try_r (map_err (\<lambda>_. InvalidCommand ''backend generation must be nonzero'') (ident_new gen)) (\<lambda>g.
       Inr \<lparr>ch_command_id = cid, ch_placement_epoch = e, ch_backend_generation = g\<rparr>))"

section \<open>Shape checks\<close>

definition max_transaction_intent_bytes :: nat where "max_transaction_intent_bytes = 4 * 1024 * 1024"
definition max_transaction_intent_items :: nat where "max_transaction_intent_items = 4096"

text \<open>\<open>iter().any\<close> over a predicate that may panic.\<close>

primrec try_any :: "('a \<Rightarrow> ('e, bool) result) \<Rightarrow> 'a list \<Rightarrow> ('e, bool) result" where
  "try_any p [] = Inr False"
| "try_any p (x # xs) = try_r (p x) (\<lambda>b. if b then Inr True else try_any p xs)"

definition mutation_transaction_time ::
    "logical_mutation \<Rightarrow> (shard_error, transaction_time) result" where
  "mutation_transaction_time m = (case m of
     PutVertex v \<Rightarrow> Inr (vv_transaction_time v)
   | DeleteVertex t \<Rightarrow> Inr (vt_transaction_time t)
   | PutEdge e \<Rightarrow> Inr (ev_transaction_time e)
   | DeleteEdge t \<Rightarrow> Inr (et_transaction_time t)
   | _ \<Rightarrow> Inl (ShardPanic ''transaction intents reject non-graph mutations before timestamp checks''))"

definition is_put_transaction :: "logical_mutation \<Rightarrow> bool" where
  "is_put_transaction m = (case m of PutTransaction _ \<Rightarrow> True | _ \<Rightarrow> False)"

definition is_put_metadata :: "logical_mutation \<Rightarrow> bool" where
  "is_put_metadata m = (case m of PutReplicaMetadata _ \<Rightarrow> True | _ \<Rightarrow> False)"

definition writes_reserved_metadata :: "logical_mutation \<Rightarrow> bool" where
  "writes_reserved_metadata m =
     (case m of PutReplicaMetadata md \<Rightarrow> take 4 (rm_name md) = ''dtg.'' | _ \<Rightarrow> False)"

definition validate_single_shard_mutations :: "logical_mutation list \<Rightarrow> (shard_error, unit) result" where
  "validate_single_shard_mutations ms =
     (if list_ex (\<lambda>m. is_put_transaction m \<or> writes_reserved_metadata m) ms
      then Inl (InvalidCommand
        ''generic single-Shard commits cannot write transactions or reserved dtg metadata'')
      else Inr ())"

definition validate_intent_mutations :: "logical_mutation list \<Rightarrow> (shard_error, unit) result" where
  "validate_intent_mutations ms =
     (if ms = [] \<or> max_transaction_intent_items < length ms
      then Inl (InvalidCommand ''transaction intent mutation count is outside the supported bounds'')
      else if list_ex (\<lambda>m. is_put_transaction m \<or> is_put_metadata m) ms
      then Inl (InvalidCommand ''transaction intent may contain only graph mutations'')
      else try_r (mutation_transaction_time (hd ms)) (\<lambda>t.
           try_r (try_any (\<lambda>m. try_r (mutation_transaction_time m) (\<lambda>u. Inr (u \<noteq> t))) (tl ms)) (\<lambda>differ.
             if differ
             then Inl (InvalidCommand ''transaction intent mutations must share one transaction time'')
             else Inr ())))"

definition validate_commit_follows_start ::
    "transaction_time \<Rightarrow> logical_mutation list \<Rightarrow> string \<Rightarrow> (shard_error, unit) result" where
  "validate_commit_follows_start start ms msg =
     try_r (mutation_transaction_time (hd ms)) (\<lambda>t.
       if t \<le> start then Inl (InvalidCommand msg) else Inr ())"

section \<open>Single-shard commits\<close>

record commit_single_shard =
  css_header :: command_header
  css_mutations :: "logical_mutation list"

definition commit_single_shard_new ::
    "command_id \<Rightarrow> u64 \<Rightarrow> u64 \<Rightarrow> logical_mutation list \<Rightarrow> (shard_error, commit_single_shard) result" where
  "commit_single_shard_new cid epoch gen ms =
     (if ms = [] then Inl (InvalidCommand ''single-Shard commit must contain mutations'')
      else try_r (validate_single_shard_mutations ms) (\<lambda>_.
           try_r (command_header_new cid epoch gen) (\<lambda>h.
             Inr \<lparr>css_header = h, css_mutations = ms\<rparr>)))"

record commit_single_shard_transaction =
  cst_header :: command_header
  cst_transaction_id :: transaction_id
  cst_start_time :: transaction_time
  cst_snapshot_applied_index :: u64
  cst_request_digest :: digest32
  cst_mutations :: "logical_mutation list"

definition cst_validate :: "commit_single_shard_transaction \<Rightarrow> (shard_error, unit) result" where
  "cst_validate c =
     try_r (validate_intent_mutations (cst_mutations c)) (\<lambda>_.
       validate_commit_follows_start (cst_start_time c) (cst_mutations c)
         ''single-Shard transaction commit time must follow its start time'')"

definition commit_single_shard_transaction_new ::
    "command_id \<Rightarrow> u64 \<Rightarrow> u64 \<Rightarrow> transaction_id \<Rightarrow> transaction_time \<Rightarrow> u64 \<Rightarrow> digest32
      \<Rightarrow> logical_mutation list \<Rightarrow> (shard_error, commit_single_shard_transaction) result" where
  "commit_single_shard_transaction_new cid epoch gen tx start snap digest ms =
     try_r (command_header_new cid epoch gen) (\<lambda>h.
       let c = \<lparr>cst_header = h, cst_transaction_id = tx, cst_start_time = start,
                cst_snapshot_applied_index = snap, cst_request_digest = digest,
                cst_mutations = ms\<rparr>
       in try_r (cst_validate c) (\<lambda>_. Inr c))"

section \<open>Participant intents\<close>

record participant_intent =
  pi_transaction_id :: transaction_id
  pi_shard_id :: shard_id
  pi_start_time :: transaction_time
  pi_snapshot_applied_index :: u64
  pi_mutations :: "logical_mutation list"

definition intent_prefix :: "participant_intent \<Rightarrow> byte list" where
  "intent_prefix i =
     u32_be 3 @ u128_be (ident128_get (pi_transaction_id i)) @ u64_be (ident_get (pi_shard_id i)) @
     i64_be (pi_start_time i) @ u64_be (pi_snapshot_applied_index i)"

definition intent_encode :: "participant_intent \<Rightarrow> (shard_error, byte list) result" where
  "intent_encode i =
     try_r (validate_intent_mutations (pi_mutations i)) (\<lambda>_.
     try_r (enc_mutations (pi_mutations i) (intent_prefix i)) (\<lambda>buf.
     try_r (encoder_finish buf) (\<lambda>encoded.
       if max_transaction_intent_bytes < length encoded
       then Inl (InvalidCommand ''transaction intent exceeds maximum encoded size'')
       else Inr encoded)))"

definition participant_intent_new ::
    "transaction_id \<Rightarrow> shard_id \<Rightarrow> transaction_time \<Rightarrow> u64 \<Rightarrow> logical_mutation list
      \<Rightarrow> (shard_error, participant_intent) result" where
  "participant_intent_new tx shard start snap ms =
     try_r (validate_intent_mutations ms) (\<lambda>_.
       let i = \<lparr>pi_transaction_id = tx, pi_shard_id = shard, pi_start_time = start,
                pi_snapshot_applied_index = snap, pi_mutations = ms\<rparr>
       in try_r (intent_encode i) (\<lambda>_. Inr i))"

definition intent_digest ::
    "(byte list \<Rightarrow> digest32) \<Rightarrow> participant_intent \<Rightarrow> (shard_error, digest32) result" where
  "intent_digest blake3 i = (case intent_encode i of
     Inl _ \<Rightarrow> Inl (ShardPanic ''validated participant intent remains encodable'')
   | Inr encoded \<Rightarrow>
       Inr (blake3 (str_bytes ''dtg-transaction-participant-intent-v3'' @ encoded)))"

definition dec_intent :: "participant_intent dec" where
  "dec_intent =
     dec_bind dec_u32 (\<lambda>version.
       if version \<noteq> 3 then dec_err ''unsupported transaction intent version''
       else
         dec_bind dec_transaction_id (\<lambda>tx.
         dec_bind dec_shard_id (\<lambda>shard.
         dec_bind dec_time (\<lambda>start.
         dec_bind dec_u64 (\<lambda>snap.
         dec_bind (dec_mutations_with_limit max_transaction_intent_items
           ''transaction intent mutation count is outside the supported bounds'') (\<lambda>ms.
         dec_ret \<lparr>pi_transaction_id = tx, pi_shard_id = shard, pi_start_time = start,
                  pi_snapshot_applied_index = snap, pi_mutations = ms\<rparr>))))))"

definition intent_decode :: "byte list \<Rightarrow> (shard_error, participant_intent) result" where
  "intent_decode bytes =
     (if max_transaction_intent_bytes < length bytes
      then Inl (InvalidCommand ''transaction intent bytes are oversized'')
      else try_r (decoder_new bytes) (\<lambda>st.
           try_r (dec_intent st) (\<lambda>p.
           try_r (decoder_finish (snd p)) (\<lambda>_.
             participant_intent_new (pi_transaction_id (fst p)) (pi_shard_id (fst p))
               (pi_start_time (fst p)) (pi_snapshot_applied_index (fst p)) (pi_mutations (fst p))))))"

definition intent_metadata :: "participant_intent \<Rightarrow> (shard_error, replica_metadata) result" where
  "intent_metadata i =
     try_r (intent_encode i) (\<lambda>encoded.
       of_storage (replica_metadata_new ''dtg.transaction_intent.v3'' (VBytes encoded)))"

record prewrite_intent =
  pw_header :: command_header
  pw_prepared :: transaction_record
  pw_intent :: participant_intent

definition prewrite_validate ::
    "(byte list \<Rightarrow> digest32) \<Rightarrow> prewrite_intent \<Rightarrow> (shard_error, unit) result" where
  "prewrite_validate blake3 c =
     (let p = pw_prepared c; i = pw_intent c;
          bad = InvalidCommand ''prewrite intent must bind one prepared record to its participant payload''
      in if tr_state p \<noteq> Prepared \<or> tr_id p \<noteq> pi_transaction_id i
            \<or> tr_transaction_time p \<noteq> pi_start_time i
         then Inl bad
         else try_r (intent_digest blake3 i) (\<lambda>d.
           if tr_record_digest p \<noteq> d then Inl bad
           else try_r (intent_encode i) (\<lambda>_. Inr ())))"

definition prewrite_intent_new ::
    "(byte list \<Rightarrow> digest32) \<Rightarrow> command_id \<Rightarrow> u64 \<Rightarrow> u64 \<Rightarrow> transaction_record \<Rightarrow> participant_intent
      \<Rightarrow> (shard_error, prewrite_intent) result" where
  "prewrite_intent_new blake3 cid epoch gen prepared intent =
     try_r (command_header_new cid epoch gen) (\<lambda>h.
       let c = \<lparr>pw_header = h, pw_prepared = prepared, pw_intent = intent\<rparr>
       in try_r (prewrite_validate blake3 c) (\<lambda>_. Inr c))"

definition prewrite_mutations ::
    "(byte list \<Rightarrow> digest32) \<Rightarrow> prewrite_intent \<Rightarrow> (shard_error, logical_mutation list) result" where
  "prewrite_mutations blake3 c =
     try_r (prewrite_validate blake3 c) (\<lambda>_.
     try_r (intent_metadata (pw_intent c)) (\<lambda>md.
       Inr [PutTransaction (pw_prepared c), PutReplicaMetadata md]))"

section \<open>Home decisions\<close>

record home_decision_participant =
  hp_shard_id :: shard_id
  hp_placement_epoch :: placement_epoch
  hp_backend_generation :: backend_generation
  hp_snapshot_applied_index :: u64
  hp_intent_digest :: digest32

definition home_participant_new ::
    "shard_id \<Rightarrow> placement_epoch \<Rightarrow> backend_generation \<Rightarrow> u64 \<Rightarrow> digest32
      \<Rightarrow> (shard_error, home_decision_participant) result" where
  "home_participant_new shard epoch gen snap digest =
     (if digest = 0 then Inl (InvalidCommand ''home decision participant digest must be nonzero'')
      else Inr \<lparr>hp_shard_id = shard, hp_placement_epoch = epoch, hp_backend_generation = gen,
                hp_snapshot_applied_index = snap, hp_intent_digest = digest\<rparr>)"

record home_decision_manifest =
  hm_start_time :: transaction_time
  hm_catalog_version :: version
  hm_participants :: "home_decision_participant list"

definition home_manifest_new ::
    "transaction_time \<Rightarrow> version \<Rightarrow> home_decision_participant list
      \<Rightarrow> (shard_error, home_decision_manifest) result" where
  "home_manifest_new start catalog ps =
     (let sorted = sort_key hp_shard_id ps;
          unique = bs_of (map hp_shard_id sorted)
      in if catalog = 0 \<or> sorted = [] \<or> max_transaction_intent_items < length sorted
            \<or> length unique \<noteq> length sorted
         then Inl (InvalidCommand ''home decision manifest must contain unique durable participants'')
         else Inr \<lparr>hm_start_time = start, hm_catalog_version = catalog, hm_participants = sorted\<rparr>)"

definition decision_digest ::
    "(byte list \<Rightarrow> digest32) \<Rightarrow> home_decision_manifest \<Rightarrow> transaction_id \<Rightarrow> transaction_state
      \<Rightarrow> transaction_time \<Rightarrow> (shard_error, digest32) result" where
  "decision_digest blake3 m tx state time =
     (if state = Committed \<and> hm_start_time m < time then
        Inr (blake3 (str_bytes ''dtg-transaction-home-decision-v1'' @ u128_be (ident128_get tx) @
          i64_be time @
          concat (map (\<lambda>p. u64_be (ident_get (hp_shard_id p)) @ b32_be (hp_intent_digest p))
            (hm_participants m))))
      else if state = Aborted \<and> time = hm_start_time m then
        Inr (blake3 (str_bytes ''dtg-transaction-home-abort-v1'' @ u128_be (ident128_get tx) @
          i64_be (hm_start_time m) @
          concat (map (\<lambda>p. u64_be (ident_get (hp_shard_id p))) (hm_participants m))))
      else Inl (InvalidCommand ''home decision time does not match its terminal state''))"

record record_home_decision =
  hd_header :: command_header
  hd_decision :: transaction_record
  hd_manifest :: home_decision_manifest

definition home_decision_validate ::
    "(byte list \<Rightarrow> digest32) \<Rightarrow> record_home_decision \<Rightarrow> (shard_error, unit) result" where
  "home_decision_validate blake3 c =
     (let d = hd_decision c;
          bad = InvalidCommand ''home decision must match its durable participant manifest''
      in if tr_state d \<noteq> Committed \<and> tr_state d \<noteq> Aborted then Inl bad
         else try_r (decision_digest blake3 (hd_manifest c) (tr_id d) (tr_state d) (tr_transaction_time d))
           (\<lambda>digest. if tr_record_digest d \<noteq> digest then Inl bad else Inr ()))"

definition record_home_decision_new ::
    "(byte list \<Rightarrow> digest32) \<Rightarrow> command_id \<Rightarrow> u64 \<Rightarrow> u64 \<Rightarrow> transaction_record \<Rightarrow> home_decision_manifest
      \<Rightarrow> (shard_error, record_home_decision) result" where
  "record_home_decision_new blake3 cid epoch gen decision manifest =
     try_r (command_header_new cid epoch gen) (\<lambda>h.
       let c = \<lparr>hd_header = h, hd_decision = decision, hd_manifest = manifest\<rparr>
       in try_r (home_decision_validate blake3 c) (\<lambda>_. Inr c))"

section \<open>Finalization\<close>

record finalize_participant =
  fp_header :: command_header
  fp_terminal :: transaction_record
  fp_intent :: "participant_intent option"

definition finalize_validate ::
    "(byte list \<Rightarrow> digest32) \<Rightarrow> finalize_participant \<Rightarrow> (shard_error, unit) result" where
  "finalize_validate blake3 c = (let t = fp_terminal c in case tr_state t of
     Committed \<Rightarrow> (case fp_intent c of
       None \<Rightarrow> Inl (InvalidCommand ''commit finalization requires participant intent'')
     | Some i \<Rightarrow>
         let bad = InvalidCommand ''commit finalization does not match participant intent'' in
         if tr_id t \<noteq> pi_transaction_id i then Inl bad
         else try_r (intent_digest blake3 i) (\<lambda>d.
           if tr_record_digest t \<noteq> d \<or> tr_transaction_time t \<le> pi_start_time i then Inl bad
           else try_r (try_any (\<lambda>m. try_r (mutation_transaction_time m)
                        (\<lambda>u. Inr (u \<noteq> tr_transaction_time t))) (pi_mutations i)) (\<lambda>differ.
             if differ then Inl bad
             else try_r (intent_encode i) (\<lambda>_. Inr ()))))
   | Aborted \<Rightarrow> (case fp_intent c of
       None \<Rightarrow> Inr ()
     | Some _ \<Rightarrow> Inl (InvalidCommand ''abort finalization must not carry graph mutations''))
   | Prepared \<Rightarrow>
       Inl (InvalidCommand ''participant finalization requires a terminal transaction record''))"

definition finalize_participant_new ::
    "(byte list \<Rightarrow> digest32) \<Rightarrow> command_id \<Rightarrow> u64 \<Rightarrow> u64 \<Rightarrow> transaction_record \<Rightarrow> participant_intent option
      \<Rightarrow> (shard_error, finalize_participant) result" where
  "finalize_participant_new blake3 cid epoch gen terminal intent =
     try_r (command_header_new cid epoch gen) (\<lambda>h.
       let c = \<lparr>fp_header = h, fp_terminal = terminal, fp_intent = intent\<rparr>
       in try_r (finalize_validate blake3 c) (\<lambda>_. Inr c))"

definition finalize_mutations ::
    "(byte list \<Rightarrow> digest32) \<Rightarrow> finalize_participant \<Rightarrow> (shard_error, logical_mutation list) result" where
  "finalize_mutations blake3 c =
     try_r (finalize_validate blake3 c) (\<lambda>_.
       Inr ((case fp_intent c of Some i \<Rightarrow> pi_mutations i | None \<Rightarrow> []) @ [PutTransaction (fp_terminal c)]))"

section \<open>Closed timestamps and snapshots\<close>

record advance_closed_timestamp =
  ac_header :: command_header
  ac_closed_timestamp :: transaction_time

definition advance_closed_timestamp_new ::
    "command_id \<Rightarrow> u64 \<Rightarrow> u64 \<Rightarrow> transaction_time \<Rightarrow> (shard_error, advance_closed_timestamp) result" where
  "advance_closed_timestamp_new cid epoch gen t =
     try_r (command_header_new cid epoch gen) (\<lambda>h. Inr \<lparr>ac_header = h, ac_closed_timestamp = t\<rparr>)"

record install_snapshot =
  is_header :: command_header
  is_snapshot_id :: u128
  is_content_digest :: digest32

definition install_snapshot_new ::
    "command_id \<Rightarrow> u64 \<Rightarrow> u64 \<Rightarrow> u128 \<Rightarrow> digest32 \<Rightarrow> (shard_error, install_snapshot) result" where
  "install_snapshot_new cid epoch gen sid digest =
     (if sid = 0 \<or> digest = 0 then Inl (InvalidCommand ''snapshot identity must be complete'')
      else try_r (command_header_new cid epoch gen) (\<lambda>h.
        Inr \<lparr>is_header = h, is_snapshot_id = sid, is_content_digest = digest\<rparr>))"

section \<open>Migration commands\<close>

datatype migration_phase = Prepare | Activate | Grace | Retire | Complete | Abort | Rollback

record online_migration_context =
  om_migration_id :: u128
  om_source_epoch :: placement_epoch
  om_source_generation :: backend_generation
  om_retained_generation :: backend_generation
  om_target_generation :: backend_generation
  om_target_backend_class_digest :: digest32
  om_catalog_version :: version
  om_verified_index :: u64
  om_logical_digest :: digest32

record migration_command =
  mc_header :: command_header
  mc_phase :: migration_phase
  mc_online :: "online_migration_context option"

definition migration_command_new ::
    "command_id \<Rightarrow> u64 \<Rightarrow> u64 \<Rightarrow> migration_phase \<Rightarrow> (shard_error, migration_command) result" where
  "migration_command_new cid epoch gen phase =
     try_r (command_header_new cid epoch gen) (\<lambda>h.
       Inr \<lparr>mc_header = h, mc_phase = phase, mc_online = None\<rparr>)"

definition nonzero_or :: "string \<Rightarrow> u64 \<Rightarrow> (shard_error, 'k ident) result" where
  "nonzero_or msg v = map_err (\<lambda>_. InvalidCommand msg) (ident_new v)"

definition migration_command_online ::
    "command_id \<Rightarrow> u128 \<Rightarrow> u64 \<Rightarrow> u64 \<Rightarrow> u64 \<Rightarrow> u64 \<Rightarrow> digest32 \<Rightarrow> version \<Rightarrow> u64 \<Rightarrow> digest32
      \<Rightarrow> migration_phase \<Rightarrow> (shard_error, migration_command) result" where
  "migration_command_online cid mid epoch0 gen0 retained0 target0 class catalog verified logical phase =
     try_r (nonzero_or ''migration source epoch must be nonzero'' epoch0) (\<lambda>source_epoch.
     try_r (nonzero_or ''migration source generation must be nonzero'' gen0) (\<lambda>source_generation.
     try_r (nonzero_or ''migration retained generation must be nonzero'' retained0) (\<lambda>retained.
     try_r (nonzero_or ''migration target generation must be nonzero'' target0) (\<lambda>target.
     try_r (ok_or (u64_succ epoch0) (InvalidCommand ''migration placement epoch overflow'')) (\<lambda>next_epoch.
     try_r (ok_or (u64_succ gen0) (InvalidCommand ''migration backend generation overflow''))
       (\<lambda>expected_generation.
     if mid = 0 \<or> target0 \<noteq> expected_generation \<or> class = 0 \<or> verified = 0 \<or> logical = 0
        \<or> (phase = Rollback \<and> gen0 \<le> retained0) \<or> (phase \<noteq> Rollback \<and> retained0 \<noteq> gen0)
     then Inl (InvalidCommand ''online migration context is inconsistent'')
     else
       let uses_target_fence = \<not> (phase = Prepare \<or> phase = Abort) in
       try_r (command_header_new cid (if uses_target_fence then next_epoch else epoch0)
                (if uses_target_fence then target0 else gen0)) (\<lambda>h.
         Inr \<lparr>mc_header = h, mc_phase = phase, mc_online = Some
           \<lparr>om_migration_id = mid, om_source_epoch = source_epoch,
            om_source_generation = source_generation, om_retained_generation = retained,
            om_target_generation = target, om_target_backend_class_digest = class,
            om_catalog_version = catalog, om_verified_index = verified,
            om_logical_digest = logical\<rparr>\<rparr>)))))))"

definition cuts_over_from :: "migration_command \<Rightarrow> placement_epoch \<Rightarrow> backend_generation \<Rightarrow> bool" where
  "cuts_over_from c epoch gen =
     ((mc_phase c = Activate \<or> mc_phase c = Rollback) \<and>
      (case mc_online c of None \<Rightarrow> False | Some x \<Rightarrow>
         om_source_epoch x = epoch \<and> om_source_generation x = gen \<and>
         ident_get (ch_placement_epoch (mc_header c)) =
           (case u64_succ (ident_get epoch) of None \<Rightarrow> 0 | Some e \<Rightarrow> e) \<and>
         ch_backend_generation (mc_header c) = om_target_generation x))"

definition migration_decode_online ::
    "command_header \<Rightarrow> u128 \<Rightarrow> u64 \<Rightarrow> u64 \<Rightarrow> u64 \<Rightarrow> u64 \<Rightarrow> digest32 \<Rightarrow> version \<Rightarrow> u64 \<Rightarrow> digest32
      \<Rightarrow> migration_phase \<Rightarrow> (shard_error, migration_command) result" where
  "migration_decode_online h mid epoch gen retained target class catalog verified logical phase =
     try_r (migration_command_online (ch_command_id h) mid epoch gen retained target class catalog
              verified logical phase) (\<lambda>c.
       if mc_header c \<noteq> h
       then Inl (InvalidCommand ''migration command header contradicts its context'') else Inr c)"

definition migration_phase_tag :: "migration_phase \<Rightarrow> byte" where
  "migration_phase_tag p = (case p of
     Prepare \<Rightarrow> 1 | Activate \<Rightarrow> 2 | Retire \<Rightarrow> 3 | Grace \<Rightarrow> 4 | Complete \<Rightarrow> 5 | Abort \<Rightarrow> 6 | Rollback \<Rightarrow> 7)"

definition decode_migration_phase :: "byte \<Rightarrow> (shard_error, migration_phase) result" where
  "decode_migration_phase tag =
     (if tag = 1 then Inr Prepare else if tag = 2 then Inr Activate else if tag = 3 then Inr Retire
      else if tag = 4 then Inr Grace else if tag = 5 then Inr Complete else if tag = 6 then Inr Abort
      else if tag = 7 then Inr Rollback else Inl (InvalidCommand ''unknown migration phase''))"

definition migration_phase_name :: "migration_phase \<Rightarrow> string" where
  "migration_phase_name p = (case p of
     Prepare \<Rightarrow> ''prepare'' | Activate \<Rightarrow> ''activate'' | Grace \<Rightarrow> ''grace'' | Retire \<Rightarrow> ''retire''
   | Complete \<Rightarrow> ''complete'' | Abort \<Rightarrow> ''abort'' | Rollback \<Rightarrow> ''rollback'')"

definition migration_metadata :: "migration_command \<Rightarrow> (shard_error, replica_metadata) result" where
  "migration_metadata c =
     of_storage (replica_metadata_new ''dtg.migration_phase'' (case mc_online c of
       None \<Rightarrow> VString (migration_phase_name (mc_phase c))
     | Some x \<Rightarrow> VMap (bm_of
        [(''phase'', VString (migration_phase_name (mc_phase c))),
         (''migration_id'', VBytes (u128_be (om_migration_id x))),
         (''source_epoch'', VBytes (u64_be (ident_get (om_source_epoch x)))),
         (''source_generation'', VBytes (u64_be (ident_get (om_source_generation x)))),
         (''retained_generation'', VBytes (u64_be (ident_get (om_retained_generation x)))),
         (''target_generation'', VBytes (u64_be (ident_get (om_target_generation x)))),
         (''target_backend_class_digest'', VBytes (b32_be (om_target_backend_class_digest x))),
         (''catalog_version'', VBytes (u64_be (om_catalog_version x))),
         (''verified_index'', VBytes (u64_be (om_verified_index x))),
         (''logical_digest'', VBytes (b32_be (om_logical_digest x)))])))"

section \<open>Commands\<close>

datatype shard_command =
    CommitSingleShard commit_single_shard
  | CommitSingleShardTransaction commit_single_shard_transaction
  | PrewriteIntent prewrite_intent
  | RecordHomeDecision record_home_decision
  | FinalizeParticipant finalize_participant
  | AdvanceClosedTimestamp advance_closed_timestamp
  | InstallSnapshot install_snapshot
  | Migration migration_command

fun command_header_of :: "shard_command \<Rightarrow> command_header" where
  "command_header_of (CommitSingleShard c) = css_header c"
| "command_header_of (CommitSingleShardTransaction c) = cst_header c"
| "command_header_of (PrewriteIntent c) = pw_header c"
| "command_header_of (RecordHomeDecision c) = hd_header c"
| "command_header_of (FinalizeParticipant c) = fp_header c"
| "command_header_of (AdvanceClosedTimestamp c) = ac_header c"
| "command_header_of (InstallSnapshot c) = is_header c"
| "command_header_of (Migration c) = mc_header c"

definition closed_timestamp_metadata_name :: string where
  "closed_timestamp_metadata_name = ''dtg.closed_timestamp''"

fun command_mutations ::
    "(byte list \<Rightarrow> digest32) \<Rightarrow> shard_command \<Rightarrow> (shard_error, logical_mutation list) result" where
  "command_mutations blake3 (CommitSingleShard c) =
     try_r (validate_single_shard_mutations (css_mutations c)) (\<lambda>_. Inr (css_mutations c))"
| "command_mutations blake3 (CommitSingleShardTransaction c) =
     try_r (cst_validate c) (\<lambda>_. Inr (cst_mutations c))"
| "command_mutations blake3 (PrewriteIntent c) = prewrite_mutations blake3 c"
| "command_mutations blake3 (RecordHomeDecision c) =
     try_r (home_decision_validate blake3 c) (\<lambda>_. Inr [PutTransaction (hd_decision c)])"
| "command_mutations blake3 (FinalizeParticipant c) = finalize_mutations blake3 c"
| "command_mutations blake3 (AdvanceClosedTimestamp c) =
     try_r (of_storage (replica_metadata_new closed_timestamp_metadata_name
              (VInteger (ac_closed_timestamp c)))) (\<lambda>md. Inr [PutReplicaMetadata md])"
| "command_mutations blake3 (InstallSnapshot c) =
     try_r (of_storage (replica_metadata_new ''dtg.installed_snapshot'' (VMap (bm_of
              [(''snapshot_id'', VBytes (u128_be (is_snapshot_id c))),
               (''content_digest'', VBytes (b32_be (is_content_digest c)))])))) (\<lambda>md.
       Inr [PutReplicaMetadata md])"
| "command_mutations blake3 (Migration c) =
     try_r (migration_metadata c) (\<lambda>md. Inr [PutReplicaMetadata md])"

section \<open>Encoding\<close>

definition enc_header :: "command_header \<Rightarrow> byte list" where
  "enc_header h =
     u128_be (ident128_get (ch_command_id h)) @ u64_be (ident_get (ch_placement_epoch h)) @
     u64_be (ident_get (ch_backend_generation h))"

fun command_shape_ok :: "(byte list \<Rightarrow> digest32) \<Rightarrow> shard_command \<Rightarrow> (shard_error, unit) result" where
  "command_shape_ok blake3 (CommitSingleShard c) = validate_single_shard_mutations (css_mutations c)"
| "command_shape_ok blake3 (CommitSingleShardTransaction c) = cst_validate c"
| "command_shape_ok blake3 (PrewriteIntent c) = prewrite_validate blake3 c"
| "command_shape_ok blake3 (RecordHomeDecision c) = home_decision_validate blake3 c"
| "command_shape_ok blake3 (FinalizeParticipant c) = finalize_validate blake3 c"
| "command_shape_ok blake3 _ = Inr ()"

definition enc_participant ::
    "byte list \<Rightarrow> home_decision_participant \<Rightarrow> (shard_error, byte list) result" where
  "enc_participant buf p =
     enc_bytes (b32_be (hp_intent_digest p))
       (buf @ u64_be (ident_get (hp_shard_id p)) @ u64_be (ident_get (hp_placement_epoch p)) @
        u64_be (ident_get (hp_backend_generation p)) @ u64_be (hp_snapshot_applied_index p))"

fun enc_command_body :: "shard_command \<Rightarrow> byte list \<Rightarrow> (shard_error, byte list) result" where
  "enc_command_body (CommitSingleShard c) buf =
     enc_mutations (css_mutations c) (buf @ [1] @ enc_header (css_header c))"
| "enc_command_body (CommitSingleShardTransaction c) buf =
     try_r (enc_bytes (b32_be (cst_request_digest c))
       (buf @ [8] @ enc_header (cst_header c) @ u128_be (ident128_get (cst_transaction_id c)) @
        i64_be (cst_start_time c) @ u64_be (cst_snapshot_applied_index c)))
       (\<lambda>buf'. enc_mutations (cst_mutations c) buf')"
| "enc_command_body (PrewriteIntent c) buf =
     try_r (intent_encode (pw_intent c)) (\<lambda>encoded.
       enc_bytes encoded (buf @ [2] @ enc_header (pw_header c) @ enc_transaction (pw_prepared c)))"
| "enc_command_body (RecordHomeDecision c) buf =
     (let m = hd_manifest c in
      if 2 ^ 32 \<le> length (hm_participants m)
      then Inl (InvalidCommand ''too many home decision participants'')
      else try_fold enc_participant
        (buf @ [3] @ enc_header (hd_header c) @ enc_transaction (hd_decision c) @
         i64_be (hm_start_time m) @ u64_be (hm_catalog_version m) @
         u32_be (word_of_nat (length (hm_participants m)))) (hm_participants m))"
| "enc_command_body (FinalizeParticipant c) buf =
     (let buf' = buf @ [4] @ enc_header (fp_header c) @ enc_transaction (fp_terminal c) in
      case fp_intent c of
        Some i \<Rightarrow> try_r (intent_encode i) (\<lambda>encoded. enc_bytes encoded (buf' @ [1]))
      | None \<Rightarrow> Inr (buf' @ [0]))"
| "enc_command_body (AdvanceClosedTimestamp c) buf =
     Inr (buf @ [5] @ enc_header (ac_header c) @ i64_be (ac_closed_timestamp c))"
| "enc_command_body (InstallSnapshot c) buf =
     enc_bytes (b32_be (is_content_digest c))
       (buf @ [6] @ enc_header (is_header c) @ u128_be (is_snapshot_id c))"
| "enc_command_body (Migration c) buf =
     (let buf' = buf @ [7] @ enc_header (mc_header c) @ [migration_phase_tag (mc_phase c)] in
      case mc_online c of
        None \<Rightarrow> Inr buf'
      | Some x \<Rightarrow>
          try_r (enc_bytes (b32_be (om_target_backend_class_digest x))
            (buf' @ [1] @ u128_be (om_migration_id x) @ u64_be (ident_get (om_source_epoch x)) @
             u64_be (ident_get (om_source_generation x)) @
             u64_be (ident_get (om_retained_generation x)) @
             u64_be (ident_get (om_target_generation x)))) (\<lambda>buf1.
          enc_bytes (b32_be (om_logical_digest x))
            (buf1 @ u64_be (om_catalog_version x) @ u64_be (om_verified_index x))))"

definition shard_command_encode ::
    "(byte list \<Rightarrow> digest32) \<Rightarrow> shard_command \<Rightarrow> (shard_error, byte list) result" where
  "shard_command_encode blake3 c =
     try_r (command_shape_ok blake3 c) (\<lambda>_.
     try_r (enc_command_body c (u32_be 3)) (\<lambda>buf. encoder_finish buf))"

section \<open>Decoding\<close>

definition dec_header :: "command_header dec" where
  "dec_header =
     dec_bind dec_u128 (\<lambda>i. dec_bind (dec_of (of_storage (command_id_new i))) (\<lambda>cid.
     dec_bind dec_u64 (\<lambda>epoch. dec_bind dec_u64 (\<lambda>gen.
     dec_of (command_header_new cid epoch gen)))))"

definition dec_epoch :: "placement_epoch dec" where
  "dec_epoch = dec_bind dec_u64 (\<lambda>e. dec_of (of_kernel (ident_new e)))"

definition dec_generation :: "backend_generation dec" where
  "dec_generation = dec_bind dec_u64 (\<lambda>g. dec_of (of_kernel (ident_new g)))"

definition dec_participant :: "home_decision_participant dec" where
  "dec_participant =
     dec_bind dec_shard_id (\<lambda>shard. dec_bind dec_epoch (\<lambda>epoch. dec_bind dec_generation (\<lambda>gen.
     dec_bind dec_u64 (\<lambda>snap. dec_bind dec_fixed_32 (\<lambda>digest.
     dec_of (home_participant_new shard epoch gen snap digest))))))"

definition dec_intent_field :: "participant_intent dec" where
  "dec_intent_field = dec_bind dec_bytes (\<lambda>bs. dec_of (intent_decode bs))"

definition dec_is_finished :: "bool dec" where
  "dec_is_finished = (\<lambda>st. Inr (fst st = [], st))"

definition dec_home_decision ::
    "(byte list \<Rightarrow> digest32) \<Rightarrow> command_header \<Rightarrow> record_home_decision dec" where
  "dec_home_decision blake3 h =
     dec_bind dec_transaction (\<lambda>decision. dec_bind dec_time (\<lambda>start. dec_bind dec_u64 (\<lambda>catalog.
     dec_bind dec_collection_count (\<lambda>n. dec_bind (dec_times n dec_participant) (\<lambda>ps.
     dec_bind (dec_of (home_manifest_new start catalog ps)) (\<lambda>manifest.
     dec_of (record_home_decision_new blake3 (ch_command_id h) (ident_get (ch_placement_epoch h))
       (ident_get (ch_backend_generation h)) decision manifest)))))))"

definition dec_migration_online :: "command_header \<Rightarrow> migration_phase \<Rightarrow> migration_command dec" where
  "dec_migration_online h phase =
     dec_bind dec_u128 (\<lambda>mid. dec_bind dec_u64 (\<lambda>epoch. dec_bind dec_u64 (\<lambda>gen.
     dec_bind dec_u64 (\<lambda>retained. dec_bind dec_u64 (\<lambda>target. dec_bind dec_fixed_32 (\<lambda>class.
     dec_bind dec_u64 (\<lambda>catalog. dec_bind dec_u64 (\<lambda>verified. dec_bind dec_fixed_32 (\<lambda>logical.
     dec_of (migration_decode_online h mid epoch gen retained target class catalog verified logical
       phase))))))))))"

definition dec_migration :: "command_header \<Rightarrow> migration_command dec" where
  "dec_migration h =
     dec_bind dec_u8 (\<lambda>t. dec_bind (dec_of (decode_migration_phase t)) (\<lambda>phase.
     dec_bind dec_is_finished (\<lambda>finished.
       if finished
       then dec_of (migration_command_new (ch_command_id h) (ident_get (ch_placement_epoch h))
              (ident_get (ch_backend_generation h)) phase)
       else dec_bind dec_u8 (\<lambda>p.
         if p = 1 then dec_migration_online h phase
         else dec_err ''unknown migration context presence tag''))))"

definition dec_command_body ::
    "(byte list \<Rightarrow> digest32) \<Rightarrow> byte \<Rightarrow> command_header \<Rightarrow> shard_command dec" where
  "dec_command_body blake3 tag h =
     (if tag = 1 then dec_bind dec_mutations (\<lambda>ms.
        dec_ret (CommitSingleShard \<lparr>css_header = h, css_mutations = ms\<rparr>))
      else if tag = 8 then
        dec_bind dec_transaction_id (\<lambda>tx. dec_bind dec_time (\<lambda>start. dec_bind dec_u64 (\<lambda>snap.
        dec_bind dec_fixed_32 (\<lambda>digest. dec_bind dec_mutations (\<lambda>ms.
        dec_ret (CommitSingleShardTransaction
          \<lparr>cst_header = h, cst_transaction_id = tx, cst_start_time = start,
           cst_snapshot_applied_index = snap, cst_request_digest = digest, cst_mutations = ms\<rparr>))))))
      else if tag = 2 then dec_bind dec_transaction (\<lambda>prepared. dec_bind dec_intent_field (\<lambda>intent.
        dec_ret (PrewriteIntent \<lparr>pw_header = h, pw_prepared = prepared, pw_intent = intent\<rparr>)))
      else if tag = 3 then dec_bind (dec_home_decision blake3 h) (\<lambda>c. dec_ret (RecordHomeDecision c))
      else if tag = 4 then dec_bind dec_transaction (\<lambda>terminal. dec_bind dec_u8 (\<lambda>p.
        if p = 0 then dec_ret (FinalizeParticipant
          \<lparr>fp_header = h, fp_terminal = terminal, fp_intent = None\<rparr>)
        else if p = 1 then dec_bind dec_intent_field (\<lambda>intent. dec_ret (FinalizeParticipant
          \<lparr>fp_header = h, fp_terminal = terminal, fp_intent = Some intent\<rparr>))
        else dec_err ''unknown participant intent presence tag''))
      else if tag = 5 then dec_bind dec_time (\<lambda>t.
        dec_ret (AdvanceClosedTimestamp \<lparr>ac_header = h, ac_closed_timestamp = t\<rparr>))
      else if tag = 6 then dec_bind dec_u128 (\<lambda>sid. dec_bind dec_fixed_32 (\<lambda>digest.
        dec_bind (dec_of (install_snapshot_new (ch_command_id h) (ident_get (ch_placement_epoch h))
          (ident_get (ch_backend_generation h)) sid digest)) (\<lambda>c. dec_ret (InstallSnapshot c))))
      else if tag = 7 then dec_bind (dec_migration h) (\<lambda>c. dec_ret (Migration c))
      else dec_err ''unknown command tag'')"

definition dec_command :: "(byte list \<Rightarrow> digest32) \<Rightarrow> shard_command dec" where
  "dec_command blake3 =
     dec_bind dec_u32 (\<lambda>version.
       if version \<noteq> 3 then dec_of (Inl (UnsupportedCommandVersion version))
       else dec_bind dec_u8 (\<lambda>tag. dec_bind dec_header (\<lambda>h. dec_command_body blake3 tag h)))"

definition empty_mutation_command :: "shard_command \<Rightarrow> bool" where
  "empty_mutation_command c = (case c of
     CommitSingleShard x \<Rightarrow> css_mutations x = []
   | CommitSingleShardTransaction x \<Rightarrow> cst_mutations x = []
   | _ \<Rightarrow> False)"

definition shard_command_decode ::
    "(byte list \<Rightarrow> digest32) \<Rightarrow> byte list \<Rightarrow> (shard_error, shard_command) result" where
  "shard_command_decode blake3 bytes =
     try_r (decoder_new bytes) (\<lambda>st.
     try_r (dec_command blake3 st) (\<lambda>p.
     try_r (decoder_finish (snd p)) (\<lambda>_.
       if empty_mutation_command (fst p)
       then Inl (InvalidCommand ''mutation command must not be empty'')
       else try_r (command_mutations blake3 (fst p)) (\<lambda>_. Inr (fst p)))))"

end
