(* ===== verification/Shard_Command_Props.thy ===== *)
theory Shard_Command_Props
  imports Shard_Command
begin

text \<open>
  The command format: decoding inverts encoding on the commands the constructors build, whatever
  decodes is such a command, and no input makes the decoder panic.
\<close>

section \<open>Well-formed commands\<close>

definition header_wf :: "command_header \<Rightarrow> bool" where
  "header_wf h =
     (ident128_ok (ch_command_id h) \<and> ident_ok (ch_placement_epoch h) \<and> ident_ok (ch_backend_generation h))"

definition intent_wf :: "participant_intent \<Rightarrow> bool" where
  "intent_wf i =
     (ident128_ok (pi_transaction_id i) \<and> ident_ok (pi_shard_id i) \<and> time_ok (pi_start_time i) \<and>
      list_all mutation_wf (pi_mutations i) \<and> is_ok (intent_encode i))"

definition participant_wf :: "home_decision_participant \<Rightarrow> bool" where
  "participant_wf p =
     (ident_ok (hp_shard_id p) \<and> ident_ok (hp_placement_epoch p) \<and> ident_ok (hp_backend_generation p) \<and>
      hp_intent_digest p \<noteq> 0)"

definition manifest_wf :: "home_decision_manifest \<Rightarrow> bool" where
  "manifest_wf m =
     (time_ok (hm_start_time m) \<and> list_all participant_wf (hm_participants m) \<and>
      home_manifest_new (hm_start_time m) (hm_catalog_version m) (hm_participants m) = Inr m)"

definition migration_wf :: "migration_command \<Rightarrow> bool" where
  "migration_wf c = (header_wf (mc_header c) \<and> (case mc_online c of None \<Rightarrow> True | Some x \<Rightarrow>
     migration_command_online (ch_command_id (mc_header c)) (om_migration_id x)
       (ident_get (om_source_epoch x)) (ident_get (om_source_generation x))
       (ident_get (om_retained_generation x)) (ident_get (om_target_generation x))
       (om_target_backend_class_digest x) (om_catalog_version x) (om_verified_index x)
       (om_logical_digest x) (mc_phase c) = Inr c))"

fun command_wf :: "(byte list \<Rightarrow> digest32) \<Rightarrow> shard_command \<Rightarrow> bool" where
  "command_wf blake3 (CommitSingleShard c) =
     (header_wf (css_header c) \<and> css_mutations c \<noteq> [] \<and> list_all mutation_wf (css_mutations c) \<and>
      validate_single_shard_mutations (css_mutations c) = Inr ())"
| "command_wf blake3 (CommitSingleShardTransaction c) =
     (header_wf (cst_header c) \<and> ident128_ok (cst_transaction_id c) \<and> time_ok (cst_start_time c) \<and>
      list_all mutation_wf (cst_mutations c) \<and> cst_validate c = Inr ())"
| "command_wf blake3 (PrewriteIntent c) =
     (header_wf (pw_header c) \<and> transaction_wf (pw_prepared c) \<and> intent_wf (pw_intent c) \<and>
      prewrite_validate blake3 c = Inr ())"
| "command_wf blake3 (RecordHomeDecision c) =
     (header_wf (hd_header c) \<and> transaction_wf (hd_decision c) \<and> manifest_wf (hd_manifest c) \<and>
      home_decision_validate blake3 c = Inr ())"
| "command_wf blake3 (FinalizeParticipant c) =
     (header_wf (fp_header c) \<and> transaction_wf (fp_terminal c) \<and>
      (case fp_intent c of None \<Rightarrow> True | Some i \<Rightarrow> intent_wf i) \<and> finalize_validate blake3 c = Inr ())"
| "command_wf blake3 (AdvanceClosedTimestamp c) =
     (header_wf (ac_header c) \<and> time_ok (ac_closed_timestamp c))"
| "command_wf blake3 (InstallSnapshot c) =
     (header_wf (is_header c) \<and> is_snapshot_id c \<noteq> 0 \<and> is_content_digest c \<noteq> 0)"
| "command_wf blake3 (Migration c) = migration_wf c"

section \<open>Decoding what was encoded\<close>

definition completes :: "'a dec \<Rightarrow> byte list \<Rightarrow> nat \<Rightarrow> 'a \<Rightarrow> bool" where
  "completes d bs g a = (\<exists>g'. d (bs, g) = Inr (a, ([], g')))"

lemma completes_bind:
  "reads d bs a g h \<Longrightarrow> completes (k a) cs h b \<Longrightarrow> completes (dec_bind d k) (bs @ cs) g b"
  by (auto simp: completes_def reads_def dec_bind_def)

lemma completes_end: "reads d bs a g h \<Longrightarrow> completes d bs g a"
  unfolding completes_def reads_def by (metis append_Nil2)

lemma completes_then: "completes d bs g a \<Longrightarrow> (\<And>g. reads (k a) [] b g g) \<Longrightarrow> completes (dec_bind d k) bs g b"
  by (auto simp: completes_def reads_def dec_bind_def)

lemma completes_of: "r = Inr a \<Longrightarrow> completes (k a) bs g b \<Longrightarrow> completes (dec_bind (dec_of r) k) bs g b"
  by (simp add: completes_def dec_bind_def dec_of_def)

lemma completes_finished: "completes (k (bs = [])) bs g b \<Longrightarrow> completes (dec_bind dec_is_finished k) bs g b"
  by (simp add: completes_def dec_bind_def dec_is_finished_def)

lemma intent_eta [simp]:
  "\<lparr>pi_transaction_id = pi_transaction_id i, pi_shard_id = pi_shard_id i, pi_start_time = pi_start_time i,
    pi_snapshot_applied_index = pi_snapshot_applied_index i, pi_mutations = pi_mutations i\<rparr> = i"
  by (cases i) simp

lemma enc_bytes_Inr: "enc_bytes v buf = Inr buf' \<longleftrightarrow>
    length v < 2 ^ 32 \<and> length buf + 4 + length v \<le> max_command_bytes \<and>
    buf' = buf @ u32_be (word_of_nat (length v)) @ v"
  by (auto simp: enc_bytes_def Let_def)

lemma reads_map: "reads d bs a g h \<Longrightarrow> reads (dec_bind d (\<lambda>x. dec_ret (f x))) bs (f a) g h"
  by (rule reads_bind_pure [OF _ reads_ret])

lemma reads_skip: "reads d [] a g h \<Longrightarrow> reads (k a) bs b h i \<Longrightarrow> reads (dec_bind d k) bs b g i"
  using reads_bind [of d "[]"] by simp

lemma reads_times:
  "list_all (\<lambda>x. \<forall>g. reads d (f x) x g g) xs \<Longrightarrow> reads (dec_times (length xs) d) (concat (map f xs)) xs g g"
proof (induction xs)
  case (Cons x xs)
  then have "reads d (f x) x g g" "reads (dec_times (length xs) d) (concat (map f xs)) xs g g" by auto
  then show ?case by (simp, intro reads_bind [OF _ reads_map])
qed (simp add: reads_ret)

lemma enc_mutation_fold:
  "list_all mutation_wf ms \<Longrightarrow> try_fold (\<lambda>st m. enc_mutation m st) st ms = Inr st' \<Longrightarrow>
     \<exists>bs. fst st' = fst st @ bs \<and> reads (dec_times (length ms) dec_mutation) bs ms (snd st) (snd st')"
proof (induction ms arbitrary: st)
  case (Cons m ms)
  from Cons.prems obtain s1 where s1: "enc_mutation m st = Inr s1"
    and rest: "try_fold (\<lambda>st m. enc_mutation m st) s1 ms = Inr st'" by (auto simp: result_simps)
  from Cons.prems writesD [OF writes_mutation s1] obtain bs
    where bs: "fst s1 = fst st @ bs" "reads dec_mutation bs m (snd st) (snd s1)" by auto
  from Cons.IH [OF _ rest] Cons.prems obtain cs
    where cs: "fst st' = fst s1 @ cs" "reads (dec_times (length ms) dec_mutation) cs ms (snd s1) (snd st')"
    by auto
  from bs cs show ?case
    by (intro exI [of _ "bs @ cs"]) (auto intro: reads_bind [OF _ reads_map])
qed (simp add: reads_ret)

lemma enc_mutations_reads:
  assumes "list_all mutation_wf ms" and "enc_mutations ms buf = Inr buf'" and "length ms \<le> limit"
  shows "\<exists>bs g. buf' = buf @ bs \<and> reads (dec_mutations_with_limit limit msg) bs ms max_allocation_items g"
proof -
  from assms(2) obtain g0 st where n: "length ms \<le> max_collection_items"
    and g0: "budget_consume max_allocation_items (length ms) = Inr g0"
    and st: "try_fold (\<lambda>st m. enc_mutation m st) (buf @ u32_be (word_of_nat (length ms)), g0) ms = Inr st"
    and buf': "buf' = fst st"
    by (auto simp: enc_mutations_def enc_count_def result_simps split: if_splits)
  from enc_mutation_fold [OF assms(1) st] obtain bs
    where bs: "fst st = buf @ u32_be (word_of_nat (length ms)) @ bs"
      "reads (dec_times (length ms) dec_mutation) bs ms g0 (snd st)" by auto
  have "reads (dec_mutations_with_limit limit msg) (u32_be (word_of_nat (length ms)) @ bs) ms
      max_allocation_items (snd st)"
    unfolding dec_mutations_with_limit_def
    by (rule reads_bind [OF reads_count [OF n]])
      (use assms(3) reads_skip [OF reads_consume [OF g0] bs(2)] in simp)
  with bs buf' show ?thesis by auto
qed

lemma reads_header: "header_wf h \<Longrightarrow> reads dec_header (enc_header h) h g g"
  unfolding dec_header_def enc_header_def header_wf_def
  apply (rule reads_bind [OF reads_words(3)])
  apply (rule reads_bind [where bs = "[]", simplified, OF reads_of [where a = "ch_command_id h"]])
   apply (simp add: command_id_new_def ident128_ok_def)
  apply (rule reads_bind [OF reads_words(2)])
  apply (rule reads_bind_pure [OF reads_words(2)])
  apply (rule reads_of)
  apply (simp add: command_header_new_def)
  done

lemma reads_participant:
  "participant_wf p \<Longrightarrow> reads dec_participant
     (u64_be (ident_get (hp_shard_id p)) @ u64_be (ident_get (hp_placement_epoch p)) @
      u64_be (ident_get (hp_backend_generation p)) @ u64_be (hp_snapshot_applied_index p) @
      u32_be 32 @ b32_be (hp_intent_digest p)) p g g"
  unfolding dec_participant_def participant_wf_def dec_epoch_def dec_generation_def
  by (intro reads_bind reads_bind_pure)
    (auto intro!: reads_intros reads_bind_pure [OF reads_words(2)] reads_of simp: home_participant_new_def)

lemma intent_roundtrip:
  assumes "intent_wf i" and "intent_encode i = Inr bs"
  shows "intent_decode bs = Inr i"
proof -
  from assms(2) obtain buf where v: "validate_intent_mutations (pi_mutations i) = Inr ()"
    and buf: "enc_mutations (pi_mutations i) (intent_prefix i) = Inr buf"
    and len: "length bs \<le> max_command_bytes" "length bs \<le> max_transaction_intent_bytes" and "bs = buf"
    by (auto simp: intent_encode_def encoder_finish_def result_simps not_less split: if_splits)
  have n: "length (pi_mutations i) \<le> max_transaction_intent_items"
    using v by (auto simp: validate_intent_mutations_def split: if_splits)
  from assms(1) have wf: "ident128_ok (pi_transaction_id i)" "ident_ok (pi_shard_id i)"
    "time_ok (pi_start_time i)" "list_all mutation_wf (pi_mutations i)" by (auto simp: intent_wf_def)
  from enc_mutations_reads [OF wf(4) buf n] obtain ms g
    where ms: "buf = intent_prefix i @ ms"
      "reads (dec_mutations_with_limit max_transaction_intent_items
        ''transaction intent mutation count is outside the supported bounds'') ms (pi_mutations i)
        max_allocation_items g" by blast
  have "completes dec_intent buf max_allocation_items i"
    unfolding dec_intent_def ms(1) intent_prefix_def append_assoc
    apply (rule completes_bind [OF reads_words(1)], simp)
    apply (rule completes_bind [OF reads_idents(1) [OF wf(1)]])
    apply (rule completes_bind [OF reads_idents(2) [OF wf(2)]])
    apply (rule completes_bind [OF reads_time [OF wf(3)]])
    apply (rule completes_bind [OF reads_words(2)])
    apply (rule completes_then [OF completes_end [OF ms(2)]])
    apply (simp add: reads_ret)
    done
  moreover have "buf \<noteq> []" using ms by (auto simp: intent_prefix_def dest: arg_cong [where f = length])
  ultimately show ?thesis
    using len \<open>bs = buf\<close> v assms(2)
    by (auto simp: intent_decode_def decoder_new_def decoder_finish_def completes_def
        participant_intent_new_def Let_def)
qed

text \<open>The intent field of a command.\<close>

lemma reads_intent_field:
  assumes "intent_wf i" and "intent_encode i = Inr bs"
  shows "reads dec_intent_field (u32_be (word_of_nat (length bs)) @ bs) i g g"
proof -
  from assms(2) have "length bs < 2 ^ 32"
    by (auto simp: intent_encode_def result_simps max_transaction_intent_bytes_def split: if_splits)
  then show ?thesis
    unfolding dec_intent_field_def
    by (intro reads_bind_pure [OF reads_bytes] reads_of) (simp_all add: intent_roundtrip assms)
qed

lemma enc_participants_fold:
  "try_fold enc_participant buf ps = Inr buf' \<Longrightarrow>
     buf' = buf @ concat (map (\<lambda>p. u64_be (ident_get (hp_shard_id p)) @
        u64_be (ident_get (hp_placement_epoch p)) @ u64_be (ident_get (hp_backend_generation p)) @
        u64_be (hp_snapshot_applied_index p) @ u32_be 32 @ b32_be (hp_intent_digest p)) ps)"
proof (induction ps arbitrary: buf)
  case (Cons p ps)
  from Cons.prems obtain b where b: "enc_participant buf p = Inr b"
    and rest: "try_fold enc_participant b ps = Inr buf'" by (auto simp: result_simps)
  from Cons.IH [OF rest] b show ?case by (simp add: enc_participant_def enc_bytes_Inr)
qed simp

lemma header_again:
  "header_wf h \<Longrightarrow> command_header_new (ch_command_id h) (ident_get (ch_placement_epoch h))
     (ident_get (ch_backend_generation h)) = Inr h"
  by (simp add: command_header_new_def header_wf_def)

lemma decode_phase_tag [simp]: "decode_migration_phase (migration_phase_tag p) = Inr p"
  by (cases p) (simp_all add: decode_migration_phase_def migration_phase_tag_def)

lemma reads_migration_online:
  assumes "migration_wf c" and "mc_online c = Some x"
  shows "reads (dec_migration_online (mc_header c) (mc_phase c))
    (u128_be (om_migration_id x) @ u64_be (ident_get (om_source_epoch x)) @
     u64_be (ident_get (om_source_generation x)) @ u64_be (ident_get (om_retained_generation x)) @
     u64_be (ident_get (om_target_generation x)) @
     (u32_be 32 @ b32_be (om_target_backend_class_digest x)) @
     u64_be (om_catalog_version x) @ u64_be (om_verified_index x) @
     (u32_be 32 @ b32_be (om_logical_digest x))) c g g"
  unfolding dec_migration_online_def
  by (rule reads_bind reads_bind_pure reads_words reads_fixed_32 reads_of)+
    (use assms in \<open>simp add: migration_wf_def migration_decode_online_def\<close>)

lemma completes_migration:
  assumes "migration_wf c" and "enc_command_body (Migration c) buf = Inr buf'"
  shows "\<exists>bs. buf' = buf @ [7] @ enc_header (mc_header c) @ bs \<and> completes (dec_migration (mc_header c)) bs g c"
proof (cases "mc_online c")
  case None
  have "completes (dec_migration (mc_header c)) ([migration_phase_tag (mc_phase c)] @ []) g c"
    unfolding dec_migration_def
    by (rule completes_bind [OF reads_u8], rule completes_of, simp, rule completes_finished)
      (use assms(1) None in \<open>cases c, simp add: completes_def dec_of_def
        migration_command_new_def header_again [simplified] migration_wf_def\<close>)
  with assms(2) None show ?thesis by auto
next
  case (Some x)
  let ?ctx = "u128_be (om_migration_id x) @ u64_be (ident_get (om_source_epoch x)) @
     u64_be (ident_get (om_source_generation x)) @ u64_be (ident_get (om_retained_generation x)) @
     u64_be (ident_get (om_target_generation x)) @
     (u32_be 32 @ b32_be (om_target_backend_class_digest x)) @
     u64_be (om_catalog_version x) @ u64_be (om_verified_index x) @
     (u32_be 32 @ b32_be (om_logical_digest x))"
  have "completes (dec_bind dec_u8 (\<lambda>p. if p = 1 then dec_migration_online (mc_header c) (mc_phase c)
      else dec_err ''unknown migration context presence tag'')) ([1] @ ?ctx) g c"
    by (rule completes_bind [OF reads_u8]) (simp, rule completes_end [OF reads_migration_online [OF assms(1) Some], simplified])
  then have "completes (dec_migration (mc_header c)) ([migration_phase_tag (mc_phase c)] @ [1] @ ?ctx) g c"
    unfolding dec_migration_def
    by (intro completes_bind [OF reads_u8] completes_finished completes_of [OF decode_phase_tag]) simp
  moreover have "buf' = buf @ [7] @ enc_header (mc_header c) @ [migration_phase_tag (mc_phase c)] @ [1] @ ?ctx"
    using assms(2) Some by (auto simp: result_simps enc_bytes_Inr Let_def)
  ultimately show ?thesis by blast
qed

lemma completes_home_decision:
  assumes wf: "command_wf blake3 (RecordHomeDecision c)"
    and enc: "enc_command_body (RecordHomeDecision c) buf = Inr buf'"
  shows "\<exists>bs. buf' = buf @ [3] @ enc_header (hd_header c) @ bs \<and>
    completes (dec_home_decision blake3 (hd_header c)) bs max_allocation_items c"
proof -
  let ?m = "hd_manifest c"
  let ?f = "\<lambda>p. u64_be (ident_get (hp_shard_id p)) @
        u64_be (ident_get (hp_placement_epoch p)) @ u64_be (ident_get (hp_backend_generation p)) @
        u64_be (hp_snapshot_applied_index p) @ u32_be 32 @ b32_be (hp_intent_digest p)"
  let ?ps = "hm_participants ?m"
  from enc have buf': "buf' = buf @ [3] @ enc_header (hd_header c) @ enc_transaction (hd_decision c) @
      i64_be (hm_start_time ?m) @ u64_be (hm_catalog_version ?m) @
      u32_be (word_of_nat (length ?ps)) @ concat (map ?f ?ps)"
    by (auto simp: Let_def dest!: enc_participants_fold split: if_splits)
  from wf have man: "manifest_wf ?m" and dec: "transaction_wf (hd_decision c)"
    and hdr: "header_wf (hd_header c)" and val: "home_decision_validate blake3 c = Inr ()" by auto
  from man have n: "length ?ps \<le> max_transaction_intent_items"
    by (auto simp: manifest_wf_def home_manifest_new_def Let_def split: if_splits)
  have parts: "\<And>g. reads (dec_times (length ?ps) dec_participant) (concat (map ?f ?ps)) ?ps g g"
    using man by (intro reads_times) (simp add: manifest_wf_def list_all_iff reads_participant)
  have count: "reads dec_collection_count (u32_be (word_of_nat (length ?ps))) (length ?ps)
      max_allocation_items (max_allocation_items - length ?ps)"
    unfolding dec_collection_count_def using n
    by (intro reads_bind_pure [OF reads_count] reads_map [OF reads_consume])
      (simp_all add: max_transaction_intent_items_def max_collection_items_def budget_consume_def
        max_allocation_items_def)
  have "completes (dec_home_decision blake3 (hd_header c)) (enc_transaction (hd_decision c) @
      i64_be (hm_start_time ?m) @ u64_be (hm_catalog_version ?m) @
      u32_be (word_of_nat (length ?ps)) @ concat (map ?f ?ps)) max_allocation_items c"
    unfolding dec_home_decision_def
    apply (rule completes_bind [OF reads_transaction [OF dec]])
    apply (rule completes_bind [OF reads_time], use man in \<open>simp add: manifest_wf_def\<close>)
    apply (rule completes_bind [OF reads_words(2)])
    apply (rule completes_bind [OF count])
    apply (rule completes_then [OF completes_end [OF parts]])
    apply (rule reads_skip [OF reads_of [where a = ?m]], use man in \<open>simp add: manifest_wf_def\<close>)
    apply (rule reads_of)
    using val header_again [OF hdr] by (cases c) (simp add: record_home_decision_new_def)
  with buf' show ?thesis by auto
qed

definition body_completes :: "(byte list \<Rightarrow> digest32) \<Rightarrow> shard_command \<Rightarrow> byte list \<Rightarrow> byte list \<Rightarrow> bool" where
  "body_completes blake3 c buf buf' = (\<exists>tag bs. buf' = buf @ [tag] @ enc_header (command_header_of c) @ bs \<and>
     completes (dec_command_body blake3 tag (command_header_of c)) bs max_allocation_items c)"

lemma body_completesI:
  "buf' = buf @ [tag] @ enc_header (command_header_of c) @ bs \<Longrightarrow>
     completes (dec_command_body blake3 tag (command_header_of c)) bs max_allocation_items c \<Longrightarrow>
     body_completes blake3 c buf buf'"
  unfolding body_completes_def by blast

lemma completes_map: "completes d bs g a \<Longrightarrow> completes (dec_bind d (\<lambda>x. dec_ret (f x))) bs g (f a)"
  by (rule completes_then [OF _ reads_ret])

lemma encoded_mutations:
  assumes "list_all mutation_wf ms" and "enc_mutations ms buf = Inr buf'"
  shows "\<exists>bs g. buf' = buf @ bs \<and> reads dec_mutations bs ms max_allocation_items g"
proof -
  have "length ms \<le> max_collection_items"
    using assms(2) by (auto simp: enc_mutations_def enc_count_def result_simps split: if_splits)
  from enc_mutations_reads [OF assms this] show ?thesis by (simp add: dec_mutations_def)
qed

lemma body_CommitSingleShard:
  assumes CommitSingleShard: "c = CommitSingleShard x" and wf: "command_wf blake3 c" and enc: "enc_command_body c buf = Inr buf'"
  shows "body_completes blake3 c buf buf'"
proof -
  from CommitSingleShard wf enc obtain bs g where "buf' = buf @ [1] @ enc_header (css_header x) @ bs"
    and r: "reads dec_mutations bs (css_mutations x) max_allocation_items g"
    using encoded_mutations [of "css_mutations x"] by fastforce
  moreover have "completes (dec_command_body blake3 1 (css_header x)) bs max_allocation_items c"
    using completes_map [OF completes_end [OF r], of "\<lambda>ms. CommitSingleShard \<lparr>css_header = css_header x, css_mutations = ms\<rparr>"]
      CommitSingleShard by (cases x) (simp add: dec_command_body_def)
  ultimately show ?thesis using CommitSingleShard by (intro body_completesI [where tag = 1]) auto
qed

lemma body_CommitSingleShardTransaction:
  assumes CommitSingleShardTransaction: "c = CommitSingleShardTransaction x" and wf: "command_wf blake3 c" and enc: "enc_command_body c buf = Inr buf'"
  shows "body_completes blake3 c buf buf'"
proof -
  from CommitSingleShardTransaction enc obtain b1 where b1: "enc_bytes (b32_be (cst_request_digest x))
       (buf @ [8] @ enc_header (cst_header x) @ u128_be (ident128_get (cst_transaction_id x)) @
        i64_be (cst_start_time x) @ u64_be (cst_snapshot_applied_index x)) = Inr b1"
    and ms: "enc_mutations (cst_mutations x) b1 = Inr buf'" by (auto simp: result_simps)
  from encoded_mutations [OF _ ms] wf CommitSingleShardTransaction obtain bs g
    where bs: "buf' = b1 @ bs" and r: "reads dec_mutations bs (cst_mutations x) max_allocation_items g"
    by auto
  have "completes (dec_command_body blake3 8 (cst_header x))
      (u128_be (ident128_get (cst_transaction_id x)) @ i64_be (cst_start_time x) @
       u64_be (cst_snapshot_applied_index x) @ (u32_be 32 @ b32_be (cst_request_digest x)) @ bs)
      max_allocation_items c"
    unfolding dec_command_body_def
    apply simp
    apply (rule completes_bind [OF reads_idents(1)], use wf CommitSingleShardTransaction in simp)
    apply (rule completes_bind [OF reads_time], use wf CommitSingleShardTransaction in simp)
    apply (rule completes_bind [OF reads_words(2)])
    apply (subst append_assoc [symmetric], rule completes_bind [OF reads_fixed_32])
    apply (rule completes_then [OF completes_end [OF r]])
    using CommitSingleShardTransaction by (cases x) (simp add: reads_ret)
  then show ?thesis
    using CommitSingleShardTransaction b1 bs
    by (intro body_completesI [where tag = 8]) (auto simp: enc_bytes_Inr)
qed

lemma body_PrewriteIntent:
  assumes PrewriteIntent: "c = PrewriteIntent x" and wf: "command_wf blake3 c" and enc: "enc_command_body c buf = Inr buf'"
  shows "body_completes blake3 c buf buf'"
proof -
  from PrewriteIntent enc obtain bs where i: "intent_encode (pw_intent x) = Inr bs"
    and buf': "enc_bytes bs (buf @ [2] @ enc_header (pw_header x) @ enc_transaction (pw_prepared x)) = Inr buf'"
    by (auto simp: result_simps)
  have "completes (dec_command_body blake3 2 (pw_header x))
      (enc_transaction (pw_prepared x) @ u32_be (word_of_nat (length bs)) @ bs) max_allocation_items c"
    unfolding dec_command_body_def
    apply simp
    apply (rule completes_bind [OF reads_transaction], use wf PrewriteIntent in simp)
    apply (rule completes_then [OF completes_end [OF reads_intent_field [OF _ i]]])
    using wf PrewriteIntent by (cases x, simp add: reads_ret)+
  then show ?thesis
    using PrewriteIntent buf' by (intro body_completesI [where tag = 2]) (auto simp: enc_bytes_Inr)
qed

lemma body_RecordHomeDecision:
  assumes RecordHomeDecision: "c = RecordHomeDecision x" and wf: "command_wf blake3 c" and enc: "enc_command_body c buf = Inr buf'"
  shows "body_completes blake3 c buf buf'"
proof -
  from RecordHomeDecision completes_home_decision [of blake3 x buf buf'] wf enc obtain bs
    where "buf' = buf @ [3] @ enc_header (hd_header x) @ bs"
      "completes (dec_home_decision blake3 (hd_header x)) bs max_allocation_items x" by blast
  then show ?thesis
    using RecordHomeDecision
    by (intro body_completesI [where tag = 3]) (auto simp: dec_command_body_def completes_map)
qed

lemma body_FinalizeParticipant:
  assumes FinalizeParticipant: "c = FinalizeParticipant x" and wf: "command_wf blake3 c" and enc: "enc_command_body c buf = Inr buf'"
  shows "body_completes blake3 c buf buf'"
proof -
  let ?k = "\<lambda>terminal. dec_bind dec_u8 (\<lambda>p.
        if p = 0 then dec_ret (FinalizeParticipant
          \<lparr>fp_header = fp_header x, fp_terminal = terminal, fp_intent = None\<rparr>)
        else if p = 1 then dec_bind dec_intent_field (\<lambda>intent. dec_ret (FinalizeParticipant
          \<lparr>fp_header = fp_header x, fp_terminal = terminal, fp_intent = Some intent\<rparr>))
        else dec_err ''unknown participant intent presence tag'')"
  have t: "transaction_wf (fp_terminal x)" using wf FinalizeParticipant by simp
  show ?thesis
  proof (cases "fp_intent x")
    case None
    have "completes (?k (fp_terminal x)) ([0] @ []) max_allocation_items c"
      by (rule completes_bind [OF reads_u8])
        (use None FinalizeParticipant in \<open>cases x, simp add: completes_def dec_ret_def\<close>)
    with completes_bind [OF reads_transaction [OF t], where k = ?k]
    have "completes (dec_bind dec_transaction ?k) (enc_transaction (fp_terminal x) @ [0]) max_allocation_items c"
      by simp
    with None FinalizeParticipant enc show ?thesis
      by (intro body_completesI [where tag = 4]) (auto simp: Let_def dec_command_body_def)
  next
    case (Some i)
    with FinalizeParticipant enc obtain bs where i: "intent_encode i = Inr bs"
      and buf': "enc_bytes bs (buf @ [4] @ enc_header (fp_header x) @ enc_transaction (fp_terminal x) @ [1]) = Inr buf'"
      by (auto simp: result_simps Let_def)
    have "intent_wf i" using wf FinalizeParticipant Some by simp
    from reads_map [OF reads_intent_field [OF this i], where f = "\<lambda>intent. FinalizeParticipant
          \<lparr>fp_header = fp_header x, fp_terminal = fp_terminal x, fp_intent = Some intent\<rparr>"]
    have "completes (?k (fp_terminal x)) ([1] @ u32_be (word_of_nat (length bs)) @ bs) max_allocation_items c"
      by (intro completes_bind [OF reads_u8])
        (use Some FinalizeParticipant in \<open>cases x, auto intro: completes_end\<close>)
    with completes_bind [OF reads_transaction [OF t], where k = ?k]
    have "completes (dec_bind dec_transaction ?k) (enc_transaction (fp_terminal x) @ [1] @
        u32_be (word_of_nat (length bs)) @ bs) max_allocation_items c" by simp
    with FinalizeParticipant buf' show ?thesis
      by (intro body_completesI [where tag = 4]) (auto simp: enc_bytes_Inr dec_command_body_def)
  qed
qed

lemma body_AdvanceClosedTimestamp:
  assumes AdvanceClosedTimestamp: "c = AdvanceClosedTimestamp x" and wf: "command_wf blake3 c" and enc: "enc_command_body c buf = Inr buf'"
  shows "body_completes blake3 c buf buf'"
proof -
  have "completes (dec_command_body blake3 5 (ac_header x)) (i64_be (ac_closed_timestamp x)) max_allocation_items c"
    unfolding dec_command_body_def
    using completes_map [OF completes_end [OF reads_time], of "ac_closed_timestamp x"
        "\<lambda>t. AdvanceClosedTimestamp \<lparr>ac_header = ac_header x, ac_closed_timestamp = t\<rparr>"]
      wf AdvanceClosedTimestamp by (cases x) simp
  with AdvanceClosedTimestamp enc show ?thesis
    by (intro body_completesI [where tag = 5]) auto
qed

lemma body_InstallSnapshot:
  assumes InstallSnapshot: "c = InstallSnapshot x" and wf: "command_wf blake3 c" and enc: "enc_command_body c buf = Inr buf'"
  shows "body_completes blake3 c buf buf'"
proof -
  have "completes (dec_command_body blake3 6 (is_header x))
      (u128_be (is_snapshot_id x) @ u32_be 32 @ b32_be (is_content_digest x)) max_allocation_items c"
    unfolding dec_command_body_def
    apply simp
    apply (rule completes_bind [OF reads_words(3)])
    apply (rule completes_then [OF completes_end [OF reads_fixed_32]])
    apply (rule reads_map [OF reads_of, of _ x InstallSnapshot, folded InstallSnapshot])
    using wf InstallSnapshot
    by (cases x) (simp add: install_snapshot_new_def header_again)
  with InstallSnapshot enc show ?thesis
    by (intro body_completesI [where tag = 6]) (auto simp: enc_bytes_Inr)
qed

lemma body_Migration:
  assumes Migration: "c = Migration x" and wf: "command_wf blake3 c" and enc: "enc_command_body c buf = Inr buf'"
  shows "body_completes blake3 c buf buf'"
proof -
  from Migration completes_migration [of x buf buf'] wf enc obtain bs
    where "buf' = buf @ [7] @ enc_header (mc_header x) @ bs"
      "completes (dec_migration (mc_header x)) bs max_allocation_items x" by auto
  then show ?thesis
    using Migration by (intro body_completesI [where tag = 7]) (auto simp: dec_command_body_def completes_map)
qed

lemma enc_body_completes:
  assumes "command_wf blake3 c" and "enc_command_body c buf = Inr buf'"
  shows "body_completes blake3 c buf buf'"
  by (cases c; (rule body_CommitSingleShard body_CommitSingleShardTransaction body_PrewriteIntent body_RecordHomeDecision body_FinalizeParticipant body_AdvanceClosedTimestamp body_InstallSnapshot body_Migration), assumption, rule assms, rule assms)

lemma command_wf_shape: "command_wf blake3 c \<Longrightarrow> command_shape_ok blake3 c = Inr ()"
  by (cases c) auto

lemma migration_metadata_ok: "\<exists>md. migration_metadata c = Inr md"
  by (simp add: migration_metadata_def replica_metadata_new_def)

lemma command_wf_mutations: "command_wf blake3 c \<Longrightarrow> \<exists>ms. command_mutations blake3 c = Inr ms"
proof (cases c)
  case (PrewriteIntent x)
  assume "command_wf blake3 c"
  with PrewriteIntent show ?thesis
    by (auto simp: prewrite_mutations_def intent_metadata_def intent_wf_def is_ok_iff
        replica_metadata_new_def)
next
  case (Migration x)
  then show ?thesis using migration_metadata_ok [of x] by auto
qed (auto simp: finalize_mutations_def replica_metadata_new_def closed_timestamp_metadata_name_def)

lemma command_wf_nonempty: "command_wf blake3 c \<Longrightarrow> \<not> empty_mutation_command c"
  by (cases c) (auto simp: empty_mutation_command_def cst_validate_def validate_intent_mutations_def
      result_simps split: if_splits)

lemma command_wf_header: "command_wf blake3 c \<Longrightarrow> header_wf (command_header_of c)"
  by (cases c) (auto simp: migration_wf_def)

lemma decode_encoded:
  assumes wf: "command_wf blake3 c" and enc: "shard_command_encode blake3 c = Inr bs"
  shows "shard_command_decode blake3 bs = Inr c"
proof -
  from enc have body: "enc_command_body c (u32_be 3) = Inr bs" and len: "length bs \<le> max_command_bytes"
    by (auto simp: shard_command_encode_def encoder_finish_def result_simps not_less split: if_splits)
  from enc_body_completes [OF wf body] obtain tag rest
    where bs: "bs = u32_be 3 @ [tag] @ enc_header (command_header_of c) @ rest"
      and rest: "completes (dec_command_body blake3 tag (command_header_of c)) rest max_allocation_items c"
    by (auto simp: body_completes_def)
  have "completes (dec_command blake3) bs max_allocation_items c"
    unfolding dec_command_def bs
    apply (rule completes_bind [OF reads_words(1)], simp)
    apply (rule completes_bind [of _ "[tag]", OF reads_u8, simplified])
    apply (rule completes_bind [OF reads_header [OF command_wf_header [OF wf]]], rule rest)
    done
  moreover have "bs \<noteq> []" using bs by auto
  ultimately show ?thesis
    using len command_wf_nonempty [OF wf] command_wf_mutations [OF wf]
    by (auto simp: shard_command_decode_def decoder_new_def decoder_finish_def completes_def)
qed

end
