(* ===== verification/Shard_Decode_Safe.thy ===== *)
theory Shard_Decode_Safe
  imports Shard_Command_Props
begin

text \<open>
  Decoding untrusted bytes: every decoder of the command format either rejects its input with an
  ordinary error or returns a value within the ranges of its type.
\<close>

section \<open>What the decoder lets through\<close>

text \<open>\<open>dsafe\<close> says of a decoder that it neither panics nor returns a value outside a set.\<close>

definition no_panic :: "shard_error \<Rightarrow> bool" where
  "no_panic e = (\<forall>m. e \<noteq> ShardPanic m)"

definition dsafe_r :: "(shard_error, 'a) result \<Rightarrow> ('a \<Rightarrow> bool) \<Rightarrow> bool" where
  "dsafe_r r P = (case r of Inl e \<Rightarrow> no_panic e | Inr a \<Rightarrow> P a)"

definition dsafe :: "'a dec \<Rightarrow> ('a \<Rightarrow> bool) \<Rightarrow> bool" where
  "dsafe d P = (\<forall>st. dsafe_r (d st) (\<lambda>p. P (fst p)))"

lemma no_panic_simps [simp]:
  "no_panic (InvalidCommand m)" "no_panic (UnsupportedCommandVersion v)" "no_panic (StorageE s)"
  "\<not> no_panic (ShardPanic m)"
  by (simp_all add: no_panic_def)

lemma dsafe_r_simps [simp]: "dsafe_r (Inl e) P \<longleftrightarrow> no_panic e" "dsafe_r (Inr a) P \<longleftrightarrow> P a"
  by (simp_all add: dsafe_r_def)

lemma dsafe_r_try: "dsafe_r r Q \<Longrightarrow> (\<And>a. Q a \<Longrightarrow> dsafe_r (k a) P) \<Longrightarrow> dsafe_r (try_r r k) P"
  by (cases r) auto

lemma dsafe_r_map_err [simp]: "(\<And>e. no_panic (f e)) \<Longrightarrow> dsafe_r (map_err f r) P \<longleftrightarrow> (\<forall>a. r = Inr a \<longrightarrow> P a)"
  by (cases r) auto

lemma dsafe_r_weaken: "dsafe_r r Q \<Longrightarrow> (\<And>a. Q a \<Longrightarrow> P a) \<Longrightarrow> dsafe_r r P"
  by (cases r) auto

lemma dsafe_bind:
  assumes "dsafe d Q" and "\<And>a. Q a \<Longrightarrow> dsafe (k a) P"
  shows "dsafe (dec_bind d k) P"
  unfolding dsafe_def dec_bind_def
proof
  fix st
  show "dsafe_r (try_r (d st) (\<lambda>p. k (fst p) (snd p))) (\<lambda>p. P (fst p))"
    by (rule dsafe_r_try [of _ "\<lambda>p. Q (fst p)"]) (use assms in \<open>simp_all add: dsafe_def del: split_paired_All\<close>)
qed

lemma dsafe_ret: "P a \<Longrightarrow> dsafe (dec_ret a) P"
  by (simp add: dsafe_def dec_ret_def)

lemma dsafe_of: "dsafe_r r P \<Longrightarrow> dsafe (dec_of r) P"
  by (cases r) (auto simp: dsafe_def dec_of_def)

lemma dsafe_bind_of: "dsafe_r r Q \<Longrightarrow> (\<And>a. Q a \<Longrightarrow> dsafe (k a) P) \<Longrightarrow> dsafe (dec_bind (dec_of r) k) P"
  by (rule dsafe_bind [OF dsafe_of])

lemma dsafe_err [simp]: "dsafe (dec_err m) P"
  by (simp add: dsafe_def dec_err_def dec_of_def)

lemma dsafe_weaken: "dsafe d Q \<Longrightarrow> (\<And>a. Q a \<Longrightarrow> P a) \<Longrightarrow> dsafe d P"
  unfolding dsafe_def by (blast intro: dsafe_r_weaken)

lemma dsafe_take: "dsafe (dec_take n) (\<lambda>bs. length bs = n)"
  by (simp add: dsafe_def dec_take_def)

lemma dsafe_prims:
  "dsafe dec_u8 (\<lambda>_. True)" "dsafe dec_u32 (\<lambda>_. True)" "dsafe dec_u64 (\<lambda>_. True)"
  "dsafe dec_u128 (\<lambda>_. True)"
  unfolding dec_u8_def dec_u32_def dec_u64_def dec_u128_def
  by (rule dsafe_bind [OF dsafe_take], rule dsafe_ret, rule TrueI)+

lemma dsafe_i64: "dsafe dec_i64 i64_ok"
  unfolding dec_i64_def by (rule dsafe_bind [OF dsafe_take], rule dsafe_ret, rule i64_from_be_ok)

lemma dsafe_bytes: "dsafe dec_bytes (\<lambda>_. True)"
  unfolding dec_bytes_def by (rule dsafe_bind [OF dsafe_prims(2)], rule dsafe_weaken [OF dsafe_take], simp)

lemma str_bytes_bytes_str [simp]: "str_bytes (bytes_str bs) = bs"
proof (induction bs)
  case (Cons b bs)
  have "unat b < 256" using unsigned_less [of b, where ?'a = nat] by simp
  with Cons show ?case by (simp add: str_bytes_def bytes_str_def)
qed (simp add: str_bytes_def bytes_str_def)

lemma dsafe_string: "dsafe dec_string str_ok"
  unfolding dec_string_def
  by (rule dsafe_bind [OF dsafe_bytes], rule dsafe_of) (simp add: from_utf8_def str_ok_def)

lemma dsafe_fixed_32: "dsafe dec_fixed_32 (\<lambda>_. True)"
  unfolding dec_fixed_32_def by (rule dsafe_bind [OF dsafe_bytes]) (simp add: dsafe_ret)

lemma dsafe_time: "dsafe dec_time time_ok"
  unfolding dec_time_def
  by (rule dsafe_bind [OF dsafe_i64], rule dsafe_of)
    (auto simp: transaction_time_new_def time_ok_def i64_ok_def)

lemma dsafe_idents:
  "dsafe dec_transaction_id ident128_ok" "dsafe dec_shard_id ident_ok"
  "dsafe dec_vertex_id ident128_ok" "dsafe dec_edge_id ident128_ok"
  unfolding dec_transaction_id_def dec_shard_id_def dec_vertex_id_def dec_edge_id_def
  by (rule dsafe_bind [OF dsafe_prims(4)] dsafe_bind [OF dsafe_prims(3)], rule dsafe_of,
      auto simp: ident128_new_def ident_new_def vertex_id_new_def edge_id_new_def ident128_ok_def ident_ok_def)+

lemma dsafe_count: "dsafe dec_count (\<lambda>_. True)"
  unfolding dec_count_def by (rule dsafe_bind [OF dsafe_prims(2)]) (simp add: dsafe_ret)

lemma dsafe_consume: "dsafe (dec_consume n) (\<lambda>_. True)"
  by (simp add: dsafe_def dec_consume_def budget_consume_def)

lemma dsafe_collection_count: "dsafe dec_collection_count (\<lambda>_. True)"
  unfolding dec_collection_count_def
  by (rule dsafe_bind [OF dsafe_count], rule dsafe_bind [OF dsafe_consume], rule dsafe_ret, simp)

lemma dsafe_insert:
  "bm_ok m \<Longrightarrow> dsafe (dec_insert msg k v m) (\<lambda>m'. bm_ok m' \<and> set m' \<subseteq> insert (k, v) (set m))"
  by (simp add: dec_insert_def dsafe_ret set_bm_insert_sub)

section \<open>Values and mutations\<close>

definition fields_wf :: "(string, value) bmap \<Rightarrow> bool" where
  "fields_wf kvs = (bm_ok kvs \<and> (\<forall>kv \<in> set kvs. str_ok (fst kv) \<and> value_wf (snd kv)))"

lemma dsafe_value_fields:
  "dsafe (dec_value depth) value_wf"
  "dsafe (dec_values depth n) (list_all value_wf)"
  "fields_wf acc \<longrightarrow> dsafe (dec_fields dup depth n acc) fields_wf"
proof (induction depth and depth n and dup depth n acc rule: dec_value_dec_values_dec_fields.induct)
  case (1 depth)
  show ?case
  proof (cases "max_value_depth < depth")
    case False
    note IH = "1.IH" [OF False]
    show ?thesis
      unfolding dec_value.simps [of depth]
      apply (simp only: False if_False)
      apply (rule dsafe_bind [OF dsafe_prims(1)])
      subgoal for tag
        apply (cases "tag = 0", simp add: dsafe_ret)
        apply (cases "tag = 1", simp, rule dsafe_bind [OF dsafe_prims(1)], simp add: dsafe_ret)
        apply (cases "tag = 2", simp, rule dsafe_bind [OF dsafe_i64], simp add: dsafe_ret)
        apply (cases "tag = 3", simp, rule dsafe_bind [OF dsafe_prims(3)], simp add: dsafe_ret)
        apply (cases "tag = 4", simp, rule dsafe_bind [OF dsafe_bytes], simp add: dsafe_ret)
        apply (cases "tag = 5", simp, rule dsafe_bind [OF dsafe_string], simp add: dsafe_ret)
        apply (cases "tag = 6", simp, rule dsafe_bind [OF dsafe_collection_count],
            rule dsafe_bind, rule IH(1), simp_all, rule dsafe_ret, simp add: list_all_iff)
        apply (cases "tag = 7", simp, rule dsafe_bind [OF dsafe_collection_count],
            rule dsafe_bind, rule IH(2) [rule_format], simp_all add: fields_wf_def, rule dsafe_ret, simp)
        done
      done
  qed (simp add: dec_value.simps)
next
  case (2 depth)
  show ?case by (simp add: dsafe_ret)
next
  case (3 depth n)
  show ?case
    unfolding dec_values.simps
    by (rule dsafe_bind [OF "3.IH"(1)], rule dsafe_bind [OF "3.IH"(2)], rule dsafe_ret, simp)
next
  case (4 dup depth acc)
  show ?case by (simp add: dsafe_ret)
next
  case (5 dup depth n acc)
  show ?case
  proof
    assume acc: "fields_wf acc"
    show "dsafe (dec_fields dup depth (Suc n) acc) fields_wf"
      unfolding dec_fields.simps
      apply (rule dsafe_bind [OF dsafe_string])
      apply (rule dsafe_bind, rule "5.IH"(1))
      apply (rule dsafe_bind [OF dsafe_insert], use acc in \<open>simp add: fields_wf_def\<close>)
      apply (rule "5.IH"(2) [rule_format])
      using acc by (auto simp: fields_wf_def)
  qed
qed

lemma dsafe_properties: "dsafe dec_properties fields_wf"
  unfolding dec_properties_def
  by (rule dsafe_bind [OF dsafe_collection_count], rule dsafe_value_fields(3) [rule_format])
    (simp add: fields_wf_def)

lemma dsafe_interval: "dsafe dec_interval interval_ok"
  unfolding dec_interval_def
  by (rule dsafe_bind [OF dsafe_i64], rule dsafe_bind [OF dsafe_i64], rule dsafe_of)
    (auto simp: valid_interval_new_def interval_ok_def)

lemma dsafe_transaction: "dsafe dec_transaction transaction_wf"
  unfolding dec_transaction_def dec_transaction_state_def
  apply (rule dsafe_bind [OF dsafe_idents(1)])
  apply (rule dsafe_bind [where Q = "\<lambda>_. True"])
   apply (rule dsafe_bind [OF dsafe_prims(1)], simp add: dsafe_ret)
  apply (rule dsafe_bind [OF dsafe_time], rule dsafe_bind [OF dsafe_fixed_32], rule dsafe_of)
  apply (auto simp: transaction_record_new_def transaction_wf_def)
  done

lemma validated_properties_wf: "fields_wf ps \<Longrightarrow> validate_properties ps = Inr u \<Longrightarrow> properties_wf ps"
  by (auto simp: fields_wf_def validate_properties_def properties_wf_def list_ex_iff split: if_splits)

lemma dsafe_put_vertex: "dsafe dec_put_vertex mutation_wf"
  unfolding dec_put_vertex_def
  apply (rule dsafe_bind [OF dsafe_idents(3)], rule dsafe_bind [OF dsafe_prims(3)],
      rule dsafe_bind [OF dsafe_interval], rule dsafe_bind [OF dsafe_time],
      rule dsafe_bind [OF dsafe_properties])
  apply (rule dsafe_bind_of [where Q = "\<lambda>v. mutation_wf (PutVertex v)"])
  apply (auto simp: vertex_version_new_def result_simps dsafe_ret dest: validated_properties_wf)
  done

lemma dsafe_put_edge: "dsafe dec_put_edge mutation_wf"
  unfolding dec_put_edge_def
  apply (rule dsafe_bind [OF dsafe_idents(4)], rule dsafe_bind [OF dsafe_idents(3)],
      rule dsafe_bind [OF dsafe_idents(3)], rule dsafe_bind [OF dsafe_string],
      rule dsafe_bind [OF dsafe_prims(3)],
      rule dsafe_bind [OF dsafe_interval], rule dsafe_bind [OF dsafe_time],
      rule dsafe_bind [OF dsafe_properties])
  apply (rule dsafe_bind_of [where Q = "\<lambda>v. mutation_wf (PutEdge v)"])
  apply (auto simp: edge_version_new_def result_simps dsafe_ret dest: validated_properties_wf split: if_splits)
  done

lemma dsafe_mutation: "dsafe dec_mutation mutation_wf"
  unfolding dec_mutation_def
  apply (rule dsafe_bind [OF dsafe_prims(1)])
  subgoal for tag
    apply (cases "tag = 1", simp add: dsafe_put_vertex)
    apply (cases "tag = 2", simp, rule dsafe_bind [OF dsafe_idents(3)], rule dsafe_bind [OF dsafe_prims(3)],
        rule dsafe_bind [OF dsafe_time], simp add: dsafe_ret)
    apply (cases "tag = 3", simp add: dsafe_put_edge)
    apply (cases "tag = 4", simp, rule dsafe_bind [OF dsafe_idents(4)], rule dsafe_bind [OF dsafe_prims(3)],
        rule dsafe_bind [OF dsafe_time], simp add: dsafe_ret)
    apply (cases "tag = 5", simp, rule dsafe_bind [OF dsafe_transaction], simp add: dsafe_ret)
    apply (cases "tag = 6", simp, rule dsafe_bind [OF dsafe_string], rule dsafe_bind [OF dsafe_value_fields(1)],
        rule dsafe_bind_of [where Q = "\<lambda>v. mutation_wf (PutReplicaMetadata v)"])
      apply (auto simp: replica_metadata_new_def dsafe_ret split: if_splits)
    done
  done

lemma dsafe_times: "dsafe d P \<Longrightarrow> dsafe (dec_times n d) (list_all P)"
  by (induction n) (auto intro!: dsafe_ret dsafe_bind [of d P] dsafe_bind [of "dec_times _ d" "list_all P"])

lemma dsafe_mutations_with_limit: "dsafe (dec_mutations_with_limit limit msg) (list_all mutation_wf)"
  unfolding dec_mutations_with_limit_def
  by (rule dsafe_bind [OF dsafe_count])
    (auto intro: dsafe_bind [OF dsafe_consume] dsafe_times [OF dsafe_mutation])

section \<open>Commands\<close>

lemma dsafe_finish: "dsafe_r (decoder_finish st) (\<lambda>_. True)"
  by (simp add: decoder_finish_def guard_r_def)

lemma dsafe_new: "dsafe_r (decoder_new bs) (\<lambda>_. True)"
  by (simp add: decoder_new_def)

lemma dsafe_run: "dsafe d P \<Longrightarrow> dsafe_r (d st) (\<lambda>p. P (fst p))"
  by (simp add: dsafe_def del: split_paired_All)

text \<open>The time of a graph mutation is defined, so the checks that ask for it do not panic.\<close>

definition graph_mutation :: "logical_mutation \<Rightarrow> bool" where
  "graph_mutation m = (\<not> is_put_transaction m \<and> \<not> is_put_metadata m)"

lemma graph_mutation_time_ok: "graph_mutation m \<Longrightarrow> \<exists>t. mutation_transaction_time m = Inr t"
  by (cases m) (auto simp: graph_mutation_def is_put_transaction_def is_put_metadata_def
      mutation_transaction_time_def)

lemma graph_mutations_any: "list_all graph_mutation ms \<Longrightarrow>
    try_any (\<lambda>m. try_r (mutation_transaction_time m) (\<lambda>u. Inr (u \<noteq> t))) ms =
      Inr (list_ex (\<lambda>m. mutation_transaction_time m \<noteq> Inr t) ms)"
proof (induction ms)
  case (Cons m ms)
  then show ?case using graph_mutation_time_ok [of m] by auto
qed simp

lemma dsafe_validate_intent:
  "dsafe_r (validate_intent_mutations ms) (\<lambda>_. ms \<noteq> [] \<and> list_all graph_mutation ms)"
proof (cases "ms = [] \<or> max_transaction_intent_items < length ms \<or>
    list_ex (\<lambda>m. is_put_transaction m \<or> is_put_metadata m) ms")
  case False
  then have graph: "list_all graph_mutation ms" and "ms \<noteq> []"
    by (auto simp: list_all_iff list_ex_iff graph_mutation_def)
  then have "graph_mutation (hd ms)" "list_all graph_mutation (tl ms)" by (cases ms; simp)+
  then obtain t b where "mutation_transaction_time (hd ms) = Inr t"
    and "try_any (\<lambda>m. try_r (mutation_transaction_time m) (\<lambda>u. Inr (u \<noteq> t))) (tl ms) = Inr b"
    using graph_mutation_time_ok graph_mutations_any by metis
  with False graph show ?thesis by (simp add: validate_intent_mutations_def)
qed (auto simp: validate_intent_mutations_def)

lemma enc_value_no_panic:
  "dsafe_r (enc_value v depth st) (\<lambda>_. True)"
  "dsafe_r (enc_values vs depth st) (\<lambda>_. True)"
  "dsafe_r (enc_fields kvs depth st) (\<lambda>_. True)"
proof (induction v depth st and vs depth st and kvs depth st
    rule: enc_value_enc_values_enc_fields.induct)
  case (1 v depth st)
  then show ?case
    by (auto simp: enc_value.simps enc_field_def enc_string_def enc_bytes_def enc_count_def
        budget_consume_def Let_def split: "value.splits")
next
  case (3 v vs depth st)
  then show ?case by (auto intro: dsafe_r_try)
next
  case (5 kv kvs depth st)
  then show ?case
    by (auto simp: enc_string_def enc_field_def enc_bytes_def Let_def intro!: dsafe_r_try [where Q = "\<lambda>_. True"])
qed simp_all

lemma dsafe_enc_mutations: "dsafe_r (enc_mutations ms buf) (\<lambda>_. True)"
proof -
  have "dsafe_r (try_fold (\<lambda>st m. enc_mutation m st) st ms) (\<lambda>_. True)" for st
  proof (induction ms arbitrary: st)
    case (Cons m ms)
    have "dsafe_r (enc_mutation m st) (\<lambda>_. True)"
      by (cases m) (auto simp: enc_mutation_def enc_string_def enc_field_def enc_bytes_def Let_def
          enc_properties_def enc_count_def budget_consume_def enc_value_no_panic
          intro!: dsafe_r_try [where Q = "\<lambda>_. True"])
    then show ?case using Cons by (auto intro: dsafe_r_try)
  qed simp
  then show ?thesis
    unfolding enc_mutations_def
    by (intro dsafe_r_try [where Q = "\<lambda>_. True"]) (simp_all add: enc_count_def budget_consume_def)
qed

lemma dsafe_intent_encode: "dsafe_r (intent_encode i) (\<lambda>_. True)"
  unfolding intent_encode_def
  by (rule dsafe_r_try [OF dsafe_validate_intent], rule dsafe_r_try [OF dsafe_enc_mutations])
    (simp add: encoder_finish_def)

lemma dsafe_intent_decode: "dsafe_r (intent_decode bs) intent_wf"
proof -
  have "dsafe dec_intent (\<lambda>i. ident128_ok (pi_transaction_id i) \<and> ident_ok (pi_shard_id i) \<and>
      time_ok (pi_start_time i) \<and> list_all mutation_wf (pi_mutations i))"
    unfolding dec_intent_def
    apply (rule dsafe_bind [OF dsafe_prims(2)], simp, intro impI)
    apply (rule dsafe_bind [OF dsafe_idents(1)], rule dsafe_bind [OF dsafe_idents(2)],
        rule dsafe_bind [OF dsafe_time], rule dsafe_bind [OF dsafe_prims(3)],
        rule dsafe_bind [OF dsafe_mutations_with_limit], simp add: dsafe_ret)
    done
  note dec = dsafe_run [OF this]
  show ?thesis
    unfolding intent_decode_def
    apply (simp, intro impI)
    apply (rule dsafe_r_try [OF dsafe_new], rule dsafe_r_try [OF dec], rule dsafe_r_try [OF dsafe_finish])
    apply (unfold participant_intent_new_def)
    apply (rule dsafe_r_try [OF dsafe_validate_intent], simp only: Let_def intent_eta)
    subgoal for st p u v
      using dsafe_intent_encode [of "fst p"] by (cases "intent_encode (fst p)") (auto simp: intent_wf_def)
    done
qed

lemma dsafe_intent_field: "dsafe dec_intent_field intent_wf"
  unfolding dec_intent_field_def by (rule dsafe_bind [OF dsafe_bytes], rule dsafe_of, rule dsafe_intent_decode)

lemma dsafe_header_new: "ident128_ok cid \<Longrightarrow> dsafe_r (command_header_new cid e g) header_wf"
  by (auto simp: command_header_new_def ident_new_def header_wf_def ident_ok_def)

lemma dsafe_header: "dsafe dec_header header_wf"
  unfolding dec_header_def
  by (rule dsafe_bind [OF dsafe_prims(4)], rule dsafe_bind_of [where Q = ident128_ok],
      auto simp: command_id_new_def ident128_ok_def
      intro!: dsafe_bind [OF dsafe_prims(3)] dsafe_of dsafe_header_new split: if_splits)

lemma dsafe_participant: "dsafe dec_participant participant_wf"
  unfolding dec_participant_def dec_epoch_def dec_generation_def
  apply (rule dsafe_bind [OF dsafe_idents(2)])
  apply (rule dsafe_bind [where Q = ident_ok], rule dsafe_bind [OF dsafe_prims(3)], rule dsafe_of,
      simp add: result_simps ident_ok_def)
  apply (rule dsafe_bind [where Q = ident_ok], rule dsafe_bind [OF dsafe_prims(3)], rule dsafe_of,
      simp add: result_simps ident_ok_def)
  apply (rule dsafe_bind [OF dsafe_prims(3)], rule dsafe_bind [OF dsafe_fixed_32], rule dsafe_of)
  apply (simp add: home_participant_new_def participant_wf_def)
  done

lemma intent_wf_digest: "intent_wf i \<Longrightarrow> \<exists>d. intent_digest blake3 i = Inr d"
  by (auto simp: intent_wf_def intent_digest_def is_ok_iff)

lemma intent_wf_graph: "intent_wf i \<Longrightarrow> list_all graph_mutation (pi_mutations i)"
  using dsafe_validate_intent [of "pi_mutations i"]
  by (auto simp: intent_wf_def is_ok_iff intent_encode_def result_simps)

lemma dsafe_cst_validate: "dsafe_r (cst_validate c) (\<lambda>_. True)"
  unfolding cst_validate_def
proof (rule dsafe_r_try [OF dsafe_validate_intent])
  assume "cst_mutations c \<noteq> [] \<and> list_all graph_mutation (cst_mutations c)"
  then obtain t where "mutation_transaction_time (hd (cst_mutations c)) = Inr t"
    using graph_mutation_time_ok by (cases "cst_mutations c") auto
  then show "dsafe_r (validate_commit_follows_start (cst_start_time c) (cst_mutations c)
      ''single-Shard transaction commit time must follow its start time'') (\<lambda>_. True)"
    by (simp add: validate_commit_follows_start_def)
qed

lemma dsafe_decision_digest: "dsafe_r (decision_digest blake3 m tx s t) (\<lambda>_. True)"
  by (simp add: decision_digest_def)

lemma dsafe_home_validate: "dsafe_r (home_decision_validate blake3 c) (\<lambda>_. True)"
  by (auto simp: home_decision_validate_def Let_def intro!: dsafe_r_try [OF dsafe_decision_digest])

lemma dsafe_prewrite_validate:
  assumes "intent_wf (pw_intent c)"
  shows "dsafe_r (prewrite_validate blake3 c) (\<lambda>_. True)"
proof -
  from assms obtain d bs where "intent_digest blake3 (pw_intent c) = Inr d" "intent_encode (pw_intent c) = Inr bs"
    using intent_wf_digest [of "pw_intent c" blake3] by (auto simp: intent_wf_def is_ok_iff)
  then show ?thesis by (simp add: prewrite_validate_def Let_def)
qed

lemma dsafe_finalize_validate:
  assumes "case fp_intent c of None \<Rightarrow> True | Some i \<Rightarrow> intent_wf i"
  shows "dsafe_r (finalize_validate blake3 c) (\<lambda>_. True)"
proof (cases "fp_intent c")
  case (Some i)
  with assms have i: "intent_wf i" by simp
  from i obtain d bs where "intent_digest blake3 i = Inr d" "intent_encode i = Inr bs"
    using intent_wf_digest [of i blake3] by (auto simp: intent_wf_def is_ok_iff)
  with Some graph_mutations_any [OF intent_wf_graph [OF i]] show ?thesis
    by (simp add: finalize_validate_def Let_def split: transaction_state.splits)
qed (simp add: finalize_validate_def Let_def split: transaction_state.splits)

text \<open>What the decoder has established before the final shape check.\<close>

fun command_decoded :: "(byte list \<Rightarrow> digest32) \<Rightarrow> shard_command \<Rightarrow> bool" where
  "command_decoded blake3 (CommitSingleShard c) =
     (header_wf (css_header c) \<and> list_all mutation_wf (css_mutations c))"
| "command_decoded blake3 (CommitSingleShardTransaction c) =
     (header_wf (cst_header c) \<and> ident128_ok (cst_transaction_id c) \<and> time_ok (cst_start_time c) \<and>
      list_all mutation_wf (cst_mutations c))"
| "command_decoded blake3 (PrewriteIntent c) =
     (header_wf (pw_header c) \<and> transaction_wf (pw_prepared c) \<and> intent_wf (pw_intent c))"
| "command_decoded blake3 (FinalizeParticipant c) =
     (header_wf (fp_header c) \<and> transaction_wf (fp_terminal c) \<and>
      (case fp_intent c of None \<Rightarrow> True | Some i \<Rightarrow> intent_wf i))"
| "command_decoded blake3 c = command_wf blake3 c"

lemma dsafe_command_mutations:
  assumes "command_decoded blake3 c" and "\<not> empty_mutation_command c"
  shows "dsafe_r (command_mutations blake3 c) (\<lambda>_. command_wf blake3 c)"
proof (cases c)
  case (CommitSingleShard x)
  with assms show ?thesis by (auto simp: validate_single_shard_mutations_def empty_mutation_command_def)
next
  case (CommitSingleShardTransaction x)
  with assms dsafe_cst_validate [of x] show ?thesis by (cases "cst_validate x") auto
next
  case (PrewriteIntent x)
  with assms dsafe_prewrite_validate [of x blake3] show ?thesis
    by (cases "prewrite_validate blake3 x")
      (auto simp: prewrite_mutations_def intent_metadata_def replica_metadata_new_def intent_wf_def is_ok_iff)
next
  case (RecordHomeDecision x)
  with assms show ?thesis by auto
next
  case (FinalizeParticipant x)
  with assms dsafe_finalize_validate [of x blake3] show ?thesis
    by (cases "finalize_validate blake3 x") (auto simp: finalize_mutations_def)
next
  case (Migration x)
  with assms migration_metadata_ok [of x] show ?thesis by auto
qed (use assms in \<open>auto simp: replica_metadata_new_def closed_timestamp_metadata_name_def\<close>)

lemma dsafe_home_manifest:
  "list_all participant_wf ps \<Longrightarrow> time_ok start \<Longrightarrow> dsafe_r (home_manifest_new start cat ps) manifest_wf"
  by (auto simp: home_manifest_new_def manifest_wf_def Let_def list_all_iff sort_key_id_if_sorted)

lemma dsafe_home_decision: "header_wf h \<Longrightarrow>
    dsafe (dec_home_decision blake3 h) (\<lambda>c. command_wf blake3 (RecordHomeDecision c))"
  unfolding dec_home_decision_def
  apply (rule dsafe_bind [OF dsafe_transaction], rule dsafe_bind [OF dsafe_time],
      rule dsafe_bind [OF dsafe_prims(3)], rule dsafe_bind [OF dsafe_collection_count],
      rule dsafe_bind [OF dsafe_times [OF dsafe_participant]],
      rule dsafe_bind_of [OF dsafe_home_manifest], assumption, assumption, rule dsafe_of)
  apply (unfold record_home_decision_new_def)
  apply (rule dsafe_r_try [OF dsafe_header_new], simp add: header_wf_def)
  subgoal for decision start catalog n ps manifest h'
    using dsafe_home_validate [of blake3 "\<lparr>hd_header = h', hd_decision = decision, hd_manifest = manifest\<rparr>"]
    by (cases "home_decision_validate blake3 \<lparr>hd_header = h', hd_decision = decision, hd_manifest = manifest\<rparr>")
      (auto simp: Let_def)
  done

lemma dsafe_migration_phase: "dsafe_r (decode_migration_phase t) (\<lambda>_. True)"
  by (simp add: decode_migration_phase_def)

lemma online_header_wf:
  assumes "migration_command_online cid mid e g r t cl cat v l p = Inr c" and "ident128_ok cid"
  shows "migration_wf c \<and> ch_command_id (mc_header c) = cid"
proof -
  from assms(1) obtain h where c: "c = \<lparr>mc_header = h, mc_phase = p, mc_online = Some
           \<lparr>om_migration_id = mid, om_source_epoch = Ident e, om_source_generation = Ident g,
            om_retained_generation = Ident r, om_target_generation = Ident t,
            om_target_backend_class_digest = cl, om_catalog_version = cat, om_verified_index = v,
            om_logical_digest = l\<rparr>\<rparr>"
    and h: "\<exists>x y. command_header_new cid x y = Inr h"
    by (auto simp: migration_command_online_def nonzero_or_def result_simps Let_def split: if_splits)
  from h assms(2) have "header_wf h \<and> ch_command_id h = cid"
    by (auto simp: command_header_new_def result_simps header_wf_def ident_ok_def)
  with c assms(1) show ?thesis by (auto simp: migration_wf_def)
qed

lemma dsafe_online: "dsafe_r (migration_command_online cid mid e g r t cl cat v l p) (\<lambda>_. True)"
  by (auto simp: migration_command_online_def nonzero_or_def ok_or_def command_header_new_def Let_def
      intro!: dsafe_r_try [where Q = "\<lambda>_. True"] split: option.splits)

lemma dsafe_migration: "header_wf h \<Longrightarrow> dsafe (dec_migration h) migration_wf"
  unfolding dec_migration_def dec_migration_online_def
  apply (rule dsafe_bind [OF dsafe_prims(1)], rule dsafe_bind_of [OF dsafe_migration_phase])
  apply (rule dsafe_bind [where Q = "\<lambda>_. True"], simp add: dsafe_def dec_is_finished_def)
  subgoal for t phase finished
    apply (cases finished; simp)
     apply (rule dsafe_of)
     apply (auto simp: migration_command_new_def migration_wf_def header_again intro: dsafe_r_try)[1]
    apply (rule dsafe_bind [OF dsafe_prims(1)], simp, intro impI)
    apply (rule dsafe_bind [OF dsafe_prims(4)], (rule dsafe_bind [OF dsafe_prims(3)])+,
        rule dsafe_bind [OF dsafe_fixed_32], (rule dsafe_bind [OF dsafe_prims(3)])+,
        rule dsafe_bind [OF dsafe_fixed_32], rule dsafe_of)
    subgoal for p mid e g r tg cl cat v l
      using dsafe_online [of "ch_command_id h" mid e g r tg cl cat v l phase]
      by (cases "migration_command_online (ch_command_id h) mid e g r tg cl cat v l phase")
        (auto simp: migration_decode_online_def header_wf_def dest: online_header_wf)
    done
  done

lemma dsafe_command_body:
  assumes h: "header_wf h"
  shows "dsafe (dec_command_body blake3 tag h) (command_decoded blake3)"
  unfolding dec_command_body_def dec_mutations_def
  apply (cases "tag = 1", simp, rule dsafe_bind [OF dsafe_mutations_with_limit], simp add: dsafe_ret h)
  apply (cases "tag = 8", simp, rule dsafe_bind [OF dsafe_idents(1)], rule dsafe_bind [OF dsafe_time],
      rule dsafe_bind [OF dsafe_prims(3)], rule dsafe_bind [OF dsafe_fixed_32],
      rule dsafe_bind [OF dsafe_mutations_with_limit], simp add: dsafe_ret h)
  apply (cases "tag = 2", simp, rule dsafe_bind [OF dsafe_transaction], rule dsafe_bind [OF dsafe_intent_field],
      simp add: dsafe_ret h)
  apply (cases "tag = 3", simp, rule dsafe_bind [OF dsafe_home_decision [OF h]], simp add: dsafe_ret)
  apply (cases "tag = 4")
  subgoal
    by (simp, rule dsafe_bind [OF dsafe_transaction], rule dsafe_bind [OF dsafe_prims(1)])
      (auto intro!: dsafe_ret dsafe_bind [OF dsafe_intent_field] simp: h)
  apply (cases "tag = 5", simp, rule dsafe_bind [OF dsafe_time], simp add: dsafe_ret h)
  apply (cases "tag = 6")
  subgoal
    by (simp, rule dsafe_bind [OF dsafe_prims(4)], rule dsafe_bind [OF dsafe_fixed_32],
        rule dsafe_bind_of [where Q = "\<lambda>c. command_wf blake3 (InstallSnapshot c)"])
      (use h in \<open>auto simp: install_snapshot_new_def header_again dsafe_ret\<close>)
  apply (cases "tag = 7", simp, rule dsafe_bind [OF dsafe_migration [OF h]], simp add: dsafe_ret)
  apply simp
  done

lemma dsafe_command: "dsafe (dec_command blake3) (command_decoded blake3)"
  unfolding dec_command_def
  apply (rule dsafe_bind [OF dsafe_prims(2)], simp, intro conjI impI)
   apply (rule dsafe_of, simp)
  apply (rule dsafe_bind [OF dsafe_prims(1)], rule dsafe_bind [OF dsafe_header], rule dsafe_command_body, assumption)
  done

section \<open>The properties\<close>

text \<open>C35.  Decoding a byte string from the log or the network never panics, and every command it
  returns is one that the constructors of the program can build: nonzero identifiers, ordered valid
  intervals, times in range, UTF-8 names, maps in key order, and the shape and digest checks of the
  command.\<close>

theorem decode_type_safe:
  "case shard_command_decode blake3 bytes of
     Inl e \<Rightarrow> (\<forall>m. e \<noteq> ShardPanic m) | Inr c \<Rightarrow> command_wf blake3 c"
proof -
  have "dsafe_r (shard_command_decode blake3 bytes) (command_wf blake3)"
    unfolding shard_command_decode_def
    apply (rule dsafe_r_try [OF dsafe_new], rule dsafe_r_try [OF dsafe_run [OF dsafe_command]],
        rule dsafe_r_try [OF dsafe_finish], simp, intro impI)
    apply (rule dsafe_r_try [OF dsafe_command_mutations], assumption+, simp)
    done
  then show ?thesis by (cases "shard_command_decode blake3 bytes") (simp_all add: no_panic_def)
qed

text \<open>C36.  A command that the constructors built and the encoder accepted is read back unchanged by
  the decoder, whatever its kind; the size, depth and allocation limits of the two sides agree.\<close>

theorem command_roundtrip:
  "command_wf blake3 c \<Longrightarrow> shard_command_encode blake3 c = Inr bytes \<Longrightarrow>
     shard_command_decode blake3 bytes = Inr c"
  by (rule decode_encoded)

definition example_commit :: shard_command where
  "example_commit = CommitSingleShard
     \<lparr>css_header = \<lparr>ch_command_id = Ident128 7, ch_placement_epoch = Ident 1, ch_backend_generation = Ident 1\<rparr>,
      css_mutations = [PutReplicaMetadata \<lparr>rm_name = ''user'', rm_value = VList [VInteger 5, VBoolean True]\<rparr>]\<rparr>"

lemma command_roundtrip_witness:
  "\<forall>blake3. \<exists>bytes. shard_command_encode blake3 example_commit = Inr bytes \<and>
     shard_command_decode blake3 bytes = Inr example_commit"
proof
  fix blake3 :: "byte list \<Rightarrow> digest32"
  have wf: "command_wf blake3 example_commit"
    by (simp add: example_commit_def header_wf_def ident128_ok_def ident_ok_def str_ok_def str_bytes_def
        i64_ok_def i64_max_def validate_single_shard_mutations_def is_put_transaction_def
        writes_reserved_metadata_def)
  have "\<exists>bytes. shard_command_encode blake3 example_commit = Inr bytes"
    by (simp add: example_commit_def shard_command_encode_def validate_single_shard_mutations_def
        is_put_transaction_def writes_reserved_metadata_def enc_mutations_def enc_count_def
        budget_consume_def enc_mutation_def enc_string_def enc_field_def enc_bytes_def enc_push_def
        enc_value.simps encoder_finish_def enc_header_def max_command_bytes_def max_collection_items_def
        max_allocation_items_def max_value_depth_def Let_def)
  then show "\<exists>bytes. shard_command_encode blake3 example_commit = Inr bytes \<and>
      shard_command_decode blake3 bytes = Inr example_commit" using command_roundtrip [OF wf] by blast
qed

end
