(* ===== verification/Store_Api.thy ===== *)
theory Store_Api
  imports Mutation
begin

text \<open>
  The read requests of \<^verbatim>\<open>dtg-storage/src/read.rs\<close> and the two traits a storage provider
  implements: \<open>ReplicaStateStore\<close> and \<open>TemporalReadView\<close>.  A trait object is a record of its
  methods; the methods thread the world of the stores behind the objects.
\<close>

section \<open>Fences and point reads\<close>

record read_fence =
  rf_binding :: replica_binding
  rf_applied_index :: u64
  rf_capability_digest :: digest32

definition read_fence_new :: "replica_binding \<Rightarrow> u64 \<Rightarrow> read_fence" where
  "read_fence_new b index =
     \<lparr>rf_binding = b, rf_applied_index = index, rf_capability_digest = rb_capability_digest b\<rparr>"

definition read_fence_with_capability_digest ::
    "replica_binding \<Rightarrow> u64 \<Rightarrow> digest32 \<Rightarrow> read_fence" where
  "read_fence_with_capability_digest b index d =
     \<lparr>rf_binding = b, rf_applied_index = index, rf_capability_digest = d\<rparr>"

text \<open>\<open>VertexRead\<close> and \<open>EdgeRead\<close> differ in the identifier only, and so do the two history
  requests that one macro stamps out.\<close>

record 'k point_read =
  pr_id :: 'k
  pr_valid_at :: int
  pr_transaction_at :: transaction_time

type_synonym vertex_read = "vertex_id point_read"
type_synonym edge_read = "edge_id point_read"

definition point_read_new :: "'k \<Rightarrow> int \<Rightarrow> transaction_time \<Rightarrow> 'k point_read" where
  "point_read_new i v t = \<lparr>pr_id = i, pr_valid_at = v, pr_transaction_at = t\<rparr>"

record 'k history_read =
  hr_id :: 'k
  hr_transaction_from :: transaction_time
  hr_transaction_through :: transaction_time
  hr_limit :: u32

definition history_read_new ::
    "'k \<Rightarrow> transaction_time \<Rightarrow> transaction_time \<Rightarrow> u32 \<Rightarrow> (storage_error, 'k history_read) result" where
  "history_read_new i from_time through limit =
     (if from_time > through \<or> limit = 0
      then Inl (InvalidMutationS ''history bounds must be ordered and nonempty'')
      else Inr \<lparr>hr_id = i, hr_transaction_from = from_time, hr_transaction_through = through,
                hr_limit = limit\<rparr>)"

definition history_includes :: "'k history_read \<Rightarrow> transaction_time \<Rightarrow> bool" where
  "history_includes r t = (hr_transaction_from r \<le> t \<and> t \<le> hr_transaction_through r)"

datatype adjacency_direction = Outgoing | Incoming | Both

record adjacency_read =
  ad_vertex_id :: vertex_id
  ad_direction :: adjacency_direction
  ad_valid_at :: int
  ad_transaction_at :: transaction_time
  ad_limit :: u32

definition adjacency_read_new ::
    "vertex_id \<Rightarrow> adjacency_direction \<Rightarrow> int \<Rightarrow> transaction_time \<Rightarrow> u32
      \<Rightarrow> (storage_error, adjacency_read) result" where
  "adjacency_read_new v d valid_at t limit =
     (if limit = 0 then Inl (InvalidMutationS ''adjacency limit must be nonzero'')
      else Inr \<lparr>ad_vertex_id = v, ad_direction = d, ad_valid_at = valid_at, ad_transaction_at = t,
                ad_limit = limit\<rparr>)"

definition adjacency_matches :: "adjacency_read \<Rightarrow> edge_version \<Rightarrow> bool" where
  "adjacency_matches r e =
     ((case ad_direction r of
         Outgoing \<Rightarrow> ev_source e = ad_vertex_id r
       | Incoming \<Rightarrow> ev_target e = ad_vertex_id r
       | Both \<Rightarrow> ev_source e = ad_vertex_id r \<or> ev_target e = ad_vertex_id r)
      \<and> iv_start (ev_valid_time e) \<le> ad_valid_at r \<and> ad_valid_at r < iv_end (ev_valid_time e)
      \<and> ev_transaction_time e \<le> ad_transaction_at r)"

section \<open>Changes\<close>

text \<open>Cursors are ordered by Raft index and then by ordinal.\<close>

definition cursor_less :: "change_cursor \<Rightarrow> change_cursor \<Rightarrow> bool" where
  "cursor_less a b =
     (cc_raft_index a < cc_raft_index b \<or>
      cc_raft_index a = cc_raft_index b \<and> cc_mutation_ordinal a < cc_mutation_ordinal b)"

definition change_cursor_new :: "u64 \<Rightarrow> u64 \<Rightarrow> change_cursor" where
  "change_cursor_new index ordinal = \<lparr>cc_raft_index = index, cc_mutation_ordinal = ordinal\<rparr>"

record changes_read =
  ch_after :: "change_cursor option"
  ch_through_index :: u64
  ch_limit :: u32

definition changes_read_new ::
    "change_cursor option \<Rightarrow> u64 \<Rightarrow> u32 \<Rightarrow> (storage_error, changes_read) result" where
  "changes_read_new after through limit =
     (if (case after of None \<Rightarrow> False | Some c \<Rightarrow> cc_raft_index c > through) \<or> limit = 0
      then Inl (InvalidMutationS ''change bounds must be ordered and nonempty'')
      else Inr \<lparr>ch_after = after, ch_through_index = through, ch_limit = limit\<rparr>)"

definition changes_includes :: "changes_read \<Rightarrow> change_cursor \<Rightarrow> bool" where
  "changes_includes r c =
     ((case ch_after r of None \<Rightarrow> True | Some after \<Rightarrow> cursor_less after c)
      \<and> cc_raft_index c \<le> ch_through_index r)"

record change_page =
  cp_rows :: "change_record list"
  cp_next_after :: "change_cursor option"

lemma cursor_less_irrefl [simp]: "\<not> cursor_less c c"
  by (simp add: cursor_less_def)

lemma cursor_less_trans: "cursor_less a b \<Longrightarrow> cursor_less b c \<Longrightarrow> cursor_less a c"
  by (auto simp: cursor_less_def)

lemma cursor_less_linear: "(a :: change_cursor) \<noteq> b \<Longrightarrow> cursor_less a b \<or> cursor_less b a"
  by (cases a; cases b) (auto simp: cursor_less_def)

lemma cursor_less_asym: "cursor_less a b \<Longrightarrow> \<not> cursor_less b a"
  by (auto simp: cursor_less_def)

section \<open>Scans\<close>

record 'k scan =
  sn_valid_at :: int
  sn_transaction_at :: transaction_time
  sn_after :: "'k option"
  sn_limit :: u32

type_synonym vertex_scan = "vertex_id scan"
type_synonym edge_scan = "edge_id scan"

definition scan_new ::
    "int \<Rightarrow> transaction_time \<Rightarrow> 'k option \<Rightarrow> u32 \<Rightarrow> (storage_error, 'k scan) result" where
  "scan_new valid_at t after limit =
     (if limit = 0 then Inl (InvalidMutationS ''scan limit must be nonzero'')
      else Inr \<lparr>sn_valid_at = valid_at, sn_transaction_at = t, sn_after = after, sn_limit = limit\<rparr>)"

record ('a, 'k) scan_page =
  sp_rows :: "'a list"
  sp_next_after :: "'k option"

section \<open>The traits\<close>

record 'w read_view =
  rv_fence :: read_fence
  rv_get_vertex :: "vertex_read \<Rightarrow> ('w, storage_error, vertex_version option) eff"
  rv_get_edge :: "edge_read \<Rightarrow> ('w, storage_error, edge_version option) eff"
  rv_vertex_history :: "vertex_id history_read \<Rightarrow> ('w, storage_error, vertex_version list) eff"
  rv_edge_history :: "edge_id history_read \<Rightarrow> ('w, storage_error, edge_version list) eff"
  rv_expand :: "adjacency_read \<Rightarrow> ('w, storage_error, edge_version list) eff"
  rv_changes :: "changes_read \<Rightarrow> ('w, storage_error, change_page) eff"
  rv_scan_vertices :: "vertex_scan \<Rightarrow> ('w, storage_error, (vertex_version, vertex_id) scan_page) eff"
  rv_scan_edges :: "edge_scan \<Rightarrow> ('w, storage_error, (edge_version, edge_id) scan_page) eff"

record 'w state_store =
  ss_binding :: replica_binding
  ss_applied_index :: "('w, storage_error, u64) eff"
  ss_replica_metadata :: "string \<Rightarrow> ('w, storage_error, replica_metadata option) eff"
  ss_apply :: "committed_shard_batch \<Rightarrow> ('w, storage_error, apply_receipt) eff"
  ss_supports_atomic_batch_apply :: bool
  ss_apply_batches :: "committed_shard_batch list \<Rightarrow> ('w, storage_error, apply_receipt list) eff"
  ss_begin_read_view :: "read_fence \<Rightarrow> ('w, storage_error, 'w read_view) eff"

text \<open>The default body of \<open>apply_batches\<close>, for a provider without atomic batches.\<close>

definition default_apply_batches ::
    "(committed_shard_batch \<Rightarrow> ('w, storage_error, apply_receipt) eff)
      \<Rightarrow> committed_shard_batch list \<Rightarrow> ('w, storage_error, apply_receipt list) eff" where
  "default_apply_batches apply_one batches = eff_map apply_one batches"

end
