(* ===== verification/Store_Contract.thy ===== *)
theory Store_Contract
  imports Store_Api Consensus
begin

text \<open>
  What the shard state machine relies on in a replica state store, as a locale over the trait
  object: an applied index, an append-only log of changes, the current replica metadata, and the
  identity of every applied batch.  A batch at the next index is applied whole or not at all; a
  batch at an applied index is recognised as a replay or refused; the change pages of a read view
  enumerate the log.
\<close>

definition batch_changes :: "committed_shard_batch \<Rightarrow> change_record list" where
  "batch_changes b =
     map (\<lambda>(ordinal, m). \<lparr>cr_cursor = change_cursor_new (cb_raft_index b) (word_of_nat ordinal), cr_mutation = m\<rparr>)
       (zip [0..<length (cb_mutations b)] (cb_mutations b))"

definition meta_step ::
    "logical_mutation \<Rightarrow> (string \<Rightarrow> replica_metadata option) \<Rightarrow> string \<Rightarrow> replica_metadata option" where
  "meta_step m f = (case m of PutReplicaMetadata md \<Rightarrow> f(rm_name md \<mapsto> md) | _ \<Rightarrow> f)"

definition metas_after ::
    "logical_mutation list \<Rightarrow> (string \<Rightarrow> replica_metadata option) \<Rightarrow> string \<Rightarrow> replica_metadata option" where
  "metas_after ms f = fold meta_step ms f"

text \<open>The transaction time of a graph mutation, as the shard reads it off.\<close>

definition graph_mutation_time :: "logical_mutation \<Rightarrow> transaction_time option" where
  "graph_mutation_time m =
     (case m of
        PutVertex v \<Rightarrow> Some (vv_transaction_time v)
      | DeleteVertex t \<Rightarrow> Some (vt_transaction_time t)
      | PutEdge e \<Rightarrow> Some (ev_transaction_time e)
      | DeleteEdge t \<Rightarrow> Some (et_transaction_time t)
      | PutTransaction _ \<Rightarrow> None
      | PutReplicaMetadata _ \<Rightarrow> None)"

type_synonym batch_identity = "u64 \<times> command_id \<times> digest32"

definition batch_identity :: "committed_shard_batch \<Rightarrow> batch_identity" where
  "batch_identity b = (cb_raft_term b, cb_command_id b, cb_mutation_digest b)"

text \<open>Batches at consecutive indices, from the one after \<open>a\<close> on.\<close>

fun chained :: "u64 \<Rightarrow> committed_shard_batch list \<Rightarrow> bool" where
  "chained a [] = True"
| "chained a (b # bs) = (a \<noteq> - 1 \<and> cb_raft_index b = a + 1 \<and> chained (cb_raft_index b) bs)"

lemma metas_after_simps [simp]:
  "metas_after [] f = f" "metas_after (m # ms) f = metas_after ms (meta_step m f)"
  "metas_after (ms @ ms') f = metas_after ms' (metas_after ms f)"
  by (simp_all add: metas_after_def)

lemma metas_after_other:
  "(\<And>md. PutReplicaMetadata md \<in> set ms \<Longrightarrow> rm_name md \<noteq> n) \<Longrightarrow> metas_after ms f n = f n"
proof (induction ms arbitrary: f)
  case (Cons m ms)
  then have "metas_after ms (meta_step m f) n = meta_step m f n" by simp
  also have "\<dots> = f n" using Cons.prems by (cases m) (auto simp: meta_step_def)
  finally show ?case by simp
qed simp

lemma batch_changes_index: "c \<in> set (batch_changes b) \<Longrightarrow> cc_raft_index (cr_cursor c) = cb_raft_index b"
  by (auto simp: batch_changes_def change_cursor_new_def)

lemma batch_changes_mutations: "map cr_mutation (batch_changes b) = cb_mutations b"
  by (simp add: batch_changes_def comp_def case_prod_beta')

lemma length_batch_changes [simp]: "length (batch_changes b) = length (cb_mutations b)"
  by (simp add: batch_changes_def)

text \<open>What the store contains, in the terms of its clients.\<close>

record store_contents =
  sc_applied :: u64
  sc_log :: "change_record list"
  sc_meta :: "string \<Rightarrow> replica_metadata option"
  sc_identity :: "u64 \<Rightarrow> batch_identity option"

definition add_batch :: "committed_shard_batch \<Rightarrow> store_contents \<Rightarrow> store_contents" where
  "add_batch b c =
     \<lparr>sc_applied = cb_raft_index b, sc_log = sc_log c @ batch_changes b,
      sc_meta = metas_after (cb_mutations b) (sc_meta c),
      sc_identity = (sc_identity c)(cb_raft_index b \<mapsto> batch_identity b)\<rparr>"

lemma add_batch_simps [simp]:
  "sc_applied (add_batch b c) = cb_raft_index b"
  "sc_log (add_batch b c) = sc_log c @ batch_changes b"
  "sc_meta (add_batch b c) = metas_after (cb_mutations b) (sc_meta c)"
  "sc_identity (add_batch b c) = (sc_identity c)(cb_raft_index b \<mapsto> batch_identity b)"
  by (simp_all add: add_batch_def)

definition batch_ok ::
    "(byte list \<Rightarrow> digest32) \<Rightarrow> replica_binding \<Rightarrow> committed_shard_batch \<Rightarrow> bool" where
  "batch_ok blake3 b batch \<longleftrightarrow>
     committed_shard_batch_validate blake3 batch = Inr () \<and> cb_binding batch = b \<and>
     len_ok (cb_mutations batch)"

definition changes_page :: "change_record list \<Rightarrow> changes_read \<Rightarrow> change_page" where
  "changes_page log r =
     (let matching = filter (\<lambda>c. changes_includes r (cr_cursor c)) log;
          rows = take (unat (ch_limit r)) matching in
      \<lparr>cp_rows = rows,
       cp_next_after = (if length matching > unat (ch_limit r) then Some (cr_cursor (last rows)) else None)\<rparr>)"

definition log_ordered :: "u64 \<Rightarrow> change_record list \<Rightarrow> bool" where
  "log_ordered applied log \<longleftrightarrow>
     sorted_wrt (\<lambda>c d. cursor_less (cr_cursor c) (cr_cursor d)) log \<and>
     (\<forall>c \<in> set log. cc_raft_index (cr_cursor c) \<le> applied)"

locale replica_store =
  fixes store :: "'w state_store"
    and blake3 :: "byte list \<Rightarrow> digest32"
    and wf :: "'w \<Rightarrow> bool"
    and contents :: "'w \<Rightarrow> store_contents"
  assumes store_applied: "wf w \<Longrightarrow> ss_applied_index store w = (Inr (sc_applied (contents w)), w)"
    and store_metadata: "wf w \<Longrightarrow> ss_replica_metadata store n w = (Inr (sc_meta (contents w) n), w)"
    and store_apply_new:
      "wf w \<Longrightarrow> batch_ok blake3 (ss_binding store) b \<Longrightarrow> chained (sc_applied (contents w)) [b] \<Longrightarrow>
       ss_apply store b w = (r, w') \<Longrightarrow>
       wf w' \<and> ((\<exists>e. r = Inl e) \<and> contents w' = contents w \<or>
                r = Inr (apply_receipt_new b False) \<and> contents w' = add_batch b (contents w))"
    and store_apply_old:
      "wf w \<Longrightarrow> batch_ok blake3 (ss_binding store) b \<Longrightarrow> cb_raft_index b \<le> sc_applied (contents w) \<Longrightarrow>
       ss_apply store b w =
         (if sc_identity (contents w) (cb_raft_index b) = Some (batch_identity b)
          then Inr (apply_receipt_new b True) else Inl (ReplayMismatch (cb_raft_index b)), w)"
    and store_apply_batches:
      "wf w \<Longrightarrow> bs \<noteq> [] \<Longrightarrow> (\<And>b. b \<in> set bs \<Longrightarrow> batch_ok blake3 (ss_binding store) b) \<Longrightarrow>
       chained (sc_applied (contents w)) bs \<Longrightarrow> ss_apply_batches store bs w = (rs, w') \<Longrightarrow>
       wf w' \<and> ((\<exists>e. rs = Inl e) \<and> contents w' = contents w \<or>
                rs = Inr (map (\<lambda>b. apply_receipt_new b False) bs) \<and>
                contents w' = fold add_batch bs (contents w))"
    and store_view:
      "wf w \<Longrightarrow> \<exists>v. ss_begin_read_view store
          (read_fence_new (ss_binding store) (sc_applied (contents w))) w = (Inr v, w) \<and>
        (\<forall>q w'. rv_changes v q w' = (Inr (changes_page (sc_log (contents w)) q), w'))"
    and store_log_ordered: "wf w \<Longrightarrow> log_ordered (sc_applied (contents w)) (sc_log (contents w))"

end
