(* ===== verification/Shard_Meta.thy ===== *)
theory Shard_Meta
  imports Shard_Decode_Safe Store_Contract
begin

text \<open>
  The durable bookkeeping of the shard state machine (\<^verbatim>\<open>state_machine.rs\<close>, the free functions):
  the metadata records of active intents, transaction states, single-shard receipts and home
  decisions with their decoders, and the conflict test between two sets of graph mutations.
\<close>

section \<open>Metadata names\<close>

definition home_decision_metadata_prefix :: string where
  "home_decision_metadata_prefix = ''dtg.transaction_home_decision.v2/''"
definition single_shard_transaction_metadata_name :: string where
  "single_shard_transaction_metadata_name = ''dtg.single_shard_transaction.v1/''"
definition active_transaction_intents_metadata_name :: string where
  "active_transaction_intents_metadata_name = ''dtg.transaction_active_intents.v1''"
definition transaction_state_metadata_prefix :: string where
  "transaction_state_metadata_prefix = ''dtg.transaction_state.v1/''"

text \<open>\<open>format!("{:032x}")\<close> and \<open>u128::from_str_radix(_, 16)\<close>, which also takes a
  leading plus sign and upper-case digits.\<close>

definition hex_digit :: "nat \<Rightarrow> char" where
  "hex_digit n = ''0123456789abcdef'' ! n"

primrec hex_digits :: "nat \<Rightarrow> nat \<Rightarrow> string" where
  "hex_digits 0 x = []"
| "hex_digits (Suc n) x = hex_digits n (x div 16) @ [hex_digit (x mod 16)]"

definition hex32 :: "u128 \<Rightarrow> string" where
  "hex32 v = hex_digits 32 (unat v)"

definition hex_value :: "char \<Rightarrow> nat option" where
  "hex_value c =
     (if CHR ''0'' \<le> c \<and> c \<le> CHR ''9'' then Some (of_char c - 48)
      else if CHR ''a'' \<le> c \<and> c \<le> CHR ''f'' then Some (of_char c - 87)
      else if CHR ''A'' \<le> c \<and> c \<le> CHR ''F'' then Some (of_char c - 55)
      else None)"

primrec parse_hex :: "string \<Rightarrow> nat \<Rightarrow> nat option" where
  "parse_hex [] acc = Some acc"
| "parse_hex (c # cs) acc = (case hex_value c of None \<Rightarrow> None | Some d \<Rightarrow> parse_hex cs (acc * 16 + d))"

definition from_str_radix_16 :: "string \<Rightarrow> u128 option" where
  "from_str_radix_16 s =
     (let digits = (case s of c # cs \<Rightarrow> if c = CHR ''+'' then cs else s | [] \<Rightarrow> []) in
      if digits = [] then None
      else case parse_hex digits 0 of
        None \<Rightarrow> None | Some n \<Rightarrow> if n < 2 ^ 128 then Some (word_of_nat n) else None)"

definition corrupt :: "string \<Rightarrow> (shard_error, 'a) result" where
  "corrupt msg = Inl (CorruptIntentHistory msg)"

text \<open>The description rendered into the message is dropped.\<close>

definition transaction_id_from_metadata_name ::
    "string \<Rightarrow> string \<Rightarrow> (shard_error, transaction_id) result" where
  "transaction_id_from_metadata_name name prefix =
     (if take (length prefix) name \<noteq> prefix then corrupt ''metadata is not a record of this kind''
      else let suffix = drop (length prefix) name in
        if length suffix \<noteq> 32 then corrupt ''metadata name is malformed''
        else case from_str_radix_16 suffix of
          None \<Rightarrow> corrupt ''metadata name is malformed''
        | Some v \<Rightarrow> of_kernel (ident128_new v))"

section \<open>Durable transaction states\<close>

record durable_transaction_state =
  dt_intent :: participant_intent
  dt_terminal :: "transaction_record option"

definition matches_finalize :: "durable_transaction_state \<Rightarrow> finalize_participant \<Rightarrow> bool" where
  "matches_finalize s c =
     (dt_terminal s = Some (fp_terminal c) \<and>
      (case tr_state (fp_terminal c) of
         Committed \<Rightarrow> fp_intent c = Some (dt_intent s)
       | Aborted \<Rightarrow> fp_intent c = None
       | Prepared \<Rightarrow> False))"

definition validate_intent_terminal ::
    "(byte list \<Rightarrow> digest32) \<Rightarrow> participant_intent \<Rightarrow> transaction_record \<Rightarrow> (shard_error, unit) result" where
  "validate_intent_terminal blake3 i t =
     (let valid = (case tr_state t of
          Committed \<Rightarrow> tr_transaction_time t > pi_start_time i
        | Aborted \<Rightarrow> tr_transaction_time t = pi_start_time i
        | Prepared \<Rightarrow> False);
        bad = corrupt ''participant terminal record contradicts its durable intent''
      in if tr_id t = pi_transaction_id i
         then try_r (intent_digest blake3 i) (\<lambda>d.
           if tr_record_digest t = d \<and> valid then Inr () else bad)
         else bad)"

definition transaction_state_metadata_name :: "transaction_id \<Rightarrow> string" where
  "transaction_state_metadata_name tx = transaction_state_metadata_prefix @ hex32 (ident128_get tx)"

definition transaction_state_metadata ::
    "(byte list \<Rightarrow> digest32) \<Rightarrow> participant_intent \<Rightarrow> transaction_record option
      \<Rightarrow> (shard_error, replica_metadata) result" where
  "transaction_state_metadata blake3 i terminal =
     try_r (case terminal of None \<Rightarrow> Inr () | Some t \<Rightarrow> validate_intent_terminal blake3 i t) (\<lambda>_.
     try_r (intent_encode i) (\<lambda>encoded.
     try_r (case terminal of None \<Rightarrow> Inr 1 | Some t \<Rightarrow> (case tr_state t of
              Committed \<Rightarrow> Inr 2 | Aborted \<Rightarrow> Inr 3
            | Prepared \<Rightarrow> corrupt ''durable transaction state cannot store Prepared as a terminal'')) (\<lambda>tag.
       of_storage (replica_metadata_new (transaction_state_metadata_name (pi_transaction_id i))
         (VBytes (u32_be 1 @ [tag] @ u32_be (word_of_nat (length encoded)) @ encoded @
           (case terminal of None \<Rightarrow> []
            | Some t \<Rightarrow> i64_be (tr_transaction_time t) @ b32_be (tr_record_digest t))))))))"

definition decode_terminal ::
    "(byte list \<Rightarrow> digest32) \<Rightarrow> participant_intent \<Rightarrow> byte \<Rightarrow> byte list
      \<Rightarrow> (shard_error, transaction_record option) result" where
  "decode_terminal blake3 i tag rest =
     (if tag = 1 \<and> rest = [] then Inr None
      else if (tag = 2 \<or> tag = 3) \<and> length rest = 40 then
        try_r (of_kernel (transaction_time_new (i64_from_be (take 8 rest)))) (\<lambda>time.
        try_r (of_storage (transaction_record_new (pi_transaction_id i)
                (if tag = 2 then Committed else Aborted) time (b32_from_be (drop 8 rest)))) (\<lambda>t.
        try_r (validate_intent_terminal blake3 i t) (\<lambda>_. Inr (Some t))))
      else corrupt ''durable transaction state tag or trailing bytes are invalid'')"

definition decode_transaction_state_metadata ::
    "(byte list \<Rightarrow> digest32) \<Rightarrow> replica_metadata \<Rightarrow> (shard_error, durable_transaction_state) result" where
  "decode_transaction_state_metadata blake3 md =
     try_r (transaction_id_from_metadata_name (rm_name md) transaction_state_metadata_prefix) (\<lambda>tx.
       case rm_value md of
         VBytes bytes \<Rightarrow>
           if length bytes < 9 \<or> u32_from_be (take 4 bytes) \<noteq> 1
           then corrupt ''durable transaction state has an unsupported encoding''
           else let intent_len = unat (u32_from_be (take 4 (drop 5 bytes))) in
             if length bytes < 9 + intent_len
             then corrupt ''durable transaction state intent payload is truncated''
             else try_r (map_err (\<lambda>_. CorruptIntentHistory ''durable transaction state intent is corrupt'')
                    (intent_decode (take intent_len (drop 9 bytes)))) (\<lambda>i.
               if pi_transaction_id i \<noteq> tx
               then corrupt ''durable transaction state name contradicts its transaction ID''
               else try_r (decode_terminal blake3 i (bytes ! 4) (drop (9 + intent_len) bytes)) (\<lambda>terminal.
                 Inr \<lparr>dt_intent = i, dt_terminal = terminal\<rparr>))
       | _ \<Rightarrow> corrupt ''durable transaction state is not bytes'')"

section \<open>The index of active intents\<close>

definition enc_active_entries ::
    "(byte list \<Rightarrow> digest32) \<Rightarrow> (transaction_id, participant_intent) bmap \<Rightarrow> (shard_error, byte list) result" where
  "enc_active_entries blake3 active =
     try_r (try_map (\<lambda>(tx, i). try_r (intent_digest blake3 i) (\<lambda>d.
       Inr (u128_be (ident128_get tx) @ b32_be d))) active) (\<lambda>chunks. Inr (concat chunks))"

definition active_intents_metadata ::
    "(byte list \<Rightarrow> digest32) \<Rightarrow> (transaction_id, participant_intent) bmap
      \<Rightarrow> (shard_error, replica_metadata) result" where
  "active_intents_metadata blake3 active =
     (if max_transaction_intent_items < length active
      then Inl (InvalidCommand ''active transaction intent count exceeds the supported bound'')
      else try_r (enc_active_entries blake3 active) (\<lambda>entries.
        of_storage (replica_metadata_new active_transaction_intents_metadata_name
          (VBytes (u32_be 1 @ u32_be (word_of_nat (length active)) @ entries)))))"

fun decode_active_chunks ::
    "nat \<Rightarrow> byte list \<Rightarrow> transaction_id option \<Rightarrow> (transaction_id, digest32) bmap
      \<Rightarrow> (shard_error, (transaction_id, digest32) bmap) result" where
  "decode_active_chunks 0 bytes previous indexed = Inr indexed"
| "decode_active_chunks (Suc n) bytes previous indexed =
     try_r (of_kernel (ident128_new (u128_from_be (take 16 bytes)))) (\<lambda>tx.
       if (case previous of None \<Rightarrow> False | Some p \<Rightarrow> tx \<le> p)
       then corrupt ''active transaction intent index is not strictly ordered''
       else decode_active_chunks n (drop 48 bytes) (Some tx)
         (bm_insert tx (b32_from_be (take 32 (drop 16 bytes))) indexed))"

definition decode_active_intents_metadata ::
    "replica_metadata \<Rightarrow> (shard_error, (transaction_id, digest32) bmap) result" where
  "decode_active_intents_metadata md =
     (if rm_name md \<noteq> active_transaction_intents_metadata_name
      then corrupt ''metadata is not the active transaction intent index''
      else case rm_value md of
        VBytes bytes \<Rightarrow>
          if length bytes < 8 \<or> u32_from_be (take 4 bytes) \<noteq> 1
          then corrupt ''active transaction intent index has an unsupported encoding''
          else let count = unat (u32_from_be (take 4 (drop 4 bytes))) in
            if max_transaction_intent_items < count \<or> length bytes \<noteq> 8 + count * 48
            then corrupt ''active transaction intent index exceeds its bound or is truncated''
            else decode_active_chunks count (drop 8 bytes) None []
      | _ \<Rightarrow> corrupt ''active transaction intent index is not bytes'')"

section \<open>Single-shard receipts\<close>

record single_shard_transaction_receipt =
  sr_command_id :: command_id
  sr_transaction_id :: transaction_id
  sr_start_time :: transaction_time
  sr_snapshot_applied_index :: u64
  sr_commit_time :: transaction_time
  sr_request_digest :: digest32

definition single_shard_transaction_metadata ::
    "commit_single_shard_transaction \<Rightarrow> (shard_error, replica_metadata) result" where
  "single_shard_transaction_metadata c =
     try_r (ok_or (case cst_mutations c of [] \<Rightarrow> None | m # _ \<Rightarrow> graph_mutation_time m)
       (ShardPanic ''typed single-Shard transaction contains graph mutations'')) (\<lambda>commit_time.
     of_storage (replica_metadata_new
       (single_shard_transaction_metadata_name @ hex32 (ident128_get (cst_transaction_id c)))
       (VBytes (u32_be 1 @ u128_be (ident128_get (ch_command_id (cst_header c))) @
          u128_be (ident128_get (cst_transaction_id c)) @ i64_be (cst_start_time c) @
          u64_be (cst_snapshot_applied_index c) @ i64_be commit_time @ b32_be (cst_request_digest c)))))"

definition decode_single_shard_transaction_metadata ::
    "replica_metadata \<Rightarrow> (shard_error, single_shard_transaction_receipt) result" where
  "decode_single_shard_transaction_metadata md =
     try_r (transaction_id_from_metadata_name (rm_name md) single_shard_transaction_metadata_name) (\<lambda>tx.
       case rm_value md of
         VBytes bytes \<Rightarrow>
           if length bytes \<noteq> 92 \<or> u32_from_be (take 4 bytes) \<noteq> 1
           then corrupt ''single-Shard transaction receipt has an unsupported encoding''
           else
             try_r (of_storage (command_id_new (u128_from_be (take 16 (drop 4 bytes))))) (\<lambda>cid.
             try_r (of_kernel (ident128_new (u128_from_be (take 16 (drop 20 bytes))))) (\<lambda>rtx.
             try_r (of_kernel (transaction_time_new (i64_from_be (take 8 (drop 36 bytes))))) (\<lambda>start.
             try_r (of_kernel (transaction_time_new (i64_from_be (take 8 (drop 52 bytes))))) (\<lambda>commit.
               if rtx \<noteq> tx \<or> commit \<le> start
               then corrupt ''single-Shard transaction receipt name or commit time is inconsistent''
               else Inr \<lparr>sr_command_id = cid, sr_transaction_id = rtx, sr_start_time = start,
                         sr_snapshot_applied_index = u64_from_be (take 8 (drop 44 bytes)),
                         sr_commit_time = commit, sr_request_digest = b32_from_be (drop 60 bytes)\<rparr>))))
       | _ \<Rightarrow> corrupt ''single-Shard transaction receipt is not bytes'')"

section \<open>Home decisions\<close>

definition home_decision_metadata ::
    "(byte list \<Rightarrow> digest32) \<Rightarrow> record_home_decision \<Rightarrow> (shard_error, replica_metadata) result" where
  "home_decision_metadata blake3 c =
     try_r (shard_command_encode blake3 (RecordHomeDecision c)) (\<lambda>bytes.
       of_storage (replica_metadata_new
         (home_decision_metadata_prefix @ hex32 (ident128_get (tr_id (hd_decision c)))) (VBytes bytes)))"

definition decode_home_decision_metadata ::
    "(byte list \<Rightarrow> digest32) \<Rightarrow> replica_metadata \<Rightarrow> (shard_error, record_home_decision) result" where
  "decode_home_decision_metadata blake3 md =
     try_r (transaction_id_from_metadata_name (rm_name md) home_decision_metadata_prefix) (\<lambda>tx.
       case rm_value md of
         VBytes bytes \<Rightarrow>
           try_r (shard_command_decode blake3 bytes) (\<lambda>command. case command of
             RecordHomeDecision c \<Rightarrow>
               if tr_id (hd_decision c) \<noteq> tx
               then corrupt ''Home decision metadata name contradicts its transaction ID''
               else Inr c
           | _ \<Rightarrow> corrupt ''Home decision metadata contains another command type'')
       | _ \<Rightarrow> corrupt ''Home decision metadata is not bytes'')"

section \<open>Historical batches\<close>

definition validate_historical_transaction_batch ::
    "(byte list \<Rightarrow> digest32) \<Rightarrow> shard_command \<Rightarrow> logical_mutation list \<Rightarrow> (shard_error, unit) result" where
  "validate_historical_transaction_batch blake3 command historical =
     try_r (command_mutations blake3 command) (\<lambda>ms.
       if length historical \<noteq> length ms + 2 \<or> take (length ms) historical \<noteq> ms
       then corrupt ''old-index transaction batch contradicts the replayed command''
       else case historical ! length ms of
         PutReplicaMetadata state_md \<Rightarrow> (case historical ! (length ms + 1) of
           PutReplicaMetadata active_md \<Rightarrow>
             try_r (decode_transaction_state_metadata blake3 state_md) (\<lambda>state.
             try_r (decode_active_intents_metadata active_md) (\<lambda>active.
             case command of
               PrewriteIntent c \<Rightarrow>
                 if dt_intent state = pw_intent c \<and> dt_terminal state = None
                 then try_r (intent_digest blake3 (pw_intent c)) (\<lambda>d.
                   if map_of active (pi_transaction_id (pw_intent c)) = Some d then Inr ()
                   else corrupt ''old-index transaction metadata contradicts the replayed command'')
                 else corrupt ''old-index transaction metadata contradicts the replayed command''
             | FinalizeParticipant c \<Rightarrow>
                 if matches_finalize state c \<and> map_of active (tr_id (fp_terminal c)) = None then Inr ()
                 else corrupt ''old-index transaction metadata contradicts the replayed command''
             | _ \<Rightarrow> Inl (ShardPanic ''only transaction state commands use historical batch replay'')))
         | _ \<Rightarrow> corrupt ''old-index transaction batch lacks the active transaction index'')
       | _ \<Rightarrow> corrupt ''old-index transaction batch lacks durable transaction state'')"

section \<open>Conflicts\<close>

datatype graph_identity = IdVertex vertex_id | IdEdge edge_id

datatype write_extent = ExtentInterval valid_interval | CompleteIdentity

definition graph_write :: "logical_mutation \<Rightarrow> (graph_identity \<times> write_extent) option" where
  "graph_write m = (case m of
     PutVertex v \<Rightarrow> Some (IdVertex (vv_id v), ExtentInterval (vv_valid_time v))
   | DeleteVertex t \<Rightarrow> Some (IdVertex (vt_id t), CompleteIdentity)
   | PutEdge e \<Rightarrow> Some (IdEdge (ev_id e), ExtentInterval (ev_valid_time e))
   | DeleteEdge t \<Rightarrow> Some (IdEdge (et_id t), CompleteIdentity)
   | _ \<Rightarrow> None)"

fun extents_conflict :: "write_extent \<Rightarrow> write_extent \<Rightarrow> bool" where
  "extents_conflict (ExtentInterval i) (ExtentInterval j) = overlaps i j"
| "extents_conflict _ _ = True"

definition mutations_conflict :: "logical_mutation list \<Rightarrow> logical_mutation list \<Rightarrow> bool" where
  "mutations_conflict left right =
     list_ex (\<lambda>l. list_ex (\<lambda>r. fst l = fst r \<and> extents_conflict (snd l) (snd r))
       (List.map_filter graph_write right)) (List.map_filter graph_write left)"

end
