(* ===== verification/Shard_Machine.thy ===== *)
theory Shard_Machine
  imports Shard_Meta
begin

text \<open>
  The shard state machine (\<^verbatim>\<open>state_machine.rs\<close>): start-up from a state store, acceptance of
  committed commands, their application through the store, replays, rejections and the migration
  cutover.  A method that takes \<open>&mut self\<close> is a computation over the machine and the world
  behind its stores; one that takes \<open>&self\<close> runs in that world with the machine fixed.
\<close>

section \<open>The machine\<close>

datatype apply_rejection =
    RejInvalidCommand
  | RejStalePlacementEpoch
  | RejStaleBackendGeneration
  | RejWriteConflict
  | RejClosedTimestampFenced
  | RejHomeDecisionConflict

definition rejection_code :: "apply_rejection \<Rightarrow> string" where
  "rejection_code r = (case r of
     RejInvalidCommand \<Rightarrow> ''DTG-SHARD-REJECTED-COMMAND''
   | RejStalePlacementEpoch \<Rightarrow> ''DTG-SHARD-REJECTED-STALE-EPOCH''
   | RejStaleBackendGeneration \<Rightarrow> ''DTG-SHARD-REJECTED-STALE-GENERATION''
   | RejWriteConflict \<Rightarrow> ''DTG-SHARD-REJECTED-WRITE-CONFLICT''
   | RejClosedTimestampFenced \<Rightarrow> ''DTG-SHARD-REJECTED-CLOSED-TIME''
   | RejHomeDecisionConflict \<Rightarrow> ''DTG-SHARD-REJECTED-HOME-DECISION'')"

record apply_outcome =
  ao_digest :: digest32
  ao_applied_index :: u64
  ao_replayed :: bool
  ao_rejection :: "apply_rejection option"
  ao_active_binding :: replica_binding

record 'w shard_machine =
  sm_binding :: replica_binding
  sm_state_store :: "'w state_store"
  sm_applied_index :: u64
  sm_closed_timestamp :: "transaction_time option"
  sm_active_intents :: "(transaction_id, participant_intent) bmap"
  sm_migration_state_stores :: "(backend_generation, 'w state_store) bmap"

datatype intent_transition =
    NoTransition
  | PrepareIntent participant_intent
  | FinalizeIntent transaction_id participant_intent
  | ReplayIntent

text \<open>A call of the store, its error converted by the question mark.\<close>

definition store_call :: "('w, storage_error, 'a) eff \<Rightarrow> ('w, shard_error, 'a) eff" where
  "store_call m = (\<lambda>w. case m w of (r, w') \<Rightarrow> (of_storage r, w'))"

definition on_self ::
    "('w shard_machine \<Rightarrow> ('w, shard_error, 'a) eff) \<Rightarrow> ('w shard_machine \<times> 'w, shard_error, 'a) eff" where
  "on_self f = (\<lambda>(m, w). case f m w of (r, w') \<Rightarrow> (r, (m, w')))"

definition update_self ::
    "('w shard_machine \<Rightarrow> 'w shard_machine) \<Rightarrow> ('w shard_machine \<times> 'w, shard_error, unit) eff" where
  "update_self f = (\<lambda>(m, w). (Inr (), (f m, w)))"

section \<open>Paging through the change log\<close>

definition history_page_limit :: u32 where "history_page_limit = 256"
definition history_page_budget :: nat where "history_page_budget = 256"
definition history_record_budget :: nat where "history_record_budget = 256 * 256"

definition cursor_after :: "change_cursor option \<Rightarrow> change_cursor \<Rightarrow> bool" where
  "cursor_after after c = (case after of None \<Rightarrow> True | Some a \<Rightarrow> cursor_less a c)"

definition visit_rows ::
    "(change_record \<Rightarrow> (shard_error, unit) result) \<Rightarrow> u64 \<Rightarrow> change_cursor option \<Rightarrow> change_record list
      \<Rightarrow> (shard_error, unit) result" where
  "visit_rows visit applied after rows =
     try_all (\<lambda>c.
       if \<not> cursor_after after (cr_cursor c) \<or> applied < cc_raft_index (cr_cursor c)
       then corrupt ''durable change history row is outside the requested range''
       else visit c) rows"

definition page_progress :: "change_cursor option \<Rightarrow> change_page \<Rightarrow> change_cursor \<Rightarrow> bool" where
  "page_progress after page nxt =
     (cp_rows page \<noteq> [] \<and> cr_cursor (last (cp_rows page)) = nxt \<and> cursor_after after nxt)"

text \<open>The loop of \<open>for_each_change\<close>, counting down the pages left in the budget.\<close>

primrec visit_pages ::
    "'w read_view \<Rightarrow> (change_record \<Rightarrow> (shard_error, unit) result) \<Rightarrow> u64 \<Rightarrow> nat
      \<Rightarrow> change_cursor option \<Rightarrow> nat \<Rightarrow> ('w, shard_error, unit) eff" where
  "visit_pages view visit applied 0 after records =
     eff_of (corrupt ''durable change history exceeded the page budget'')"
| "visit_pages view visit applied (Suc pages) after records =
     eff_bind (eff_of (of_storage (changes_read_new after applied history_page_limit))) (\<lambda>q.
     eff_bind (store_call (rv_changes view q)) (\<lambda>page.
       if history_record_budget < records + length (cp_rows page)
       then eff_of (corrupt ''durable change history exceeded the record budget'')
       else eff_bind (eff_of (visit_rows visit applied after (cp_rows page))) (\<lambda>_.
         case cp_next_after page of
           None \<Rightarrow> eff_ret ()
         | Some nxt \<Rightarrow>
             if page_progress after page nxt
             then visit_pages view visit applied pages (Some nxt) (records + length (cp_rows page))
             else eff_of (corrupt ''durable change history pagination did not make progress''))))"

definition for_each_change ::
    "replica_binding \<Rightarrow> 'w state_store \<Rightarrow> u64 \<Rightarrow> change_cursor option
      \<Rightarrow> (change_record \<Rightarrow> (shard_error, unit) result) \<Rightarrow> ('w, shard_error, unit) eff" where
  "for_each_change b store applied after visit =
     (if applied = 0 then eff_ret ()
      else eff_bind (store_call (ss_begin_read_view store (read_fence_new b applied))) (\<lambda>view.
        visit_pages view visit applied history_page_budget after 0))"

fun collect_rows ::
    "u64 \<Rightarrow> logical_mutation list \<Rightarrow> change_record list \<Rightarrow> (shard_error, logical_mutation list) result" where
  "collect_rows index ms [] = Inr ms"
| "collect_rows index ms (c # cs) =
     (if cc_raft_index (cr_cursor c) \<noteq> index
         \<or> cc_mutation_ordinal (cr_cursor c) \<noteq> word_of_nat (length ms)
      then corrupt ''old-index transaction batch history is missing or out of order''
      else collect_rows index (ms @ [cr_mutation c]) cs)"

primrec collect_pages ::
    "'w read_view \<Rightarrow> u64 \<Rightarrow> nat \<Rightarrow> change_cursor \<Rightarrow> logical_mutation list
      \<Rightarrow> ('w, shard_error, logical_mutation list) eff" where
  "collect_pages view index 0 after ms =
     eff_of (corrupt ''old-index transaction batch exceeded the page budget'')"
| "collect_pages view index (Suc pages) after ms =
     eff_bind (eff_of (of_storage (changes_read_new (Some after) index history_page_limit))) (\<lambda>q.
     eff_bind (store_call (rv_changes view q)) (\<lambda>page.
       if history_record_budget < length ms + length (cp_rows page)
       then eff_of (corrupt ''old-index transaction batch exceeded the record budget'')
       else eff_bind (eff_of (collect_rows index ms (cp_rows page))) (\<lambda>ms'.
         case cp_next_after page of
           None \<Rightarrow> eff_ret ms'
         | Some nxt \<Rightarrow>
             if page_progress (Some after) page nxt \<and> cc_raft_index nxt = index
             then collect_pages view index pages nxt ms'
             else eff_of (corrupt ''old-index transaction batch pagination did not make progress''))))"

definition mutations_at_index ::
    "replica_binding \<Rightarrow> 'w state_store \<Rightarrow> u64 \<Rightarrow> u64 \<Rightarrow> ('w, shard_error, logical_mutation list) eff" where
  "mutations_at_index b store applied index =
     (if index = 0 \<or> applied \<le> index
      then eff_of (corrupt ''old-index transaction replay is outside durable history'')
      else eff_bind (store_call (ss_begin_read_view store (read_fence_new b applied))) (\<lambda>view.
        eff_bind (collect_pages view index history_page_budget (change_cursor_new (index - 1) (- 1)) []) (\<lambda>ms.
          if ms = [] then eff_of (corrupt ''old-index transaction batch history is missing'')
          else eff_ret ms)))"

section \<open>Start-up\<close>

definition load_closed_timestamp ::
    "'w state_store \<Rightarrow> ('w, shard_error, transaction_time option) eff" where
  "load_closed_timestamp store =
     eff_bind (store_call (ss_replica_metadata store closed_timestamp_metadata_name)) (\<lambda>md.
       case md of
         None \<Rightarrow> eff_ret None
       | Some d \<Rightarrow> (case rm_value d of
           VInteger v \<Rightarrow>
             if 0 \<le> v then eff_ret (Some v)
             else eff_err (StorageE (Internal ''closed timestamp metadata is outside the valid range''))
         | _ \<Rightarrow> eff_err (StorageE (Internal ''closed timestamp metadata has an invalid value''))))"

definition check_active_state ::
    "(byte list \<Rightarrow> digest32) \<Rightarrow> replica_binding \<Rightarrow> u64 \<Rightarrow> transaction_id \<Rightarrow> digest32
      \<Rightarrow> durable_transaction_state \<Rightarrow> (shard_error, unit) result" where
  "check_active_state blake3 b applied tx digest state =
     (let i = dt_intent state;
          bad = corrupt ''active transaction index contradicts its durable Prepared state''
      in if dt_terminal state \<noteq> None \<or> pi_transaction_id i \<noteq> tx \<or> pi_shard_id i \<noteq> rb_shard_id b
            \<or> applied < pi_snapshot_applied_index i
         then bad
         else try_r (intent_digest blake3 i) (\<lambda>d. if d \<noteq> digest then bad else Inr ()))"

primrec rebuild_entries ::
    "(byte list \<Rightarrow> digest32) \<Rightarrow> replica_binding \<Rightarrow> 'w state_store \<Rightarrow> u64
      \<Rightarrow> (transaction_id \<times> digest32) list \<Rightarrow> (transaction_id, participant_intent) bmap
      \<Rightarrow> ('w, shard_error, (transaction_id, participant_intent) bmap) eff" where
  "rebuild_entries blake3 b store applied [] active = eff_ret active"
| "rebuild_entries blake3 b store applied (e # es) active =
     eff_bind (store_call (ss_replica_metadata store (transaction_state_metadata_name (fst e)))) (\<lambda>md.
       case md of
         None \<Rightarrow> eff_of (corrupt ''active transaction index references missing durable state'')
       | Some d \<Rightarrow>
           eff_bind (eff_of (decode_transaction_state_metadata blake3 d)) (\<lambda>state.
           eff_bind (eff_of (check_active_state blake3 b applied (fst e) (snd e) state)) (\<lambda>_.
             rebuild_entries blake3 b store applied es (bm_insert (fst e) (dt_intent state) active))))"

definition rebuild_active_intents ::
    "(byte list \<Rightarrow> digest32) \<Rightarrow> replica_binding \<Rightarrow> 'w state_store \<Rightarrow> u64
      \<Rightarrow> ('w, shard_error, (transaction_id, participant_intent) bmap) eff" where
  "rebuild_active_intents blake3 b store applied =
     eff_bind (store_call (ss_replica_metadata store active_transaction_intents_metadata_name)) (\<lambda>md.
       case md of
         None \<Rightarrow> eff_ret []
       | Some d \<Rightarrow> eff_bind (eff_of (decode_active_intents_metadata d)) (\<lambda>indexed.
           rebuild_entries blake3 b store applied indexed []))"

definition shard_machine_new ::
    "(byte list \<Rightarrow> digest32) \<Rightarrow> replica_binding \<Rightarrow> 'w state_store \<Rightarrow> ('w, shard_error, 'w shard_machine) eff" where
  "shard_machine_new blake3 b store =
     (if ss_binding store \<noteq> b then eff_err BindingMismatch
      else
        eff_bind (store_call (ss_applied_index store)) (\<lambda>applied.
        eff_bind (rebuild_active_intents blake3 b store applied) (\<lambda>active.
        eff_bind (load_closed_timestamp store) (\<lambda>closed.
          eff_ret \<lparr>sm_binding = b, sm_state_store = store, sm_applied_index = applied,
                   sm_closed_timestamp = closed, sm_active_intents = active,
                   sm_migration_state_stores = []\<rparr>))))"

definition stage_migration_state_store ::
    "'w state_store \<Rightarrow> ('w shard_machine \<times> 'w, shard_error, unit) eff" where
  "stage_migration_state_store store = (\<lambda>(m, w).
     let b = ss_binding store; c = sm_binding m in
     if rb_role b \<noteq> Active \<or> rb_cluster_id b \<noteq> rb_cluster_id c \<or> rb_graph_id b \<noteq> rb_graph_id c
        \<or> rb_shard_id b \<noteq> rb_shard_id c \<or> rb_replica_id b \<noteq> rb_replica_id c
        \<or> rb_backend_generation b \<le> rb_backend_generation c
     then (Inl BindingMismatch, (m, w))
     else case store_call (ss_applied_index store) w of
       (Inl e, w') \<Rightarrow> (Inl e, (m, w'))
     | (Inr applied, w') \<Rightarrow>
         if applied \<noteq> sm_applied_index m then (Inl BindingMismatch, (m, w'))
         else (if map_of (sm_migration_state_stores m) (rb_backend_generation b) \<noteq> None
               then Inl (InvalidLifecycle ''migration state store generation is already staged'') else Inr (),
               (m\<lparr>sm_migration_state_stores :=
                    bm_insert (rb_backend_generation b) store (sm_migration_state_stores m)\<rparr>, w')))"

section \<open>Acceptance\<close>

definition committed_rejection :: "shard_error \<Rightarrow> apply_rejection option" where
  "committed_rejection e = (case e of
     InvalidCommand msg \<Rightarrow>
       if msg = ''closed timestamp is fenced by a pending prepared intent''
       then Some RejClosedTimestampFenced else Some RejInvalidCommand
   | StalePlacementEpoch _ _ \<Rightarrow> Some RejStalePlacementEpoch
   | StaleBackendGeneration _ _ \<Rightarrow> Some RejStaleBackendGeneration
   | WriteConflictS \<Rightarrow> Some RejWriteConflict
   | HomeDecisionConflict \<Rightarrow> Some RejHomeDecisionConflict
   | _ \<Rightarrow> None)"

definition command_intent :: "shard_command \<Rightarrow> participant_intent option" where
  "command_intent c = (case c of
     PrewriteIntent x \<Rightarrow> Some (pw_intent x) | FinalizeParticipant x \<Rightarrow> fp_intent x | _ \<Rightarrow> None)"

definition command_snapshot_index :: "shard_command \<Rightarrow> u64 option" where
  "command_snapshot_index c = (case c of
     CommitSingleShardTransaction x \<Rightarrow> Some (cst_snapshot_applied_index x)
   | PrewriteIntent x \<Rightarrow> Some (pi_snapshot_applied_index (pw_intent x))
   | FinalizeParticipant x \<Rightarrow> map_option pi_snapshot_applied_index (fp_intent x)
   | _ \<Rightarrow> None)"

definition closed_timestamp_fenced ::
    "(transaction_id, participant_intent) bmap \<Rightarrow> transaction_time \<Rightarrow> bool" where
  "closed_timestamp_fenced active proposed =
     list_ex (\<lambda>(tx, i). list_ex (\<lambda>pending. pending \<le> proposed)
       (List.map_filter graph_mutation_time (pi_mutations i))) active"

definition validate_closed_timestamp ::
    "'w shard_machine \<Rightarrow> shard_command \<Rightarrow> (shard_error, unit) result" where
  "validate_closed_timestamp m command = (case command of
     AdvanceClosedTimestamp c \<Rightarrow>
       let proposed = ac_closed_timestamp c in
       if (case sm_closed_timestamp m of None \<Rightarrow> False | Some current \<Rightarrow> proposed < current)
       then Inl (InvalidCommand ''closed timestamp cannot move backwards'')
       else if closed_timestamp_fenced (sm_active_intents m) proposed
       then Inl (InvalidCommand ''closed timestamp is fenced by a pending prepared intent'')
       else Inr ()
   | _ \<Rightarrow> Inr ())"

definition is_cutover :: "'w shard_machine \<Rightarrow> shard_command \<Rightarrow> bool" where
  "is_cutover m command = (case command of
     Migration c \<Rightarrow>
       cuts_over_from c (rb_placement_epoch (sm_binding m)) (rb_backend_generation (sm_binding m))
   | _ \<Rightarrow> False)"

definition validate_command ::
    "(byte list \<Rightarrow> digest32) \<Rightarrow> 'w shard_machine \<Rightarrow> shard_command \<Rightarrow> (shard_error, unit) result" where
  "validate_command blake3 m command =
     (let h = command_header_of command;
          expected_epoch = ident_get (rb_placement_epoch (sm_binding m));
          actual_epoch = ident_get (ch_placement_epoch h);
          expected_generation = ident_get (rb_backend_generation (sm_binding m));
          actual_generation = ident_get (ch_backend_generation h);
          cutover = is_cutover m command
      in if \<not> cutover \<and> actual_epoch \<noteq> expected_epoch
         then Inl (StalePlacementEpoch expected_epoch actual_epoch)
         else if \<not> cutover \<and> actual_generation \<noteq> expected_generation
         then Inl (StaleBackendGeneration expected_generation actual_generation)
         else if (case command_intent command of None \<Rightarrow> False
                  | Some i \<Rightarrow> pi_shard_id i \<noteq> rb_shard_id (sm_binding m))
         then Inl (InvalidCommand ''transaction intent belongs to a different Shard'')
         else if (case command_snapshot_index command of None \<Rightarrow> False
                  | Some snapshot \<Rightarrow> sm_applied_index m < snapshot)
         then Inl (InvalidCommand
           ''transaction snapshot applied index is ahead of the Shard state machine'')
         else try_r (validate_closed_timestamp m command) (\<lambda>_.
              try_r (command_mutations blake3 command) (\<lambda>_. Inr ())))"

definition visit_conflict ::
    "transaction_time \<Rightarrow> logical_mutation list \<Rightarrow> change_record \<Rightarrow> (shard_error, unit) result" where
  "visit_conflict start candidate change =
     (let m = cr_mutation change in
      if (case graph_mutation_time m of None \<Rightarrow> False | Some t \<Rightarrow> start < t)
         \<and> mutations_conflict candidate [m]
      then Inl WriteConflictS else Inr ())"

definition validate_write_conflicts ::
    "'w shard_machine \<Rightarrow> transaction_id \<Rightarrow> transaction_time \<Rightarrow> u64 \<Rightarrow> logical_mutation list
      \<Rightarrow> ('w, shard_error, unit) eff" where
  "validate_write_conflicts m tx start snapshot candidate =
     (if list_ex (\<lambda>(_, i). pi_transaction_id i \<noteq> tx \<and> mutations_conflict candidate (pi_mutations i))
           (sm_active_intents m)
      then eff_err WriteConflictS
      else for_each_change (sm_binding m) (sm_state_store m) (sm_applied_index m)
        (Some (change_cursor_new snapshot (- 1))) (visit_conflict start candidate))"

definition single_shard_transaction_is_durable ::
    "'w shard_machine \<Rightarrow> commit_single_shard_transaction \<Rightarrow> ('w, shard_error, bool) eff" where
  "single_shard_transaction_is_durable m c =
     eff_bind (eff_of (single_shard_transaction_metadata c)) (\<lambda>expected.
     eff_bind (store_call (ss_replica_metadata (sm_state_store m) (rm_name expected))) (\<lambda>durable.
       case durable of
         None \<Rightarrow> eff_ret False
       | Some md \<Rightarrow> eff_bind (eff_of (decode_single_shard_transaction_metadata md)) (\<lambda>_.
           if md = expected then eff_ret True
           else eff_of (corrupt ''single-Shard transaction command has contradictory durable receipts''))))"

definition durable_transaction_state ::
    "(byte list \<Rightarrow> digest32) \<Rightarrow> 'w shard_machine \<Rightarrow> transaction_id
      \<Rightarrow> ('w, shard_error, durable_transaction_state option) eff" where
  "durable_transaction_state blake3 m tx =
     eff_bind (store_call (ss_replica_metadata (sm_state_store m) (transaction_state_metadata_name tx)))
       (\<lambda>md. case md of
          None \<Rightarrow> eff_ret None
        | Some d \<Rightarrow> eff_bind (eff_of (decode_transaction_state_metadata blake3 d)) (\<lambda>s. eff_ret (Some s)))"

definition home_decision_is_durable ::
    "(byte list \<Rightarrow> digest32) \<Rightarrow> 'w shard_machine \<Rightarrow> record_home_decision \<Rightarrow> ('w, shard_error, bool) eff" where
  "home_decision_is_durable blake3 m c =
     eff_bind (eff_of (home_decision_metadata blake3 c)) (\<lambda>expected.
     eff_bind (store_call (ss_replica_metadata (sm_state_store m) (rm_name expected))) (\<lambda>durable.
       case durable of
         None \<Rightarrow> eff_ret False
       | Some md \<Rightarrow>
           if md = expected then eff_ret True
           else eff_bind (eff_of (decode_home_decision_metadata blake3 md)) (\<lambda>_.
             eff_err HomeDecisionConflict)))"

definition accept_prewrite ::
    "(byte list \<Rightarrow> digest32) \<Rightarrow> 'w shard_machine \<Rightarrow> prewrite_intent \<Rightarrow> ('w, shard_error, intent_transition) eff" where
  "accept_prewrite blake3 m c =
     (let i = pw_intent c in
      case map_of (sm_active_intents m) (pi_transaction_id i) of
        Some existing \<Rightarrow>
          if existing = i then eff_ret ReplayIntent
          else eff_of (corrupt ''one transaction has contradictory active participant intents'')
      | None \<Rightarrow>
          if length (sm_active_intents m) = max_transaction_intent_items
          then eff_err (InvalidCommand ''active transaction intent count exceeds the supported bound'')
          else eff_bind (durable_transaction_state blake3 m (pi_transaction_id i)) (\<lambda>state.
            if state \<noteq> None
            then eff_of (corrupt ''new prewrite contradicts existing durable transaction state'')
            else eff_bind (validate_write_conflicts m (pi_transaction_id i) (pi_start_time i)
                   (pi_snapshot_applied_index i) (pi_mutations i)) (\<lambda>_. eff_ret (PrepareIntent i))))"

definition accept_finalize ::
    "(byte list \<Rightarrow> digest32) \<Rightarrow> 'w shard_machine \<Rightarrow> finalize_participant
      \<Rightarrow> ('w, shard_error, intent_transition) eff" where
  "accept_finalize blake3 m c =
     (let tx = tr_id (fp_terminal c) in
      case map_of (sm_active_intents m) tx of
        Some active \<Rightarrow>
          eff_bind (eff_of (intent_digest blake3 active)) (\<lambda>d.
            if d \<noteq> tr_record_digest (fp_terminal c)
               \<or> (case fp_intent c of None \<Rightarrow> False | Some i \<Rightarrow> i \<noteq> active)
            then eff_of (corrupt ''participant finalization contradicts the active durable intent'')
            else eff_bind (eff_of (validate_intent_terminal blake3 active (fp_terminal c))) (\<lambda>_.
              eff_ret (FinalizeIntent tx active)))
      | None \<Rightarrow>
          eff_bind (durable_transaction_state blake3 m tx) (\<lambda>state.
            case state of
              None \<Rightarrow> eff_of (corrupt ''participant finalization has no durable Prepared intent'')
            | Some s \<Rightarrow>
                if matches_finalize s c then eff_ret ReplayIntent
                else eff_of (corrupt ''participant finalization contradicts durable terminal state'')))"

definition validate_transaction_acceptance ::
    "(byte list \<Rightarrow> digest32) \<Rightarrow> shard_command \<Rightarrow> 'w shard_machine \<Rightarrow> ('w, shard_error, intent_transition) eff" where
  "validate_transaction_acceptance blake3 command m = (case command of
     CommitSingleShardTransaction c \<Rightarrow>
       eff_bind (single_shard_transaction_is_durable m c) (\<lambda>durable.
         if durable then eff_ret ReplayIntent
         else eff_bind (validate_write_conflicts m (cst_transaction_id c) (cst_start_time c)
                (cst_snapshot_applied_index c) (cst_mutations c)) (\<lambda>_. eff_ret NoTransition))
   | PrewriteIntent c \<Rightarrow> accept_prewrite blake3 m c
   | FinalizeParticipant c \<Rightarrow> accept_finalize blake3 m c
   | RecordHomeDecision c \<Rightarrow>
       eff_bind (home_decision_is_durable blake3 m c) (\<lambda>durable.
         eff_ret (if durable then ReplayIntent else NoTransition))
   | _ \<Rightarrow> eff_ret NoTransition)"

section \<open>Application\<close>

definition outcome_of ::
    "apply_receipt \<Rightarrow> bool \<Rightarrow> apply_rejection option \<Rightarrow> replica_binding \<Rightarrow> apply_outcome" where
  "outcome_of r replayed rejection b =
     \<lparr>ao_digest = ar_mutation_digest r, ao_applied_index = ar_raft_index r, ao_replayed = replayed,
      ao_rejection = rejection, ao_active_binding = b\<rparr>"

definition advance_applied :: "apply_receipt \<Rightarrow> 'w shard_machine \<Rightarrow> 'w shard_machine" where
  "advance_applied r m = m\<lparr>sm_applied_index := max (sm_applied_index m) (ar_raft_index r)\<rparr>"

text \<open>Commit one batch of this machine: the common tail of the methods that write.\<close>

definition apply_batch ::
    "(byte list \<Rightarrow> digest32) \<Rightarrow> u64 \<Rightarrow> u64 \<Rightarrow> command_id \<Rightarrow> logical_mutation list \<Rightarrow> 'w shard_machine
      \<Rightarrow> ('w, shard_error, apply_receipt) eff" where
  "apply_batch blake3 term index cid ms m =
     eff_bind (eff_of (of_storage (committed_shard_batch_new blake3 (sm_binding m) term index cid ms)))
       (\<lambda>batch. store_call (ss_apply (sm_state_store m) batch))"

definition rejection_metadata ::
    "command_id \<Rightarrow> apply_rejection \<Rightarrow> (shard_error, replica_metadata) result" where
  "rejection_metadata cid rejection =
     of_storage (replica_metadata_new ''dtg.raft_rejection'' (VMap (bm_of
       [(''command_id'', VBytes (u128_be (ident128_get cid))),
        (''reason'', VString (rejection_code rejection))])))"

definition apply_rejected ::
    "(byte list \<Rightarrow> digest32) \<Rightarrow> u64 \<Rightarrow> u64 \<Rightarrow> command_id \<Rightarrow> apply_rejection
      \<Rightarrow> ('w shard_machine \<times> 'w, shard_error, apply_outcome) eff" where
  "apply_rejected blake3 term index cid rejection =
     eff_bind (eff_of (rejection_metadata cid rejection)) (\<lambda>md.
     eff_bind (on_self (apply_batch blake3 term index cid [PutReplicaMetadata md])) (\<lambda>r.
     eff_bind (update_self (advance_applied r)) (\<lambda>_.
     on_self (\<lambda>m. eff_ret (outcome_of r (ar_replayed r) (Some rejection) (sm_binding m))))))"

definition apply_raft_noop ::
    "(byte list \<Rightarrow> digest32) \<Rightarrow> u64 \<Rightarrow> u64 \<Rightarrow> ('w shard_machine \<times> 'w, shard_error, apply_outcome) eff" where
  "apply_raft_noop blake3 term index =
     eff_bind (eff_of (of_storage (command_id_new (word_of_nat (unat term * 2 ^ 64 + unat index))))) (\<lambda>cid.
     eff_bind (eff_of (of_storage (replica_metadata_new ''dtg.raft_noop'' (VBytes (u64_be index))))) (\<lambda>md.
     eff_bind (on_self (apply_batch blake3 term index cid [PutReplicaMetadata md])) (\<lambda>r.
     eff_bind (update_self (advance_applied r)) (\<lambda>_.
     on_self (\<lambda>m. eff_ret (outcome_of r (ar_replayed r) None (sm_binding m)))))))"

definition replay_old_transaction_command ::
    "(byte list \<Rightarrow> digest32) \<Rightarrow> u64 \<Rightarrow> u64 \<Rightarrow> shard_command \<Rightarrow> 'w shard_machine
      \<Rightarrow> ('w, shard_error, apply_outcome) eff" where
  "replay_old_transaction_command blake3 term index command m =
     eff_bind (mutations_at_index (sm_binding m) (sm_state_store m) (sm_applied_index m) index) (\<lambda>ms.
     eff_bind (eff_of (validate_historical_transaction_batch blake3 command ms)) (\<lambda>_.
     eff_bind (apply_batch blake3 term index (ch_command_id (command_header_of command)) ms m) (\<lambda>r.
       if \<not> ar_replayed r
       then eff_of (corrupt ''old-index transaction replay unexpectedly applied a new batch'')
       else eff_ret (outcome_of r True None (sm_binding m)))))"

definition apply_migration_cutover ::
    "(byte list \<Rightarrow> digest32) \<Rightarrow> u64 \<Rightarrow> u64 \<Rightarrow> migration_command
      \<Rightarrow> ('w shard_machine \<times> 'w, shard_error, apply_outcome) eff" where
  "apply_migration_cutover blake3 term index c =
     eff_bind (eff_of (ok_or (map_option om_target_generation (mc_online c))
       (InvalidCommand ''migration cutover lacks a target''))) (\<lambda>generation.
     eff_bind (on_self (\<lambda>m. eff_of (ok_or (map_of (sm_migration_state_stores m) generation)
       (InvalidLifecycle ''migration cutover target state store is not staged'')))) (\<lambda>target.
     eff_bind (on_self (\<lambda>m.
       let b = ss_binding target in
       if rb_placement_epoch b \<noteq> ch_placement_epoch (mc_header c) \<or> rb_backend_generation b \<noteq> generation
       then eff_err BindingMismatch
       else eff_bind (eff_of (ok_or (map_option om_target_backend_class_digest (mc_online c))
              (InvalidCommand ''migration cutover lacks a target backend class''))) (\<lambda>class.
         if rb_backend_class_digest b \<noteq> class
            \<or> map_option om_verified_index (mc_online c) \<noteq> Some (sm_applied_index m)
         then eff_err BindingMismatch else eff_ret ()))) (\<lambda>_.
     eff_bind (eff_of (command_mutations blake3 (Migration c))) (\<lambda>ms.
     eff_bind (eff_of (of_storage (committed_shard_batch_new blake3 (ss_binding target) term index
       (ch_command_id (mc_header c)) ms))) (\<lambda>batch.
     eff_bind (on_self (\<lambda>m. store_call (ss_apply target batch))) (\<lambda>r.
     eff_bind (on_self (\<lambda>m. rebuild_active_intents blake3 (ss_binding target) target (ar_raft_index r)))
       (\<lambda>active.
     eff_bind (update_self (\<lambda>m. m
       \<lparr>sm_migration_state_stores := bm_remove generation (sm_migration_state_stores m),
        sm_binding := ss_binding target, sm_state_store := target,
        sm_applied_index := ar_raft_index r, sm_active_intents := active\<rparr>)) (\<lambda>_.
     eff_ret (outcome_of r (ar_replayed r) None (ss_binding target))))))))))"

definition next_intents ::
    "intent_transition \<Rightarrow> (transaction_id, participant_intent) bmap \<Rightarrow> (transaction_id, participant_intent) bmap" where
  "next_intents t active = (case t of
     PrepareIntent i \<Rightarrow> bm_insert (pi_transaction_id i) i active
   | FinalizeIntent tx _ \<Rightarrow> bm_remove tx active
   | _ \<Rightarrow> active)"

text \<open>The metadata a command adds to its own mutations.\<close>

definition intent_metadata_pair ::
    "(byte list \<Rightarrow> digest32) \<Rightarrow> participant_intent \<Rightarrow> transaction_record option
      \<Rightarrow> (transaction_id, participant_intent) bmap \<Rightarrow> (shard_error, logical_mutation list) result" where
  "intent_metadata_pair blake3 i terminal active =
     try_r (transaction_state_metadata blake3 i terminal) (\<lambda>state_md.
     try_r (active_intents_metadata blake3 active) (\<lambda>active_md.
       Inr [PutReplicaMetadata state_md, PutReplicaMetadata active_md]))"

definition extra_mutations ::
    "(byte list \<Rightarrow> digest32) \<Rightarrow> shard_command \<Rightarrow> intent_transition \<Rightarrow> 'w shard_machine
      \<Rightarrow> ('w, shard_error, logical_mutation list) eff" where
  "extra_mutations blake3 command t m =
     (let active = next_intents t (sm_active_intents m) in
      case command of
        RecordHomeDecision c \<Rightarrow>
          eff_of (try_r (home_decision_metadata blake3 c) (\<lambda>md. Inr [PutReplicaMetadata md]))
      | CommitSingleShardTransaction c \<Rightarrow>
          eff_of (try_r (single_shard_transaction_metadata c) (\<lambda>md. Inr [PutReplicaMetadata md]))
      | PrewriteIntent c \<Rightarrow> (case t of
          PrepareIntent i \<Rightarrow> eff_of (intent_metadata_pair blake3 i None active)
        | ReplayIntent \<Rightarrow> eff_of (intent_metadata_pair blake3 (pw_intent c) None active)
        | _ \<Rightarrow> eff_ret [])
      | FinalizeParticipant c \<Rightarrow> (case t of
          FinalizeIntent _ i \<Rightarrow> eff_of (intent_metadata_pair blake3 i (Some (fp_terminal c)) active)
        | ReplayIntent \<Rightarrow>
            eff_bind (durable_transaction_state blake3 m (tr_id (fp_terminal c))) (\<lambda>state.
              case state of
                None \<Rightarrow> eff_of (corrupt
                  ''participant finalization replay lost its durable transaction state'')
              | Some s \<Rightarrow> eff_of (intent_metadata_pair blake3 (dt_intent s) (dt_terminal s) active))
        | _ \<Rightarrow> eff_ret [])
      | _ \<Rightarrow> eff_ret [])"

definition accept_receipt ::
    "shard_command \<Rightarrow> intent_transition \<Rightarrow> apply_receipt \<Rightarrow> 'w shard_machine \<Rightarrow> 'w shard_machine" where
  "accept_receipt command t r m =
     (let m1 = advance_applied r m;
          m2 = (case command of
            AdvanceClosedTimestamp c \<Rightarrow> m1\<lparr>sm_closed_timestamp := Some (ac_closed_timestamp c)\<rparr>
          | _ \<Rightarrow> m1)
      in if ar_replayed r then m2
         else m2\<lparr>sm_active_intents := next_intents t (sm_active_intents m2)\<rparr>)"

definition apply_accepted ::
    "(byte list \<Rightarrow> digest32) \<Rightarrow> u64 \<Rightarrow> u64 \<Rightarrow> shard_command \<Rightarrow> intent_transition
      \<Rightarrow> ('w shard_machine \<times> 'w, shard_error, apply_outcome) eff" where
  "apply_accepted blake3 term index command t =
     eff_bind (on_self (\<lambda>m. eff_ret (sm_applied_index m < index \<and> t = ReplayIntent))) (\<lambda>logical_replay.
     eff_bind (eff_of (if logical_replay then Inr [] else command_mutations blake3 command)) (\<lambda>ms.
     eff_bind (on_self (extra_mutations blake3 command t)) (\<lambda>extra.
     eff_bind (on_self (apply_batch blake3 term index (ch_command_id (command_header_of command)) (ms @ extra)))
       (\<lambda>r.
     eff_bind (update_self (accept_receipt command t r)) (\<lambda>_.
     on_self (\<lambda>m. eff_ret (outcome_of r (ar_replayed r \<or> logical_replay) None (sm_binding m))))))))"

text \<open>A refused command is itself committed, as a rejection, when its error is of the
  deterministic kind.\<close>

definition reject_or_fail ::
    "(byte list \<Rightarrow> digest32) \<Rightarrow> u64 \<Rightarrow> u64 \<Rightarrow> shard_command \<Rightarrow> shard_error
      \<Rightarrow> ('w shard_machine \<times> 'w, shard_error, apply_outcome) eff" where
  "reject_or_fail blake3 term index command e = (case committed_rejection e of
     Some rejection \<Rightarrow> apply_rejected blake3 term index (ch_command_id (command_header_of command)) rejection
   | None \<Rightarrow> eff_err e)"

definition is_intent_command :: "shard_command \<Rightarrow> bool" where
  "is_intent_command c = (case c of PrewriteIntent _ \<Rightarrow> True | FinalizeParticipant _ \<Rightarrow> True | _ \<Rightarrow> False)"

definition apply_committed ::
    "(byte list \<Rightarrow> digest32) \<Rightarrow> u64 \<Rightarrow> u64 \<Rightarrow> shard_command
      \<Rightarrow> ('w shard_machine \<times> 'w, shard_error, apply_outcome) eff" where
  "apply_committed blake3 term index command = (\<lambda>(m, w).
     (case validate_command blake3 m command of
        Inl e \<Rightarrow> reject_or_fail blake3 term index command e
      | Inr _ \<Rightarrow>
          if is_cutover m command
          then (case command of
                  Migration c \<Rightarrow> apply_migration_cutover blake3 term index c
                | _ \<Rightarrow> eff_err (ShardPanic ''only migrations cut over''))
          else if index < sm_applied_index m \<and> is_intent_command command
          then on_self (replay_old_transaction_command blake3 term index command)
          else eff_match (on_self (validate_transaction_acceptance blake3 command)) (\<lambda>r. case r of
            Inl e \<Rightarrow> reject_or_fail blake3 term index command e
          | Inr t \<Rightarrow> apply_accepted blake3 term index command t)) (m, w))"

section \<open>Batches\<close>

record batch_progress =
  bp_expected_index :: u64
  bp_prior_mutations :: "logical_mutation list"
  bp_transaction_ids :: "transaction_id list"
  bp_batches :: "committed_shard_batch list"

text \<open>One round of the loop: a left result is the early \<open>return Ok(None)\<close>.\<close>

definition collect_transaction ::
    "(byte list \<Rightarrow> digest32) \<Rightarrow> 'w shard_machine \<Rightarrow> batch_progress \<Rightarrow> u64 \<times> u64 \<times> shard_command
      \<Rightarrow> ('w, shard_error, unit + batch_progress) eff" where
  "collect_transaction blake3 m p entry = (case entry of (term, index, command) \<Rightarrow>
     (case command of
        CommitSingleShardTransaction c \<Rightarrow>
          if index \<noteq> bp_expected_index p \<or> term = 0 \<or> cst_transaction_id c \<in> set (bp_transaction_ids p)
             \<or> \<not> is_ok (validate_command blake3 m command)
          then eff_ret (Inl ())
          else eff_match (validate_transaction_acceptance blake3 command m) (\<lambda>r.
            if r \<noteq> Inr NoTransition \<or> mutations_conflict (bp_prior_mutations p) (cst_mutations c)
            then eff_ret (Inl ())
            else
              eff_bind (eff_of (single_shard_transaction_metadata c)) (\<lambda>md.
              eff_bind (eff_of (of_storage (committed_shard_batch_new blake3 (sm_binding m) term index
                (ch_command_id (cst_header c)) (cst_mutations c @ [PutReplicaMetadata md])))) (\<lambda>batch.
              eff_ret (Inr
                \<lparr>bp_expected_index = sat_succ (bp_expected_index p),
                 bp_prior_mutations = bp_prior_mutations p @ cst_mutations c,
                 bp_transaction_ids = cst_transaction_id c # bp_transaction_ids p,
                 bp_batches = bp_batches p @ [batch]\<rparr>))))
      | _ \<Rightarrow> eff_ret (Inl ())))"

definition try_apply_single_shard_transaction_batch ::
    "(byte list \<Rightarrow> digest32) \<Rightarrow> (u64 \<times> u64 \<times> shard_command) list
      \<Rightarrow> ('w shard_machine \<times> 'w, shard_error, apply_outcome list option) eff" where
  "try_apply_single_shard_transaction_batch blake3 entries =
     eff_bind (on_self (\<lambda>m. eff_loop (collect_transaction blake3 m)
       \<lparr>bp_expected_index = sat_succ (sm_applied_index m), bp_prior_mutations = [],
        bp_transaction_ids = [], bp_batches = []\<rparr> entries)) (\<lambda>collected.
     case collected of
       Inl _ \<Rightarrow> eff_ret None
     | Inr p \<Rightarrow>
         eff_bind (on_self (\<lambda>m. store_call (ss_apply_batches (sm_state_store m) (bp_batches p)))) (\<lambda>receipts.
         if length receipts \<noteq> length entries \<or> list_ex ar_replayed receipts
         then eff_err (InvalidRaftState ''atomic state-store batch returned inconsistent receipts'')
         else
           eff_bind (update_self (\<lambda>m. if receipts = [] then m
             else m\<lparr>sm_applied_index := ar_raft_index (last receipts)\<rparr>)) (\<lambda>_.
           on_self (\<lambda>m. eff_ret (Some
             (map (\<lambda>r. outcome_of r False None (sm_binding m)) receipts))))))"

definition apply_sequential ::
    "(byte list \<Rightarrow> digest32) \<Rightarrow> (u64 \<times> u64 \<times> shard_command) list
      \<Rightarrow> ('w shard_machine \<times> 'w, shard_error, apply_outcome list) eff" where
  "apply_sequential blake3 entries =
     eff_map (\<lambda>(term, index, command). apply_committed blake3 term index command) entries"

definition apply_committed_batch ::
    "(byte list \<Rightarrow> digest32) \<Rightarrow> (u64 \<times> u64 \<times> shard_command) list
      \<Rightarrow> ('w shard_machine \<times> 'w, shard_error, apply_outcome list) eff" where
  "apply_committed_batch blake3 entries = (\<lambda>(m, w).
     (if length entries < 2 \<or> \<not> ss_supports_atomic_batch_apply (sm_state_store m)
      then apply_sequential blake3 entries
      else eff_bind (try_apply_single_shard_transaction_batch blake3 entries) (\<lambda>outcomes.
        case outcomes of None \<Rightarrow> apply_sequential blake3 entries | Some os \<Rightarrow> eff_ret os)) (m, w))"

end
