(* ===== verification/Shard_Meta_Props.thy ===== *)
theory Shard_Meta_Props
  imports Shard_Machine
begin

text \<open>
  The metadata records of the state machine determine what they record: names identify
  transactions, and the decoders invert the encoders.
\<close>

section \<open>Names\<close>

lemma hex_value_digit: "n < 16 \<Longrightarrow> hex_value (hex_digit n) = Some n"
proof -
  assume "n < 16"
  then have "n \<in> set [0..<16]" by simp
  moreover have "list_all (\<lambda>n. hex_value (hex_digit n) = Some n) [0..<16]" by code_simp
  ultimately show ?thesis by (simp add: list_all_iff del: upt.simps)
qed

lemma parse_hex_append: "parse_hex (xs @ ys) acc = Option.bind (parse_hex xs acc) (parse_hex ys)"
  by (induction xs arbitrary: acc) (auto split: option.splits)

lemma parse_hex_digits: "parse_hex (hex_digits n x) acc = Some (acc * 16 ^ n + x mod 16 ^ n)"
proof (induction n arbitrary: x)
  case (Suc n)
  have "x mod 16 ^ Suc n = 16 * (x div 16 mod 16 ^ n) + x mod 16" by (simp add: mod_mult2_eq)
  with Suc show ?case by (simp add: parse_hex_append hex_value_digit algebra_simps)
qed simp

lemma length_hex_digits [simp]: "length (hex_digits n x) = n"
  by (induction n arbitrary: x) auto

lemma length_hex32 [simp]: "length (hex32 v) = 32"
  by (simp add: hex32_def)

lemma hex_digit_not_plus: "n < 16 \<Longrightarrow> hex_digit n \<noteq> CHR ''+''"
  using hex_value_digit [of n] by (auto simp: hex_value_def)

lemma set_hex_digits: "c \<in> set (hex_digits n x) \<Longrightarrow> \<exists>k<16. c = hex_digit k"
proof (induction n arbitrary: x)
  case (Suc n)
  then consider "c \<in> set (hex_digits n (x div 16))" | "c = hex_digit (x mod 16)" by auto
  then show ?case
  proof cases
    case 2
    then show ?thesis by (intro exI [of _ "x mod 16"]) simp
  qed (rule Suc.IH)
qed simp

lemma parse_hex32 [simp]: "from_str_radix_16 (hex32 v) = Some v"
proof -
  obtain c cs where s: "hex32 v = c # cs" using length_hex32 [of v] by (cases "hex32 v") auto
  have "c \<noteq> CHR ''+''"
    using set_hex_digits [of c 32 "unat v"] s hex_digit_not_plus by (auto simp: hex32_def)
  moreover have "parse_hex (c # cs) 0 = Some (unat v)"
    using parse_hex_digits [of 32 "unat v" 0] s unsigned_less [of v, where ?'a = nat]
    by (simp add: hex32_def)
  moreover have "unat v < 2 ^ 128" using unsigned_less [of v, where ?'a = nat] by simp
  ultimately show ?thesis by (simp add: from_str_radix_16_def s)
qed

lemma hex32_inj [simp]: "hex32 v = hex32 w \<longleftrightarrow> v = w"
  by (metis option.inject parse_hex32)

lemma metadata_name_roundtrip:
  "ident128_ok tx \<Longrightarrow> transaction_id_from_metadata_name (prefix @ hex32 (ident128_get tx)) prefix = Inr tx"
  by (simp add: transaction_id_from_metadata_name_def)

lemmas metadata_name_defs =
  home_decision_metadata_prefix_def single_shard_transaction_metadata_name_def
  active_transaction_intents_metadata_name_def transaction_state_metadata_prefix_def
  closed_timestamp_metadata_name_def

definition home_decision_name :: "transaction_id \<Rightarrow> string" where
  "home_decision_name tx = home_decision_metadata_prefix @ hex32 (ident128_get tx)"

definition receipt_name :: "transaction_id \<Rightarrow> string" where
  "receipt_name tx = single_shard_transaction_metadata_name @ hex32 (ident128_get tx)"

lemma metadata_names_distinct [simp]:
  "transaction_state_metadata_name tx = transaction_state_metadata_name ty \<longleftrightarrow> tx = ty"
  "home_decision_name tx = home_decision_name ty \<longleftrightarrow> tx = ty"
  "receipt_name tx = receipt_name ty \<longleftrightarrow> tx = ty"
  "transaction_state_metadata_name tx \<noteq> home_decision_name ty"
  "transaction_state_metadata_name tx \<noteq> receipt_name ty"
  "home_decision_name tx \<noteq> receipt_name ty"
  "home_decision_name tx \<noteq> transaction_state_metadata_name ty"
  "receipt_name tx \<noteq> transaction_state_metadata_name ty"
  "receipt_name tx \<noteq> home_decision_name ty"
  "transaction_state_metadata_name tx \<noteq> active_transaction_intents_metadata_name"
  "transaction_state_metadata_name tx \<noteq> closed_timestamp_metadata_name"
  "home_decision_name tx \<noteq> active_transaction_intents_metadata_name"
  "home_decision_name tx \<noteq> closed_timestamp_metadata_name"
  "receipt_name tx \<noteq> active_transaction_intents_metadata_name"
  "receipt_name tx \<noteq> closed_timestamp_metadata_name"
  "active_transaction_intents_metadata_name \<noteq> closed_timestamp_metadata_name"
  "active_transaction_intents_metadata_name \<noteq> transaction_state_metadata_name tx"
  "closed_timestamp_metadata_name \<noteq> transaction_state_metadata_name tx"
  "active_transaction_intents_metadata_name \<noteq> home_decision_name tx"
  "closed_timestamp_metadata_name \<noteq> home_decision_name tx"
  "active_transaction_intents_metadata_name \<noteq> receipt_name tx"
  "closed_timestamp_metadata_name \<noteq> receipt_name tx"
  "closed_timestamp_metadata_name \<noteq> active_transaction_intents_metadata_name"
  by (simp_all add: transaction_state_metadata_name_def home_decision_name_def receipt_name_def
      metadata_name_defs)

section \<open>Transaction states\<close>

lemma intent_encode_length: "intent_encode i = Inr bs \<Longrightarrow> length bs < 2 ^ 32"
  by (auto simp: intent_encode_def result_simps max_transaction_intent_bytes_def split: if_splits)

lemma state_metadata_shape:
  assumes "transaction_state_metadata blake3 i terminal = Inr md"
  shows "\<exists>encoded tag. intent_encode i = Inr encoded \<and> rm_name md = transaction_state_metadata_name (pi_transaction_id i) \<and>
    rm_value md = VBytes (u32_be 1 @ [tag] @ u32_be (word_of_nat (length encoded)) @ encoded @
      (case terminal of None \<Rightarrow> [] | Some t \<Rightarrow> i64_be (tr_transaction_time t) @ b32_be (tr_record_digest t))) \<and>
    (case terminal of None \<Rightarrow> tag = 1
     | Some t \<Rightarrow> validate_intent_terminal blake3 i t = Inr () \<and>
         (tr_state t = Committed \<and> tag = 2 \<or> tr_state t = Aborted \<and> tag = 3))"
  using assms
  by (cases terminal)
    (auto simp: transaction_state_metadata_def result_simps replica_metadata_new_def corrupt_def
      split: if_splits transaction_state.splits)

lemma decode_terminal_roundtrip:
  assumes "case terminal of None \<Rightarrow> tag = 1
     | Some t \<Rightarrow> validate_intent_terminal blake3 i t = Inr () \<and> transaction_wf t \<and>
         (tr_state t = Committed \<and> tag = 2 \<or> tr_state t = Aborted \<and> tag = 3)"
  shows "decode_terminal blake3 i tag
     (case terminal of None \<Rightarrow> [] | Some t \<Rightarrow> i64_be (tr_transaction_time t) @ b32_be (tr_record_digest t)) =
     Inr terminal"
proof (cases terminal)
  case (Some t)
  with assms have id: "tr_id t = pi_transaction_id i" and v: "validate_intent_terminal blake3 i t = Inr ()"
    and wf: "time_ok (tr_transaction_time t)" "tr_record_digest t \<noteq> 0"
    and tag: "tr_state t = Committed \<and> tag = 2 \<or> tr_state t = Aborted \<and> tag = 3"
    by (auto simp: validate_intent_terminal_def corrupt_def Let_def transaction_wf_def split: if_splits)
  from wf have "0 \<le> tr_transaction_time t" "i64_ok (tr_transaction_time t)"
    by (simp_all add: time_ok_def i64_ok_def)
  moreover have "\<lparr>tr_id = pi_transaction_id i, tr_state = (if tag = 2 then Committed else Aborted),
      tr_transaction_time = tr_transaction_time t, tr_record_digest = tr_record_digest t\<rparr> = t"
    using id tag by (cases t) auto
  ultimately show ?thesis
    using Some v wf tag by (auto simp: decode_terminal_def transaction_record_new_def)
qed (use assms in \<open>simp add: decode_terminal_def\<close>)

lemma state_metadata_roundtrip:
  assumes "transaction_state_metadata blake3 i terminal = Inr md" and wf: "intent_wf i"
    and t: "case terminal of None \<Rightarrow> True | Some t \<Rightarrow> transaction_wf t"
  shows "decode_transaction_state_metadata blake3 md = Inr \<lparr>dt_intent = i, dt_terminal = terminal\<rparr>"
proof -
  from state_metadata_shape [OF assms(1)] obtain encoded tag where enc: "intent_encode i = Inr encoded"
    and md: "rm_name md = transaction_state_metadata_name (pi_transaction_id i)"
      "rm_value md = VBytes (u32_be 1 @ [tag] @ u32_be (word_of_nat (length encoded)) @ encoded @
        (case terminal of None \<Rightarrow> [] | Some t \<Rightarrow> i64_be (tr_transaction_time t) @ b32_be (tr_record_digest t)))"
    and tag: "case terminal of None \<Rightarrow> tag = 1
      | Some t \<Rightarrow> validate_intent_terminal blake3 i t = Inr () \<and>
          (tr_state t = Committed \<and> tag = 2 \<or> tr_state t = Aborted \<and> tag = 3)" by blast
  let ?rest = "case terminal of None \<Rightarrow> [] | Some t \<Rightarrow> i64_be (tr_transaction_time t) @ b32_be (tr_record_digest t)"
  have "unat (word_of_nat (length encoded) :: u32) = length encoded"
    by (rule unat_u32_of_nat [OF intent_encode_length [OF enc]])
  moreover have "decode_terminal blake3 i tag ?rest = Inr terminal"
    by (rule decode_terminal_roundtrip) (use tag t in \<open>auto split: option.splits\<close>)
  moreover have "ident128_ok (pi_transaction_id i)" using wf by (simp add: intent_wf_def)
  ultimately show ?thesis
    using intent_roundtrip [OF wf enc]
    by (simp add: decode_transaction_state_metadata_def md transaction_state_metadata_name_def
        metadata_name_roundtrip nth_append Let_def drop_Cons')
qed

section \<open>The index of active intents\<close>

fun ascending_from :: "transaction_id option \<Rightarrow> (transaction_id \<times> 'a) list \<Rightarrow> bool" where
  "ascending_from p [] = True"
| "ascending_from p (e # es) = ((case p of None \<Rightarrow> True | Some x \<Rightarrow> x < fst e) \<and> ascending_from (Some (fst e)) es)"

lemma ascending_from_bm_ok: "bm_ok es \<Longrightarrow> (case p of None \<Rightarrow> True | Some x \<Rightarrow> \<forall>e \<in> set es. x < fst e) \<Longrightarrow> ascending_from p es"
  by (induction es arbitrary: p) (auto split: option.splits)

lemma decode_chunks_roundtrip:
  assumes "ascending_from p ds" and "\<forall>e \<in> set ds. ident128_ok (fst e)" and "bm_ok (acc @ ds)"
  shows "decode_active_chunks (length ds)
    (concat (map (\<lambda>(tx, d). u128_be (ident128_get tx) @ b32_be d) ds)) p acc = Inr (acc @ ds)"
  using assms
proof (induction ds arbitrary: p acc)
  case (Cons e ds)
  obtain tx d where e: "e = (tx, d)" by (cases e)
  from Cons.prems(3) e have "bm_insert tx d acc = acc @ [(tx, d)]"
    by (intro bm_insert_last) (auto simp: bm_ok_def sorted_wrt_append)
  moreover have "ident128_new (ident128_get tx) = Inr tx" using Cons.prems(2) e by simp
  moreover have "\<not> (case p of None \<Rightarrow> False | Some p \<Rightarrow> tx \<le> p)"
    using Cons.prems(1) e by (auto split: option.splits)
  moreover have "decode_active_chunks (length ds) (concat (map (\<lambda>(tx, d). u128_be (ident128_get tx) @ b32_be d) ds))
      (Some tx) (acc @ [(tx, d)]) = Inr ((acc @ [(tx, d)]) @ ds)"
    by (rule Cons.IH) (use Cons.prems e in auto)
  ultimately show ?case by (simp add: e)
qed simp

definition intent_digests ::
    "(byte list \<Rightarrow> digest32) \<Rightarrow> (transaction_id, participant_intent) bmap \<Rightarrow> (transaction_id, digest32) bmap \<Rightarrow> bool" where
  "intent_digests blake3 active ds =
     list_all2 (\<lambda>a d. fst a = fst d \<and> intent_digest blake3 (snd a) = Inr (snd d)) active ds"

lemma intent_digests_fst: "intent_digests blake3 active ds \<Longrightarrow> map fst ds = map fst active"
  unfolding intent_digests_def by (induction rule: list_all2_induct) auto

lemma enc_active_entries_Inr:
  assumes "enc_active_entries blake3 active = Inr bytes"
  shows "\<exists>ds. intent_digests blake3 active ds \<and>
    bytes = concat (map (\<lambda>(tx, d). u128_be (ident128_get tx) @ b32_be d) ds)"
  using assms
proof (induction active arbitrary: bytes)
  case (Cons a active)
  from Cons.prems obtain d rest where d: "intent_digest blake3 (snd a) = Inr d"
    and rest: "enc_active_entries blake3 active = Inr rest"
    and bytes: "bytes = (u128_be (ident128_get (fst a)) @ b32_be d) @ rest"
    by (auto simp: enc_active_entries_def result_simps split: prod.splits)
  from Cons.IH [OF rest] obtain ds where "intent_digests blake3 active ds"
    "rest = concat (map (\<lambda>(tx, d). u128_be (ident128_get tx) @ b32_be d) ds)" by blast
  with d bytes show ?case
    by (intro exI [of _ "(fst a, d) # ds"]) (simp add: intent_digests_def)
qed (simp add: enc_active_entries_def intent_digests_def)

lemma active_metadata_roundtrip:
  assumes md: "active_intents_metadata blake3 active = Inr md" and ok: "bm_ok active"
    and ids: "\<forall>e \<in> set active. ident128_ok (fst e)"
  shows "\<exists>ds. decode_active_intents_metadata md = Inr ds \<and> intent_digests blake3 active ds"
proof -
  from md obtain bytes where n: "length active \<le> max_transaction_intent_items"
    and bytes: "enc_active_entries blake3 active = Inr bytes"
    and md': "md = \<lparr>rm_name = active_transaction_intents_metadata_name,
      rm_value = VBytes (u32_be 1 @ u32_be (word_of_nat (length active)) @ bytes)\<rparr>"
    by (auto simp: active_intents_metadata_def result_simps replica_metadata_new_def
        metadata_name_defs split: if_splits)
  from enc_active_entries_Inr [OF bytes] obtain ds where ds: "intent_digests blake3 active ds"
    and b: "bytes = concat (map (\<lambda>(tx, d). u128_be (ident128_get tx) @ b32_be d) ds)" by blast
  from intent_digests_fst [OF ds] have fst: "map fst ds = map fst active" .
  then have len: "length ds = length active" by (metis length_map)
  have okd: "bm_ok ds" using ok fst by (simp add: bm_ok_def)
  have idd: "\<forall>e \<in> set ds. ident128_ok (fst e)"
  proof
    fix e assume "e \<in> set ds"
    then have "fst e \<in> set (map fst ds)" by simp
    then show "ident128_ok (fst e)" using ids by (auto simp: fst)
  qed
  have "length (concat (map (\<lambda>(tx, d). u128_be (ident128_get tx) @ b32_be d) xs)) = length xs * 48"
    for xs :: "(transaction_id \<times> digest32) list"
    by (induction xs) auto
  moreover have "unat (word_of_nat (length active) :: u32) = length active"
    using n by (intro unat_u32_of_nat) (simp add: max_transaction_intent_items_def)
  moreover have "decode_active_chunks (length ds) bytes None [] = Inr ds"
    unfolding b using decode_chunks_roundtrip [of None ds "[]"] okd idd ascending_from_bm_ok [OF okd, of None]
    by simp
  ultimately have "decode_active_intents_metadata md = Inr ds"
    using n len by (simp add: decode_active_intents_metadata_def md' b Let_def)
  with ds show ?thesis by blast
qed

end
