(* ===== verification/Fjall_Store.thy ===== *)
theory Fjall_Store
  imports Store_Api Consensus
begin

text \<open>
  The replica state store on the embedded key-value library
  (\<^verbatim>\<open>dtg-storage-fjall/src/graph.rs\<close>, \<^verbatim>\<open>read_view.rs\<close>): keyspaces of rows under byte
  keys, one write batch per apply, replay detection by Raft index, and the temporal read view over
  the stored history.  The library and the codec of rows are external: a keyspace holds the rows
  themselves in the order of their keys, a write batch takes effect whole, and whether it does is
  drawn from the schedule \<open>fr_faults\<close>.  The fault-injection hooks of the conformance tests are
  compiled out of the shipped store and are left out here.
\<close>

section \<open>Keyspaces\<close>

datatype keyspace =
    KIdentity | KCurrentVertex | KCurrentEdge | KHistory | KAdjacencyOut | KAdjacencyIn
  | KTemporalIndex | KTransaction | KReplicaMeta

record replay_identity =
  rp_term :: u64
  rp_command_id :: command_id
  rp_mutation_digest :: digest32

datatype row = RowMutation logical_mutation | RowIdentity replay_identity | RowIndex u64 | RowEmpty

type_synonym fjall_db = "keyspace \<Rightarrow> (byte list, row) bmap"

record fjall_replica =
  fr_binding :: replica_binding
  fr_owner :: "replica_binding option"
  fr_restore_in_progress :: bool
  fr_db :: fjall_db
  fr_faults :: "storage_error option list"

type_synonym 'a replica_op = "(fjall_replica, storage_error, 'a) eff"

text \<open>A write batch of the library: inserts and removals in the order they were staged.\<close>

datatype write_op = WInsert keyspace "byte list" row | WRemove keyspace "byte list"

fun apply_write :: "write_op \<Rightarrow> fjall_db \<Rightarrow> fjall_db" where
  "apply_write (WInsert ks key v) db = db(ks := bm_insert key v (db ks))"
| "apply_write (WRemove ks key) db = db(ks := bm_remove key (db ks))"

definition commit_writes :: "write_op list \<Rightarrow> unit replica_op" where
  "commit_writes ws s =
     (case fr_faults s of
        [] \<Rightarrow> (Inr (), s\<lparr>fr_db := fold apply_write ws (fr_db s)\<rparr>)
      | None # fs \<Rightarrow> (Inr (), s\<lparr>fr_db := fold apply_write ws (fr_db s), fr_faults := fs\<rparr>)
      | Some e # fs \<Rightarrow> (Inl e, s\<lparr>fr_faults := fs\<rparr>))"

section \<open>Keys\<close>

definition applied_index_key :: "byte list" where
  "applied_index_key = str_bytes ''system/applied_index''"

definition metadata_key :: "string \<Rightarrow> byte list" where
  "metadata_key name = str_bytes ''user/'' @ str_bytes name"

definition change_key :: "u64 \<Rightarrow> u64 \<Rightarrow> byte list" where
  "change_key index ordinal = str_bytes ''c'' @ u64_be index @ u64_be ordinal"

definition history_key :: "string \<Rightarrow> u128 \<Rightarrow> int \<Rightarrow> u64 \<Rightarrow> bool \<Rightarrow> byte list" where
  "history_key prefix i t v tombstone =
     str_bytes prefix @ u128_be i @ i64_be t @ u64_be v @ [if tombstone then 1 else 0]"

definition vertex_history_key :: "vertex_version \<Rightarrow> bool \<Rightarrow> byte list" where
  "vertex_history_key v tombstone =
     history_key ''v'' (ident128_get (vv_id v)) (vv_transaction_time v) (vv_version v) tombstone"

definition vertex_tombstone_key :: "vertex_tombstone \<Rightarrow> byte list" where
  "vertex_tombstone_key t =
     history_key ''v'' (ident128_get (vt_id t)) (vt_transaction_time t) (vt_version t) True"

definition edge_history_key :: "edge_version \<Rightarrow> bool \<Rightarrow> byte list" where
  "edge_history_key e tombstone =
     history_key ''e'' (ident128_get (ev_id e)) (ev_transaction_time e) (ev_version e) tombstone"

definition edge_tombstone_key :: "edge_tombstone \<Rightarrow> byte list" where
  "edge_tombstone_key t =
     history_key ''e'' (ident128_get (et_id t)) (et_transaction_time t) (et_version t) True"

definition history_occurrence_key :: "byte list \<Rightarrow> u64 \<Rightarrow> u64 \<Rightarrow> byte list" where
  "history_occurrence_key key index ordinal = key @ u64_be index @ u64_be ordinal"

definition adjacency_key :: "vertex_id \<Rightarrow> edge_version \<Rightarrow> byte list" where
  "adjacency_key v e =
     u128_be (ident128_get v) @ u128_be (ident128_get (ev_id e)) @ i64_be (ev_transaction_time e) @
     u64_be (ev_version e)"

section \<open>Staging a mutation\<close>

record edge_adjacency_state =
  ea_current :: "(edge_id, edge_version) bmap"
  ea_cleaned :: "edge_id list"

definition adjacency_state_default :: edge_adjacency_state where
  "adjacency_state_default = \<lparr>ea_current = [], ea_cleaned = []\<rparr>"

definition clean_keyspace :: "fjall_db \<Rightarrow> edge_id \<Rightarrow> keyspace \<Rightarrow> (storage_error, write_op list) result" where
  "clean_keyspace db e ks =
     try_fold (\<lambda>ws (key, _).
       if length key \<noteq> 48 then Inl (Internal ''invalid stored adjacency key'')
       else Inr (if take 16 (drop 16 key) = u128_be (ident128_get e) then ws @ [WRemove ks key] else ws))
       [] (db ks)"

definition clean_adjacency ::
    "fjall_db \<Rightarrow> edge_id \<Rightarrow> edge_adjacency_state
      \<Rightarrow> (storage_error, write_op list \<times> edge_adjacency_state) result" where
  "clean_adjacency db e st =
     (if e \<in> set (ea_cleaned st) then Inr ([], st)
      else try_r (clean_keyspace db e KAdjacencyOut) (\<lambda>outs.
           try_r (clean_keyspace db e KAdjacencyIn) (\<lambda>ins.
             Inr (outs @ ins, st\<lparr>ea_cleaned := e # ea_cleaned st\<rparr>))))"

definition remove_adjacency :: "edge_version \<Rightarrow> write_op list" where
  "remove_adjacency e =
     [WRemove KAdjacencyOut (adjacency_key (ev_source e) e),
      WRemove KAdjacencyIn (adjacency_key (ev_target e) e)]"

definition forget_current :: "edge_id \<Rightarrow> edge_adjacency_state \<Rightarrow> write_op list \<times> edge_adjacency_state" where
  "forget_current e st =
     (case map_of (ea_current st) e of
        None \<Rightarrow> ([], st)
      | Some previous \<Rightarrow> (remove_adjacency previous, st\<lparr>ea_current := bm_remove e (ea_current st)\<rparr>))"

definition stage_history_mutation :: "u64 \<Rightarrow> u64 \<Rightarrow> logical_mutation \<Rightarrow> write_op list" where
  "stage_history_mutation index ordinal m =
     (case m of
        PutVertex v \<Rightarrow>
          [WInsert KHistory (history_occurrence_key (vertex_history_key v False) index ordinal) (RowMutation m)]
      | DeleteVertex t \<Rightarrow>
          [WInsert KHistory (history_occurrence_key (vertex_tombstone_key t) index ordinal) (RowMutation m)]
      | PutEdge e \<Rightarrow>
          [WInsert KHistory (history_occurrence_key (edge_history_key e False) index ordinal) (RowMutation m)]
      | DeleteEdge t \<Rightarrow>
          [WInsert KHistory (history_occurrence_key (edge_tombstone_key t) index ordinal) (RowMutation m)]
      | PutTransaction _ \<Rightarrow> []
      | PutReplicaMetadata _ \<Rightarrow> [])"

definition stage_current_mutation ::
    "fjall_db \<Rightarrow> logical_mutation \<Rightarrow> edge_adjacency_state
      \<Rightarrow> (storage_error, write_op list \<times> edge_adjacency_state) result" where
  "stage_current_mutation db m st =
     (case m of
        PutVertex v \<Rightarrow>
          Inr ([WInsert KCurrentVertex (u128_be (ident128_get (vv_id v))) (RowMutation m)], st)
      | DeleteVertex t \<Rightarrow> Inr ([WRemove KCurrentVertex (u128_be (ident128_get (vt_id t)))], st)
      | PutEdge e \<Rightarrow>
          try_r (clean_adjacency db (ev_id e) st) (\<lambda>(ws, st).
            case forget_current (ev_id e) st of (ws', st) \<Rightarrow>
              Inr (ws @ ws' @
                [WInsert KCurrentEdge (u128_be (ident128_get (ev_id e))) (RowMutation m),
                 WInsert KAdjacencyOut (adjacency_key (ev_source e) e) RowEmpty,
                 WInsert KAdjacencyIn (adjacency_key (ev_target e) e) RowEmpty],
                st\<lparr>ea_current := bm_insert (ev_id e) e (ea_current st)\<rparr>))
      | DeleteEdge t \<Rightarrow>
          try_r (clean_adjacency db (et_id t) st) (\<lambda>(ws, st).
            case forget_current (et_id t) st of (ws', st) \<Rightarrow>
              Inr (ws @ ws' @ [WRemove KCurrentEdge (u128_be (ident128_get (et_id t)))], st))
      | PutTransaction t \<Rightarrow>
          Inr ([WInsert KTransaction (u128_be (ident128_get (tr_id t))) (RowMutation m)], st)
      | PutReplicaMetadata md \<Rightarrow>
          Inr ([WInsert KReplicaMeta (metadata_key (rm_name md)) (RowMutation m)], st))"

definition stage_mutation ::
    "fjall_db \<Rightarrow> u64 \<Rightarrow> write_op list \<times> edge_adjacency_state \<Rightarrow> nat \<times> logical_mutation
      \<Rightarrow> (storage_error, write_op list \<times> edge_adjacency_state) result" where
  "stage_mutation db index acc om =
     (case (acc, om) of ((ws, st), (ordinal, m)) \<Rightarrow>
        try_r (stage_current_mutation db m st) (\<lambda>(current, st).
          Inr (ws @ stage_history_mutation index (word_of_nat ordinal) m @ current @
               [WInsert KTemporalIndex (change_key index (word_of_nat ordinal)) (RowMutation m)], st)))"

section \<open>Applying committed batches\<close>

definition fr_ensure_binding :: "fjall_replica \<Rightarrow> (storage_error, unit) result" where
  "fr_ensure_binding s =
     (case fr_owner s of
        None \<Rightarrow> Inl (Internal ''missing namespace owner'')
      | Some actual \<Rightarrow>
          if actual = fr_binding s then Inr () else Inl (NamespaceOwnerMismatch actual (fr_binding s)))"

definition verify_binding :: "replica_binding \<Rightarrow> fjall_replica \<Rightarrow> (storage_error, unit) result" where
  "verify_binding b s =
     try_r (fr_ensure_binding s) (\<lambda>_.
       if b = fr_binding s then Inr () else Inl (StaleBinding (fr_binding s) b))"

definition ensure_no_restore_in_progress :: "fjall_replica \<Rightarrow> (storage_error, unit) result" where
  "ensure_no_restore_in_progress s =
     (if fr_restore_in_progress s
      then Inl (CorruptSnapshot ''Fjall snapshot restore is incomplete'') else Inr ())"

definition applied_index_sync :: "fjall_replica \<Rightarrow> (storage_error, u64) result" where
  "applied_index_sync s =
     try_r (fr_ensure_binding s) (\<lambda>_.
       case map_of (fr_db s KReplicaMeta) applied_index_key of
         None \<Rightarrow> Inr 0
       | Some (RowIndex i) \<Rightarrow> Inr i
       | Some _ \<Rightarrow> Inl (Internal ''invalid stored u64''))"

text \<open>Replayed batches get their receipt at once (\<open>Some\<close>); the others are pending.\<close>

fun admit_batches ::
    "fjall_db \<Rightarrow> u64 \<Rightarrow> committed_shard_batch list
      \<Rightarrow> (storage_error, u64 \<times> apply_receipt option list \<times> committed_shard_batch list) result" where
  "admit_batches db applied [] = Inr (applied, [], [])"
| "admit_batches db applied (b # bs) =
     (if cb_raft_index b \<le> applied then
        (case map_of (db KIdentity) (u64_be (cb_raft_index b)) of
           None \<Rightarrow> Inl (ReplayMismatch (cb_raft_index b))
         | Some (RowIdentity r) \<Rightarrow>
             if rp_term r = cb_raft_term b \<and> rp_command_id r = cb_command_id b
                \<and> rp_mutation_digest r = cb_mutation_digest b
             then try_r (admit_batches db applied bs) (\<lambda>(applied', slots, pending).
                    Inr (applied', Some (apply_receipt_new b True) # slots, pending))
             else Inl (ReplayMismatch (cb_raft_index b))
         | Some _ \<Rightarrow> Inl (Internal ''Fjall decoding failed''))
      else if cb_raft_index b \<noteq> sat_succ applied
      then Inl (NonMonotonicIndex applied (cb_raft_index b))
      else try_r (admit_batches db (cb_raft_index b) bs) (\<lambda>(applied', slots, pending).
             Inr (applied', None # slots, b # pending)))"

definition stage_committed_batch ::
    "fjall_db \<Rightarrow> write_op list \<times> edge_adjacency_state \<Rightarrow> committed_shard_batch
      \<Rightarrow> (storage_error, write_op list \<times> edge_adjacency_state) result" where
  "stage_committed_batch db acc b =
     try_r (try_fold (stage_mutation db (cb_raft_index b)) acc
              (zip [0..<length (cb_mutations b)] (cb_mutations b)))
       (\<lambda>(ws, st). Inr (ws @ [WInsert KIdentity (u64_be (cb_raft_index b))
          (RowIdentity \<lparr>rp_term = cb_raft_term b, rp_command_id = cb_command_id b,
             rp_mutation_digest = cb_mutation_digest b\<rparr>)], st))"

fun fill_receipts :: "apply_receipt option list \<Rightarrow> apply_receipt list \<Rightarrow> apply_receipt list" where
  "fill_receipts [] rs = []"
| "fill_receipts (Some r # slots) rs = r # fill_receipts slots rs"
| "fill_receipts (None # slots) (r # rs) = r # fill_receipts slots rs"
| "fill_receipts (None # slots) [] = []"

definition apply_batches_sync ::
    "(byte list \<Rightarrow> digest32) \<Rightarrow> committed_shard_batch list \<Rightarrow> apply_receipt list replica_op" where
  "apply_batches_sync blake3 bs s =
     (if bs = [] then (Inr [], s)
      else eff_bind (eff_of (try_all (\<lambda>b. try_r (committed_shard_batch_validate blake3 b)
                                (\<lambda>_. verify_binding (cb_binding b) s)) bs)) (\<lambda>_.
           eff_bind (eff_of (ensure_no_restore_in_progress s)) (\<lambda>_.
           eff_bind (eff_of (applied_index_sync s)) (\<lambda>applied.
           eff_bind (eff_of (admit_batches (fr_db s) applied bs)) (\<lambda>(applied', slots, pending).
             if pending = [] then eff_ret (fill_receipts slots [])
             else eff_bind (eff_of (try_fold (stage_committed_batch (fr_db s)) ([], adjacency_state_default) pending))
               (\<lambda>(ws, _). eff_bind
                  (commit_writes (ws @ [WInsert KReplicaMeta applied_index_key (RowIndex applied')]))
                  (\<lambda>_. eff_ret (fill_receipts slots (map (\<lambda>b. apply_receipt_new b False) pending)))))))) s)"

definition apply_sync ::
    "(byte list \<Rightarrow> digest32) \<Rightarrow> committed_shard_batch \<Rightarrow> apply_receipt replica_op" where
  "apply_sync blake3 b = eff_bind (apply_batches_sync blake3 [b]) (\<lambda>rs.
     if rs = [] then eff_err (Internal ''single apply did not return a receipt'')
     else eff_ret (last rs))"

definition fr_replica_metadata :: "string \<Rightarrow> replica_metadata option replica_op" where
  "fr_replica_metadata name s =
     (try_r (fr_ensure_binding s) (\<lambda>_.
        case map_of (fr_db s KReplicaMeta) (metadata_key name) of
          None \<Rightarrow> Inr None
        | Some (RowMutation (PutReplicaMetadata md)) \<Rightarrow>
            if rm_name md = name then Inr (Some md)
            else Inl (Internal ''stored replica metadata point value is malformed'')
        | Some _ \<Rightarrow> Inl (Internal ''stored replica metadata point value is malformed'')), s)"

definition verify_fence :: "read_fence \<Rightarrow> fjall_replica \<Rightarrow> (storage_error, unit) result" where
  "verify_fence f s =
     try_r (verify_binding (rf_binding f) s) (\<lambda>_.
     try_r (ensure_no_restore_in_progress s) (\<lambda>_.
       if rf_capability_digest f \<noteq> rb_capability_digest (fr_binding s) then Inl CapabilityDrift
       else try_r (applied_index_sync s) (\<lambda>applied.
         if rf_applied_index f \<noteq> applied
         then Inl (ReadFenceUnavailable (rf_applied_index f) applied) else Inr ())))"

section \<open>The read view\<close>

definition decode_row :: "row \<Rightarrow> (storage_error, logical_mutation) result" where
  "decode_row r = (case r of RowMutation m \<Rightarrow> Inr m | _ \<Rightarrow> Inl (Internal ''Fjall decoding failed''))"

definition load_view_history :: "fjall_db \<Rightarrow> (storage_error, logical_mutation list) result" where
  "load_view_history db = try_map (\<lambda>(_, r). decode_row r) (db KHistory)"

definition load_view_changes :: "fjall_db \<Rightarrow> (storage_error, change_record list) result" where
  "load_view_changes db = try_map (\<lambda>(key, r).
     if length key \<noteq> 17 then Inl (Internal ''invalid change index key'')
     else try_r (decode_row r) (\<lambda>m.
       Inr \<lparr>cr_cursor = change_cursor_new (u64_from_be (take 8 (drop 1 key))) (u64_from_be (take 8 (drop 9 key))),
            cr_mutation = m\<rparr>))
     (filter (\<lambda>(key, _). take 1 key = str_bytes ''c'') (db KTemporalIndex))"

text \<open>An event that decides visibility: its transaction time, its version, and the version that
  becomes visible (none for a tombstone).  The loops keep the greatest, the earlier on ties.\<close>

type_synonym 'a vis_event = "transaction_time \<times> version \<times> 'a option"

definition newer :: "'a vis_event option \<Rightarrow> 'a vis_event \<Rightarrow> 'a vis_event option" where
  "newer candidate e =
     (case candidate of
        None \<Rightarrow> Some e
      | Some c \<Rightarrow> if fst c < fst e \<or> fst c = fst e \<and> fst (snd c) < fst (snd e) then Some e else Some c)"

definition vertex_event :: "vertex_read \<Rightarrow> logical_mutation \<Rightarrow> vertex_version vis_event option" where
  "vertex_event r m =
     (case m of
        PutVertex v \<Rightarrow>
          if vv_id v = pr_id r \<and> vv_transaction_time v \<le> pr_transaction_at r
             \<and> iv_start (vv_valid_time v) \<le> pr_valid_at r \<and> pr_valid_at r < iv_end (vv_valid_time v)
          then Some (vv_transaction_time v, vv_version v, Some v) else None
      | DeleteVertex t \<Rightarrow>
          if vt_id t = pr_id r \<and> vt_transaction_time t \<le> pr_transaction_at r
          then Some (vt_transaction_time t, vt_version t, None) else None
      | _ \<Rightarrow> None)"

definition edge_event :: "edge_read \<Rightarrow> logical_mutation \<Rightarrow> edge_version vis_event option" where
  "edge_event r m =
     (case m of
        PutEdge e \<Rightarrow>
          if ev_id e = pr_id r \<and> ev_transaction_time e \<le> pr_transaction_at r
             \<and> iv_start (ev_valid_time e) \<le> pr_valid_at r \<and> pr_valid_at r < iv_end (ev_valid_time e)
          then Some (ev_transaction_time e, ev_version e, Some e) else None
      | DeleteEdge t \<Rightarrow>
          if et_id t = pr_id r \<and> et_transaction_time t \<le> pr_transaction_at r
          then Some (et_transaction_time t, et_version t, None) else None
      | _ \<Rightarrow> None)"

definition pick_visible :: "('m \<Rightarrow> 'a vis_event option) \<Rightarrow> 'm list \<Rightarrow> 'a option" where
  "pick_visible event hist =
     (case fold (\<lambda>m c. case event m of None \<Rightarrow> c | Some e \<Rightarrow> newer c e) hist None of
        None \<Rightarrow> None
      | Some (_, _, v) \<Rightarrow> v)"

definition visible_vertex :: "logical_mutation list \<Rightarrow> vertex_read \<Rightarrow> vertex_version option" where
  "visible_vertex hist r = pick_visible (vertex_event r) hist"

definition visible_edge :: "logical_mutation list \<Rightarrow> edge_read \<Rightarrow> edge_version option" where
  "visible_edge hist r = pick_visible (edge_event r) hist"

definition history_vertices :: "logical_mutation list \<Rightarrow> vertex_version list" where
  "history_vertices ms = List.map_filter (\<lambda>m. case m of PutVertex v \<Rightarrow> Some v | _ \<Rightarrow> None) ms"

definition history_edges :: "logical_mutation list \<Rightarrow> edge_version list" where
  "history_edges ms = List.map_filter (\<lambda>m. case m of PutEdge e \<Rightarrow> Some e | _ \<Rightarrow> None) ms"

definition vertex_ids :: "logical_mutation list \<Rightarrow> vertex_id list" where
  "vertex_ids ms = List.map_filter (\<lambda>m. case m of
     PutVertex v \<Rightarrow> Some (vv_id v) | DeleteVertex t \<Rightarrow> Some (vt_id t) | _ \<Rightarrow> None) ms"

definition edge_ids :: "logical_mutation list \<Rightarrow> edge_id list" where
  "edge_ids ms = List.map_filter (\<lambda>m. case m of
     PutEdge e \<Rightarrow> Some (ev_id e) | DeleteEdge t \<Rightarrow> Some (et_id t) | _ \<Rightarrow> None) ms"

definition view_vertex_history ::
    "logical_mutation list \<Rightarrow> vertex_id history_read \<Rightarrow> vertex_version list" where
  "view_vertex_history hist r =
     take (unat (hr_limit r)) (sort_key (\<lambda>v. (vv_transaction_time v, vv_version v))
       (filter (\<lambda>v. vv_id v = hr_id r \<and> history_includes r (vv_transaction_time v))
         (history_vertices hist)))"

definition view_edge_history :: "logical_mutation list \<Rightarrow> edge_id history_read \<Rightarrow> edge_version list" where
  "view_edge_history hist r =
     take (unat (hr_limit r)) (sort_key (\<lambda>e. (ev_transaction_time e, ev_version e))
       (filter (\<lambda>e. ev_id e = hr_id r \<and> history_includes r (ev_transaction_time e))
         (history_edges hist)))"

definition view_expand :: "logical_mutation list \<Rightarrow> adjacency_read \<Rightarrow> edge_version list" where
  "view_expand hist r =
     take (unat (ad_limit r))
       (filter (adjacency_matches r)
         (List.map_filter (\<lambda>i. visible_edge hist (point_read_new i (ad_valid_at r) (ad_transaction_at r)))
           (bs_of (edge_ids hist))))"

definition view_changes :: "change_record list \<Rightarrow> changes_read \<Rightarrow> change_page" where
  "view_changes changes r =
     (let matching = filter (\<lambda>c. changes_includes r (cr_cursor c)) changes;
          limit = unat (ch_limit r);
          rows = take limit matching in
      \<lparr>cp_rows = rows,
       cp_next_after = (if length matching > limit then Some (cr_cursor (last rows)) else None)\<rparr>)"

definition page_of :: "('a \<Rightarrow> 'k) \<Rightarrow> u32 \<Rightarrow> 'a list \<Rightarrow> ('a, 'k) scan_page" where
  "page_of key limit xs =
     (let rows = take (unat limit) xs in
      \<lparr>sp_rows = rows,
       sp_next_after = (if length xs > unat limit \<and> rows \<noteq> [] then Some (key (last rows)) else None)\<rparr>)"

definition after_ok :: "'k::linorder option \<Rightarrow> 'k \<Rightarrow> bool" where
  "after_ok after i = (case after of None \<Rightarrow> True | Some a \<Rightarrow> a < i)"

definition view_scan_vertices ::
    "logical_mutation list \<Rightarrow> vertex_scan \<Rightarrow> (vertex_version, vertex_id) scan_page" where
  "view_scan_vertices hist r =
     page_of vv_id (sn_limit r)
       (List.map_filter (\<lambda>i. visible_vertex hist (point_read_new i (sn_valid_at r) (sn_transaction_at r)))
         (bs_of (filter (after_ok (sn_after r)) (vertex_ids hist))))"

definition view_scan_edges ::
    "logical_mutation list \<Rightarrow> edge_scan \<Rightarrow> (edge_version, edge_id) scan_page" where
  "view_scan_edges hist r =
     page_of ev_id (sn_limit r)
       (List.map_filter (\<lambda>i. visible_edge hist (point_read_new i (sn_valid_at r) (sn_transaction_at r)))
         (bs_of (filter (after_ok (sn_after r)) (edge_ids hist))))"

definition fjall_read_view ::
    "read_fence \<Rightarrow> logical_mutation list \<Rightarrow> change_record list \<Rightarrow> 'w read_view" where
  "fjall_read_view fence hist changes =
     \<lparr>rv_fence = fence,
      rv_get_vertex = (\<lambda>r. eff_ret (visible_vertex hist r)),
      rv_get_edge = (\<lambda>r. eff_ret (visible_edge hist r)),
      rv_vertex_history = (\<lambda>r. eff_ret (view_vertex_history hist r)),
      rv_edge_history = (\<lambda>r. eff_ret (view_edge_history hist r)),
      rv_expand = (\<lambda>r. eff_ret (view_expand hist r)),
      rv_changes = (\<lambda>r. eff_ret (view_changes changes r)),
      rv_scan_vertices = (\<lambda>r. eff_ret (view_scan_vertices hist r)),
      rv_scan_edges = (\<lambda>r. eff_ret (view_scan_edges hist r))\<rparr>"

definition fr_begin_read_view :: "read_fence \<Rightarrow> fjall_replica read_view replica_op" where
  "fr_begin_read_view fence s =
     (try_r (verify_fence fence s) (\<lambda>_.
      try_r (load_view_history (fr_db s)) (\<lambda>hist.
      try_r (load_view_changes (fr_db s)) (\<lambda>changes.
        Inr (fjall_read_view fence hist changes)))), s)"

definition fjall_store ::
    "(byte list \<Rightarrow> digest32) \<Rightarrow> replica_binding \<Rightarrow> fjall_replica state_store" where
  "fjall_store blake3 b =
     \<lparr>ss_binding = b,
      ss_applied_index = (\<lambda>s. (applied_index_sync s, s)),
      ss_replica_metadata = fr_replica_metadata,
      ss_apply = apply_sync blake3,
      ss_supports_atomic_batch_apply = True,
      ss_apply_batches = apply_batches_sync blake3,
      ss_begin_read_view = fr_begin_read_view\<rparr>"

end
