(* ===== verification/Fjall_Store_Props.thy ===== *)
theory Fjall_Store_Props
  imports Fjall_Store
begin

text \<open>
  Correctness of the key-value replica store: which rows the writes of a batch leave in each
  keyspace, the well-formedness invariant of the stored rows, the exact effect of applying a batch,
  and what the temporal reads return.
\<close>

section \<open>Keys sort like the numbers they encode\<close>

lemma list_less_append:
  "length a = length b \<Longrightarrow> (a @ c < b @ d) = (a < b \<or> a = b \<and> c < (d :: 'a::linorder list))"
  by (induction a b rule: list_induct2) auto

lemma digit_less:
  "(x :: nat) < y \<longleftrightarrow> x div 256 < y div 256 \<or> x div 256 = y div 256 \<and> x mod 256 < y mod 256"
proof -
  have "256 * (x div 256) + x mod 256 = x" "256 * (y div 256) + y mod 256 = y" by simp_all
  moreover have "x mod 256 < 256" "y mod 256 < 256" by simp_all
  ultimately show ?thesis
    by (cases "x div 256" "y div 256" rule: linorder_cases) linarith+
qed

lemma be_nat_less:
  "x < 256 ^ n \<Longrightarrow> y < 256 ^ n \<Longrightarrow> be_nat n x < be_nat n y \<longleftrightarrow> x < y"
proof (induction n arbitrary: x y)
  case (Suc n)
  have div: "x div 256 < 256 ^ n" "y div 256 < 256 ^ n"
    using Suc.prems by (simp_all add: less_mult_imp_div_less mult.commute)
  have low: "(word_of_nat (x mod 256) :: byte) < word_of_nat (y mod 256) \<longleftrightarrow> x mod 256 < y mod 256"
    by (simp add: word_less_nat_alt unat_of_nat)
  have "be_nat n (x div 256) = be_nat n (y div 256) \<longleftrightarrow> x div 256 = y div 256"
    using be_nat_inj [OF _ div] by auto
  moreover have "x < y \<longleftrightarrow> x div 256 < y div 256 \<or> x div 256 = y div 256 \<and> x mod 256 < y mod 256"
    by (rule digit_less)
  ultimately show ?case
    by (simp add: list_less_append Suc.IH [OF div] low)
qed simp

lemma u64_be_less [simp]: "u64_be a < u64_be b \<longleftrightarrow> a < b"
  using be_nat_less [of "unat a" 8 "unat b"] unat_lt_256 [of 8 a] unat_lt_256 [of 8 b]
  by (simp add: u64_be_def word_less_nat_alt)

lemma change_key_less:
  "change_key i o' < change_key j p \<longleftrightarrow> i < j \<or> i = j \<and> o' < p"
  by (simp add: change_key_def str_bytes_simps list_less_append)

lemma change_key_inj [simp]: "change_key i o' = change_key j p \<longleftrightarrow> i = j \<and> o' = p"
  by (auto simp: change_key_def str_bytes_simps codec_split)

section \<open>The writes of one keyspace\<close>

fun write_space :: "write_op \<Rightarrow> keyspace" where
  "write_space (WInsert ks _ _) = ks"
| "write_space (WRemove ks _) = ks"

fun apply_row :: "write_op \<Rightarrow> (byte list, row) bmap \<Rightarrow> (byte list, row) bmap" where
  "apply_row (WInsert _ key v) m = bm_insert key v m"
| "apply_row (WRemove _ key) m = bm_remove key m"

definition writes_to :: "keyspace \<Rightarrow> write_op list \<Rightarrow> write_op list" where
  "writes_to ks ws = filter (\<lambda>w. write_space w = ks) ws"

lemma writes_to_simps [simp]:
  "writes_to ks [] = []"
  "writes_to ks (w # ws) = (if write_space w = ks then w # writes_to ks ws else writes_to ks ws)"
  "writes_to ks (ws @ ws') = writes_to ks ws @ writes_to ks ws'"
  by (simp_all add: writes_to_def)

lemma apply_write_space: "apply_write w db ks = (if write_space w = ks then apply_row w (db ks) else db ks)"
  by (cases w) auto

lemma fold_apply_write: "fold apply_write ws db ks = fold apply_row (writes_to ks ws) (db ks)"
  by (induction ws arbitrary: db) (auto simp: apply_write_space)

lemma apply_row_ok: "bm_ok m \<Longrightarrow> bm_ok (apply_row w m)"
  by (cases w) auto

lemma fold_apply_row_ok: "bm_ok m \<Longrightarrow> bm_ok (fold apply_row ws m)"
  by (induction ws arbitrary: m) (auto simp: apply_row_ok)

text \<open>What holds of every row is kept when the inserted rows have it.\<close>

lemma set_bm_remove_sub: "set (bm_remove k m) \<subseteq> set m"
  by (auto simp: bm_remove_def)

lemma fold_apply_row_all:
  assumes "\<forall>p \<in> set m. P p" and "\<And>ks key v. WInsert ks key v \<in> set ws \<Longrightarrow> P (key, v)"
  shows "\<forall>p \<in> set (fold apply_row ws m). P p"
  using assms
proof (induction ws arbitrary: m)
  case (Cons w ws)
  have "\<forall>p \<in> set (apply_row w m). P p"
  proof (cases w)
    case (WInsert ks key v)
    have "P (key, v)" using Cons.prems(2) [of ks key v] WInsert by simp
    moreover have "set (apply_row w m) \<subseteq> insert (key, v) (set m)"
      using WInsert set_bm_insert_sub by simp
    ultimately show ?thesis using Cons.prems(1) by blast
  next
    case (WRemove ks key)
    then have "set (apply_row w m) \<subseteq> set m" using set_bm_remove_sub by simp
    with Cons.prems(1) show ?thesis by blast
  qed
  then have "\<forall>p \<in> set (fold apply_row ws (apply_row w m)). P p"
    by (rule Cons.IH) (rule Cons.prems(2), rule list.set_intros(2))
  then show ?case by simp
qed simp

definition clean_step :: "edge_id \<Rightarrow> keyspace \<Rightarrow> write_op list \<Rightarrow> byte list \<times> row \<Rightarrow> (storage_error, write_op list) result" where
  "clean_step e ks ws p =
     (if length (fst p) \<noteq> 48 then Inl (Internal ''invalid stored adjacency key'')
      else Inr (if take 16 (drop 16 (fst p)) = u128_be (ident128_get e) then ws @ [WRemove ks (fst p)] else ws))"

lemma clean_keyspace_step: "clean_keyspace db e ks = try_fold (clean_step e ks) [] (db ks)"
  by (simp add: clean_keyspace_def clean_step_def [abs_def] case_prod_beta')

definition removes_from :: "keyspace \<Rightarrow> write_op list \<Rightarrow> bool" where
  "removes_from ks ws = (\<forall>w \<in> set ws. \<exists>key. w = WRemove ks key)"

lemma clean_keyspace_spec:
  assumes "clean_keyspace db e ks = Inr ws"
  shows "removes_from ks ws"
  using assms [unfolded clean_keyspace_step]
  by (rule try_fold_invariant) (auto simp: removes_from_def clean_step_def split: if_splits)

lemma clean_keyspace_total:
  assumes "\<forall>p \<in> set (db ks). length (fst p) = 48"
  shows "\<exists>ws. clean_keyspace db e ks = Inr ws"
proof -
  have "\<exists>ws. try_fold (clean_step e ks) acc m = Inr ws" if "\<forall>p \<in> set m. length (fst p) = 48" for acc m
    using that by (induction m arbitrary: acc) (auto simp: clean_step_def)
  with assms show ?thesis by (simp add: clean_keyspace_step)
qed

text \<open>The writes of one mutation, keyspace by keyspace.\<close>

definition adjacency_write :: "write_op \<Rightarrow> bool" where
  "adjacency_write w \<longleftrightarrow> (\<exists>key. w = WRemove KAdjacencyOut key \<or> w = WRemove KAdjacencyIn key) \<or>
     (\<exists>v e. w = WInsert KAdjacencyOut (adjacency_key v e) RowEmpty \<or>
            w = WInsert KAdjacencyIn (adjacency_key v e) RowEmpty)"

lemma adjacency_write_space: "adjacency_write w \<Longrightarrow> write_space w \<in> {KAdjacencyOut, KAdjacencyIn}"
  by (auto simp: adjacency_write_def)

lemma writes_to_adjacency [simp]:
  "\<forall>w \<in> set ws. adjacency_write w \<Longrightarrow> ks \<notin> {KAdjacencyOut, KAdjacencyIn} \<Longrightarrow> writes_to ks ws = []"
  using adjacency_write_space by (fastforce simp: writes_to_def filter_empty_conv)

lemma removes_from_adjacency:
  "removes_from ks ws \<Longrightarrow> ks \<in> {KAdjacencyOut, KAdjacencyIn} \<Longrightarrow> \<forall>w \<in> set ws. adjacency_write w"
  by (fastforce simp: removes_from_def adjacency_write_def)

lemma clean_adjacency_writes:
  assumes "clean_adjacency db e st = Inr (ws, st')"
  shows "\<forall>w \<in> set ws. adjacency_write w"
proof (cases "e \<in> set (ea_cleaned st)")
  case True
  with assms show ?thesis by (simp add: clean_adjacency_def)
next
  case False
  with assms obtain outs ins where "clean_keyspace db e KAdjacencyOut = Inr outs"
    and "clean_keyspace db e KAdjacencyIn = Inr ins" and "ws = outs @ ins"
    by (auto simp: clean_adjacency_def result_simps)
  with removes_from_adjacency [OF clean_keyspace_spec] show ?thesis by fastforce
qed

lemma forget_current_adjacency:
  "forget_current e st = (ws, st') \<Longrightarrow> \<forall>w \<in> set ws. adjacency_write w"
  by (auto simp: forget_current_def remove_adjacency_def adjacency_write_def split: option.splits)

definition current_writes :: "logical_mutation \<Rightarrow> write_op list" where
  "current_writes m = (case m of
     PutVertex v \<Rightarrow> [WInsert KCurrentVertex (u128_be (ident128_get (vv_id v))) (RowMutation m)]
   | DeleteVertex t \<Rightarrow> [WRemove KCurrentVertex (u128_be (ident128_get (vt_id t)))]
   | PutEdge e \<Rightarrow> [WInsert KCurrentEdge (u128_be (ident128_get (ev_id e))) (RowMutation m)]
   | DeleteEdge t \<Rightarrow> [WRemove KCurrentEdge (u128_be (ident128_get (et_id t)))]
   | PutTransaction t \<Rightarrow> [WInsert KTransaction (u128_be (ident128_get (tr_id t))) (RowMutation m)]
   | PutReplicaMetadata md \<Rightarrow> [WInsert KReplicaMeta (metadata_key (rm_name md)) (RowMutation m)])"

lemma stage_current_split:
  assumes "stage_current_mutation db m st = Inr (ws, st')"
  shows "\<exists>pre post. ws = pre @ current_writes m @ post \<and> (\<forall>w \<in> set (pre @ post). adjacency_write w)"
proof (cases m)
  case (PutEdge e)
  with assms obtain ws1 st1 where clean: "clean_adjacency db (ev_id e) st = Inr (ws1, st1)"
    by (auto simp: stage_current_mutation_def result_simps)
  obtain ws2 st2 where forget: "forget_current (ev_id e) st1 = (ws2, st2)" by fastforce
  from assms PutEdge clean forget have ws: "ws = (ws1 @ ws2) @ current_writes m @
      [WInsert KAdjacencyOut (adjacency_key (ev_source e) e) RowEmpty,
       WInsert KAdjacencyIn (adjacency_key (ev_target e) e) RowEmpty]"
    by (simp add: stage_current_mutation_def current_writes_def)
  from clean_adjacency_writes [OF clean] forget_current_adjacency [OF forget]
  have "\<forall>w \<in> set ((ws1 @ ws2) @ [WInsert KAdjacencyOut (adjacency_key (ev_source e) e) RowEmpty,
       WInsert KAdjacencyIn (adjacency_key (ev_target e) e) RowEmpty]). adjacency_write w"
    by (auto simp: adjacency_write_def)
  with ws show ?thesis by blast
next
  case (DeleteEdge t)
  with assms obtain ws1 st1 where clean: "clean_adjacency db (et_id t) st = Inr (ws1, st1)"
    by (auto simp: stage_current_mutation_def result_simps)
  obtain ws2 st2 where forget: "forget_current (et_id t) st1 = (ws2, st2)" by fastforce
  from assms DeleteEdge clean forget have ws: "ws = (ws1 @ ws2) @ current_writes m @ []"
    by (simp add: stage_current_mutation_def current_writes_def)
  from clean_adjacency_writes [OF clean] forget_current_adjacency [OF forget]
  have "\<forall>w \<in> set ((ws1 @ ws2) @ []). adjacency_write w" by auto
  with ws show ?thesis by blast
qed (use assms in \<open>auto simp: stage_current_mutation_def current_writes_def intro!: exI [of _ "[]"]\<close>)

text \<open>The writes outside adjacency of one staged mutation.\<close>

definition mutation_writes :: "u64 \<Rightarrow> nat \<times> logical_mutation \<Rightarrow> write_op list" where
  "mutation_writes index om =
     stage_history_mutation index (word_of_nat (fst om)) (snd om) @ current_writes (snd om) @
     [WInsert KTemporalIndex (change_key index (word_of_nat (fst om))) (RowMutation (snd om))]"

definition batch_writes :: "committed_shard_batch \<Rightarrow> write_op list" where
  "batch_writes b =
     concat (map (mutation_writes (cb_raft_index b)) (zip [0..<length (cb_mutations b)] (cb_mutations b))) @
     [WInsert KIdentity (u64_be (cb_raft_index b))
        (RowIdentity \<lparr>rp_term = cb_raft_term b, rp_command_id = cb_command_id b,
           rp_mutation_digest = cb_mutation_digest b\<rparr>)]"

definition graph_space :: "keyspace \<Rightarrow> bool" where
  "graph_space ks \<longleftrightarrow> ks \<notin> {KAdjacencyOut, KAdjacencyIn}"

fun adjacency_row_ok :: "write_op \<Rightarrow> bool" where
  "adjacency_row_ok (WInsert ks key _) = (ks \<in> {KAdjacencyOut, KAdjacencyIn} \<longrightarrow> length key = 48)"
| "adjacency_row_ok (WRemove _ _) = True"

definition adjacency_rows_ok :: "write_op list \<Rightarrow> bool" where
  "adjacency_rows_ok ws = list_all adjacency_row_ok ws"

lemma adjacency_write_row: "adjacency_write w \<Longrightarrow> adjacency_row_ok w"
  unfolding adjacency_write_def by (elim disjE exE) (simp_all add: adjacency_key_def)

lemma adjacency_write_rows: "\<forall>w \<in> set ws. adjacency_write w \<Longrightarrow> adjacency_rows_ok ws"
  unfolding adjacency_rows_ok_def list_all_iff using adjacency_write_row by blast

lemma adjacency_rows_append [simp]:
  "adjacency_rows_ok (ws @ ws') \<longleftrightarrow> adjacency_rows_ok ws \<and> adjacency_rows_ok ws'"
  by (simp add: adjacency_rows_ok_def)

lemma stage_mutation_writes:
  assumes "stage_mutation db index (ws, st) om = Inr (ws', st')"
  shows "(graph_space ks \<longrightarrow> writes_to ks ws' = writes_to ks ws @ writes_to ks (mutation_writes index om)) \<and>
     (adjacency_rows_ok ws \<longrightarrow> adjacency_rows_ok ws')"
proof -
  obtain ordinal m where om: "om = (ordinal, m)" by (cases om)
  from assms om obtain cur where cur: "stage_current_mutation db m st = Inr (cur, st')"
    and ws': "ws' = ws @ stage_history_mutation index (word_of_nat ordinal) m @ cur @
               [WInsert KTemporalIndex (change_key index (word_of_nat ordinal)) (RowMutation m)]"
    by (auto simp: stage_mutation_def result_simps)
  from stage_current_split [OF cur] obtain pre post
    where split: "cur = pre @ current_writes m @ post" and adj: "\<forall>w \<in> set (pre @ post). adjacency_write w"
    by blast
  from adj have none: "graph_space ks \<Longrightarrow> writes_to ks pre = [] \<and> writes_to ks post = []"
    by (simp add: graph_space_def)
  have "adjacency_rows_ok (stage_history_mutation index o' m)" for o'
    by (cases m) (simp_all add: adjacency_rows_ok_def stage_history_mutation_def)
  moreover have "adjacency_rows_ok (current_writes m)"
    by (cases m) (simp_all add: adjacency_rows_ok_def current_writes_def)
  moreover have "adjacency_rows_ok [WInsert KTemporalIndex key v]" for key v
    by (simp add: adjacency_rows_ok_def)
  ultimately show ?thesis
    using ws' split om none adjacency_write_rows [OF adj] by (simp add: mutation_writes_def)
qed

lemma stage_mutations_writes:
  assumes "try_fold (stage_mutation db index) (ws, st) oms = Inr (ws', st')"
  shows "(graph_space ks \<longrightarrow>
       writes_to ks ws' = writes_to ks ws @ writes_to ks (concat (map (mutation_writes index) oms))) \<and>
     (adjacency_rows_ok ws \<longrightarrow> adjacency_rows_ok ws')"
  using assms
proof (induction oms arbitrary: ws st)
  case (Cons om oms)
  from Cons.prems obtain ws1 st1 where "stage_mutation db index (ws, st) om = Inr (ws1, st1)"
    and "try_fold (stage_mutation db index) (ws1, st1) oms = Inr (ws', st')"
    by (auto simp: result_simps)
  with Cons.IH [of ws1 st1] stage_mutation_writes [of db index ws st om ws1 st1 ks] show ?case by simp
qed simp

lemma stage_committed_writes:
  assumes "stage_committed_batch db (ws, st) b = Inr (ws', st')"
  shows "(graph_space ks \<longrightarrow> writes_to ks ws' = writes_to ks ws @ writes_to ks (batch_writes b)) \<and>
    (adjacency_rows_ok ws \<longrightarrow> adjacency_rows_ok ws')"
proof -
  from assms obtain ws1 where st: "try_fold (stage_mutation db (cb_raft_index b)) (ws, st)
      (zip [0..<length (cb_mutations b)] (cb_mutations b)) = Inr (ws1, st')"
    and ws': "ws' = ws1 @ [WInsert KIdentity (u64_be (cb_raft_index b))
          (RowIdentity \<lparr>rp_term = cb_raft_term b, rp_command_id = cb_command_id b,
             rp_mutation_digest = cb_mutation_digest b\<rparr>)]"
    by (auto simp: stage_committed_batch_def result_simps)
  have "adjacency_rows_ok [WInsert KIdentity key v]" for key v
    by (simp add: adjacency_rows_ok_def)
  with stage_mutations_writes [OF st, of ks] ws' show ?thesis by (simp add: batch_writes_def)
qed

lemma stage_batches_writes:
  assumes "try_fold (stage_committed_batch db) (ws, st) bs = Inr (ws', st')"
  shows "(graph_space ks \<longrightarrow> writes_to ks ws' = writes_to ks ws @ writes_to ks (concat (map batch_writes bs))) \<and>
    (adjacency_rows_ok ws \<longrightarrow> adjacency_rows_ok ws')"
  using assms
proof (induction bs arbitrary: ws st)
  case (Cons b bs)
  from Cons.prems obtain ws1 st1 where "stage_committed_batch db (ws, st) b = Inr (ws1, st1)"
    and "try_fold (stage_committed_batch db) (ws1, st1) bs = Inr (ws', st')"
    by (auto simp: result_simps)
  with Cons.IH [of ws1 st1] stage_committed_writes [of db ws st b ws1 st1 ks] show ?case by simp
qed simp

end
