(* ===== verification/Fjall_Contract.thy ===== *)
theory Fjall_Contract
  imports Fjall_Store_Props Store_Contract
begin

text \<open>
  The key-value replica store satisfies the store contract: the invariant of its rows, its contents
  as the clients see them, and the effect of applying batches on both.
\<close>

section \<open>Invariant and contents\<close>

fun temporal_row_ok :: "u64 \<Rightarrow> byte list \<times> row \<Rightarrow> bool" where
  "temporal_row_ok a p \<longleftrightarrow> (\<exists>i o' m. p = (change_key i o', RowMutation m) \<and> i \<le> a)"

fun history_row_ok :: "u64 \<Rightarrow> byte list \<times> row \<Rightarrow> bool" where
  "history_row_ok a p \<longleftrightarrow> (\<exists>k i o' m. p = (history_occurrence_key k i o', RowMutation m) \<and> i \<le> a)"

fun meta_row_ok :: "byte list \<times> row \<Rightarrow> bool" where
  "meta_row_ok p \<longleftrightarrow> (\<exists>i. p = (applied_index_key, RowIndex i)) \<or>
     (\<exists>md. p = (metadata_key (rm_name md), RowMutation (PutReplicaMetadata md)))"

fun identity_row_ok :: "byte list \<times> row \<Rightarrow> bool" where
  "identity_row_ok p \<longleftrightarrow> (\<exists>i r. p = (u64_be i, RowIdentity r))"

fun adjacency_stored_ok :: "byte list \<times> row \<Rightarrow> bool" where
  "adjacency_stored_ok p \<longleftrightarrow> length (fst p) = 48"

definition db_ok :: "u64 \<Rightarrow> fjall_db \<Rightarrow> bool" where
  "db_ok a db \<longleftrightarrow>
     (\<forall>ks. bm_ok (db ks)) \<and>
     (\<forall>p \<in> set (db KTemporalIndex). temporal_row_ok a p) \<and>
     (\<forall>p \<in> set (db KHistory). history_row_ok a p) \<and>
     (\<forall>p \<in> set (db KReplicaMeta). meta_row_ok p) \<and>
     (\<forall>p \<in> set (db KIdentity). identity_row_ok p) \<and>
     (\<forall>p \<in> set (db KAdjacencyOut). adjacency_stored_ok p) \<and>
     (\<forall>p \<in> set (db KAdjacencyIn). adjacency_stored_ok p)"

definition db_applied :: "fjall_db \<Rightarrow> u64" where
  "db_applied db =
     (case map_of (db KReplicaMeta) applied_index_key of Some (RowIndex i) \<Rightarrow> i | _ \<Rightarrow> 0)"

definition row_change :: "byte list \<times> row \<Rightarrow> change_record" where
  "row_change p =
     \<lparr>cr_cursor = change_cursor_new (u64_from_be (take 8 (drop 1 (fst p)))) (u64_from_be (take 8 (drop 9 (fst p)))),
      cr_mutation = (case snd p of RowMutation m \<Rightarrow> m)\<rparr>"

definition row_mutation :: "byte list \<times> row \<Rightarrow> logical_mutation" where
  "row_mutation p = (case snd p of RowMutation m \<Rightarrow> m)"

definition db_meta :: "(byte list, row) bmap \<Rightarrow> string \<Rightarrow> replica_metadata option" where
  "db_meta m n =
     (case map_of m (metadata_key n) of Some (RowMutation (PutReplicaMetadata md)) \<Rightarrow> Some md | _ \<Rightarrow> None)"

definition db_identity :: "(byte list, row) bmap \<Rightarrow> u64 \<Rightarrow> batch_identity option" where
  "db_identity m i =
     (case map_of m (u64_be i) of
        Some (RowIdentity r) \<Rightarrow> Some (rp_term r, rp_command_id r, rp_mutation_digest r) | _ \<Rightarrow> None)"

definition db_contents :: "fjall_db \<Rightarrow> store_contents" where
  "db_contents db =
     \<lparr>sc_applied = db_applied db, sc_log = map row_change (db KTemporalIndex),
      sc_meta = db_meta (db KReplicaMeta), sc_identity = db_identity (db KIdentity)\<rparr>"

definition fr_wf :: "replica_binding \<Rightarrow> fjall_replica \<Rightarrow> bool" where
  "fr_wf b s \<longleftrightarrow> fr_binding s = b \<and> fr_owner s = Some b \<and> \<not> fr_restore_in_progress s \<and>
     db_ok (db_applied (fr_db s)) (fr_db s)"

definition fr_contents :: "fjall_replica \<Rightarrow> store_contents" where
  "fr_contents s = db_contents (fr_db s)"

lemma row_change_key [simp]:
  "row_change (change_key i o', RowMutation m) = \<lparr>cr_cursor = change_cursor_new i o', cr_mutation = m\<rparr>"
  by (simp add: row_change_def change_key_def str_bytes_simps)

lemma applied_key_not_metadata [simp]: "applied_index_key \<noteq> metadata_key n" "metadata_key n \<noteq> applied_index_key"
  by (simp_all add: applied_index_key_def metadata_key_def str_bytes_simps)

lemma metadata_key_inj [simp]: "metadata_key a = metadata_key b \<longleftrightarrow> a = b"
  by (simp add: metadata_key_def)

section \<open>The rows a batch adds\<close>

lemma writes_to_history:
  "ks \<noteq> KHistory \<Longrightarrow> writes_to ks (stage_history_mutation i o' m) = []"
  by (cases m) (simp_all add: stage_history_mutation_def)

lemma writes_to_current:
  "ks \<in> {KTemporalIndex, KHistory, KIdentity} \<Longrightarrow> writes_to ks (current_writes m) = []"
  by (cases m) (auto simp: current_writes_def)

abbreviation enumerated :: "committed_shard_batch \<Rightarrow> (nat \<times> logical_mutation) list" where
  "enumerated b \<equiv> zip [0..<length (cb_mutations b)] (cb_mutations b)"

lemma writes_to_concat: "writes_to ks (concat (map f xs)) = concat (map (\<lambda>x. writes_to ks (f x)) xs)"
  by (induction xs) simp_all

lemma temporal_writes:
  "writes_to KTemporalIndex (batch_writes b) =
     map (\<lambda>om. WInsert KTemporalIndex (change_key (cb_raft_index b) (word_of_nat (fst om))) (RowMutation (snd om)))
       (enumerated b)"
  by (simp add: batch_writes_def mutation_writes_def writes_to_concat writes_to_history writes_to_current
      concat_map_singleton)

definition history_writes :: "committed_shard_batch \<Rightarrow> write_op list" where
  "history_writes b = concat (map (\<lambda>om. stage_history_mutation (cb_raft_index b) (word_of_nat (fst om)) (snd om))
     (enumerated b))"

lemma writes_to_own_history: "writes_to KHistory (stage_history_mutation i o' m) = stage_history_mutation i o' m"
  by (cases m) (simp_all add: stage_history_mutation_def)

lemma history_writes_eq: "writes_to KHistory (batch_writes b) = history_writes b"
  by (simp add: batch_writes_def mutation_writes_def writes_to_concat writes_to_own_history writes_to_current
      history_writes_def)

lemma identity_writes:
  "writes_to KIdentity (batch_writes b) =
     [WInsert KIdentity (u64_be (cb_raft_index b))
        (RowIdentity \<lparr>rp_term = cb_raft_term b, rp_command_id = cb_command_id b,
           rp_mutation_digest = cb_mutation_digest b\<rparr>)]"
  by (simp add: batch_writes_def mutation_writes_def writes_to_concat writes_to_history writes_to_current)

fun metadata_write :: "logical_mutation \<Rightarrow> write_op list" where
  "metadata_write (PutReplicaMetadata md) =
     [WInsert KReplicaMeta (metadata_key (rm_name md)) (RowMutation (PutReplicaMetadata md))]"
| "metadata_write _ = []"

lemma writes_to_meta_current: "writes_to KReplicaMeta (current_writes m) = metadata_write m"
  by (cases m) (simp_all add: current_writes_def)

lemma meta_writes: "writes_to KReplicaMeta (batch_writes b) = concat (map metadata_write (cb_mutations b))"
proof -
  have "concat (map (\<lambda>om. metadata_write (snd om)) (zip xs ys)) = concat (map metadata_write ys)"
    if "length xs = length ys" for xs :: "nat list" and ys
    using that by (induction xs ys rule: list_induct2) simp_all
  then show ?thesis
    by (simp add: batch_writes_def mutation_writes_def writes_to_concat writes_to_history
        writes_to_meta_current)
qed

text \<open>Rows of the change index are appended in order.\<close>

lemma append_ascending:
  assumes "sorted_wrt (<) (map fst m @ map fst rows)"
  shows "fold apply_row (map (\<lambda>p. WInsert ks (fst p) (snd p)) rows) m = m @ rows"
  using assms
proof (induction rows arbitrary: m)
  case (Cons p rows)
  have "bm_insert (fst p) (snd p) m = m @ [p]"
    using Cons.prems by (subst bm_insert_last) (auto simp: sorted_wrt_append)
  moreover have "fold apply_row (map (\<lambda>p. WInsert ks (fst p) (snd p)) rows) (m @ [p]) = (m @ [p]) @ rows"
    using Cons.prems by (intro Cons.IH) simp
  ultimately show ?case by simp
qed simp

definition batch_rows :: "committed_shard_batch \<Rightarrow> (byte list \<times> row) list" where
  "batch_rows b = map (\<lambda>om. (change_key (cb_raft_index b) (word_of_nat (fst om)), RowMutation (snd om))) (enumerated b)"

lemma batch_rows_changes: "map row_change (batch_rows b) = batch_changes b"
  by (simp add: batch_rows_def batch_changes_def comp_def case_prod_beta')

lemma batch_rows_sorted:
  assumes "len_ok (cb_mutations b)"
  shows "sorted_wrt (<) (map fst (batch_rows b))"
proof -
  have "sorted_wrt (\<lambda>x y. change_key i (word_of_nat x) < change_key i (word_of_nat y)) [0..<n]"
    if "n < 2 ^ 64" for i n
  proof (rule sorted_wrt_mono_rel [OF _ sorted_wrt_upt])
    fix x y assume "x \<in> set [0..<n]" "y \<in> set [0..<n]" "x < y"
    with that have "unat (word_of_nat x :: u64) < unat (word_of_nat y :: u64)"
      by (simp add: unat_of_nat)
    then show "change_key i (word_of_nat x) < change_key i (word_of_nat y)"
      by (simp add: change_key_less word_less_nat_alt)
  qed
  moreover have "map fst (batch_rows b) =
      map (\<lambda>n. change_key (cb_raft_index b) (word_of_nat n)) [0..<length (cb_mutations b)]"
    by (rule nth_equalityI) (simp_all add: batch_rows_def)
  ultimately show ?thesis using assms by (simp add: len_ok_def sorted_wrt_map)
qed

lemma temporal_after:
  assumes "bm_ok m" and "\<forall>p \<in> set m. temporal_row_ok a p" and "a < cb_raft_index b"
    and "len_ok (cb_mutations b)"
  shows "fold apply_row (writes_to KTemporalIndex (batch_writes b)) m = m @ batch_rows b"
proof -
  have "fst p < fst q" if pq: "p \<in> set m" "q \<in> set (batch_rows b)" for p q
  proof -
    from assms(2) pq(1) obtain i o' mu where "p = (change_key i o', RowMutation mu)" "i \<le> a" by auto
    with pq(2) assms(3) show ?thesis by (auto simp: batch_rows_def change_key_less)
  qed
  with assms(1) batch_rows_sorted [OF assms(4)] have "sorted_wrt (<) (map fst m @ map fst (batch_rows b))"
    by (auto simp: sorted_wrt_append bm_ok_def)
  from append_ascending [OF this, of KTemporalIndex] show ?thesis
    by (simp add: temporal_writes batch_rows_def comp_def)
qed

lemma db_meta_insert:
  "db_meta (bm_insert (metadata_key (rm_name md)) (RowMutation (PutReplicaMetadata md)) m) =
     (db_meta m)(rm_name md \<mapsto> md)"
  by (auto simp: db_meta_def fun_eq_iff)

lemma meta_after: "db_meta (fold apply_row (concat (map metadata_write ms)) m) = metas_after ms (db_meta m)"
proof (induction ms arbitrary: m)
  case (Cons mu ms)
  have "db_meta (fold apply_row (metadata_write mu) m) = meta_step mu (db_meta m)"
    by (cases mu) (simp_all add: db_meta_insert meta_step_def)
  then show ?case by (simp add: Cons.IH)
qed simp

lemma meta_applied: "map_of (fold apply_row (concat (map metadata_write ms)) m) applied_index_key = map_of m applied_index_key"
proof (induction ms arbitrary: m)
  case (Cons mu ms)
  have "map_of (fold apply_row (metadata_write mu) m) applied_index_key = map_of m applied_index_key"
    by (cases mu) simp_all
  then show ?case by (simp add: Cons.IH)
qed simp

lemma db_meta_applied [simp]: "db_meta (bm_insert applied_index_key v m) = db_meta m"
  by (simp add: db_meta_def fun_eq_iff)

lemma identity_after:
  "db_identity (fold apply_row (writes_to KIdentity (batch_writes b)) m) =
     (db_identity m)(cb_raft_index b \<mapsto> batch_identity b)"
  by (auto simp: identity_writes db_identity_def batch_identity_def fun_eq_iff)

section \<open>Applying a chain of batches\<close>

fun last_index :: "u64 \<Rightarrow> committed_shard_batch list \<Rightarrow> u64" where
  "last_index a [] = a"
| "last_index a (b # bs) = last_index (cb_raft_index b) bs"

lemma chained_head: "chained a (b # bs) \<Longrightarrow> a < cb_raft_index b"
  by (simp add: word_succ_less)

lemma chained_tail: "chained a (b # bs) \<Longrightarrow> chained (cb_raft_index b) bs"
  by auto

lemma chained_last: "chained a bs \<Longrightarrow> a \<le> last_index a bs"
proof (induction bs arbitrary: a)
  case (Cons b bs)
  from chained_head [OF Cons.prems] Cons.IH [OF chained_tail [OF Cons.prems]]
  have "a \<le> last_index (cb_raft_index b) bs" by (rule order_trans [OF less_imp_le])
  then show ?case by simp
qed simp

lemma chained_index: "chained a bs \<Longrightarrow> b \<in> set bs \<Longrightarrow> a < cb_raft_index b \<and> cb_raft_index b \<le> last_index a bs"
proof (induction bs arbitrary: a)
  case (Cons c bs)
  have head: "a < cb_raft_index c" using chained_head [OF Cons.prems(1)] .
  have tail: "chained (cb_raft_index c) bs" using chained_tail [OF Cons.prems(1)] .
  show ?case
  proof (cases "b = c")
    case True
    with head chained_last [OF tail] show ?thesis by simp
  next
    case False
    with Cons.prems(2) Cons.IH [OF tail] head show ?thesis by auto
  qed
qed simp

lemma admit_chained:
  "chained a bs \<Longrightarrow> admit_batches db a bs = Inr (last_index a bs, replicate (length bs) None, bs)"
proof (induction bs arbitrary: a)
  case (Cons b bs)
  have "a < cb_raft_index b" using chained_head [OF Cons.prems] .
  with Cons show ?case by (auto simp: sat_succ_def)
qed simp

lemma fill_pending: "fill_receipts (replicate (length rs) None) rs = rs"
  by (induction rs) simp_all

lemma clean_adjacency_total:
  assumes "db_ok a db"
  shows "\<exists>r. clean_adjacency db e st = Inr r"
proof -
  from assms obtain outs ins where "clean_keyspace db e KAdjacencyOut = Inr outs"
    and "clean_keyspace db e KAdjacencyIn = Inr ins"
    using clean_keyspace_total [of db KAdjacencyOut e] clean_keyspace_total [of db KAdjacencyIn e]
    by (auto simp: db_ok_def)
  then show ?thesis by (simp add: clean_adjacency_def)
qed

lemma stage_mutation_total:
  assumes "db_ok a db"
  shows "\<exists>ws st. stage_mutation db index acc om = Inr (ws, st)"
proof -
  obtain ws st ordinal m where acc: "acc = (ws, st)" "om = (ordinal, m)" by (cases acc; cases om)
  have "\<exists>r. stage_current_mutation db m st = Inr r"
  proof (cases m)
    case (PutEdge e)
    obtain ws1 st1 where "clean_adjacency db (ev_id e) st = Inr (ws1, st1)"
      using clean_adjacency_total [OF assms, of "ev_id e" st] by auto
    with PutEdge show ?thesis by (simp add: stage_current_mutation_def split: prod.splits)
  next
    case (DeleteEdge t)
    obtain ws1 st1 where "clean_adjacency db (et_id t) st = Inr (ws1, st1)"
      using clean_adjacency_total [OF assms, of "et_id t" st] by auto
    with DeleteEdge show ?thesis by (simp add: stage_current_mutation_def split: prod.splits)
  qed (simp_all add: stage_current_mutation_def)
  with acc show ?thesis by (auto simp: stage_mutation_def)
qed

lemma try_fold_total:
  assumes "\<And>s x. x \<in> set xs \<Longrightarrow> \<exists>s'. f s x = Inr s'"
  shows "\<exists>s'. try_fold f s xs = Inr s'"
  using assms
proof (induction xs arbitrary: s)
  case (Cons x xs)
  then obtain s1 where "f s x = Inr s1" by fastforce
  with Cons show ?case by simp
qed simp

lemma stage_batches_total:
  assumes "db_ok a db"
  shows "\<exists>ws st. try_fold (stage_committed_batch db) acc bs = Inr (ws, st)"
proof -
  have "\<exists>r. stage_committed_batch db acc b = Inr r" for acc b
  proof -
    have "\<exists>r. try_fold (stage_mutation db (cb_raft_index b)) acc (enumerated b) = Inr r"
      by (rule try_fold_total) (use stage_mutation_total [OF assms] in blast)
    then show ?thesis by (auto simp: stage_committed_batch_def)
  qed
  from try_fold_total [of bs "stage_committed_batch db" acc, OF this] show ?thesis by auto
qed

abbreviation rows_after ::
    "keyspace \<Rightarrow> committed_shard_batch list \<Rightarrow> (byte list, row) bmap \<Rightarrow> (byte list, row) bmap" where
  "rows_after ks bs m \<equiv> fold apply_row (writes_to ks (concat (map batch_writes bs))) m"

lemma temporal_row_mono: "temporal_row_ok a p \<Longrightarrow> a \<le> a' \<Longrightarrow> temporal_row_ok a' p"
  by auto

lemma batch_rows_ok: "p \<in> set (batch_rows b) \<Longrightarrow> temporal_row_ok (cb_raft_index b) p"
  by (auto simp: batch_rows_def)

lemma temporal_rows_after:
  assumes "chained a bs" and "bm_ok m" and "\<forall>p \<in> set m. temporal_row_ok a p"
    and "\<forall>b \<in> set bs. len_ok (cb_mutations b)"
  shows "rows_after KTemporalIndex bs m = m @ concat (map batch_rows bs) \<and>
    (\<forall>p \<in> set (rows_after KTemporalIndex bs m). temporal_row_ok (last_index a bs) p)"
  using assms
proof (induction bs arbitrary: a m)
  case (Cons b bs)
  let ?m = "m @ batch_rows b"
  have less: "a < cb_raft_index b" using chained_head [OF Cons.prems(1)] .
  have step: "fold apply_row (writes_to KTemporalIndex (batch_writes b)) m = ?m"
    using Cons.prems less by (intro temporal_after) auto
  have "bm_ok ?m" using fold_apply_row_ok [OF Cons.prems(2)] step by metis
  moreover have "\<forall>p \<in> set ?m. temporal_row_ok (cb_raft_index b) p"
  proof
    fix p assume "p \<in> set ?m"
    then consider "p \<in> set m" | "p \<in> set (batch_rows b)" by auto
    then show "temporal_row_ok (cb_raft_index b) p"
    proof cases
      case 1
      with Cons.prems(3) have "temporal_row_ok a p" by blast
      then show ?thesis by (rule temporal_row_mono) (use less in simp)
    qed (rule batch_rows_ok)
  qed
  ultimately have "rows_after KTemporalIndex bs ?m = ?m @ concat (map batch_rows bs) \<and>
    (\<forall>p \<in> set (rows_after KTemporalIndex bs ?m). temporal_row_ok (last_index (cb_raft_index b) bs) p)"
    using Cons.prems(4) by (intro Cons.IH [OF chained_tail [OF Cons.prems(1)]]) simp_all
  with step show ?case by simp
qed simp

lemma writes_to_subset: "w \<in> set (writes_to ks ws) \<longleftrightarrow> w \<in> set ws \<and> write_space w = ks"
  by (auto simp: writes_to_def)

lemma history_write_ok:
  "WInsert ks key v \<in> set (stage_history_mutation i o' m) \<Longrightarrow> history_row_ok i (key, v)"
  by (cases m) (auto simp: stage_history_mutation_def)

lemma history_rows_after:
  assumes "chained a bs" and "\<forall>p \<in> set m. history_row_ok a p"
  shows "\<forall>p \<in> set (rows_after KHistory bs m). history_row_ok (last_index a bs) p"
proof (rule fold_apply_row_all)
  show "\<forall>p \<in> set m. history_row_ok (last_index a bs) p"
    using assms(2) chained_last [OF assms(1)] by fastforce
next
  fix ks key v
  assume "WInsert ks key v \<in> set (writes_to KHistory (concat (map batch_writes bs)))"
  then obtain b where b: "b \<in> set bs" and "WInsert ks key v \<in> set (writes_to KHistory (batch_writes b))"
    by (auto simp: writes_to_concat)
  then obtain om where "WInsert ks key v \<in> set (stage_history_mutation (cb_raft_index b) (word_of_nat (fst om)) (snd om))"
    by (auto simp: history_writes_eq history_writes_def)
  then have "history_row_ok (cb_raft_index b) (key, v)" by (rule history_write_ok)
  then show "history_row_ok (last_index a bs) (key, v)"
    using chained_index [OF assms(1) b] by fastforce
qed

lemma meta_rows_after:
  assumes "\<forall>p \<in> set m. meta_row_ok p"
  shows "\<forall>p \<in> set (rows_after KReplicaMeta bs m). meta_row_ok p"
proof (rule fold_apply_row_all [OF assms])
  fix ks key v
  assume "WInsert ks key v \<in> set (writes_to KReplicaMeta (concat (map batch_writes bs)))"
  then obtain m where "WInsert ks key v \<in> set (metadata_write m)"
    by (auto simp: writes_to_concat meta_writes)
  then show "meta_row_ok (key, v)" by (cases m) auto
qed

lemma identity_rows_after:
  assumes "\<forall>p \<in> set m. identity_row_ok p"
  shows "\<forall>p \<in> set (rows_after KIdentity bs m). identity_row_ok p"
  by (rule fold_apply_row_all [OF assms]) (auto simp: writes_to_concat identity_writes)

lemma metas_rows_after:
  "db_meta (rows_after KReplicaMeta bs m) = metas_after (concat (map cb_mutations bs)) (db_meta m)"
  by (induction bs arbitrary: m) (simp_all add: meta_writes meta_after)

lemma identities_rows_after:
  "db_identity (rows_after KIdentity bs m) =
     fold (\<lambda>b f. f(cb_raft_index b \<mapsto> batch_identity b)) bs (db_identity m)"
  by (induction bs arbitrary: m) (simp_all add: identity_after)

lemma fold_add_batch:
  "fold add_batch bs c =
     \<lparr>sc_applied = last_index (sc_applied c) bs, sc_log = sc_log c @ concat (map batch_changes bs),
      sc_meta = metas_after (concat (map cb_mutations bs)) (sc_meta c),
      sc_identity = fold (\<lambda>b f. f(cb_raft_index b \<mapsto> batch_identity b)) bs (sc_identity c)\<rparr>"
  by (induction bs arbitrary: c) (simp_all add: add_batch_def)

section \<open>The contract\<close>

lemma metadata_lookup_ok:
  assumes "\<forall>p \<in> set m. meta_row_ok p" and "map_of m (metadata_key n) = Some r"
  shows "\<exists>md. r = RowMutation (PutReplicaMetadata md) \<and> rm_name md = n"
proof -
  from assms(2) have "(metadata_key n, r) \<in> set m" by (rule map_of_SomeD)
  with assms(1) have "meta_row_ok (metadata_key n, r)" by blast
  then show ?thesis by auto
qed

lemma applied_lookup_ok:
  assumes "\<forall>p \<in> set m. meta_row_ok p" and "map_of m applied_index_key = Some r"
  shows "\<exists>i. r = RowIndex i"
proof -
  from assms(2) have "(applied_index_key, r) \<in> set m" by (rule map_of_SomeD)
  with assms(1) have "meta_row_ok (applied_index_key, r)" by blast
  then show ?thesis by auto
qed

lemma identity_lookup_ok:
  assumes "\<forall>p \<in> set m. identity_row_ok p" and "map_of m (u64_be i) = Some r"
  shows "\<exists>x. r = RowIdentity x"
proof -
  from assms(2) have "(u64_be i, r) \<in> set m" by (rule map_of_SomeD)
  with assms(1) have "identity_row_ok (u64_be i, r)" by blast
  then show ?thesis by auto
qed

lemma fr_wf_binding: "fr_wf b s \<Longrightarrow> fr_ensure_binding s = Inr () \<and> verify_binding b s = Inr () \<and>
    ensure_no_restore_in_progress s = Inr ()"
  by (simp add: fr_wf_def fr_ensure_binding_def verify_binding_def ensure_no_restore_in_progress_def)

lemma fr_wf_meta: "fr_wf b s \<Longrightarrow> \<forall>p \<in> set (fr_db s KReplicaMeta). meta_row_ok p"
  by (simp add: fr_wf_def db_ok_def)

lemma fr_applied:
  assumes "fr_wf b s"
  shows "applied_index_sync s = Inr (db_applied (fr_db s))"
  using fr_wf_binding [OF assms] applied_lookup_ok [OF fr_wf_meta [OF assms]]
  by (auto simp: applied_index_sync_def db_applied_def split: option.splits row.splits)

lemma fr_metadata:
  assumes "fr_wf b s"
  shows "fr_replica_metadata n s = (Inr (db_meta (fr_db s KReplicaMeta) n), s)"
proof (cases "map_of (fr_db s KReplicaMeta) (metadata_key n)")
  case None
  with fr_wf_binding [OF assms] show ?thesis by (simp add: fr_replica_metadata_def db_meta_def)
next
  case (Some r)
  with metadata_lookup_ok [OF fr_wf_meta [OF assms]] obtain md
    where "r = RowMutation (PutReplicaMetadata md)" "rm_name md = n" by blast
  with Some fr_wf_binding [OF assms] show ?thesis by (simp add: fr_replica_metadata_def db_meta_def)
qed

text \<open>The database after a chain of batches has been written.\<close>

declare temporal_row_ok.simps [simp del] history_row_ok.simps [simp del] meta_row_ok.simps [simp del]
  identity_row_ok.simps [simp del] adjacency_stored_ok.simps [simp del]

lemma bm_insert_all: "\<forall>p \<in> set m. P p \<Longrightarrow> P (k, v) \<Longrightarrow> \<forall>p \<in> set (bm_insert k v m). P p"
  using set_bm_insert_sub [of k v m] by blast

lemma db_after_chain:
  assumes ok: "db_ok (db_applied db) db" and chain: "chained (db_applied db) bs"
    and len: "\<forall>b \<in> set bs. len_ok (cb_mutations b)"
    and stage: "try_fold (stage_committed_batch db) ([], adjacency_state_default) bs = Inr (ws, st)"
    and db': "db' = fold apply_write (ws @ [WInsert KReplicaMeta applied_index_key (RowIndex (last_index (db_applied db) bs))]) db"
  shows "db_ok (db_applied db') db' \<and> db_contents db' = fold add_batch bs (db_contents db)"
proof -
  let ?a = "last_index (db_applied db) bs"
  have rows: "graph_space ks \<Longrightarrow> ks \<noteq> KReplicaMeta \<Longrightarrow> db' ks = rows_after ks bs (db ks)" for ks
    using stage_batches_writes [OF stage, of ks] by (simp add: db' fold_apply_write del: fold_append)
  have meta: "db' KReplicaMeta = bm_insert applied_index_key (RowIndex ?a) (rows_after KReplicaMeta bs (db KReplicaMeta))"
    using stage_batches_writes [OF stage, of KReplicaMeta] by (simp add: db' fold_apply_write graph_space_def)
  have applied: "db_applied db' = ?a" by (simp add: db_applied_def meta)
  have sorted: "bm_ok (db' ks)" for ks
    using ok by (simp add: db' fold_apply_write fold_apply_row_ok db_ok_def del: fold_append)
  have temporal: "db' KTemporalIndex = db KTemporalIndex @ concat (map batch_rows bs)"
    "\<forall>p \<in> set (db' KTemporalIndex). temporal_row_ok ?a p"
    using temporal_rows_after [OF chain, of "db KTemporalIndex"] ok len rows [of KTemporalIndex]
    by (simp_all add: db_ok_def graph_space_def)
  have history: "\<forall>p \<in> set (db' KHistory). history_row_ok ?a p"
    using history_rows_after [OF chain, of "db KHistory"] ok rows [of KHistory]
    by (simp add: db_ok_def graph_space_def)
  have identity: "\<forall>p \<in> set (db' KIdentity). identity_row_ok p"
    using identity_rows_after [of "db KIdentity" bs] ok rows [of KIdentity]
    by (simp add: db_ok_def graph_space_def)
  have metas: "\<forall>p \<in> set (db' KReplicaMeta). meta_row_ok p"
  proof -
    have "\<forall>p \<in> set (rows_after KReplicaMeta bs (db KReplicaMeta)). meta_row_ok p"
      using ok by (intro meta_rows_after) (simp add: db_ok_def)
    then show ?thesis unfolding meta by (rule bm_insert_all) (simp add: meta_row_ok.simps)
  qed
  have adj: "\<forall>p \<in> set (db' ks). adjacency_stored_ok p" if ks: "ks \<in> {KAdjacencyOut, KAdjacencyIn}" for ks
  proof -
    have wok: "adjacency_rows_ok ws" using stage_batches_writes [OF stage] by (simp add: adjacency_rows_ok_def)
    have "db' ks = fold apply_row (writes_to ks ws) (db ks)"
      using ks by (auto simp: db' fold_apply_write)
    moreover have "\<forall>p \<in> set (fold apply_row (writes_to ks ws) (db ks)). adjacency_stored_ok p"
    proof (rule fold_apply_row_all)
      show "\<forall>p \<in> set (db ks). adjacency_stored_ok p" using ok ks by (auto simp: db_ok_def)
      fix ks' key v assume "WInsert ks' key v \<in> set (writes_to ks ws)"
      then have "WInsert ks key v \<in> set ws" by (auto simp: writes_to_subset)
      with wok ks show "adjacency_stored_ok (key, v)"
        by (auto simp: adjacency_rows_ok_def list_all_iff adjacency_stored_ok.simps)
    qed
    ultimately show ?thesis by simp
  qed
  have "db_ok (db_applied db') db'"
    using sorted temporal(2) history identity metas adj [of KAdjacencyOut] adj [of KAdjacencyIn] applied
    by (simp add: db_ok_def)
  moreover have "db_contents db' = fold add_batch bs (db_contents db)"
    using temporal(1) rows [of KIdentity] batch_rows_changes
    by (simp add: db_contents_def fold_add_batch applied meta metas_rows_after identities_rows_after
        graph_space_def map_concat comp_def)
  ultimately show ?thesis by blast
qed

abbreviation chain_writes :: "fjall_replica \<Rightarrow> write_op list \<Rightarrow> committed_shard_batch list \<Rightarrow> write_op list" where
  "chain_writes s ws bs \<equiv>
     ws @ [WInsert KReplicaMeta applied_index_key (RowIndex (last_index (db_applied (fr_db s)) bs))]"

lemma apply_chain_commit:
  assumes wf: "fr_wf b s" and ne: "bs \<noteq> []" and ok: "\<And>x. x \<in> set bs \<Longrightarrow> batch_ok blake3 b x"
    and chain: "chained (db_applied (fr_db s)) bs" and run: "apply_batches_sync blake3 bs s = (r, s')"
  shows "\<exists>ws st. try_fold (stage_committed_batch (fr_db s)) ([], adjacency_state_default) bs = Inr (ws, st) \<and>
    eff_bind (commit_writes (chain_writes s ws bs)) (\<lambda>_. eff_ret (map (\<lambda>x. apply_receipt_new x False) bs)) s = (r, s')"
proof -
  from wf have dbok: "db_ok (db_applied (fr_db s)) (fr_db s)" by (simp add: fr_wf_def)
  have "try_all (\<lambda>x. try_r (committed_shard_batch_validate blake3 x) (\<lambda>_. verify_binding (cb_binding x) s)) bs = Inr ()"
    using ok fr_wf_binding [OF wf] by (auto simp: result_simps batch_ok_def)
  moreover obtain ws st where stage: "try_fold (stage_committed_batch (fr_db s)) ([], adjacency_state_default) bs = Inr (ws, st)"
    using stage_batches_total [OF dbok] by blast
  ultimately have "eff_bind (commit_writes (chain_writes s ws bs))
      (\<lambda>_. eff_ret (map (\<lambda>x. apply_receipt_new x False) bs)) s = (r, s')"
    using run ne fr_wf_binding [OF wf] fr_applied [OF wf]
      fill_pending [of "map (\<lambda>x. apply_receipt_new x False) bs"]
    by (simp add: apply_batches_sync_def admit_chained [OF chain])
  with stage show ?thesis by blast
qed

lemma apply_chain:
  assumes wf: "fr_wf b s" and ne: "bs \<noteq> []" and ok: "\<And>x. x \<in> set bs \<Longrightarrow> batch_ok blake3 b x"
    and chain: "chained (db_applied (fr_db s)) bs" and run: "apply_batches_sync blake3 bs s = (r, s')"
  shows "fr_wf b s' \<and> ((\<exists>e. r = Inl e) \<and> fr_contents s' = fr_contents s \<or>
    r = Inr (map (\<lambda>x. apply_receipt_new x False) bs) \<and>
    fr_contents s' = fold add_batch bs (fr_contents s))"
proof -
  from apply_chain_commit [OF assms] obtain ws st
    where stage: "try_fold (stage_committed_batch (fr_db s)) ([], adjacency_state_default) bs = Inr (ws, st)"
      and run': "eff_bind (commit_writes (chain_writes s ws bs))
        (\<lambda>_. eff_ret (map (\<lambda>x. apply_receipt_new x False) bs)) s = (r, s')" by blast
  have "db_ok (db_applied db') db' \<and> db_contents db' = fold add_batch bs (db_contents (fr_db s))"
    if "db' = fold apply_write (chain_writes s ws bs) (fr_db s)" for db'
    using _ chain _ stage that by (rule db_after_chain) (use wf ok in \<open>auto simp: batch_ok_def fr_wf_def\<close>)
  with run' wf show ?thesis
    by (auto simp: commit_writes_def eff_bind_app fr_wf_def fr_contents_def split: list.splits option.splits
        simp del: fold_append)
qed

text \<open>The stored history after a chain of batches.\<close>

lemma apply_chain_history:
  assumes wf: "fr_wf b s" and ne: "bs \<noteq> []" and ok: "\<And>x. x \<in> set bs \<Longrightarrow> batch_ok blake3 b x"
    and chain: "chained (db_applied (fr_db s)) bs" and run: "apply_batches_sync blake3 bs s = (Inr r, s')"
  shows "fr_db s' KHistory = fold apply_row (concat (map history_writes bs)) (fr_db s KHistory)"
proof -
  from apply_chain_commit [OF assms] obtain ws st
    where stage: "try_fold (stage_committed_batch (fr_db s)) ([], adjacency_state_default) bs = Inr (ws, st)"
      and run': "eff_bind (commit_writes (chain_writes s ws bs))
        (\<lambda>_. eff_ret (map (\<lambda>x. apply_receipt_new x False) bs)) s = (Inr r, s')" by blast
  from run' have "fr_db s' = fold apply_write (chain_writes s ws bs) (fr_db s)"
    by (auto simp: commit_writes_def eff_bind_app split: list.splits option.splits simp del: fold_append)
  with stage_batches_writes [OF stage, of KHistory] show ?thesis
    by (simp add: fold_apply_write graph_space_def writes_to_concat history_writes_eq comp_def del: fold_append)
qed

lemma admit_old:
  assumes "\<forall>p \<in> set (db KIdentity). identity_row_ok p" and "cb_raft_index x \<le> a"
  shows "admit_batches db a [x] =
    (if db_identity (db KIdentity) (cb_raft_index x) = Some (batch_identity x)
     then Inr (a, [Some (apply_receipt_new x True)], []) else Inl (ReplayMismatch (cb_raft_index x)))"
proof (cases "map_of (db KIdentity) (u64_be (cb_raft_index x))")
  case None
  with assms(2) show ?thesis by (simp add: db_identity_def)
next
  case (Some r)
  with identity_lookup_ok [OF assms(1)] obtain y where "r = RowIdentity y" by blast
  with Some assms(2) show ?thesis by (simp add: db_identity_def batch_identity_def)
qed

lemma apply_old:
  assumes wf: "fr_wf b s" and ok: "batch_ok blake3 b x" and old: "cb_raft_index x \<le> db_applied (fr_db s)"
  shows "apply_sync blake3 x s =
    (if sc_identity (fr_contents s) (cb_raft_index x) = Some (batch_identity x)
     then Inr (apply_receipt_new x True) else Inl (ReplayMismatch (cb_raft_index x)), s)"
proof -
  from wf have rows: "\<forall>p \<in> set (fr_db s KIdentity). identity_row_ok p" by (simp add: fr_wf_def db_ok_def)
  show ?thesis
    using ok fr_wf_binding [OF wf] fr_applied [OF wf] admit_old [where db = "fr_db s", OF rows old]
    by (auto simp: apply_sync_def apply_batches_sync_def batch_ok_def fr_contents_def db_contents_def
        eff_bind_app)
qed

lemma temporal_load:
  assumes "\<forall>p \<in> set m. temporal_row_ok a p"
  shows "try_map (\<lambda>(key, r).
     if length key \<noteq> 17 then Inl (Internal ''invalid change index key'')
     else try_r (decode_row r) (\<lambda>m.
       Inr \<lparr>cr_cursor = change_cursor_new (u64_from_be (take 8 (drop 1 key))) (u64_from_be (take 8 (drop 9 key))),
            cr_mutation = m\<rparr>)) (filter (\<lambda>(key, _). take 1 key = str_bytes ''c'') m) = Inr (map row_change m)"
  using assms
proof (induction m)
  case (Cons p m)
  then obtain i o' mu where "p = (change_key i o', RowMutation mu)" by (auto simp: temporal_row_ok.simps)
  with Cons show ?case
    by (simp add: change_key_def str_bytes_simps decode_row_def row_change_def)
qed simp

lemma history_load:
  assumes "\<forall>p \<in> set m. history_row_ok a p"
  shows "try_map (\<lambda>(_, r). decode_row r) m = Inr (map row_mutation m)"
  using assms
  by (induction m) (auto simp: history_row_ok.simps decode_row_def row_mutation_def)

lemma read_view_opens:
  assumes "fr_wf b s"
  shows "fr_begin_read_view (read_fence_new b (db_applied (fr_db s))) s =
    (Inr (fjall_read_view (read_fence_new b (db_applied (fr_db s)))
       (map row_mutation (fr_db s KHistory)) (sc_log (fr_contents s))), s)"
proof -
  from assms have rows: "\<forall>p \<in> set (fr_db s KTemporalIndex). temporal_row_ok (db_applied (fr_db s)) p"
    "\<forall>p \<in> set (fr_db s KHistory). history_row_ok (db_applied (fr_db s)) p"
    by (simp_all add: fr_wf_def db_ok_def)
  show ?thesis
    using assms fr_wf_binding [OF assms] fr_applied [OF assms] temporal_load [OF rows(1)] history_load [OF rows(2)]
    by (simp add: fr_begin_read_view_def verify_fence_def read_fence_new_def load_view_history_def
        load_view_changes_def fr_wf_def fr_contents_def db_contents_def)
qed

lemma db_log_ordered:
  assumes "db_ok a db"
  shows "log_ordered a (map row_change (db KTemporalIndex))"
proof -
  have rows: "\<forall>p \<in> set m. temporal_row_ok a p \<Longrightarrow> bm_ok m \<Longrightarrow> log_ordered a (map row_change m)" for m
  proof (induction m)
    case (Cons p m)
    from Cons.prems obtain i o' mu where p: "p = (change_key i o', RowMutation mu)" "i \<le> a"
      by (auto simp: temporal_row_ok.simps)
    have "cursor_less (change_cursor_new i o') (cr_cursor (row_change q))" if "q \<in> set m" for q
    proof -
      from that Cons.prems obtain j p' mu' where q: "q = (change_key j p', RowMutation mu')"
        by (auto simp: temporal_row_ok.simps)
      from Cons.prems(2) that have "fst p < fst q" by simp
      with p q show ?thesis by (simp add: change_key_less cursor_less_def change_cursor_new_def)
    qed
    with Cons p show ?case by (auto simp: log_ordered_def change_cursor_new_def)
  qed (simp add: log_ordered_def)
  from assms show ?thesis by (intro rows) (simp_all add: db_ok_def)
qed

interpretation fjs: replica_store "fjall_store blake3 b" blake3 "fr_wf b" fr_contents
  for blake3 :: "byte list \<Rightarrow> digest32" and b :: replica_binding
proof
  fix w assume wf: "fr_wf b w"
  show "ss_applied_index (fjall_store blake3 b) w = (Inr (sc_applied (fr_contents w)), w)"
    using fr_applied [OF wf] by (simp add: fjall_store_def fr_contents_def db_contents_def)
  show "ss_replica_metadata (fjall_store blake3 b) n w = (Inr (sc_meta (fr_contents w) n), w)" for n
    using fr_metadata [OF wf] by (simp add: fjall_store_def fr_contents_def db_contents_def)
  show "\<exists>v. ss_begin_read_view (fjall_store blake3 b)
      (read_fence_new (ss_binding (fjall_store blake3 b)) (sc_applied (fr_contents w))) w = (Inr v, w) \<and>
      (\<forall>q w'. rv_changes v q w' = (Inr (changes_page (sc_log (fr_contents w)) q), w'))"
    using read_view_opens [OF wf]
    by (simp add: fjall_store_def fr_contents_def db_contents_def fjall_read_view_def view_changes_def
        changes_page_def Let_def)
  show "log_ordered (sc_applied (fr_contents w)) (sc_log (fr_contents w))"
    using wf db_log_ordered by (simp add: fr_wf_def fr_contents_def db_contents_def)
next
  fix w x r w'
  assume wf: "fr_wf b w" and ok: "batch_ok blake3 (ss_binding (fjall_store blake3 b)) x"
    and chain: "chained (sc_applied (fr_contents w)) [x]" and run: "ss_apply (fjall_store blake3 b) x w = (r, w')"
  from run obtain rs where rs: "apply_batches_sync blake3 [x] w = (rs, w')"
    by (auto simp: fjall_store_def apply_sync_def eff_bind_app split: prod.splits sum.splits if_splits)
  from apply_chain [OF wf _ _ _ rs] ok chain
  have "fr_wf b w' \<and> ((\<exists>e. rs = Inl e) \<and> fr_contents w' = fr_contents w \<or>
      rs = Inr [apply_receipt_new x False] \<and> fr_contents w' = add_batch x (fr_contents w))"
    by (simp add: fjall_store_def fr_contents_def db_contents_def)
  with run rs show "fr_wf b w' \<and> ((\<exists>e. r = Inl e) \<and> fr_contents w' = fr_contents w \<or>
      r = Inr (apply_receipt_new x False) \<and> fr_contents w' = add_batch x (fr_contents w))"
    by (auto simp: fjall_store_def apply_sync_def eff_bind_app)
next
  fix w x
  assume "fr_wf b w" and "batch_ok blake3 (ss_binding (fjall_store blake3 b)) x"
    and "cb_raft_index x \<le> sc_applied (fr_contents w)"
  then show "ss_apply (fjall_store blake3 b) x w =
      (if sc_identity (fr_contents w) (cb_raft_index x) = Some (batch_identity x)
       then Inr (apply_receipt_new x True) else Inl (ReplayMismatch (cb_raft_index x)), w)"
    using apply_old by (simp add: fjall_store_def fr_contents_def db_contents_def)
next
  fix w bs r w'
  assume "fr_wf b w" and "bs \<noteq> []"
    and "\<And>x. x \<in> set bs \<Longrightarrow> batch_ok blake3 (ss_binding (fjall_store blake3 b)) x"
    and "chained (sc_applied (fr_contents w)) bs" and "ss_apply_batches (fjall_store blake3 b) bs w = (r, w')"
  then show "fr_wf b w' \<and> ((\<exists>e. r = Inl e) \<and> fr_contents w' = fr_contents w \<or>
      r = Inr (map (\<lambda>x. apply_receipt_new x False) bs) \<and> fr_contents w' = fold add_batch bs (fr_contents w))"
    by (intro apply_chain) (simp_all add: fjall_store_def fr_contents_def db_contents_def)
qed

end
