(* ===== verification/Shard_History.thy ===== *)
theory Shard_History
  imports Shard_Meta_Props Fjall_Contract
begin

text \<open>
  Reading the change log through a replica store: the paging loop of the state machine visits
  exactly the changes after its cursor, so that write-conflict detection is exact.
\<close>

section \<open>Pages of an ordered log\<close>

lemma try_all_append: "try_all f (xs @ ys) = try_r (try_all f xs) (\<lambda>_. try_all f ys)"
proof (induction xs)
  case (Cons x xs)
  then show ?case by (cases "f x") simp_all
qed simp

lemma try_all_cong: "(\<And>x. x \<in> set xs \<Longrightarrow> f x = g x) \<Longrightarrow> try_all f xs = try_all g xs"
proof (induction xs)
  case (Cons x xs)
  then show ?case by (cases "g x") simp_all
qed simp

lemma store_call_Inr: "m w = (Inr a, w') \<Longrightarrow> store_call m w = (Inr a, w')"
  by (simp add: store_call_def)

lemma store_call_Inl: "m w = (Inl e, w') \<Longrightarrow> store_call m w = (Inl (StorageE e), w')"
  by (simp add: store_call_def)

definition changes_after :: "change_cursor option \<Rightarrow> change_record list \<Rightarrow> change_record list" where
  "changes_after after log = filter (\<lambda>c. cursor_after after (cr_cursor c)) log"

lemma page_matching:
  assumes "log_ordered applied log"
  shows "filter (\<lambda>c. changes_includes \<lparr>ch_after = after, ch_through_index = applied, ch_limit = n\<rparr> (cr_cursor c)) log =
    changes_after after log"
  unfolding changes_after_def
proof (rule filter_cong [OF refl])
  fix c assume "c \<in> set log"
  with assms have "cc_raft_index (cr_cursor c) \<le> applied" by (simp add: log_ordered_def)
  then show "changes_includes \<lparr>ch_after = after, ch_through_index = applied, ch_limit = n\<rparr> (cr_cursor c) =
      cursor_after after (cr_cursor c)"
    by (simp add: changes_includes_def cursor_after_def)
qed

text \<open>What follows the last row of a page is the rest of the listing.\<close>

lemma filter_after_nth:
  assumes "sorted_wrt (\<lambda>c d. cursor_less (cr_cursor c) (cr_cursor d)) xs" and "k < length xs"
  shows "filter (\<lambda>c. cursor_less (cr_cursor (xs ! k)) (cr_cursor c)) xs = drop (Suc k) xs"
proof -
  have split: "xs = take (Suc k) xs @ drop (Suc k) xs" by simp
  have "filter (\<lambda>c. cursor_less (cr_cursor (xs ! k)) (cr_cursor c)) (take (Suc k) xs) = []"
  proof (rule filter_False, rule ballI)
    fix c assume "c \<in> set (take (Suc k) xs)"
    then obtain j where j: "j \<le> k" "c = xs ! j" using assms(2) by (auto simp: in_set_conv_nth less_Suc_eq_le)
    then show "\<not> cursor_less (cr_cursor (xs ! k)) (cr_cursor c)"
      using sorted_wrt_nth_less [OF assms(1), of j k] assms(2) cursor_less_asym by (cases "j = k") auto
  qed
  moreover have "filter (\<lambda>c. cursor_less (cr_cursor (xs ! k)) (cr_cursor c)) (drop (Suc k) xs) = drop (Suc k) xs"
  proof (rule filter_True, rule ballI)
    fix c assume "c \<in> set (drop (Suc k) xs)"
    then obtain j where "j < length xs - Suc k" "c = xs ! (Suc k + j)"
      by (auto simp: in_set_conv_nth)
    then show "cursor_less (cr_cursor (xs ! k)) (cr_cursor c)"
      using sorted_wrt_nth_less [OF assms(1), of k "Suc k + j"] by simp
  qed
  ultimately show ?thesis by (metis append_Nil filter_append split)
qed

lemma next_page:
  assumes ord: "log_ordered applied log" and k: "k < length (changes_after after log)"
  shows "changes_after (Some (cr_cursor (changes_after after log ! k))) log = drop (Suc k) (changes_after after log)"
proof -
  let ?L = "changes_after after log"
  define c0 where "c0 = cr_cursor (?L ! k)"
  have sorted: "sorted_wrt (\<lambda>c d. cursor_less (cr_cursor c) (cr_cursor d)) ?L"
    using ord by (simp add: log_ordered_def changes_after_def sorted_wrt_filter)
  have "?L ! k \<in> set ?L" using k by simp
  then have after: "cursor_after after c0" by (simp add: changes_after_def c0_def)
  have "changes_after (Some c0) log = filter (\<lambda>c. cursor_less c0 (cr_cursor c)) ?L"
    unfolding changes_after_def filter_filter
    using after by (intro filter_cong) (auto simp: cursor_after_def dest: cursor_less_trans split: option.splits)
  with filter_after_nth [OF sorted k] show ?thesis by (simp add: c0_def)
qed

definition cursor_within :: "change_cursor option \<Rightarrow> u64 \<Rightarrow> bool" where
  "cursor_within after applied = (case after of None \<Rightarrow> True | Some c \<Rightarrow> cc_raft_index c \<le> applied)"

lemma changes_read_within:
  "cursor_within after applied \<Longrightarrow> changes_read_new after applied history_page_limit =
     Inr \<lparr>ch_after = after, ch_through_index = applied, ch_limit = 256\<rparr>"
  by (auto simp: changes_read_new_def history_page_limit_def cursor_within_def split: option.splits)

lemma visit_page_rows:
  assumes "log_ordered applied log" and "set rows \<subseteq> set (changes_after after log)"
  shows "visit_rows visit applied after rows = try_all visit rows"
  unfolding visit_rows_def
proof (rule try_all_cong)
  fix c assume "c \<in> set rows"
  with assms show "(if \<not> cursor_after after (cr_cursor c) \<or> applied < cc_raft_index (cr_cursor c)
      then corrupt ''durable change history row is outside the requested range'' else visit c) = visit c"
    by (auto simp: changes_after_def log_ordered_def not_less [symmetric])
qed

lemma visit_pages_exact:
  assumes ord: "log_ordered applied log"
    and view: "\<And>q w. rv_changes view q w = (Inr (changes_page log q), w)"
  shows "cursor_within after applied \<Longrightarrow> length (changes_after after log) \<le> 256 * pages \<Longrightarrow> 0 < pages \<Longrightarrow>
    records + length (changes_after after log) \<le> history_record_budget \<Longrightarrow>
    visit_pages view visit applied pages after records w = (try_all visit (changes_after after log), w)"
proof (induction pages arbitrary: after records)
  case (Suc pages)
  let ?L = "changes_after after log"
  let ?q = "\<lparr>ch_after = after, ch_through_index = applied, ch_limit = 256\<rparr>"
  let ?page = "changes_page log ?q"
  have page: "cp_rows ?page = take 256 ?L"
    "cp_next_after ?page = (if 256 < length ?L then Some (cr_cursor (last (take 256 ?L))) else None)"
    by (simp_all add: changes_page_def page_matching [OF ord] Let_def)
  have rows: "visit_rows visit applied after (take 256 ?L) = try_all visit (take 256 ?L)"
    by (rule visit_page_rows [OF ord set_take_subset])
  have small: "\<not> history_record_budget < records + min (length ?L) 256" using Suc.prems(4) by simp
  have step: "visit_pages view visit applied (Suc pages) after records w =
      (case try_all visit (take 256 ?L) of Inl e \<Rightarrow> (Inl e, w) | Inr _ \<Rightarrow>
        (case cp_next_after ?page of None \<Rightarrow> (Inr (), w)
         | Some nxt \<Rightarrow> if page_progress after ?page nxt
             then visit_pages view visit applied pages (Some nxt) (records + length (take 256 ?L)) w
             else (corrupt ''durable change history pagination did not make progress'', w)))"
    by (simp add: eff_bind_app store_call_def view page(1) rows small changes_read_within [OF Suc.prems(1)]
        split: sum.splits option.splits)
  show ?case
  proof (cases "256 < length ?L")
    case False
    with step page(2) show ?thesis by (cases "try_all visit ?L") simp_all
  next
    case True
    have lst: "last (take 256 ?L) = ?L ! 255"
      using True by (subst last_conv_nth) auto
    let ?c = "cr_cursor (?L ! 255)"
    have "?L ! 255 \<in> set ?L" using True by (intro nth_mem) simp
    then have "cursor_after after ?c" and within: "cc_raft_index ?c \<le> applied"
      using ord by (auto simp: changes_after_def log_ordered_def)
    then have prog: "page_progress after ?page ?c"
      using True page(1) lst by (auto simp: page_progress_def)
    have rest: "changes_after (Some ?c) log = drop 256 ?L"
      using next_page [OF ord, of 255 after] True by simp
    have "visit_pages view visit applied pages (Some ?c) (records + length (take 256 ?L)) w =
        (try_all visit (drop 256 ?L), w)"
      using Suc.IH [of "Some ?c" "records + length (take 256 ?L)"] Suc.prems True rest within
      by (simp add: cursor_within_def)
    moreover have "try_all visit ?L = try_r (try_all visit (take 256 ?L)) (\<lambda>_. try_all visit (drop 256 ?L))"
      using try_all_append [of visit "take 256 ?L" "drop 256 ?L"] by simp
    ultimately show ?thesis
      using step page(2) True lst prog by (cases "try_all visit (take 256 ?L)") simp_all
  qed
qed simp

section \<open>Conflicts\<close>

text \<open>A committed change that a transaction with this snapshot and start time must not overwrite.\<close>

definition conflicting_change ::
    "u64 \<Rightarrow> transaction_time \<Rightarrow> logical_mutation list \<Rightarrow> change_record \<Rightarrow> bool" where
  "conflicting_change snapshot start candidate c =
     (snapshot < cc_raft_index (cr_cursor c) \<and>
      (case graph_mutation_time (cr_mutation c) of None \<Rightarrow> False | Some t \<Rightarrow> start < t) \<and>
      mutations_conflict candidate [cr_mutation c])"

definition write_conflict ::
    "(transaction_id, participant_intent) bmap \<Rightarrow> change_record list \<Rightarrow> transaction_id
      \<Rightarrow> transaction_time \<Rightarrow> u64 \<Rightarrow> logical_mutation list \<Rightarrow> bool" where
  "write_conflict active log tx start snapshot candidate =
     (list_ex (\<lambda>(_, i). pi_transaction_id i \<noteq> tx \<and> mutations_conflict candidate (pi_mutations i)) active \<or>
      list_ex (conflicting_change snapshot start candidate) log)"

lemma changes_after_snapshot:
  "changes_after (Some (change_cursor_new snapshot (- 1))) log =
     filter (\<lambda>c. snapshot < cc_raft_index (cr_cursor c)) log"
proof -
  have "\<not> (- 1 :: u64) < x" for x by (simp add: not_less)
  then show ?thesis
    by (simp add: changes_after_def cursor_after_def cursor_less_def change_cursor_new_def)
qed

lemma visit_conflicts:
  "try_all (visit_conflict start candidate) cs =
     (if list_ex (\<lambda>c. (case graph_mutation_time (cr_mutation c) of None \<Rightarrow> False | Some t \<Rightarrow> start < t) \<and>
           mutations_conflict candidate [cr_mutation c]) cs
      then Inl WriteConflictS else Inr ())"
  by (induction cs) (auto simp: visit_conflict_def Let_def)

definition history_fits :: "u64 \<Rightarrow> change_record list \<Rightarrow> bool" where
  "history_fits snapshot log =
     (length (filter (\<lambda>c. snapshot < cc_raft_index (cr_cursor c)) log) \<le> history_record_budget)"

context replica_store
begin

lemma for_each_change_exact:
  assumes wf: "wf w" and fit: "length (changes_after after (sc_log (contents w))) \<le> history_record_budget"
    and within: "cursor_within after (sc_applied (contents w))"
    and pos: "sc_applied (contents w) \<noteq> 0 \<or> changes_after after (sc_log (contents w)) = []"
  shows "for_each_change (ss_binding store) store (sc_applied (contents w)) after visit w =
    (try_all visit (changes_after after (sc_log (contents w))), w)"
proof (cases "sc_applied (contents w) = 0")
  case False
  from store_view [OF wf] obtain v where
    v: "ss_begin_read_view store (read_fence_new (ss_binding store) (sc_applied (contents w))) w = (Inr v, w)"
    and pages: "\<And>q w'. rv_changes v q w' = (Inr (changes_page (sc_log (contents w)) q), w')" by blast
  have "visit_pages v visit (sc_applied (contents w)) history_page_budget after 0 w =
      (try_all visit (changes_after after (sc_log (contents w))), w)"
    by (rule visit_pages_exact [OF store_log_ordered [OF wf] pages within])
      (use fit in \<open>simp_all add: history_page_budget_def history_record_budget_def\<close>)
  with False show ?thesis by (simp add: for_each_change_def eff_bind_app store_call_def v)
qed (use pos in \<open>simp add: for_each_change_def\<close>)

lemma write_conflicts_exact:
  assumes wf: "wf w" and m: "sm_state_store m = store" "sm_binding m = ss_binding store"
      "sm_applied_index m = sc_applied (contents w)"
    and snap: "snapshot \<le> sc_applied (contents w)" and fit: "history_fits snapshot (sc_log (contents w))"
  shows "validate_write_conflicts m tx start snapshot candidate w =
    (if write_conflict (sm_active_intents m) (sc_log (contents w)) tx start snapshot candidate
     then Inl WriteConflictS else Inr (), w)"
proof -
  let ?log = "sc_log (contents w)"
  let ?after = "Some (change_cursor_new snapshot (- 1))"
  let ?later = "filter (\<lambda>c. snapshot < cc_raft_index (cr_cursor c)) ?log"
  have empty: "?later = []" if "sc_applied (contents w) = 0"
    using that snap store_log_ordered [OF wf] by (auto simp: log_ordered_def filter_empty_conv not_less)
  have "for_each_change (ss_binding store) store (sc_applied (contents w)) ?after
      (visit_conflict start candidate) w = (try_all (visit_conflict start candidate) ?later, w)"
    by (rule for_each_change_exact [OF wf, where after = ?after, unfolded changes_after_snapshot])
      (use fit snap empty in \<open>auto simp: cursor_within_def change_cursor_new_def history_fits_def\<close>)
  moreover have "list_ex (\<lambda>c. (case graph_mutation_time (cr_mutation c) of None \<Rightarrow> False | Some t \<Rightarrow> start < t) \<and>
      mutations_conflict candidate [cr_mutation c]) ?later \<longleftrightarrow> list_ex (conflicting_change snapshot start candidate) ?log"
    by (auto simp: list_ex_iff conflicting_change_def)
  ultimately show ?thesis
    by (auto simp: validate_write_conflicts_def m write_conflict_def visit_conflicts)
qed

end

end
