(* ===== verification/Shard_Coherence.thy ===== *)
theory Shard_Coherence
  imports Shard_History
begin

text \<open>
  The invariant that ties the state machine in memory to its store: the applied index, the closed
  timestamp and the active intents are exactly what start-up would read back, and every other
  recorded transaction is terminal.
\<close>

section \<open>The invariant\<close>

definition closed_recorded :: "(string \<Rightarrow> replica_metadata option) \<Rightarrow> transaction_time option \<Rightarrow> bool" where
  "closed_recorded f closed = (case f closed_timestamp_metadata_name of
     None \<Rightarrow> closed = None
   | Some md \<Rightarrow> (\<exists>t. rm_value md = VInteger t \<and> 0 \<le> t \<and> closed = Some t))"

definition index_recorded ::
    "(byte list \<Rightarrow> digest32) \<Rightarrow> (string \<Rightarrow> replica_metadata option)
      \<Rightarrow> (transaction_id, participant_intent) bmap \<Rightarrow> bool" where
  "index_recorded blake3 f active = (case f active_transaction_intents_metadata_name of
     None \<Rightarrow> active = []
   | Some md \<Rightarrow> active_intents_metadata blake3 active = Inr md)"

definition intent_recorded ::
    "(byte list \<Rightarrow> digest32) \<Rightarrow> replica_binding \<Rightarrow> u64 \<Rightarrow> (string \<Rightarrow> replica_metadata option)
      \<Rightarrow> transaction_id \<Rightarrow> participant_intent \<Rightarrow> bool" where
  "intent_recorded blake3 b applied f tx i =
     (pi_transaction_id i = tx \<and> intent_wf i \<and> pi_shard_id i = rb_shard_id b \<and>
      pi_snapshot_applied_index i \<le> applied \<and>
      (\<exists>md. transaction_state_metadata blake3 i None = Inr md \<and>
        f (transaction_state_metadata_name tx) = Some md))"

definition terminal_recorded ::
    "(byte list \<Rightarrow> digest32) \<Rightarrow> transaction_id \<Rightarrow> replica_metadata \<Rightarrow> bool" where
  "terminal_recorded blake3 tx md =
     (\<exists>i t. pi_transaction_id i = tx \<and> intent_wf i \<and> transaction_wf t \<and>
        transaction_state_metadata blake3 i (Some t) = Inr md)"

definition coherent ::
    "(byte list \<Rightarrow> digest32) \<Rightarrow> replica_binding \<Rightarrow> u64 \<Rightarrow> (string \<Rightarrow> replica_metadata option)
      \<Rightarrow> transaction_time option \<Rightarrow> (transaction_id, participant_intent) bmap \<Rightarrow> bool" where
  "coherent blake3 b applied f closed active =
     (bm_ok active \<and> length active \<le> max_transaction_intent_items \<and>
      closed_recorded f closed \<and> index_recorded blake3 f active \<and>
      (\<forall>tx i. map_of active tx = Some i \<longrightarrow> intent_recorded blake3 b applied f tx i) \<and>
      (\<forall>tx md. map_of active tx = None \<longrightarrow> f (transaction_state_metadata_name tx) = Some md \<longrightarrow>
         terminal_recorded blake3 tx md))"

text \<open>The metadata the invariant speaks about.\<close>

definition tracked :: "string \<Rightarrow> bool" where
  "tracked n = (n = closed_timestamp_metadata_name \<or> n = active_transaction_intents_metadata_name \<or>
     (\<exists>tx. n = transaction_state_metadata_name tx))"

lemma tracked_simps [simp]:
  "tracked closed_timestamp_metadata_name" "tracked active_transaction_intents_metadata_name"
  "tracked (transaction_state_metadata_name tx)"
  "\<not> tracked (home_decision_name tx)" "\<not> tracked (receipt_name tx)"
  by (auto simp: tracked_def)

lemma tracked_reserved: "tracked n \<Longrightarrow> take 4 n = ''dtg.''"
  by (auto simp: tracked_def metadata_name_defs transaction_state_metadata_name_def)

lemma tracked_literals [simp]:
  "\<not> tracked ''dtg.raft_rejection''" "\<not> tracked ''dtg.raft_noop''" "\<not> tracked ''dtg.installed_snapshot''"
  "\<not> tracked ''dtg.migration_phase''" "\<not> tracked ''dtg.transaction_intent.v3''"
  by (auto simp: tracked_def metadata_name_defs transaction_state_metadata_name_def)

lemma coherent_cong:
  assumes "coherent blake3 b applied f closed active" and "\<And>n. tracked n \<Longrightarrow> g n = f n" and "applied \<le> applied'"
  shows "coherent blake3 b applied' g closed active"
  using assms
  by (auto simp: coherent_def closed_recorded_def index_recorded_def intent_recorded_def
      intro: order_trans split: option.splits)

lemma coherentD:
  assumes "coherent blake3 b applied f closed active"
  shows "bm_ok active" "length active \<le> max_transaction_intent_items" "closed_recorded f closed"
    "index_recorded blake3 f active"
    "map_of active tx = Some i \<Longrightarrow> intent_recorded blake3 b applied f tx i"
    "map_of active tx = None \<Longrightarrow> f (transaction_state_metadata_name tx) = Some md \<Longrightarrow> terminal_recorded blake3 tx md"
  using assms by (simp_all add: coherent_def)

text \<open>A machine on this store that start-up would rebuild from it.\<close>

definition machine_ok ::
    "(byte list \<Rightarrow> digest32) \<Rightarrow> 'w state_store \<Rightarrow> ('w \<Rightarrow> bool) \<Rightarrow> ('w \<Rightarrow> store_contents)
      \<Rightarrow> 'w shard_machine \<Rightarrow> 'w \<Rightarrow> bool" where
  "machine_ok blake3 store ok contents m w = (ok w \<and> sm_binding m = ss_binding store \<and> sm_state_store m = store \<and>
     sm_applied_index m = sc_applied (contents w) \<and>
     coherent blake3 (ss_binding store) (sc_applied (contents w)) (sc_meta (contents w))
       (sm_closed_timestamp m) (sm_active_intents m))"

section \<open>Starting up\<close>

context replica_store
begin

lemma metadata_call: "wf w \<Longrightarrow> store_call (ss_replica_metadata store n) w = (Inr (sc_meta (contents w) n), w)"
  by (simp add: store_call_def store_metadata)

lemma load_closed:
  "wf w \<Longrightarrow> closed_recorded (sc_meta (contents w)) closed \<Longrightarrow> load_closed_timestamp store w = (Inr closed, w)"
  by (auto simp: load_closed_timestamp_def eff_bind_app metadata_call closed_recorded_def
      split: option.splits)

lemma rebuild_entries_exact:
  assumes wf: "wf w" and ds: "intent_digests blake3 es ds"
    and rec: "\<forall>e \<in> set es. intent_recorded blake3 (ss_binding store) (sc_applied (contents w)) (sc_meta (contents w)) (fst e) (snd e)"
    and ok: "bm_ok (acc @ es)"
  shows "rebuild_entries blake3 (ss_binding store) store (sc_applied (contents w)) ds acc w = (Inr (acc @ es), w)"
  using ds rec ok
proof (induction es arbitrary: ds acc)
  case (Cons e es)
  obtain tx i where e: "e = (tx, i)" by (cases e)
  from Cons.prems(1) obtain d ds' where ds: "ds = (tx, d) # ds'" and dig: "intent_digest blake3 i = Inr d"
    and rest: "intent_digests blake3 es ds'"
    by (auto simp: intent_digests_def e list_all2_Cons1)
  from Cons.prems(2) e obtain md where i: "pi_transaction_id i = tx" "intent_wf i"
      "pi_shard_id i = rb_shard_id (ss_binding store)" "pi_snapshot_applied_index i \<le> sc_applied (contents w)"
    and md: "transaction_state_metadata blake3 i None = Inr md"
      "sc_meta (contents w) (transaction_state_metadata_name tx) = Some md"
    by (auto simp: intent_recorded_def)
  have "decode_transaction_state_metadata blake3 md = Inr \<lparr>dt_intent = i, dt_terminal = None\<rparr>"
    by (rule state_metadata_roundtrip [OF md(1) i(2)]) simp
  moreover have "bm_insert tx i acc = acc @ [(tx, i)]"
    using Cons.prems(3) e by (intro bm_insert_last) (auto simp: bm_ok_def sorted_wrt_append)
  moreover have "check_active_state blake3 (ss_binding store) (sc_applied (contents w)) tx d
      \<lparr>dt_intent = i, dt_terminal = None\<rparr> = Inr ()"
    using i dig by (auto simp: check_active_state_def Let_def)
  moreover have "rebuild_entries blake3 (ss_binding store) store (sc_applied (contents w)) ds' (acc @ [(tx, i)]) w =
      (Inr ((acc @ [(tx, i)]) @ es), w)"
    by (rule Cons.IH [OF rest]) (use Cons.prems e in auto)
  ultimately show ?case
    by (simp add: ds e eff_bind_app metadata_call [OF wf] md(2))
qed (simp add: intent_digests_def)

lemma coherent_rebuild:
  assumes wf: "wf w"
    and coh: "coherent blake3 (ss_binding store) (sc_applied (contents w)) (sc_meta (contents w)) closed active"
  shows "rebuild_active_intents blake3 (ss_binding store) store (sc_applied (contents w)) w = (Inr active, w)"
proof (cases "sc_meta (contents w) active_transaction_intents_metadata_name")
  case None
  with coh show ?thesis
    by (simp add: rebuild_active_intents_def eff_bind_app metadata_call [OF wf] coherent_def index_recorded_def)
next
  case (Some md)
  from coh have ok: "bm_ok active" by (simp add: coherent_def)
  have rec: "\<forall>e \<in> set active. intent_recorded blake3 (ss_binding store) (sc_applied (contents w)) (sc_meta (contents w)) (fst e) (snd e)"
    using coh ok by (auto simp: coherent_def)
  then have ids: "\<forall>e \<in> set active. ident128_ok (fst e)" by (auto simp: intent_recorded_def intent_wf_def)
  from coh Some have "active_intents_metadata blake3 active = Inr md" by (simp add: coherent_def index_recorded_def)
  from active_metadata_roundtrip [OF this ok ids] obtain ds
    where "decode_active_intents_metadata md = Inr ds" "intent_digests blake3 active ds" by blast
  with rebuild_entries_exact [OF wf _ rec, of ds "[]"] ok Some show ?thesis
    by (simp add: rebuild_active_intents_def eff_bind_app metadata_call [OF wf])
qed

lemma restart_exact:
  assumes "machine_ok blake3 store wf contents m w"
  shows "shard_machine_new blake3 (ss_binding store) store w =
    (Inr (m\<lparr>sm_migration_state_stores := []\<rparr>), w)"
proof -
  from assms have wf: "wf w" and m: "sm_binding m = ss_binding store" "sm_state_store m = store"
      "sm_applied_index m = sc_applied (contents w)"
    and coh: "coherent blake3 (ss_binding store) (sc_applied (contents w)) (sc_meta (contents w))
      (sm_closed_timestamp m) (sm_active_intents m)" by (auto simp: machine_ok_def)
  have "load_closed_timestamp store w = (Inr (sm_closed_timestamp m), w)"
    using load_closed [OF wf] coh by (simp add: coherent_def)
  with coherent_rebuild [OF wf coh] m show ?thesis
    by (cases m) (simp add: shard_machine_new_def eff_bind_app store_call_def store_applied [OF wf])
qed

section \<open>Applying a batch\<close>

lemma apply_batch_next:
  assumes wf: "wf w" and m: "sm_binding m = ss_binding store" "sm_state_store m = store"
    and idx: "sc_applied (contents w) \<noteq> - 1" "index = sc_applied (contents w) + 1" and len: "len_ok ms"
    and run: "apply_batch blake3 term index cid ms m w = (r, w')"
  shows "wf w' \<and> ((\<exists>e. r = Inl e) \<and> contents w' = contents w \<or>
    (\<exists>batch. cb_mutations batch = ms \<and> cb_raft_index batch = index \<and> r = Inr (apply_receipt_new batch False) \<and>
       contents w' = add_batch batch (contents w)))"
proof (cases "committed_shard_batch_new blake3 (ss_binding store) term index cid ms")
  case (Inl e)
  with run wf show ?thesis by (auto simp: apply_batch_def m)
next
  case (Inr batch)
  then have ok: "batch_ok blake3 (ss_binding store) batch" and b: "cb_mutations batch = ms" "cb_raft_index batch = index"
    using committed_shard_batch_validates [OF Inr] len
    by (auto simp: batch_ok_def committed_shard_batch_new_def split: if_splits)
  obtain r0 where r0: "ss_apply store batch w = (r0, w')" and r: "r = of_storage r0"
    using run Inr by (auto simp: apply_batch_def m store_call_def split: prod.splits)
  from store_apply_new [OF wf ok _ r0] idx b(2) show ?thesis
    using r b by auto
qed

end

section \<open>What the batches write\<close>

text \<open>A batch that leaves the tracked metadata alone keeps the invariant.\<close>

definition keeps_tracked :: "logical_mutation list \<Rightarrow> bool" where
  "keeps_tracked ms = (\<forall>md. PutReplicaMetadata md \<in> set ms \<longrightarrow> \<not> tracked (rm_name md))"

lemma metas_after_untracked: "keeps_tracked ms \<Longrightarrow> tracked n \<Longrightarrow> metas_after ms f n = f n"
  by (rule metas_after_other) (auto simp: keeps_tracked_def)

lemma keeps_tracked_simps [simp]:
  "keeps_tracked []" "keeps_tracked (PutTransaction t # ms) \<longleftrightarrow> keeps_tracked ms"
  "keeps_tracked (PutReplicaMetadata md # ms) \<longleftrightarrow> \<not> tracked (rm_name md) \<and> keeps_tracked ms"
  "keeps_tracked (ms @ ms') \<longleftrightarrow> keeps_tracked ms \<and> keeps_tracked ms'"
  by (auto simp: keeps_tracked_def)

lemma graph_keeps_tracked: "list_all graph_mutation ms \<Longrightarrow> keeps_tracked ms"
  by (auto simp: keeps_tracked_def list_all_iff graph_mutation_def is_put_metadata_def)

lemma validated_graph: "validate_intent_mutations ms = Inr u \<Longrightarrow> list_all graph_mutation ms"
  using dsafe_validate_intent [of ms] by simp

lemma unreserved_keeps_tracked: "validate_single_shard_mutations ms = Inr u \<Longrightarrow> keeps_tracked ms"
  by (fastforce simp: validate_single_shard_mutations_def keeps_tracked_def list_ex_iff
      writes_reserved_metadata_def dest: tracked_reserved split: if_splits)

lemma replica_metadata_new_Inr [result_simps]:
  "replica_metadata_new n v = Inr md \<longleftrightarrow> n \<noteq> [] \<and> md = \<lparr>rm_name = n, rm_value = v\<rparr>"
  by (auto simp: replica_metadata_new_def)

lemma command_keeps_tracked:
  assumes "command_mutations blake3 c = Inr ms" and "\<And>x. c \<noteq> AdvanceClosedTimestamp x"
  shows "keeps_tracked ms"
proof (cases c)
  case (CommitSingleShard x)
  with assms show ?thesis by (auto simp: result_simps intro: unreserved_keeps_tracked)
next
  case (CommitSingleShardTransaction x)
  with assms show ?thesis
    by (auto simp: result_simps cst_validate_def intro!: graph_keeps_tracked validated_graph)
next
  case (PrewriteIntent x)
  with assms show ?thesis by (auto simp: result_simps prewrite_mutations_def intent_metadata_def)
next
  case (FinalizeParticipant x)
  with assms obtain u where v: "finalize_validate blake3 x = Inr u"
    and ms: "ms = (case fp_intent x of Some i \<Rightarrow> pi_mutations i | None \<Rightarrow> []) @ [PutTransaction (fp_terminal x)]"
    by (auto simp: finalize_mutations_def result_simps)
  have "keeps_tracked (pi_mutations i)" if "fp_intent x = Some i" for i
    using v that
    by (auto simp: finalize_validate_def Let_def result_simps intent_encode_def
        intro!: graph_keeps_tracked validated_graph split: transaction_state.splits if_splits)
  with ms show ?thesis by (auto split: option.splits)
qed (use assms in \<open>auto simp: result_simps migration_metadata_def\<close>)

section \<open>Transitions\<close>

text \<open>What acceptance establishes about the transition it returns.\<close>

definition transition_ok ::
    "(byte list \<Rightarrow> digest32) \<Rightarrow> replica_binding \<Rightarrow> u64 \<Rightarrow> (string \<Rightarrow> replica_metadata option)
      \<Rightarrow> (transaction_id, participant_intent) bmap \<Rightarrow> shard_command \<Rightarrow> intent_transition \<Rightarrow> bool" where
  "transition_ok blake3 b applied f active command t = (case command of
     PrewriteIntent c \<Rightarrow> (let i = pw_intent c; tx = pi_transaction_id i in
       t = ReplayIntent \<and> map_of active tx = Some i \<or>
       t = PrepareIntent i \<and> map_of active tx = None \<and> length active < max_transaction_intent_items \<and>
       pi_shard_id i = rb_shard_id b \<and> pi_snapshot_applied_index i \<le> applied \<and>
       f (transaction_state_metadata_name tx) = None)
   | FinalizeParticipant c \<Rightarrow> (let tx = tr_id (fp_terminal c) in
       (\<exists>i. t = FinalizeIntent tx i \<and> map_of active tx = Some i \<and>
          validate_intent_terminal blake3 i (fp_terminal c) = Inr ()) \<or>
       t = ReplayIntent \<and> map_of active tx = None \<and> f (transaction_state_metadata_name tx) \<noteq> None)
   | AdvanceClosedTimestamp _ \<Rightarrow> t = NoTransition
   | _ \<Rightarrow> t = NoTransition \<or> t = ReplayIntent)"

text \<open>Recording a transaction state together with the index of active intents.\<close>

lemma intent_metadata_pair_Inr:
  "intent_metadata_pair blake3 i terminal active = Inr ex \<longleftrightarrow>
     (\<exists>smd amd. transaction_state_metadata blake3 i terminal = Inr smd \<and>
        active_intents_metadata blake3 active = Inr amd \<and>
        ex = [PutReplicaMetadata smd, PutReplicaMetadata amd])"
  by (auto simp: intent_metadata_pair_def result_simps)

lemma state_metadata_name:
  "transaction_state_metadata blake3 i terminal = Inr md \<Longrightarrow>
     rm_name md = transaction_state_metadata_name (pi_transaction_id i)"
  using state_metadata_shape by blast

lemma active_metadata_name:
  "active_intents_metadata blake3 active = Inr md \<Longrightarrow> rm_name md = active_transaction_intents_metadata_name"
  by (auto simp: active_intents_metadata_def result_simps split: if_splits)

lemma metas_after_pair:
  assumes keep: "keeps_tracked ms" and "transaction_state_metadata blake3 i terminal = Inr smd"
    and "active_intents_metadata blake3 active = Inr amd" and n: "tracked n"
  shows "metas_after (ms @ [PutReplicaMetadata smd, PutReplicaMetadata amd]) f n =
    (if n = active_transaction_intents_metadata_name then Some amd
     else if n = transaction_state_metadata_name (pi_transaction_id i) then Some smd else f n)"
  using metas_after_untracked [OF keep n, of f] state_metadata_name [OF assms(2)] active_metadata_name [OF assms(3)]
  by (simp add: meta_step_def)

lemma coherent_pair:
  assumes coh: "coherent blake3 b applied f closed active" and ap: "applied \<le> applied'"
    and keep: "keeps_tracked ms" and smd: "transaction_state_metadata blake3 i terminal = Inr smd"
    and amd: "active_intents_metadata blake3 active' = Inr amd" and ok: "bm_ok active'"
    and others: "\<And>tx. tx \<noteq> pi_transaction_id i \<Longrightarrow> map_of active' tx = map_of active tx"
    and here: "case map_of active' (pi_transaction_id i) of
        None \<Rightarrow> terminal_recorded blake3 (pi_transaction_id i) smd
      | Some j \<Rightarrow> j = i \<and> terminal = None \<and> intent_wf i \<and> pi_shard_id i = rb_shard_id b \<and>
          pi_snapshot_applied_index i \<le> applied'"
  shows "coherent blake3 b applied' (metas_after (ms @ [PutReplicaMetadata smd, PutReplicaMetadata amd]) f) closed active'"
proof -
  let ?f = "metas_after (ms @ [PutReplicaMetadata smd, PutReplicaMetadata amd]) f"
  note val = metas_after_pair [OF keep smd amd, of _ f]
  have len: "length active' \<le> max_transaction_intent_items"
    using amd by (auto simp: active_intents_metadata_def split: if_splits)
  have closed: "closed_recorded ?f closed"
    using coh val [of closed_timestamp_metadata_name] by (simp add: coherent_def closed_recorded_def)
  have index: "index_recorded blake3 ?f active'"
    using amd val [of active_transaction_intents_metadata_name] by (simp add: index_recorded_def)
  have rec: "intent_recorded blake3 b applied' ?f tx j" if "map_of active' tx = Some j" for tx j
  proof (cases "tx = pi_transaction_id i")
    case True
    with that here smd val [of "transaction_state_metadata_name tx"] show ?thesis
      by (auto simp: intent_recorded_def)
  next
    case False
    with that others have "map_of active tx = Some j" by simp
    with coh have "intent_recorded blake3 b applied f tx j" by (simp add: coherent_def)
    with False ap val [of "transaction_state_metadata_name tx"] show ?thesis
      by (auto simp: intent_recorded_def intro: order_trans)
  qed
  have finals: "terminal_recorded blake3 tx md"
    if "map_of active' tx = None" "?f (transaction_state_metadata_name tx) = Some md" for tx md
  proof (cases "tx = pi_transaction_id i")
    case True
    with that here val [of "transaction_state_metadata_name tx"] show ?thesis by auto
  next
    case False
    with that others val [of "transaction_state_metadata_name tx"] coh show ?thesis by (auto simp: coherent_def)
  qed
  from ok len closed index rec finals show ?thesis unfolding coherent_def by blast
qed

end
