(* ===== verification/Shard_Restart.thy ===== *)
theory Shard_Restart
  imports Shard_Coherence
begin

text \<open>
  Applying a committed command keeps the state machine in memory and its store in step, whether the
  command is accepted, replayed or rejected, and whether the store accepts the batch or fails.
\<close>

section \<open>Reads leave the world alone\<close>

lemma read_only_bind:
  assumes "snd (m w) = w" and "\<And>a. fst (m w) = Inr a \<Longrightarrow> snd (k a w) = w"
  shows "snd (eff_bind m k w) = w"
proof (cases "fst (m w)")
  case (Inl e)
  with assms(1) have "m w = (Inl e, w)" by (metis prod.collapse)
  then show ?thesis by simp
next
  case (Inr a)
  with assms(1) have "m w = (Inr a, w)" by (metis prod.collapse)
  with assms(2) Inr show ?thesis by simp
qed

lemma store_call_snd: "snd (store_call m w) = snd (m w)"
  by (simp add: store_call_def split: prod.splits)

lemma snd_eff_of [simp]: "snd (eff_of r w) = w" "snd (eff_err e w) = w" "snd (eff_ret a w) = w"
  by simp_all

definition pure_pages :: "'w read_view \<Rightarrow> bool" where
  "pure_pages v = (\<forall>q w. snd (rv_changes v q w) = w)"

lemma visit_pages_read_only: "pure_pages v \<Longrightarrow> snd (visit_pages v visit applied n after rs w) = w"
proof (induction n arbitrary: after rs)
  case (Suc n)
  then show ?case
    by (auto simp: pure_pages_def store_call_snd intro!: read_only_bind split: option.splits)
qed simp

lemma on_self_app: "on_self f (m, w) = (fst (f m w), (m, snd (f m w)))"
  by (simp add: on_self_def split: prod.splits)

lemma update_self_app [simp]: "update_self f (m, w) = (Inr (), (f m, w))"
  by (simp add: update_self_def)

context replica_store
begin

lemma for_each_change_read_only:
  assumes "wf w"
  shows "snd (for_each_change (ss_binding store) store (sc_applied (contents w)) after visit w) = w"
proof -
  from store_view [OF assms] obtain v where
    v: "ss_begin_read_view store (read_fence_new (ss_binding store) (sc_applied (contents w))) w = (Inr v, w)"
    and pages: "\<And>q w'. rv_changes v q w' = (Inr (changes_page (sc_log (contents w)) q), w')" by blast
  from pages have "pure_pages v" by (simp add: pure_pages_def)
  then show ?thesis
    by (simp add: for_each_change_def eff_bind_app store_call_def v visit_pages_read_only)
qed

definition placed :: "'w shard_machine \<Rightarrow> 'w \<Rightarrow> bool" where
  "placed m w = (wf w \<and> sm_binding m = ss_binding store \<and> sm_state_store m = store \<and>
     sm_applied_index m = sc_applied (contents w))"

lemma placed_simps:
  assumes "placed m w"
  shows "sm_binding m = ss_binding store" "sm_state_store m = store"
    "sm_applied_index m = sc_applied (contents w)" "wf w"
  using assms by (simp_all add: placed_def)

lemma conflicts_read_only: "placed m w \<Longrightarrow> snd (validate_write_conflicts m tx start snap cand w) = w"
  by (simp add: placed_def validate_write_conflicts_def for_each_change_read_only)

lemma metadata_read_only: "wf w \<Longrightarrow> snd (store_call (ss_replica_metadata store n) w) = w"
  by (simp add: metadata_call)

lemma durable_state_read_only:
  assumes "placed m w"
  shows "snd (durable_transaction_state blake3 m tx w) = w"
  by (auto simp: placed_simps [OF assms] durable_transaction_state_def metadata_read_only
      intro!: read_only_bind split: option.splits)

lemma acceptance_read_only:
  assumes "placed m w"
  shows "snd (validate_transaction_acceptance blake3 command m w) = w"
  by (auto simp: placed_simps [OF assms] durable_state_read_only [OF assms] conflicts_read_only [OF assms]
      metadata_read_only validate_transaction_acceptance_def single_shard_transaction_is_durable_def
      home_decision_is_durable_def accept_prewrite_def accept_finalize_def Let_def
      intro!: read_only_bind split: shard_command.splits option.splits)

lemma extra_read_only:
  assumes "placed m w"
  shows "snd (extra_mutations blake3 command t m w) = w"
  by (auto simp: durable_state_read_only [OF assms] extra_mutations_def Let_def intro!: read_only_bind
      split: shard_command.splits intent_transition.splits option.splits)

section \<open>Acceptance\<close>

lemma durable_state_value:
  "placed m w \<Longrightarrow> durable_transaction_state blake3 m tx w =
     (case sc_meta (contents w) (transaction_state_metadata_name tx) of
        None \<Rightarrow> Inr None
      | Some d \<Rightarrow> try_r (decode_transaction_state_metadata blake3 d) (\<lambda>s. Inr (Some s)), w)"
proof (cases "sc_meta (contents w) (transaction_state_metadata_name tx)")
  case (Some d)
  assume "placed m w"
  with Some show ?thesis
    by (cases "decode_transaction_state_metadata blake3 d")
      (simp_all add: placed_def durable_transaction_state_def eff_bind_app metadata_call)
qed (simp add: placed_def durable_transaction_state_def eff_bind_app metadata_call)

lemma accepted_transition:
  assumes pl: "placed m w" and val: "validate_command blake3 m command = Inr ()"
    and cut: "\<not> is_cutover m command"
    and len: "length (sm_active_intents m) \<le> max_transaction_intent_items"
    and acc: "validate_transaction_acceptance blake3 command m w = (Inr t, w')"
  shows "transition_ok blake3 (ss_binding store) (sc_applied (contents w)) (sc_meta (contents w))
    (sm_active_intents m) command t"
proof -
  have fence: "pi_shard_id i = rb_shard_id (ss_binding store)" if "command_intent command = Some i" for i
    using val that pl by (auto simp: validate_command_def Let_def placed_def split: if_splits)
  have snap: "s \<le> sc_applied (contents w)" if "command_snapshot_index command = Some s" for s
    using val that pl by (auto simp: validate_command_def Let_def placed_def split: if_splits)
  show ?thesis
  proof (cases command)
    case (PrewriteIntent c)
    with acc len durable_state_value [OF pl] fence [of "pw_intent c"] snap [of "pi_snapshot_applied_index (pw_intent c)"]
    show ?thesis
      by (auto simp: validate_transaction_acceptance_def accept_prewrite_def transition_ok_def Let_def
          command_intent_def command_snapshot_index_def result_simps corrupt_def
          split: option.splits if_splits)
  next
    case (FinalizeParticipant c)
    with acc durable_state_value [OF pl] show ?thesis
      by (auto simp: validate_transaction_acceptance_def accept_finalize_def transition_ok_def Let_def
          result_simps corrupt_def split: option.splits if_splits)
  qed (use acc in \<open>auto simp: validate_transaction_acceptance_def transition_ok_def result_simps
        split: if_splits\<close>)
qed

end

section \<open>Accepted commands\<close>

lemma prewrite_coherent:
  assumes coh: "coherent blake3 b applied f closed active" and ap: "applied \<le> applied'"
    and keep: "keeps_tracked ms" and wfc: "command_wf blake3 (PrewriteIntent c)"
    and tok: "transition_ok blake3 b applied f active (PrewriteIntent c) t"
    and ex: "intent_metadata_pair blake3 (pw_intent c) None (next_intents t active) = Inr ex"
  shows "coherent blake3 b applied' (metas_after (ms @ ex) f) closed (next_intents t active)"
proof -
  let ?i = "pw_intent c" and ?tx = "pi_transaction_id (pw_intent c)"
  from ex obtain smd amd where smd: "transaction_state_metadata blake3 ?i None = Inr smd"
    and amd: "active_intents_metadata blake3 (next_intents t active) = Inr amd"
    and ex': "ex = [PutReplicaMetadata smd, PutReplicaMetadata amd]" by (auto simp: intent_metadata_pair_Inr)
  from tok consider (replay) "t = ReplayIntent" "map_of active ?tx = Some ?i"
    | (prepare) "t = PrepareIntent ?i" "pi_shard_id ?i = rb_shard_id b" "pi_snapshot_applied_index ?i \<le> applied"
    by (auto simp: transition_ok_def Let_def)
  moreover have le: "x \<le> applied'" if "x \<le> applied" for x using that ap by (rule order_trans)
  ultimately have here: "map_of (next_intents t active) ?tx = Some ?i \<and> pi_shard_id ?i = rb_shard_id b \<and>
      pi_snapshot_applied_index ?i \<le> applied'"
  proof cases
    case replay
    with coherentD(5) [OF coh replay(2)] show ?thesis by (simp add: next_intents_def intent_recorded_def le)
  next
    case prepare
    then show ?thesis by (simp add: next_intents_def le)
  qed
  have others: "map_of (next_intents t active) tx = map_of active tx" if "tx \<noteq> ?tx" for tx
    using tok that by (auto simp: transition_ok_def Let_def next_intents_def)
  have "bm_ok (next_intents t active)"
    using coherentD(1) [OF coh] by (auto simp: next_intents_def split: intent_transition.splits)
  from coherent_pair [OF coh ap keep smd amd this others] here wfc show ?thesis by (simp add: ex')
qed

lemma finalize_coherent:
  assumes coh: "coherent blake3 b applied f closed active" and ap: "applied \<le> applied'"
    and keep: "keeps_tracked ms" and wfc: "command_wf blake3 (FinalizeParticipant c)"
    and i: "map_of active (tr_id (fp_terminal c)) = Some i"
    and ex: "intent_metadata_pair blake3 i (Some (fp_terminal c)) (bm_remove (tr_id (fp_terminal c)) active) = Inr ex"
  shows "coherent blake3 b applied' (metas_after (ms @ ex) f) closed (bm_remove (tr_id (fp_terminal c)) active)"
proof -
  let ?tx = "tr_id (fp_terminal c)"
  from ex obtain smd amd where smd: "transaction_state_metadata blake3 i (Some (fp_terminal c)) = Inr smd"
    and amd: "active_intents_metadata blake3 (bm_remove ?tx active) = Inr amd"
    and ex': "ex = [PutReplicaMetadata smd, PutReplicaMetadata amd]" by (auto simp: intent_metadata_pair_Inr)
  from coherentD(5) [OF coh i] have rec: "pi_transaction_id i = ?tx" "intent_wf i" by (simp_all add: intent_recorded_def)
  with wfc smd have "terminal_recorded blake3 ?tx smd" by (auto simp: terminal_recorded_def)
  with coherent_pair [OF coh ap keep smd amd, unfolded rec] coherentD(1) [OF coh] show ?thesis
    by (simp add: ex')
qed

lemma finalize_replay_coherent:
  assumes coh: "coherent blake3 b applied f closed active" and ap: "applied \<le> applied'"
    and keep: "keeps_tracked ms"
    and none: "map_of active tx = None" and md: "f (transaction_state_metadata_name tx) = Some md"
    and s: "decode_transaction_state_metadata blake3 md = Inr s"
    and ex: "intent_metadata_pair blake3 (dt_intent s) (dt_terminal s) active = Inr ex"
  shows "coherent blake3 b applied' (metas_after (ms @ ex) f) closed active"
proof -
  have "terminal_recorded blake3 tx md" by (rule coherentD(6) [OF coh none md])
  then obtain i t where i: "pi_transaction_id i = tx" "intent_wf i" "transaction_wf t"
    and md': "transaction_state_metadata blake3 i (Some t) = Inr md" by (auto simp: terminal_recorded_def)
  from state_metadata_roundtrip [OF md' i(2)] i(3) s have s': "s = \<lparr>dt_intent = i, dt_terminal = Some t\<rparr>" by simp
  with ex md' obtain amd where amd: "active_intents_metadata blake3 active = Inr amd"
    and ex': "ex = [PutReplicaMetadata md, PutReplicaMetadata amd]" by (auto simp: intent_metadata_pair_Inr)
  from coherentD(1) [OF coh] have "bm_ok active" .
  from coherent_pair [OF coh ap keep md' amd this refl] none i \<open>terminal_recorded blake3 tx md\<close> show ?thesis
    by (simp add: ex')
qed

lemma advance_coherent:
  assumes coh: "coherent blake3 b applied f closed active" and ap: "applied \<le> applied'" and t: "0 \<le> t"
  shows "coherent blake3 b applied'
    (metas_after [PutReplicaMetadata \<lparr>rm_name = closed_timestamp_metadata_name, rm_value = VInteger t\<rparr>] f) (Some t) active"
  using coh ap t
  by (auto simp: coherent_def meta_step_def closed_recorded_def index_recorded_def intent_recorded_def
      intro: order_trans split: option.splits)

definition command_fits :: "shard_command \<Rightarrow> bool" where
  "command_fits c = (case c of CommitSingleShard x \<Rightarrow> len_ok (css_mutations x) | _ \<Rightarrow> True)"

definition closed_after :: "shard_command \<Rightarrow> transaction_time option \<Rightarrow> transaction_time option" where
  "closed_after command closed = (case command of
     AdvanceClosedTimestamp c \<Rightarrow> Some (ac_closed_timestamp c) | _ \<Rightarrow> closed)"

lemma accept_receipt_simps:
  "sm_binding (accept_receipt command t r m) = sm_binding m"
  "sm_state_store (accept_receipt command t r m) = sm_state_store m"
  "sm_applied_index (accept_receipt command t r m) = max (sm_applied_index m) (ar_raft_index r)"
  "sm_closed_timestamp (accept_receipt command t r m) = closed_after command (sm_closed_timestamp m)"
  "sm_active_intents (accept_receipt command t r m) =
     (if ar_replayed r then sm_active_intents m else next_intents t (sm_active_intents m))"
  "sm_migration_state_stores (accept_receipt command t r m) = sm_migration_state_stores m"
  by (auto simp: accept_receipt_def advance_applied_def closed_after_def Let_def split: shard_command.splits)

context replica_store
begin

lemma extra_finalize_replay:
  assumes "placed m w" and "sc_meta (contents w) (transaction_state_metadata_name (tr_id (fp_terminal c))) = Some md"
  shows "fst (extra_mutations blake3 (FinalizeParticipant c) ReplayIntent m w) =
    try_r (decode_transaction_state_metadata blake3 md) (\<lambda>s.
      intent_metadata_pair blake3 (dt_intent s) (dt_terminal s) (sm_active_intents m))"
  using assms(2)
  by (cases "decode_transaction_state_metadata blake3 md")
    (simp_all add: extra_mutations_def Let_def eff_bind_app durable_state_value [OF assms(1)] next_intents_def)

lemma accepted_coherent:
  assumes pl: "placed m w" and ap: "sc_applied (contents w) \<le> applied'"
    and coh: "coherent blake3 (ss_binding store) (sc_applied (contents w)) (sc_meta (contents w))
      (sm_closed_timestamp m) (sm_active_intents m)"
    and wfc: "command_wf blake3 command"
    and tok: "transition_ok blake3 (ss_binding store) (sc_applied (contents w)) (sc_meta (contents w))
      (sm_active_intents m) command t"
    and ms: "(if logical \<and> t = ReplayIntent then Inr [] else command_mutations blake3 command) = Inr ms"
    and ex: "fst (extra_mutations blake3 command t m w) = Inr ex"
  shows "coherent blake3 (ss_binding store) applied' (metas_after (ms @ ex) (sc_meta (contents w)))
    (closed_after command (sm_closed_timestamp m)) (next_intents t (sm_active_intents m))"
proof -
  have keep: "keeps_tracked ms" if "\<And>x. command \<noteq> AdvanceClosedTimestamp x"
    using ms command_keeps_tracked [OF _ that] by (auto split: if_splits)
  have easy: ?thesis if "\<And>x. command \<noteq> AdvanceClosedTimestamp x" "keeps_tracked ex"
    "next_intents t (sm_active_intents m) = sm_active_intents m"
    using coherent_cong [OF coh _ ap] metas_after_untracked [of "ms @ ex"] keep [OF that(1)] that
    by (simp add: closed_after_def split: shard_command.splits)
  show ?thesis
  proof (cases command)
    case (PrewriteIntent c)
    with tok ex have "intent_metadata_pair blake3 (pw_intent c) None (next_intents t (sm_active_intents m)) = Inr ex"
      by (auto simp: transition_ok_def extra_mutations_def Let_def)
    from prewrite_coherent [OF coh ap keep _ _ this] wfc tok PrewriteIntent show ?thesis
      by (simp add: closed_after_def)
  next
    case (FinalizeParticipant c)
    show ?thesis
    proof (cases "t = ReplayIntent")
      case True
      with tok FinalizeParticipant obtain md where none: "map_of (sm_active_intents m) (tr_id (fp_terminal c)) = None"
        and md: "sc_meta (contents w) (transaction_state_metadata_name (tr_id (fp_terminal c))) = Some md"
        by (auto simp: transition_ok_def Let_def)
      from ex True FinalizeParticipant md obtain s where s: "decode_transaction_state_metadata blake3 md = Inr s"
        and p: "intent_metadata_pair blake3 (dt_intent s) (dt_terminal s) (sm_active_intents m) = Inr ex"
        by (auto simp: extra_finalize_replay [OF pl] result_simps)
      from finalize_replay_coherent [OF coh ap keep none md s p] True FinalizeParticipant show ?thesis
        by (simp add: closed_after_def next_intents_def)
    next
      case False
      with tok FinalizeParticipant obtain i where t: "t = FinalizeIntent (tr_id (fp_terminal c)) i"
        and i: "map_of (sm_active_intents m) (tr_id (fp_terminal c)) = Some i"
        by (auto simp: transition_ok_def Let_def)
      from ex t FinalizeParticipant
      have "intent_metadata_pair blake3 i (Some (fp_terminal c)) (bm_remove (tr_id (fp_terminal c)) (sm_active_intents m)) = Inr ex"
        by (simp add: extra_mutations_def Let_def next_intents_def)
      from finalize_coherent [OF coh ap keep _ i this] wfc t FinalizeParticipant show ?thesis
        by (simp add: closed_after_def next_intents_def)
    qed
  next
    case (AdvanceClosedTimestamp c)
    with tok ms ex wfc have "t = NoTransition" "ex = []" "0 \<le> ac_closed_timestamp c"
      "ms = [PutReplicaMetadata \<lparr>rm_name = closed_timestamp_metadata_name, rm_value = VInteger (ac_closed_timestamp c)\<rparr>]"
      by (auto simp: transition_ok_def extra_mutations_def time_ok_def result_simps)
    with advance_coherent [OF coh ap, of "ac_closed_timestamp c"] AdvanceClosedTimestamp show ?thesis
      by (simp add: closed_after_def next_intents_def del: metas_after_simps)
  next
    case (RecordHomeDecision c)
    with ex have "keeps_tracked ex"
      by (auto simp: extra_mutations_def result_simps home_decision_metadata_def
          home_decision_name_def [symmetric])
    with RecordHomeDecision tok show ?thesis
      by (intro easy) (auto simp: transition_ok_def next_intents_def)
  next
    case (CommitSingleShardTransaction c)
    with ex have "keeps_tracked ex"
      by (auto simp: extra_mutations_def result_simps single_shard_transaction_metadata_def
          receipt_name_def [symmetric])
    with CommitSingleShardTransaction tok show ?thesis
      by (intro easy) (auto simp: transition_ok_def next_intents_def)
  qed (use ex tok in \<open>intro easy; auto simp: extra_mutations_def transition_ok_def next_intents_def\<close>)+
qed

section \<open>The step\<close>

text \<open>The next index of the log, and a vector that fits its length word.\<close>

definition next_index :: "u64 \<Rightarrow> 'w \<Rightarrow> bool" where
  "next_index index w = (sc_applied (contents w) \<noteq> - 1 \<and> index = sc_applied (contents w) + 1)"

lemma next_index_le: "next_index index w \<Longrightarrow> sc_applied (contents w) \<le> index"
  unfolding next_index_def using word_succ_less order_less_imp_le by blast

lemma machine_ok_placed: "machine_ok blake3 store wf contents m w \<Longrightarrow> placed m w"
  by (simp add: machine_ok_def placed_def)

text \<open>A batch either fails and leaves the contents, or is added with the machine moved along.\<close>

lemma batch_step:
  assumes ok: "machine_ok blake3 store wf contents m w" and idx: "next_index index w" and len: "len_ok ms"
    and run: "apply_batch blake3 term index cid ms m w = (r, w')"
    and coh: "\<And>rc. r = Inr rc \<Longrightarrow> \<not> ar_replayed rc \<Longrightarrow> ar_raft_index rc = index \<Longrightarrow>
      sm_binding (f rc) = ss_binding store \<and> sm_state_store (f rc) = store \<and> sm_applied_index (f rc) = index \<and>
      coherent blake3 (ss_binding store) index (metas_after ms (sc_meta (contents w)))
        (sm_closed_timestamp (f rc)) (sm_active_intents (f rc))"
  shows "machine_ok blake3 store wf contents (case r of Inl e \<Rightarrow> m | Inr rc \<Rightarrow> f rc) w'"
proof -
  from ok have m: "sm_binding m = ss_binding store" "sm_state_store m = store" "wf w" by (simp_all add: machine_ok_def)
  from apply_batch_next [OF m(3,1,2) _ _ len run] idx have wf': "wf w'"
    and cases: "(\<exists>e. r = Inl e) \<and> contents w' = contents w \<or>
      (\<exists>batch. cb_mutations batch = ms \<and> cb_raft_index batch = index \<and> r = Inr (apply_receipt_new batch False) \<and>
       contents w' = add_batch batch (contents w))" by (auto simp: next_index_def)
  from cases show ?thesis
  proof (elim disjE exE conjE)
    fix e assume "r = Inl e" "contents w' = contents w"
    with ok wf' show ?thesis by (simp add: machine_ok_def)
  next
    fix batch assume b: "cb_mutations batch = ms" "cb_raft_index batch = index"
      "r = Inr (apply_receipt_new batch False)" "contents w' = add_batch batch (contents w)"
    from coh [OF b(3)] b have "sm_binding (f (apply_receipt_new batch False)) = ss_binding store \<and>
        sm_state_store (f (apply_receipt_new batch False)) = store \<and>
        sm_applied_index (f (apply_receipt_new batch False)) = index \<and>
        coherent blake3 (ss_binding store) index (metas_after ms (sc_meta (contents w)))
          (sm_closed_timestamp (f (apply_receipt_new batch False))) (sm_active_intents (f (apply_receipt_new batch False)))"
      by (simp add: apply_receipt_new_def)
    with b wf' show ?thesis by (simp add: machine_ok_def)
  qed
qed

lemma advance_applied_simps:
  "sm_binding (advance_applied r m) = sm_binding m" "sm_state_store (advance_applied r m) = sm_state_store m"
  "sm_applied_index (advance_applied r m) = max (sm_applied_index m) (ar_raft_index r)"
  "sm_closed_timestamp (advance_applied r m) = sm_closed_timestamp m"
  "sm_active_intents (advance_applied r m) = sm_active_intents m"
  "sm_migration_state_stores (advance_applied r m) = sm_migration_state_stores m"
  by (simp_all add: advance_applied_def)

text \<open>A batch of untracked metadata, as rejections and empty Raft entries write.\<close>

lemma untracked_step:
  assumes ok: "machine_ok blake3 store wf contents m w" and idx: "next_index index w" and len: "len_ok ms"
    and keep: "keeps_tracked ms" and run: "apply_batch blake3 term index cid ms m w = (r, w')"
  shows "machine_ok blake3 store wf contents (case r of Inl e \<Rightarrow> m | Inr rc \<Rightarrow> advance_applied rc m) w'"
proof (rule batch_step [OF ok idx len run])
  fix rc :: apply_receipt assume "ar_raft_index rc = index"
  moreover have "coherent blake3 (ss_binding store) index (metas_after ms (sc_meta (contents w)))
      (sm_closed_timestamp m) (sm_active_intents m)"
    by (rule coherent_cong [where f = "sc_meta (contents w)" and applied = "sc_applied (contents w)"])
      (use ok next_index_le [OF idx] in \<open>simp_all add: machine_ok_def metas_after_untracked [OF keep]\<close>)
  ultimately show "sm_binding (advance_applied rc m) = ss_binding store \<and>
      sm_state_store (advance_applied rc m) = store \<and> sm_applied_index (advance_applied rc m) = index \<and>
      coherent blake3 (ss_binding store) index (metas_after ms (sc_meta (contents w)))
        (sm_closed_timestamp (advance_applied rc m)) (sm_active_intents (advance_applied rc m))"
    using ok next_index_le [OF idx] by (simp add: machine_ok_def advance_applied_simps max_def)
qed

lemma apply_rejected_ok:
  assumes ok: "machine_ok blake3 store wf contents m w" and idx: "next_index index w"
    and run: "apply_rejected blake3 term index cid rejection (m, w) = (r, (m', w'))"
  shows "machine_ok blake3 store wf contents m' w'"
proof -
  obtain md where md: "rejection_metadata cid rejection = Inr md" and name: "rm_name md = ''dtg.raft_rejection''"
    by (auto simp: rejection_metadata_def replica_metadata_new_def)
  obtain r0 w1 where b: "apply_batch blake3 term index cid [PutReplicaMetadata md] m w = (r0, w1)" by fastforce
  have "machine_ok blake3 store wf contents (case r0 of Inl e \<Rightarrow> m | Inr rc \<Rightarrow> advance_applied rc m) w1"
    by (rule untracked_step [OF ok idx _ _ b]) (simp_all add: len_ok_def name)
  with run md b show ?thesis
    by (cases r0) (auto simp: apply_rejected_def eff_bind_app on_self_app)
qed

lemma apply_raft_noop_ok:
  assumes ok: "machine_ok blake3 store wf contents m w" and idx: "next_index index w"
    and run: "apply_raft_noop blake3 term index (m, w) = (r, (m', w'))"
  shows "machine_ok blake3 store wf contents m' w'"
proof (cases "command_id_new (word_of_nat (unat term * 2 ^ 64 + unat index))")
  case (Inl e)
  with run ok show ?thesis by (simp add: apply_raft_noop_def)
next
  case (Inr cid)
  let ?ms = "[PutReplicaMetadata \<lparr>rm_name = ''dtg.raft_noop'', rm_value = VBytes (u64_be index)\<rparr>]"
  obtain r0 w1 where b: "apply_batch blake3 term index cid ?ms m w = (r0, w1)" by fastforce
  have "machine_ok blake3 store wf contents (case r0 of Inl e \<Rightarrow> m | Inr rc \<Rightarrow> advance_applied rc m) w1"
    by (rule untracked_step [OF ok idx _ _ b]) (simp_all add: len_ok_def)
  with run Inr b show ?thesis
    by (cases r0) (auto simp: apply_raft_noop_def eff_bind_app on_self_app replica_metadata_new_def)
qed

lemma reject_or_fail_ok:
  assumes ok: "machine_ok blake3 store wf contents m w" and idx: "next_index index w"
    and run: "reject_or_fail blake3 term index command e (m, w) = (r, (m', w'))"
  shows "machine_ok blake3 store wf contents m' w'"
proof (cases "committed_rejection e")
  case None
  with run ok show ?thesis by (simp add: reject_or_fail_def)
next
  case (Some rej)
  with run apply_rejected_ok [OF ok idx] show ?thesis by (simp add: reject_or_fail_def)
qed

text \<open>The mutations of a command with its metadata fit a vector.\<close>

lemma intent_items: "validate_intent_mutations ms = Inr u \<Longrightarrow> length ms \<le> 4096"
  by (auto simp: validate_intent_mutations_def max_transaction_intent_items_def split: if_splits)

lemma command_mutations_length:
  assumes "command_mutations blake3 c = Inr ms" and "\<And>x. c \<noteq> CommitSingleShard x"
  shows "length ms \<le> 4097"
proof (cases c)
  case (CommitSingleShardTransaction x)
  with assms show ?thesis by (auto simp: result_simps cst_validate_def dest!: intent_items)
next
  case (FinalizeParticipant x)
  have "length (pi_mutations i) \<le> 4096" if "fp_intent x = Some i" "finalize_validate blake3 x = Inr u" for i u
    using that by (auto simp: finalize_validate_def Let_def result_simps intent_encode_def
        dest!: intent_items split: transaction_state.splits if_splits)
  with FinalizeParticipant assms show ?thesis
    by (auto simp: finalize_mutations_def result_simps split: option.splits)
qed (use assms in \<open>auto simp: result_simps prewrite_mutations_def\<close>)

lemma extra_length: "fst (extra_mutations blake3 c t m w) = Inr ex \<Longrightarrow> length ex \<le> 2"
  by (cases c; cases t)
    (auto simp: extra_mutations_def Let_def result_simps intent_metadata_pair_Inr eff_bind_app corrupt_def
      split: prod.splits sum.splits option.splits)

lemma extra_commit: "extra_mutations blake3 (CommitSingleShard x) t m w = (Inr [], w)"
  by (simp add: extra_mutations_def)

lemma batch_fits:
  assumes "command_fits c" and "(if l then Inr [] else command_mutations blake3 c) = Inr ms"
    and "fst (extra_mutations blake3 c t m w) = Inr ex"
  shows "len_ok (ms @ ex)"
proof (cases "\<exists>x. c = CommitSingleShard x")
  case True
  with assms show ?thesis
    by (auto simp: command_fits_def extra_commit result_simps len_ok_def split: if_splits)
next
  case False
  then have "length ms \<le> 4097" using assms(2) command_mutations_length [of c ms] by (auto split: if_splits)
  with extra_length [OF assms(3)] show ?thesis by (simp add: len_ok_def)
qed

lemma apply_accepted_ok:
  assumes ok: "machine_ok blake3 store wf contents m w" and idx: "next_index index w"
    and wfc: "command_wf blake3 command" and fits: "command_fits command"
    and tok: "transition_ok blake3 (ss_binding store) (sc_applied (contents w)) (sc_meta (contents w))
      (sm_active_intents m) command t"
    and run: "apply_accepted blake3 term index command t (m, w) = (r, (m', w'))"
  shows "machine_ok blake3 store wf contents m' w'"
proof -
  have pl: "placed m w" by (rule machine_ok_placed [OF ok])
  let ?l = "sm_applied_index m < index \<and> t = ReplayIntent"
  show ?thesis
  proof (cases "if ?l then Inr [] else command_mutations blake3 command")
    case (Inl e)
    with run ok show ?thesis by (simp add: apply_accepted_def eff_bind_app on_self_app split: if_splits)
  next
    case (Inr ms)
    obtain x where x: "extra_mutations blake3 command t m w = (x, w)"
      using extra_read_only [OF pl, of command t] by (metis prod.collapse)
    show ?thesis
    proof (cases x)
      case (Inl e)
      with run ok Inr x show ?thesis by (simp add: apply_accepted_def eff_bind_app on_self_app split: if_splits)
    next
      case ex: (Inr ex)
      obtain r0 w1 where b: "apply_batch blake3 term index (ch_command_id (command_header_of command)) (ms @ ex) m w = (r0, w1)"
        by fastforce
      have "machine_ok blake3 store wf contents (case r0 of Inl e \<Rightarrow> m | Inr rc \<Rightarrow> accept_receipt command t rc m) w1"
      proof (rule batch_step [OF ok idx batch_fits [OF fits Inr, of t m w] b])
        show "fst (extra_mutations blake3 command t m w) = Inr ex" by (simp add: x ex)
        fix rc :: apply_receipt assume rc: "\<not> ar_replayed rc" "ar_raft_index rc = index"
        have "coherent blake3 (ss_binding store) index (metas_after (ms @ ex) (sc_meta (contents w)))
            (closed_after command (sm_closed_timestamp m)) (next_intents t (sm_active_intents m))"
          by (rule accepted_coherent [OF pl next_index_le [OF idx] _ wfc tok Inr])
            (use ok x ex in \<open>simp_all add: machine_ok_def\<close>)
        with rc ok next_index_le [OF idx] show "sm_binding (accept_receipt command t rc m) = ss_binding store \<and>
            sm_state_store (accept_receipt command t rc m) = store \<and>
            sm_applied_index (accept_receipt command t rc m) = index \<and>
            coherent blake3 (ss_binding store) index (metas_after (ms @ ex) (sc_meta (contents w)))
              (sm_closed_timestamp (accept_receipt command t rc m)) (sm_active_intents (accept_receipt command t rc m))"
          by (simp add: accept_receipt_simps machine_ok_def max_def)
      qed
      with run Inr x ex b show ?thesis
        by (cases r0) (auto simp: apply_accepted_def eff_bind_app on_self_app split: if_splits)
    qed
  qed
qed

lemma apply_committed_ok:
  assumes ok: "machine_ok blake3 store wf contents m w" and idx: "next_index index w"
    and wfc: "command_wf blake3 command" and fits: "command_fits command" and cut: "\<not> is_cutover m command"
    and run: "apply_committed blake3 term index command (m, w) = (r, (m', w'))"
  shows "machine_ok blake3 store wf contents m' w'"
proof (cases "validate_command blake3 m command")
  case (Inl e)
  with run reject_or_fail_ok [OF ok idx] show ?thesis by (simp add: apply_committed_def)
next
  case (Inr u)
  have pl: "placed m w" by (rule machine_ok_placed [OF ok])
  have "\<not> index < sm_applied_index m" using next_index_le [OF idx] placed_simps(3) [OF pl] by simp
  with run Inr cut have step: "eff_match (on_self (validate_transaction_acceptance blake3 command)) (\<lambda>r. case r of
            Inl e \<Rightarrow> reject_or_fail blake3 term index command e
          | Inr t \<Rightarrow> apply_accepted blake3 term index command t) (m, w) = (r, (m', w'))"
    by (simp add: apply_committed_def)
  obtain a where a: "validate_transaction_acceptance blake3 command m w = (a, w)"
    using acceptance_read_only [OF pl] by (metis prod.collapse)
  show ?thesis
  proof (cases a)
    case (Inl e)
    with step a reject_or_fail_ok [OF ok idx] show ?thesis by (simp add: on_self_app)
  next
    case t: (Inr t)
    have "transition_ok blake3 (ss_binding store) (sc_applied (contents w)) (sc_meta (contents w))
        (sm_active_intents m) command t"
      by (rule accepted_transition [OF pl _ cut]) (use Inr ok a t in \<open>auto simp: machine_ok_def coherent_def\<close>)
    from apply_accepted_ok [OF ok idx wfc fits this] step a t show ?thesis by (simp add: on_self_app)
  qed
qed

end

end
