(* ===== verification/Shard_Step.thy ===== *)
theory Shard_Step
  imports Shard_Restart
begin

text \<open>
  The effect of one committed command at the next index, case by case: nothing, a committed
  rejection, or the accepted batch; and what follows for decisions, receipts and conflicts.
\<close>

lemma apply_receipt_new_simps [simp]:
  "ar_replayed (apply_receipt_new b x) = x" "ar_raft_index (apply_receipt_new b x) = cb_raft_index b"
  by (simp_all add: apply_receipt_new_def)

context replica_store
begin

lemma batch_cases:
  assumes pl: "placed m w" and idx: "next_index index w" and len: "len_ok ms"
    and run: "apply_batch blake3 term index cid ms m w = (r, w')"
  shows "wf w' \<and> ((\<exists>e. r = Inl e) \<and> contents w' = contents w \<or>
    (\<exists>batch. cb_mutations batch = ms \<and> cb_raft_index batch = index \<and> r = Inr (apply_receipt_new batch False) \<and>
       contents w' = add_batch batch (contents w)))"
  using apply_batch_next [OF placed_simps(4,1,2) [OF pl] _ _ len run] idx by (simp add: next_index_def)

definition step_failed :: "'w shard_machine \<Rightarrow> 'w \<Rightarrow> (shard_error, apply_outcome) result \<Rightarrow> 'w shard_machine \<Rightarrow> 'w \<Rightarrow> bool" where
  "step_failed m w r m' w' = ((\<exists>e. r = Inl e) \<and> m' = m \<and> contents w' = contents w)"

definition step_added ::
    "u64 \<Rightarrow> logical_mutation list \<Rightarrow> 'w \<Rightarrow> (apply_receipt \<Rightarrow> apply_outcome) \<Rightarrow> (shard_error, apply_outcome) result \<Rightarrow> 'w \<Rightarrow> bool" where
  "step_added index ms w out r w' = (\<exists>batch. cb_mutations batch = ms \<and> cb_raft_index batch = index \<and>
     contents w' = add_batch batch (contents w) \<and> r = Inr (out (apply_receipt_new batch False)))"

definition step_rejected ::
    "u64 \<Rightarrow> shard_command \<Rightarrow> 'w shard_machine \<Rightarrow> 'w \<Rightarrow> apply_rejection \<Rightarrow> (shard_error, apply_outcome) result
      \<Rightarrow> 'w shard_machine \<Rightarrow> 'w \<Rightarrow> bool" where
  "step_rejected index command m w rej r m' w' =
     (\<exists>md. rm_name md = ''dtg.raft_rejection'' \<and>
        step_added index [PutReplicaMetadata md] w (\<lambda>rc. outcome_of rc False (Some rej) (sm_binding m)) r w' \<and>
        m' = m\<lparr>sm_applied_index := index\<rparr>)"

definition step_accepted ::
    "u64 \<Rightarrow> shard_command \<Rightarrow> 'w shard_machine \<Rightarrow> 'w \<Rightarrow> intent_transition \<Rightarrow> (shard_error, apply_outcome) result
      \<Rightarrow> 'w shard_machine \<Rightarrow> 'w \<Rightarrow> bool" where
  "step_accepted index command m w t r m' w' =
     (\<exists>ms ex. (if t = ReplayIntent then Inr [] else command_mutations blake3 command) = Inr ms \<and>
        fst (extra_mutations blake3 command t m w) = Inr ex \<and>
        step_added index (ms @ ex) w (\<lambda>rc. outcome_of rc (t = ReplayIntent) None (sm_binding m)) r w' \<and>
        m' = m\<lparr>sm_applied_index := index, sm_closed_timestamp := closed_after command (sm_closed_timestamp m),
               sm_active_intents := next_intents t (sm_active_intents m)\<rparr>)"

lemma reject_or_fail_cases:
  assumes pl: "placed m w" and idx: "next_index index w"
    and run: "reject_or_fail blake3 term index command e (m, w) = (r, (m', w'))"
  shows "step_failed m w r m' w' \<or>
    (\<exists>rej. committed_rejection e = Some rej \<and> step_rejected index command m w rej r m' w')"
proof (cases "committed_rejection e")
  case None
  with run show ?thesis by (auto simp: reject_or_fail_def step_failed_def)
next
  case (Some rej)
  let ?cid = "ch_command_id (command_header_of command)"
  obtain md where md: "rejection_metadata ?cid rej = Inr md" and name: "rm_name md = ''dtg.raft_rejection''"
    by (auto simp: rejection_metadata_def replica_metadata_new_def)
  obtain r0 w1 where b: "apply_batch blake3 term index ?cid [PutReplicaMetadata md] m w = (r0, w1)" by fastforce
  have upd: "advance_applied rc m = m\<lparr>sm_applied_index := index\<rparr>" if "ar_raft_index rc = index" for rc
    using that next_index_le [OF idx] placed_simps(3) [OF pl] by (simp add: advance_applied_def max_def)
  from batch_cases [OF pl idx _ b] consider (err) e0 where "r0 = Inl e0" "contents w1 = contents w"
    | (add) batch where "cb_mutations batch = [PutReplicaMetadata md]" "cb_raft_index batch = index"
        "r0 = Inr (apply_receipt_new batch False)" "contents w1 = add_batch batch (contents w)"
    by (auto simp: len_ok_def)
  then show ?thesis
  proof cases
    case err
    with run Some md b show ?thesis
      by (auto simp: reject_or_fail_def apply_rejected_def eff_bind_app on_self_app step_failed_def)
  next
    case add
    have out: "r = Inr (outcome_of (apply_receipt_new batch False) False (Some rej) (sm_binding m)) \<and>
        m' = advance_applied (apply_receipt_new batch False) m \<and> w' = w1"
      using run Some md b add(3)
      by (auto simp: reject_or_fail_def apply_rejected_def eff_bind_app on_self_app advance_applied_simps)
    have "step_added index [PutReplicaMetadata md] w (\<lambda>rc. outcome_of rc False (Some rej) (sm_binding m)) r w'"
      unfolding step_added_def using add out by blast
    with out name upd [of "apply_receipt_new batch False"] add Some show ?thesis
      unfolding step_rejected_def by auto
  qed
qed

lemma accept_receipt_new:
  assumes "sm_applied_index m \<le> ar_raft_index rc" and "\<not> ar_replayed rc"
  shows "accept_receipt command t rc m = m\<lparr>sm_applied_index := ar_raft_index rc,
     sm_closed_timestamp := closed_after command (sm_closed_timestamp m),
     sm_active_intents := next_intents t (sm_active_intents m)\<rparr>"
  using assms by (auto simp: accept_receipt_def advance_applied_def closed_after_def Let_def max_def
      split: shard_command.splits)

lemma apply_accepted_cases:
  assumes pl: "placed m w" and idx: "next_index index w" and fits: "command_fits command"
    and run: "apply_accepted blake3 term index command t (m, w) = (r, (m', w'))"
  shows "step_failed m w r m' w' \<or> step_accepted index command m w t r m' w'"
proof -
  have less: "sm_applied_index m < index"
    using idx placed_simps(3) [OF pl] word_succ_less by (auto simp: next_index_def)
  let ?ms = "if t = ReplayIntent then Inr [] else command_mutations blake3 command"
  show ?thesis
  proof (cases ?ms)
    case (Inl e)
    with run less show ?thesis
      by (auto simp: apply_accepted_def eff_bind_app on_self_app step_failed_def split: if_splits)
  next
    case (Inr ms)
    obtain x where x: "extra_mutations blake3 command t m w = (x, w)"
      using extra_read_only [OF pl, of command t] by (metis prod.collapse)
    show ?thesis
    proof (cases x)
      case (Inl e)
      with run less Inr x show ?thesis
        by (auto simp: apply_accepted_def eff_bind_app on_self_app step_failed_def split: if_splits)
    next
      case ex: (Inr ex)
      have exf: "fst (extra_mutations blake3 command t m w) = Inr ex" by (simp add: x ex)
      obtain r0 w1 where b: "apply_batch blake3 term index (ch_command_id (command_header_of command)) (ms @ ex) m w = (r0, w1)"
        by fastforce
      from batch_cases [OF pl idx batch_fits [OF fits Inr exf] b]
      consider (err) e0 where "r0 = Inl e0" "contents w1 = contents w"
        | (add) batch where "cb_mutations batch = ms @ ex" "cb_raft_index batch = index"
            "r0 = Inr (apply_receipt_new batch False)" "contents w1 = add_batch batch (contents w)" by auto
      then show ?thesis
      proof cases
        case err
        with run less Inr x ex b show ?thesis
          by (auto simp: apply_accepted_def eff_bind_app on_self_app step_failed_def split: if_splits)
      next
        case add
        have upd: "accept_receipt command t (apply_receipt_new batch False) m =
            m\<lparr>sm_applied_index := index, sm_closed_timestamp := closed_after command (sm_closed_timestamp m),
               sm_active_intents := next_intents t (sm_active_intents m)\<rparr>"
          using accept_receipt_new [of m "apply_receipt_new batch False" command t] less add
          by (simp add: apply_receipt_new_def)
        have out: "r = Inr (outcome_of (apply_receipt_new batch False) (t = ReplayIntent) None (sm_binding m)) \<and>
            m' = accept_receipt command t (apply_receipt_new batch False) m \<and> w' = w1"
          using run less Inr x ex b add(3)
          by (auto simp: apply_accepted_def eff_bind_app on_self_app accept_receipt_simps apply_receipt_new_def
              split: if_splits)
        have "step_added index (ms @ ex) w (\<lambda>rc. outcome_of rc (t = ReplayIntent) None (sm_binding m)) r w'"
          unfolding step_added_def using add out by blast
        with out upd Inr exf show ?thesis unfolding step_accepted_def by simp
      qed
    qed
  qed
qed

theorem apply_committed_cases:
  assumes pl: "placed m w" and idx: "next_index index w" and fits: "command_fits command"
    and cut: "\<not> is_cutover m command"
    and run: "apply_committed blake3 term index command (m, w) = (r, (m', w'))"
  shows "step_failed m w r m' w' \<or>
    (\<exists>e rej. committed_rejection e = Some rej \<and> step_rejected index command m w rej r m' w' \<and>
       (validate_command blake3 m command = Inl e \<or>
        validate_command blake3 m command = Inr () \<and>
        validate_transaction_acceptance blake3 command m w = (Inl e, w))) \<or>
    (\<exists>t. validate_command blake3 m command = Inr () \<and>
       validate_transaction_acceptance blake3 command m w = (Inr t, w) \<and>
       step_accepted index command m w t r m' w')"
proof (cases "validate_command blake3 m command")
  case (Inl e)
  with run reject_or_fail_cases [OF pl idx] show ?thesis by (auto simp: apply_committed_def)
next
  case (Inr u)
  have "\<not> index < sm_applied_index m" using next_index_le [OF idx] placed_simps(3) [OF pl] by simp
  with run Inr cut have step: "eff_match (on_self (validate_transaction_acceptance blake3 command)) (\<lambda>r. case r of
            Inl e \<Rightarrow> reject_or_fail blake3 term index command e
          | Inr t \<Rightarrow> apply_accepted blake3 term index command t) (m, w) = (r, (m', w'))"
    by (simp add: apply_committed_def)
  obtain a where a: "validate_transaction_acceptance blake3 command m w = (a, w)"
    using acceptance_read_only [OF pl] by (metis prod.collapse)
  show ?thesis
  proof (cases a)
    case (Inl e)
    with step a have "reject_or_fail blake3 term index command e (m, w) = (r, (m', w'))" by (simp add: on_self_app)
    from reject_or_fail_cases [OF pl idx this] Inr a Inl show ?thesis by auto
  next
    case t: (Inr t)
    with step a have "apply_accepted blake3 term index command t (m, w) = (r, (m', w'))" by (simp add: on_self_app)
    from apply_accepted_cases [OF pl idx fits this] Inr a t show ?thesis by auto
  qed
qed

end

end
