(* ===== verification/Shard_Safety.thy ===== *)
theory Shard_Safety
  imports Shard_Step
begin

text \<open>
  What one committed command may do to durable decisions, and when it loses to another writer.
\<close>

section \<open>Settled metadata\<close>

text \<open>Home decisions, single-shard receipts, and the state of transactions that are not active.\<close>

definition settled :: "(transaction_id, participant_intent) bmap \<Rightarrow> string \<Rightarrow> bool" where
  "settled active n = (\<exists>tx. n = home_decision_name tx \<or> n = receipt_name tx \<or>
     n = transaction_state_metadata_name tx \<and> map_of active tx = None)"

definition decision_name :: "string \<Rightarrow> bool" where
  "decision_name n = (\<exists>tx. n = home_decision_name tx \<or> n = receipt_name tx)"

lemma settled_cases:
  assumes "settled active n"
  obtains "decision_name n" | tx where "n = transaction_state_metadata_name tx" "map_of active tx = None"
  using assms by (auto simp: settled_def decision_name_def)

lemma decision_name_reserved: "decision_name n \<Longrightarrow> take 4 n = ''dtg.''"
  by (auto simp: decision_name_def home_decision_name_def receipt_name_def metadata_name_defs)

lemma decision_name_simps [simp]:
  "\<not> decision_name closed_timestamp_metadata_name" "\<not> decision_name active_transaction_intents_metadata_name"
  "\<not> decision_name (transaction_state_metadata_name tx)"
  "decision_name (home_decision_name tx)" "decision_name (receipt_name tx)"
  by (auto simp: decision_name_def)

lemma decision_name_literals [simp]:
  "\<not> decision_name ''dtg.raft_rejection''" "\<not> decision_name ''dtg.raft_noop''"
  "\<not> decision_name ''dtg.installed_snapshot''" "\<not> decision_name ''dtg.migration_phase''"
  "\<not> decision_name ''dtg.transaction_intent.v3''"
  by (auto simp: decision_name_def home_decision_name_def receipt_name_def metadata_name_defs)

lemma settled_not_rejection: "settled active n \<Longrightarrow> n \<noteq> ''dtg.raft_rejection''"
  using decision_name_literals(1) tracked_literals(1) tracked_simps(3) by (elim settled_cases) metis+

definition keeps_decisions :: "logical_mutation list \<Rightarrow> bool" where
  "keeps_decisions ms = (\<forall>md. PutReplicaMetadata md \<in> set ms \<longrightarrow> \<not> decision_name (rm_name md))"

lemma keeps_decisions_simps [simp]:
  "keeps_decisions []" "keeps_decisions (PutTransaction t # ms) \<longleftrightarrow> keeps_decisions ms"
  "keeps_decisions (PutReplicaMetadata md # ms) \<longleftrightarrow> \<not> decision_name (rm_name md) \<and> keeps_decisions ms"
  "keeps_decisions (ms @ ms') \<longleftrightarrow> keeps_decisions ms \<and> keeps_decisions ms'"
  by (auto simp: keeps_decisions_def)

lemma metas_after_decision: "keeps_decisions ms \<Longrightarrow> decision_name n \<Longrightarrow> metas_after ms f n = f n"
  by (rule metas_after_other) (auto simp: keeps_decisions_def)

lemma graph_keeps_decisions: "list_all graph_mutation ms \<Longrightarrow> keeps_decisions ms"
  by (auto simp: keeps_decisions_def list_all_iff graph_mutation_def is_put_metadata_def)

lemma unreserved_keeps_decisions: "validate_single_shard_mutations ms = Inr u \<Longrightarrow> keeps_decisions ms"
  by (fastforce simp: validate_single_shard_mutations_def keeps_decisions_def list_ex_iff
      writes_reserved_metadata_def dest: decision_name_reserved split: if_splits)

lemma command_keeps_decisions:
  assumes "command_mutations blake3 c = Inr ms"
  shows "keeps_decisions ms"
proof (cases c)
  case (CommitSingleShard x)
  with assms show ?thesis by (auto simp: result_simps intro: unreserved_keeps_decisions)
next
  case (CommitSingleShardTransaction x)
  with assms show ?thesis
    by (auto simp: result_simps cst_validate_def intro!: graph_keeps_decisions validated_graph)
next
  case (PrewriteIntent x)
  with assms show ?thesis by (auto simp: result_simps prewrite_mutations_def intent_metadata_def)
next
  case (FinalizeParticipant x)
  with assms obtain u where v: "finalize_validate blake3 x = Inr u"
    and ms: "ms = (case fp_intent x of Some i \<Rightarrow> pi_mutations i | None \<Rightarrow> []) @ [PutTransaction (fp_terminal x)]"
    by (auto simp: finalize_mutations_def result_simps)
  have "keeps_decisions (pi_mutations i)" if "fp_intent x = Some i" for i
    using v that
    by (auto simp: finalize_validate_def Let_def result_simps intent_encode_def
        intro!: graph_keeps_decisions validated_graph split: transaction_state.splits if_splits)
  with ms show ?thesis by (auto split: option.splits)
qed (use assms in \<open>auto simp: result_simps migration_metadata_def\<close>)

section \<open>New writers\<close>

text \<open>The transaction, start time, snapshot index and mutations of a command that writes for the first
  time: a single-shard transaction without receipt, or a prewrite of an unknown transaction.\<close>

definition new_writer ::
    "(transaction_id, participant_intent) bmap \<Rightarrow> (string \<Rightarrow> replica_metadata option) \<Rightarrow> shard_command
      \<Rightarrow> (transaction_id \<times> transaction_time \<times> u64 \<times> logical_mutation list) option" where
  "new_writer active f command = (case command of
     CommitSingleShardTransaction c \<Rightarrow>
       if f (receipt_name (cst_transaction_id c)) = None
       then Some (cst_transaction_id c, cst_start_time c, cst_snapshot_applied_index c, cst_mutations c) else None
   | PrewriteIntent c \<Rightarrow> (let i = pw_intent c; tx = pi_transaction_id i in
       if map_of active tx = None \<and> length active < max_transaction_intent_items \<and>
          f (transaction_state_metadata_name tx) = None
       then Some (tx, pi_start_time i, pi_snapshot_applied_index i, pi_mutations i) else None)
   | _ \<Rightarrow> None)"

section \<open>Decisions and receipts\<close>

lemma receipt_metadata_name: "single_shard_transaction_metadata c = Inr md \<Longrightarrow> rm_name md = receipt_name (cst_transaction_id c)"
  by (auto simp: single_shard_transaction_metadata_def result_simps receipt_name_def)

lemma home_metadata_name:
  "home_decision_metadata blake3 c = Inr md \<Longrightarrow> \<exists>tx. rm_name md = home_decision_name tx"
  by (auto simp: home_decision_metadata_def result_simps home_decision_name_def)

context replica_store
begin

lemma receipt_acceptance:
  assumes pl: "placed m w" and md: "single_shard_transaction_metadata c = Inr md"
    and acc: "validate_transaction_acceptance blake3 (CommitSingleShardTransaction c) m w = (Inr t, w')"
  shows "sc_meta (contents w) (rm_name md) = None \<or> sc_meta (contents w) (rm_name md) = Some md"
  using acc md
  by (auto simp: validate_transaction_acceptance_def single_shard_transaction_is_durable_def result_simps
      metadata_call placed_simps [OF pl] corrupt_def split: option.splits if_splits)

lemma home_acceptance:
  assumes pl: "placed m w" and md: "home_decision_metadata blake3 c = Inr md"
    and acc: "validate_transaction_acceptance blake3 (RecordHomeDecision c) m w = (Inr t, w')"
  shows "sc_meta (contents w) (rm_name md) = None \<or> sc_meta (contents w) (rm_name md) = Some md"
  using acc md
  by (auto simp: validate_transaction_acceptance_def home_decision_is_durable_def result_simps
      metadata_call placed_simps [OF pl] split: option.splits if_splits)

lemma extra_keeps_decisions:
  assumes pl: "placed m w" and ex: "fst (extra_mutations blake3 command t m w) = Inr ex"
    and acc: "validate_transaction_acceptance blake3 command m w = (Inr t, w')"
    and n: "decision_name n" and some: "f n = Some md" and f: "f n = sc_meta (contents w) n"
  shows "metas_after ex f n = Some md"
proof -
  have wrote: "metas_after [PutReplicaMetadata d] f n = Some md"
    if "sc_meta (contents w) (rm_name d) = None \<or> sc_meta (contents w) (rm_name d) = Some d" for d
    using that some f by (auto simp: meta_step_def)
  have keep: "metas_after ex f n = Some md" if "keeps_decisions ex"
    using metas_after_decision [OF that n] some by simp
  have pair: "keeps_decisions x" if "intent_metadata_pair blake3 i z a = Inr x" for x i z a
    using that by (auto simp: intent_metadata_pair_Inr state_metadata_name active_metadata_name)
  show ?thesis
  proof (cases command)
    case (CommitSingleShardTransaction c)
    with ex obtain d where d: "single_shard_transaction_metadata c = Inr d" "ex = [PutReplicaMetadata d]"
      by (auto simp: extra_mutations_def result_simps)
    with wrote receipt_acceptance [OF pl d(1)] acc CommitSingleShardTransaction show ?thesis by blast
  next
    case (RecordHomeDecision c)
    with ex obtain d where d: "home_decision_metadata blake3 c = Inr d" "ex = [PutReplicaMetadata d]"
      by (auto simp: extra_mutations_def result_simps)
    with wrote home_acceptance [OF pl d(1)] acc RecordHomeDecision show ?thesis by blast
  next
    case (PrewriteIntent c)
    with ex show ?thesis
      by (intro keep) (auto simp: extra_mutations_def Let_def intro: pair split: intent_transition.splits)
  next
    case (FinalizeParticipant c)
    with ex show ?thesis
      by (intro keep) (auto simp: extra_mutations_def Let_def eff_bind_app corrupt_def intro: pair
          split: intent_transition.splits prod.splits sum.splits option.splits)
  qed (use ex some in \<open>auto simp: extra_mutations_def\<close>)
qed

lemma extra_keeps_state:
  assumes pl: "placed m w" and ex: "fst (extra_mutations blake3 command t m w) = Inr ex"
    and coh: "coherent blake3 b a (sc_meta (contents w)) closed (sm_active_intents m)"
    and tok: "transition_ok blake3 b a (sc_meta (contents w)) (sm_active_intents m) command t"
    and none: "map_of (sm_active_intents m) tx = None"
    and some: "f (transaction_state_metadata_name tx) = Some md"
    and f: "f (transaction_state_metadata_name tx) = sc_meta (contents w) (transaction_state_metadata_name tx)"
  shows "metas_after ex f (transaction_state_metadata_name tx) = Some md"
proof -
  let ?n = "transaction_state_metadata_name tx"
  have pair: "metas_after x f ?n = Some md"
    if p: "intent_metadata_pair blake3 i z act = Inr x"
      and i: "pi_transaction_id i = tx \<Longrightarrow> transaction_state_metadata blake3 i z = Inr md" for x i z act
  proof -
    from p obtain smd amd where q: "transaction_state_metadata blake3 i z = Inr smd"
      "active_intents_metadata blake3 act = Inr amd" "x = [PutReplicaMetadata smd, PutReplicaMetadata amd]"
      by (auto simp: intent_metadata_pair_Inr)
    with i some metas_after_pair [of "[]", OF _ q(1,2), of ?n f] show ?thesis by auto
  qed
  show ?thesis
  proof (cases command)
    case (PrewriteIntent c)
    with tok ex have p: "intent_metadata_pair blake3 (pw_intent c) None (next_intents t (sm_active_intents m)) = Inr ex"
      by (auto simp: transition_ok_def extra_mutations_def Let_def)
    from tok PrewriteIntent some f none have "pi_transaction_id (pw_intent c) \<noteq> tx"
      by (auto simp: transition_ok_def Let_def)
    with pair [OF p] show ?thesis by simp
  next
    case (FinalizeParticipant c)
    let ?tx = "tr_id (fp_terminal c)"
    show ?thesis
    proof (cases "t = ReplayIntent")
      case True
      with tok FinalizeParticipant obtain d where no: "map_of (sm_active_intents m) ?tx = None"
        and d: "sc_meta (contents w) (transaction_state_metadata_name ?tx) = Some d"
        by (auto simp: transition_ok_def Let_def)
      from coherentD(6) [OF coh no d] obtain i z where i: "pi_transaction_id i = ?tx" "intent_wf i" "transaction_wf z"
        and d': "transaction_state_metadata blake3 i (Some z) = Inr d" by (auto simp: terminal_recorded_def)
      from ex True FinalizeParticipant d obtain s where s: "decode_transaction_state_metadata blake3 d = Inr s"
        and p: "intent_metadata_pair blake3 (dt_intent s) (dt_terminal s) (sm_active_intents m) = Inr ex"
        by (auto simp: extra_finalize_replay [OF pl] result_simps)
      from state_metadata_roundtrip [OF d' i(2)] i(3) s have s': "s = \<lparr>dt_intent = i, dt_terminal = Some z\<rparr>" by simp
      show ?thesis by (rule pair [OF p]) (use s' i d d' some f in auto)
    next
      case False
      with tok FinalizeParticipant obtain i where t: "t = FinalizeIntent ?tx i"
        and i: "map_of (sm_active_intents m) ?tx = Some i" by (auto simp: transition_ok_def Let_def)
      with coherentD(5) [OF coh i] none have "pi_transaction_id i \<noteq> tx" by (auto simp: intent_recorded_def)
      moreover from ex t FinalizeParticipant
      have "intent_metadata_pair blake3 i (Some (fp_terminal c)) (bm_remove ?tx (sm_active_intents m)) = Inr ex"
        by (simp add: extra_mutations_def Let_def next_intents_def)
      ultimately show ?thesis using pair by blast
    qed
  next
    case (CommitSingleShardTransaction c)
    with ex obtain d where d: "single_shard_transaction_metadata c = Inr d" "ex = [PutReplicaMetadata d]"
      by (auto simp: extra_mutations_def result_simps)
    with some receipt_metadata_name [OF d(1)] show ?thesis by (simp add: meta_step_def)
  next
    case (RecordHomeDecision c)
    with ex obtain d where d: "home_decision_metadata blake3 c = Inr d" "ex = [PutReplicaMetadata d]"
      by (auto simp: extra_mutations_def result_simps)
    from home_metadata_name [OF d(1)] obtain ty where "rm_name d = home_decision_name ty" by blast
    with some d show ?thesis by (simp add: meta_step_def)
  qed (use ex some in \<open>auto simp: extra_mutations_def\<close>)
qed

lemma settled_kept:
  assumes ok: "machine_ok blake3 store wf contents m w" and idx: "next_index index w"
    and fits: "command_fits command" and cut: "\<not> is_cutover m command"
    and run: "apply_committed blake3 term index command (m, w) = (r, (m', w'))"
    and n: "settled (sm_active_intents m) n" and some: "sc_meta (contents w) n = Some md"
  shows "sc_meta (contents w') n = Some md"
proof -
  have pl: "placed m w" by (rule machine_ok_placed [OF ok])
  have coh: "coherent blake3 (ss_binding store) (sc_applied (contents w)) (sc_meta (contents w))
      (sm_closed_timestamp m) (sm_active_intents m)" using ok by (simp add: machine_ok_def)
  from apply_committed_cases [OF pl idx fits cut run]
  consider (failed) "step_failed m w r m' w'"
    | (rejected) rej where "step_rejected index command m w rej r m' w'"
    | (accepted) t where "validate_command blake3 m command = Inr ()"
        "validate_transaction_acceptance blake3 command m w = (Inr t, w)" "step_accepted index command m w t r m' w'"
    by blast
  then show ?thesis
  proof cases
    case failed
    with some show ?thesis by (simp add: step_failed_def)
  next
    case rejected
    moreover have "n \<noteq> ''dtg.raft_rejection''" using n by (rule settled_not_rejection)
    ultimately show ?thesis using some by (auto simp: step_rejected_def step_added_def meta_step_def)
  next
    case accepted
    note tok = accepted_transition [OF pl accepted(1) cut coherentD(2) [OF coh] accepted(2)]
    from accepted(3) obtain ms ex batch where ms: "(if t = ReplayIntent then Inr [] else command_mutations blake3 command) = Inr ms"
      and ex: "fst (extra_mutations blake3 command t m w) = Inr ex"
      and c: "sc_meta (contents w') = metas_after ex (metas_after ms (sc_meta (contents w)))"
      by (auto simp: step_accepted_def step_added_def)
    from n show ?thesis
    proof (cases rule: settled_cases)
      case 1
      have "keeps_decisions ms" using ms command_keeps_decisions by (auto split: if_splits)
      from metas_after_decision [OF this 1] extra_keeps_decisions [OF pl ex accepted(2) 1] some c show ?thesis by simp
    next
      case (2 tx)
      have "metas_after ms (sc_meta (contents w)) n = sc_meta (contents w) n"
      proof (cases "\<exists>x. command = AdvanceClosedTimestamp x")
        case True
        with ms tok 2 show ?thesis by (auto simp: transition_ok_def result_simps meta_step_def)
      next
        case False
        then have "keeps_tracked ms" using ms command_keeps_tracked [of blake3 command ms] by (auto split: if_splits)
        from metas_after_untracked [OF this] 2 show ?thesis by simp
      qed
      with extra_keeps_state [OF pl ex coh tok 2(2)] some c 2 show ?thesis by simp
    qed
  qed
qed

section \<open>Conflicting writers\<close>

lemma committed_metadata_exists:
  assumes "cst_validate c = Inr u"
  shows "\<exists>md. single_shard_transaction_metadata c = Inr md"
proof -
  from assms have g: "list_all graph_mutation (cst_mutations c)" and ne: "cst_mutations c \<noteq> []"
    by (auto simp: cst_validate_def result_simps validate_intent_mutations_def
        intro!: validated_graph split: if_splits)
  then obtain x xs where "cst_mutations c = x # xs" "graph_mutation x" by (cases "cst_mutations c") auto
  then show ?thesis
    by (cases x) (simp_all add: single_shard_transaction_metadata_def graph_mutation_time_def graph_mutation_def
        is_put_transaction_def is_put_metadata_def replica_metadata_new_def single_shard_transaction_metadata_name_def)
qed

lemma new_writer_acceptance:
  assumes pl: "placed m w" and val: "validate_command blake3 m command = Inr ()"
    and nw: "new_writer (sm_active_intents m) (sc_meta (contents w)) command = Some (tx, start, snap, ms)"
    and fit: "history_fits snap (sc_log (contents w))"
  shows "if write_conflict (sm_active_intents m) (sc_log (contents w)) tx start snap ms
    then validate_transaction_acceptance blake3 command m w = (Inl WriteConflictS, w)
    else \<exists>t. validate_transaction_acceptance blake3 command m w = (Inr t, w)"
proof -
  have snap: "snap \<le> sc_applied (contents w)"
    using val nw pl by (auto simp: validate_command_def Let_def placed_def command_snapshot_index_def new_writer_def
        split: if_splits shard_command.splits)
  note exact = write_conflicts_exact [OF placed_simps(4,2,1,3) [OF pl] snap fit, of tx start ms]
  show ?thesis
  proof (cases command)
    case (CommitSingleShardTransaction c)
    with val have "\<exists>u. cst_validate c = Inr u"
      by (auto simp: validate_command_def Let_def result_simps split: if_splits)
    then obtain md where md: "single_shard_transaction_metadata c = Inr md" using committed_metadata_exists by blast
    with nw CommitSingleShardTransaction receipt_metadata_name [OF md] have "sc_meta (contents w) (rm_name md) = None"
      by (simp add: new_writer_def split: if_splits)
    with md nw exact CommitSingleShardTransaction show ?thesis
      by (simp add: validate_transaction_acceptance_def single_shard_transaction_is_durable_def eff_bind_app
          metadata_call placed_simps [OF pl] new_writer_def split: if_splits)
  next
    case (PrewriteIntent c)
    with nw exact durable_state_value [OF pl, of tx] show ?thesis
      by (simp add: validate_transaction_acceptance_def accept_prewrite_def Let_def eff_bind_app new_writer_def
          split: if_splits)
  qed (use nw in \<open>simp_all add: new_writer_def\<close>)
qed

lemma conflict_outcome:
  assumes ok: "machine_ok blake3 store wf contents m w" and idx: "next_index index w"
    and fits: "command_fits command" and val: "validate_command blake3 m command = Inr ()"
    and nw: "new_writer (sm_active_intents m) (sc_meta (contents w)) command = Some (tx, start, snap, ms)"
    and fit: "history_fits snap (sc_log (contents w))"
    and run: "apply_committed blake3 term index command (m, w) = (Inr out, (m', w'))"
  shows "ao_rejection out = (if write_conflict (sm_active_intents m) (sc_log (contents w)) tx start snap ms
    then Some RejWriteConflict else None)"
proof -
  have pl: "placed m w" by (rule machine_ok_placed [OF ok])
  have cut: "\<not> is_cutover m command" using nw by (auto simp: is_cutover_def new_writer_def split: shard_command.splits)
  note acc = new_writer_acceptance [OF pl val nw fit]
  from apply_committed_cases [OF pl idx fits cut run] val
  consider e rej where "committed_rejection e = Some rej" "step_rejected index command m w rej (Inr out) m' w'"
      "validate_transaction_acceptance blake3 command m w = (Inl e, w)"
    | t where "validate_transaction_acceptance blake3 command m w = (Inr t, w)"
      "step_accepted index command m w t (Inr out) m' w'"
    by (auto simp: step_failed_def)
  then show ?thesis
  proof cases
    case 1
    with acc show ?thesis
      by (auto simp: step_rejected_def step_added_def outcome_of_def committed_rejection_def split: if_splits)
  next
    case 2
    with acc show ?thesis by (auto simp: step_accepted_def step_added_def outcome_of_def split: if_splits)
  qed
qed

section \<open>The closed timestamp\<close>

lemma closed_timestamp_step:
  assumes ok: "machine_ok blake3 store wf contents m w" and idx: "next_index index w"
    and fits: "command_fits command" and cut: "\<not> is_cutover m command"
    and run: "apply_committed blake3 term index command (m, w) = (r, (m', w'))"
  shows "(\<forall>t. sm_closed_timestamp m = Some t \<longrightarrow> (\<exists>t' \<ge> t. sm_closed_timestamp m' = Some t')) \<and>
    (sm_closed_timestamp m' \<noteq> sm_closed_timestamp m \<longrightarrow>
       (\<exists>t'. sm_closed_timestamp m' = Some t' \<and> \<not> closed_timestamp_fenced (sm_active_intents m') t'))"
proof -
  have pl: "placed m w" by (rule machine_ok_placed [OF ok])
  from apply_committed_cases [OF pl idx fits cut run]
  consider (failed) "step_failed m w r m' w'"
    | (rejected) rej where "step_rejected index command m w rej r m' w'"
    | (accepted) t where "validate_command blake3 m command = Inr ()"
        "validate_transaction_acceptance blake3 command m w = (Inr t, w)" "step_accepted index command m w t r m' w'"
    by blast
  then show ?thesis
  proof cases
    case failed
    then show ?thesis by (simp add: step_failed_def)
  next
    case rejected
    then show ?thesis by (auto simp: step_rejected_def)
  next
    case accepted
    then have m': "sm_closed_timestamp m' = closed_after command (sm_closed_timestamp m)"
      "sm_active_intents m' = next_intents t (sm_active_intents m)" by (auto simp: step_accepted_def)
    show ?thesis
    proof (cases "\<exists>c. command = AdvanceClosedTimestamp c")
      case True
      then obtain c where c: "command = AdvanceClosedTimestamp c" by blast
      with accepted(2) have "t = NoTransition" by (simp add: validate_transaction_acceptance_def)
      with accepted(1) m' c show ?thesis
        by (auto simp: validate_command_def validate_closed_timestamp_def Let_def closed_after_def next_intents_def
            not_less split: if_splits option.splits)
    next
      case False
      with m' show ?thesis by (simp add: closed_after_def split: shard_command.splits)
    qed
  qed
qed

section \<open>Entries that can never be applied\<close>

lemma late_prewrite_stuck:
  assumes ok: "machine_ok blake3 store wf contents m w"
    and idx: "sm_applied_index m \<le> index"
    and val: "validate_command blake3 m (PrewriteIntent c) = Inr ()"
    and none: "map_of (sm_active_intents m) (pi_transaction_id (pw_intent c)) = None"
    and room: "length (sm_active_intents m) < max_transaction_intent_items"
    and some: "sc_meta (contents w) (transaction_state_metadata_name (pi_transaction_id (pw_intent c))) \<noteq> None"
  shows "apply_committed blake3 term index (PrewriteIntent c) (m, w) =
    (Inl (CorruptIntentHistory ''new prewrite contradicts existing durable transaction state''), (m, w))"
proof -
  let ?tx = "pi_transaction_id (pw_intent c)"
  have pl: "placed m w" by (rule machine_ok_placed [OF ok])
  have coh: "coherent blake3 (ss_binding store) (sc_applied (contents w)) (sc_meta (contents w))
      (sm_closed_timestamp m) (sm_active_intents m)" using ok by (simp add: machine_ok_def)
  from some obtain md where md: "sc_meta (contents w) (transaction_state_metadata_name ?tx) = Some md" by blast
  from coherentD(6) [OF coh none md] obtain i z where i: "intent_wf i" "transaction_wf z"
    and d: "transaction_state_metadata blake3 i (Some z) = Inr md" by (auto simp: terminal_recorded_def)
  from state_metadata_roundtrip [OF d i(1)] i(2) md durable_state_value [OF pl, of ?tx]
  have s: "durable_transaction_state blake3 m ?tx w = (Inr (Some \<lparr>dt_intent = i, dt_terminal = Some z\<rparr>), w)" by simp
  have "validate_transaction_acceptance blake3 (PrewriteIntent c) m w =
      (corrupt ''new prewrite contradicts existing durable transaction state'', w)"
    using none room s
    by (simp add: validate_transaction_acceptance_def accept_prewrite_def Let_def eff_bind_app)
  moreover have "\<not> index < sm_applied_index m" using idx by (simp add: not_less)
  ultimately show ?thesis
    using val by (simp add: apply_committed_def is_cutover_def on_self_app corrupt_def reject_or_fail_def
        committed_rejection_def)
qed

end

end
