(* ===== verification/Fjall_Props.thy ===== *)
theory Fjall_Props
  imports Fjall_Contract
begin

text \<open>
  What the key-value replica store guarantees to its users: exactly-once application of committed
  batches, bitemporal reads that return the latest visible version, and reads at a past
  transaction time that later commits cannot change.
\<close>

section \<open>Applying a batch\<close>

lemma apply_gap:
  assumes wf: "fr_wf b s" and ok: "batch_ok blake3 b x"
    and gap: "db_applied (fr_db s) < cb_raft_index x" "cb_raft_index x \<noteq> db_applied (fr_db s) + 1"
  shows "apply_sync blake3 x s = (Inl (NonMonotonicIndex (db_applied (fr_db s)) (cb_raft_index x)), s)"
proof -
  let ?a = "db_applied (fr_db s)"
  from gap have "admit_batches (fr_db s) ?a [x] = Inl (NonMonotonicIndex ?a (cb_raft_index x))"
    by (auto simp: sat_succ_def)
  with ok fr_wf_binding [OF wf] fr_applied [OF wf] show ?thesis
    by (auto simp: apply_sync_def apply_batches_sync_def batch_ok_def eff_bind_app simp del: admit_batches.simps)
qed

lemma fr_contents_applied: "sc_applied (fr_contents s) = db_applied (fr_db s)"
  by (simp add: fr_contents_def db_contents_def)

lemma apply_sync_cases:
  assumes wf: "fr_wf b s" and ok: "batch_ok blake3 b x" and run: "apply_sync blake3 x s = (r, s')"
  shows "fr_wf b s' \<and>
    (let c = fr_contents s; i = cb_raft_index x in
     if i \<le> sc_applied c then
       s' = s \<and> r = (if sc_identity c i = Some (batch_identity x)
                    then Inr (apply_receipt_new x True) else Inl (ReplayMismatch i))
     else if i \<noteq> sc_applied c + 1 then s' = s \<and> r = Inl (NonMonotonicIndex (sc_applied c) i)
     else (\<exists>e. r = Inl e) \<and> fr_contents s' = c \<or>
          r = Inr (apply_receipt_new x False) \<and> fr_contents s' = add_batch x c)"
proof -
  let ?a = "sc_applied (fr_contents s)" and ?i = "cb_raft_index x"
  consider (old) "?i \<le> ?a" | (gap) "?a < ?i" "?i \<noteq> ?a + 1" | (new) "?a < ?i" "?i = ?a + 1" by fastforce
  then show ?thesis
  proof cases
    case old
    with assms fjs.store_apply_old [of b s blake3 x] show ?thesis
      by (auto simp: fjall_store_def Let_def)
  next
    case gap
    with assms apply_gap [OF wf ok] show ?thesis by (auto simp: fr_contents_applied Let_def)
  next
    case new
    have "?a \<noteq> - 1" using new(1) by (metis leD word_n1_ge)
    with new assms fjs.store_apply_new [of b s blake3 x r s'] show ?thesis
      by (auto simp: fjall_store_def Let_def)
  qed
qed

lemma fr_wf_apply: "fr_wf b s \<Longrightarrow> batch_ok blake3 b x \<Longrightarrow> apply_sync blake3 x s = (r, s') \<Longrightarrow> fr_wf b s'"
  using apply_sync_cases by blast

lemma fjall_read_view_simps:
  "rv_get_vertex (fjall_read_view f h l) q w = (Inr (visible_vertex h q), w)"
  "rv_get_edge (fjall_read_view f h l) p w = (Inr (visible_edge h p), w)"
  "rv_expand (fjall_read_view f h l) d w = (Inr (view_expand h d), w)"
  "rv_scan_vertices (fjall_read_view f h l) u w = (Inr (view_scan_vertices h u), w)"
  "rv_scan_edges (fjall_read_view f h l) y w = (Inr (view_scan_edges h y), w)"
  by (simp_all add: fjall_read_view_def)

text \<open>C6.  Applying a valid batch to a well-formed store: at an index already applied it is
  acknowledged as a replay when term, command and mutation digest agree with what was applied
  there, and refused otherwise, without any change; past the next index it is refused without any
  change; at the next index either the write fails and the contents stay as they were, or exactly
  the batch's mutations are appended to the change log, its metadata replaces the old, and the
  applied index advances to it.  The store stays well-formed in every case.\<close>

theorem fjall_apply_exact:
  assumes "fr_wf b s" and "batch_ok blake3 b x" and "apply_sync blake3 x s = (r, s')"
  shows "fr_wf b s' \<and>
    (let c = fr_contents s; i = cb_raft_index x in
     if i \<le> sc_applied c then
       s' = s \<and> r = (if sc_identity c i = Some (batch_identity x)
                    then Inr (apply_receipt_new x True) else Inl (ReplayMismatch i))
     else if i \<noteq> sc_applied c + 1 then s' = s \<and> r = Inl (NonMonotonicIndex (sc_applied c) i)
     else (\<exists>e. r = Inl e) \<and> fr_contents s' = c \<or>
          r = Inr (apply_receipt_new x False) \<and> fr_contents s' = add_batch x c)"
  using apply_sync_cases [OF assms] .

section \<open>Visibility\<close>

definition event_le :: "'a vis_event \<Rightarrow> 'a vis_event \<Rightarrow> bool" where
  "event_le e f \<longleftrightarrow> fst e < fst f \<or> fst e = fst f \<and> fst (snd e) \<le> fst (snd f)"

lemma event_le_refl [simp]: "event_le e e"
  by (simp add: event_le_def)

lemma event_le_trans: "event_le e f \<Longrightarrow> event_le f g \<Longrightarrow> event_le e g"
  by (auto simp: event_le_def)

abbreviation latest :: "('m \<Rightarrow> 'a vis_event option) \<Rightarrow> 'm list \<Rightarrow> 'a vis_event option \<Rightarrow> 'a vis_event option" where
  "latest ev hist c \<equiv> fold (\<lambda>m c. case ev m of None \<Rightarrow> c | Some e \<Rightarrow> newer c e) hist c"

lemma newer_some: "\<exists>e'. newer c e = Some e' \<and> event_le e e' \<and> (\<forall>c'. c = Some c' \<longrightarrow> event_le c' e') \<and> (e' = e \<or> c = Some e')"
  by (cases e) (auto simp: newer_def event_le_def split: option.splits)

lemma latest_start: "latest ev hist c = Some e \<Longrightarrow> c = Some f \<Longrightarrow> event_le f e"
proof (induction hist arbitrary: c f)
  case (Cons m hist)
  show ?case
  proof (cases "ev m")
    case None
    with Cons show ?thesis by simp
  next
    case (Some x)
    obtain y where y: "newer c x = Some y" "event_le f y" using newer_some [of c x] Cons.prems(2) by blast
    with Cons.IH [of "newer c x" y] Cons.prems(1) Some show ?thesis by (auto intro: event_le_trans)
  qed
qed simp

lemma latest_bound: "latest ev hist c = Some e \<Longrightarrow> m \<in> set hist \<Longrightarrow> ev m = Some f \<Longrightarrow> event_le f e"
proof (induction hist arbitrary: c)
  case (Cons n hist)
  show ?case
  proof (cases "m = n")
    case True
    obtain y where y: "newer c f = Some y" "event_le f y" using newer_some [of c f] by blast
    have "latest ev hist (newer c f) = Some e" using Cons.prems True by simp
    from latest_start [OF this y(1)] y(2) show ?thesis by (rule event_le_trans [rotated])
  next
    case False
    have "latest ev hist (case ev n of None \<Rightarrow> c | Some e \<Rightarrow> newer c e) = Some e" using Cons.prems(1) by simp
    from Cons.IH [OF this] False Cons.prems show ?thesis by simp
  qed
qed simp

lemma latest_from: "latest ev hist c = Some e \<Longrightarrow> c = Some e \<or> (\<exists>m \<in> set hist. ev m = Some e)"
proof (induction hist arbitrary: c)
  case (Cons n hist)
  have run: "latest ev hist (case ev n of None \<Rightarrow> c | Some e \<Rightarrow> newer c e) = Some e" using Cons.prems by simp
  show ?case
  proof (cases "ev n")
    case None
    with Cons.IH [OF run] show ?thesis by simp
  next
    case (Some x)
    with Cons.IH [OF run] newer_some [of c x] show ?thesis by force
  qed
qed simp

lemma latest_none: "latest ev hist c = None \<longleftrightarrow> c = None \<and> (\<forall>m \<in> set hist. ev m = None)"
proof (induction hist arbitrary: c)
  case (Cons n hist)
  show ?case
  proof (cases "ev n")
    case (Some x)
    with newer_some [of c x] Cons.IH [of "newer c x"] show ?thesis by force
  qed (use Cons.IH [of c] in simp)
qed simp


section \<open>Reads in the past\<close>

definition visible_by :: "transaction_time \<Rightarrow> logical_mutation \<Rightarrow> bool" where
  "visible_by t m = (case graph_mutation_time m of None \<Rightarrow> False | Some x \<Rightarrow> x \<le> t)"

lemma latest_filter:
  "(\<And>m. m \<in> set hist \<Longrightarrow> \<not> P m \<Longrightarrow> ev m = None) \<Longrightarrow> latest ev (filter P hist) c = latest ev hist c"
  by (induction hist arbitrary: c) auto

lemma visible_vertex_filter:
  assumes "pr_transaction_at r \<le> t"
  shows "visible_vertex (filter (visible_by t) hist) r = visible_vertex hist r"
proof -
  have "vertex_event r m = None" if "\<not> visible_by t m" for m
    using assms that by (cases m) (auto simp: vertex_event_def visible_by_def graph_mutation_time_def)
  then show ?thesis by (simp add: visible_vertex_def pick_visible_def latest_filter)
qed

lemma visible_edge_filter:
  assumes "pr_transaction_at r \<le> t"
  shows "visible_edge (filter (visible_by t) hist) r = visible_edge hist r"
proof -
  have "edge_event r m = None" if "\<not> visible_by t m" for m
    using assms that by (cases m) (auto simp: edge_event_def visible_by_def graph_mutation_time_def)
  then show ?thesis by (simp add: visible_edge_def pick_visible_def latest_filter)
qed

text \<open>Collecting over all identifiers gives what collecting over those with a result gives.\<close>

lemma map_filter_alt: "List.map_filter f xs = map (the \<circ> f) (filter (\<lambda>x. f x \<noteq> None) xs)"
  by (induction xs) (auto simp: List.map_filter_simps split: option.splits)

lemma sorted_unique_filter: "filter P (bs_of xs) = bs_of (filter P xs)"
  by (simp add: bs_of_def remdups_filter filter_sort)

lemma bs_of_cong: "set xs = set ys \<Longrightarrow> bs_of xs = bs_of ys"
  by (metis bs_of_set bs_of_sorted strict_sorted_equal)

lemma map_filter_bs_cong:
  assumes "\<And>i. i \<in> set xs \<Longrightarrow> f i \<noteq> None \<Longrightarrow> i \<in> set ys" and "set ys \<subseteq> set xs"
  shows "List.map_filter f (bs_of xs) = List.map_filter f (bs_of ys)"
proof -
  have "set (filter (\<lambda>x. f x \<noteq> None) xs) = set (filter (\<lambda>x. f x \<noteq> None) ys)" using assms by auto
  from bs_of_cong [OF this] show ?thesis by (simp only: map_filter_alt sorted_unique_filter)
qed

lemma latest_someD: "latest ev hist None = Some e \<Longrightarrow> \<exists>m \<in> set hist. ev m = Some e"
  using latest_from by fastforce

lemma visible_vertex_id:
  assumes "visible_vertex hist r = Some v"
  shows "pr_id r \<in> set (vertex_ids hist) \<and> vv_id v = pr_id r"
proof -
  from assms obtain a c where "latest (vertex_event r) hist None = Some (a, c, Some v)"
    by (auto simp: visible_vertex_def pick_visible_def split: option.splits)
  from latest_someD [OF this] obtain m where m: "m \<in> set hist" "vertex_event r m = Some (a, c, Some v)" by blast
  from m(2) have "m = PutVertex v \<and> vv_id v = pr_id r" by (cases m) (auto simp: vertex_event_def split: if_splits)
  with m(1) show ?thesis by (force simp: vertex_ids_def List.map_filter_def)
qed

lemma visible_edge_id:
  assumes "visible_edge hist r = Some e"
  shows "pr_id r \<in> set (edge_ids hist) \<and> ev_id e = pr_id r"
proof -
  from assms obtain a c where "latest (edge_event r) hist None = Some (a, c, Some e)"
    by (auto simp: visible_edge_def pick_visible_def split: option.splits)
  from latest_someD [OF this] obtain m where m: "m \<in> set hist" "edge_event r m = Some (a, c, Some e)" by blast
  from m(2) have "m = PutEdge e \<and> ev_id e = pr_id r" by (cases m) (auto simp: edge_event_def split: if_splits)
  with m(1) show ?thesis by (force simp: edge_ids_def List.map_filter_def)
qed

lemma vertex_ids_filter_sub: "set (vertex_ids (filter P hist)) \<subseteq> set (vertex_ids hist)"
  by (auto simp: vertex_ids_def List.map_filter_def)

lemma edge_ids_filter_sub: "set (edge_ids (filter P hist)) \<subseteq> set (edge_ids hist)"
  by (auto simp: edge_ids_def List.map_filter_def)

lemma point_read_new_simps [simp]:
  "pr_id (point_read_new i v t) = i" "pr_transaction_at (point_read_new i v t) = t"
  "pr_valid_at (point_read_new i v t) = v"
  by (simp_all add: point_read_new_def)

lemma scan_vertices_filter:
  assumes "sn_transaction_at r \<le> t"
  shows "view_scan_vertices (filter (visible_by t) hist) r = view_scan_vertices hist r"
proof -
  let ?h = "filter (visible_by t) hist"
  let ?f = "\<lambda>h i. visible_vertex h (point_read_new i (sn_valid_at r) (sn_transaction_at r))"
  have same: "?f ?h i = ?f hist i" for i using assms by (simp add: visible_vertex_filter)
  have "List.map_filter (?f hist) (bs_of (filter (after_ok (sn_after r)) (vertex_ids hist))) =
      List.map_filter (?f hist) (bs_of (filter (after_ok (sn_after r)) (vertex_ids ?h)))"
  proof (rule map_filter_bs_cong)
    fix i
    assume i: "i \<in> set (filter (after_ok (sn_after r)) (vertex_ids hist))" and "?f hist i \<noteq> None"
    then obtain v where "?f ?h i = Some v" using same by auto
    from visible_vertex_id [OF this] i show "i \<in> set (filter (after_ok (sn_after r)) (vertex_ids ?h))" by simp
  next
    show "set (filter (after_ok (sn_after r)) (vertex_ids ?h)) \<subseteq> set (filter (after_ok (sn_after r)) (vertex_ids hist))"
      using vertex_ids_filter_sub [of "visible_by t" hist] by auto
  qed
  then show ?thesis by (simp add: view_scan_vertices_def same)
qed

lemma scan_edges_filter:
  assumes "sn_transaction_at r \<le> t"
  shows "view_scan_edges (filter (visible_by t) hist) r = view_scan_edges hist r"
proof -
  let ?h = "filter (visible_by t) hist"
  let ?f = "\<lambda>h i. visible_edge h (point_read_new i (sn_valid_at r) (sn_transaction_at r))"
  have same: "?f ?h i = ?f hist i" for i using assms by (simp add: visible_edge_filter)
  have "List.map_filter (?f hist) (bs_of (filter (after_ok (sn_after r)) (edge_ids hist))) =
      List.map_filter (?f hist) (bs_of (filter (after_ok (sn_after r)) (edge_ids ?h)))"
  proof (rule map_filter_bs_cong)
    fix i
    assume i: "i \<in> set (filter (after_ok (sn_after r)) (edge_ids hist))" and "?f hist i \<noteq> None"
    then obtain v where "?f ?h i = Some v" using same by auto
    from visible_edge_id [OF this] i show "i \<in> set (filter (after_ok (sn_after r)) (edge_ids ?h))" by simp
  next
    show "set (filter (after_ok (sn_after r)) (edge_ids ?h)) \<subseteq> set (filter (after_ok (sn_after r)) (edge_ids hist))"
      using edge_ids_filter_sub [of "visible_by t" hist] by auto
  qed
  then show ?thesis by (simp add: view_scan_edges_def same)
qed

lemma expand_filter:
  assumes "ad_transaction_at r \<le> t"
  shows "view_expand (filter (visible_by t) hist) r = view_expand hist r"
proof -
  let ?h = "filter (visible_by t) hist"
  let ?f = "\<lambda>h i. visible_edge h (point_read_new i (ad_valid_at r) (ad_transaction_at r))"
  have same: "?f ?h i = ?f hist i" for i using assms by (simp add: visible_edge_filter)
  have "List.map_filter (?f hist) (bs_of (edge_ids hist)) = List.map_filter (?f hist) (bs_of (edge_ids ?h))"
  proof (rule map_filter_bs_cong)
    fix i
    assume "?f hist i \<noteq> None"
    then obtain v where "?f ?h i = Some v" using same by auto
    from visible_edge_id [OF this] show "i \<in> set (edge_ids ?h)" by simp
  qed (rule edge_ids_filter_sub)
  then show ?thesis by (simp add: view_expand_def same)
qed

text \<open>A batch of later mutations leaves the visible part of the history as it was.\<close>

lemma filter_bm_insert:
  "\<not> P (k, v) \<Longrightarrow> k \<notin> fst ` set (filter P m) \<Longrightarrow> filter P (bm_insert k v m) = filter P m"
  by (induction m) (auto split: if_splits)

lemma filter_inserts:
  assumes "\<And>w. w \<in> set ws \<Longrightarrow> \<exists>ks k v. w = WInsert ks k v \<and> \<not> P (k, v) \<and> k \<notin> fst ` set (filter P m)"
  shows "filter P (fold apply_row ws m) = filter P m"
  using assms
proof (induction ws arbitrary: m)
  case (Cons w ws)
  from Cons.prems [of w] obtain ks k v where w: "w = WInsert ks k v" "\<not> P (k, v)" "k \<notin> fst ` set (filter P m)"
    by auto
  then have one: "filter P (apply_row w m) = filter P m" by (simp add: filter_bm_insert del: filter_filter)
  have "filter P (fold apply_row ws (apply_row w m)) = filter P (apply_row w m)"
  proof (rule Cons.IH)
    fix x assume "x \<in> set ws"
    with Cons.prems [of x] show "\<exists>ks k v. x = WInsert ks k v \<and> \<not> P (k, v) \<and> k \<notin> fst ` set (filter P (apply_row w m))"
      unfolding one by simp
  qed
  with one show ?case by simp
qed simp

lemma occurrence_key_index:
  "history_occurrence_key k i o' = history_occurrence_key k' i' p \<Longrightarrow> i = i'"
proof -
  assume "history_occurrence_key k i o' = history_occurrence_key k' i' p"
  then have "u64_be i @ u64_be o' = u64_be i' @ u64_be p"
    unfolding history_occurrence_key_def by (rule append_eq_append_conv [THEN iffD1, THEN conjunct2, rotated]) simp
  then show ?thesis by (simp add: codec_split)
qed

lemma stage_history_later:
  assumes "w \<in> set (stage_history_mutation i o' m)" and "\<not> visible_by t m"
  shows "\<exists>k. w = WInsert KHistory (history_occurrence_key k i o') (RowMutation m)"
  using assms(1) by (cases m) (auto simp: stage_history_mutation_def)

lemma history_rows_later:
  assumes ok: "\<forall>p \<in> set m. history_row_ok a p" and "a < cb_raft_index x"
    and later: "\<And>mu. mu \<in> set (cb_mutations x) \<Longrightarrow> \<not> visible_by t mu"
  shows "filter (visible_by t \<circ> row_mutation) (fold apply_row (history_writes x) m) =
    filter (visible_by t \<circ> row_mutation) m"
proof (rule filter_inserts)
  fix w assume "w \<in> set (history_writes x)"
  then obtain o' mu where mu: "mu \<in> set (cb_mutations x)"
    and "w \<in> set (stage_history_mutation (cb_raft_index x) o' mu)"
    by (force simp: history_writes_def dest: set_zip_rightD)
  with stage_history_later later obtain k
    where w: "w = WInsert KHistory (history_occurrence_key k (cb_raft_index x) o') (RowMutation mu)" by metis
  have "history_occurrence_key k (cb_raft_index x) o' \<notin> fst ` set m"
  proof
    assume "history_occurrence_key k (cb_raft_index x) o' \<in> fst ` set m"
    then obtain r where "(history_occurrence_key k (cb_raft_index x) o', r) \<in> set m" by auto
    with ok obtain k' i p' where "history_occurrence_key k (cb_raft_index x) o' = history_occurrence_key k' i p'" "i \<le> a"
      unfolding history_row_ok.simps by blast
    with occurrence_key_index assms(2) show False by (metis leD)
  qed
  with w later [OF mu] show "\<exists>ks k v. w = WInsert ks k v \<and> \<not> (visible_by t \<circ> row_mutation) (k, v) \<and>
      k \<notin> fst ` set (filter (visible_by t \<circ> row_mutation) m)"
    by (auto simp: row_mutation_def)
qed

lemma history_after_later:
  assumes wf: "fr_wf b s" and ok: "batch_ok blake3 b x" and run: "apply_sync blake3 x s = (Inr rc, s')"
    and later: "\<And>m. m \<in> set (cb_mutations x) \<Longrightarrow> \<not> visible_by t m"
  shows "filter (visible_by t) (map row_mutation (fr_db s' KHistory)) =
    filter (visible_by t) (map row_mutation (fr_db s KHistory))"
proof -
  let ?a = "db_applied (fr_db s)"
  have app: "sc_applied (fr_contents s) = ?a" by (simp add: fr_contents_def db_contents_def)
  consider "cb_raft_index x \<le> ?a" | "?a < cb_raft_index x" "cb_raft_index x \<noteq> ?a + 1"
    | "?a < cb_raft_index x" "cb_raft_index x = ?a + 1" by fastforce
  then show ?thesis
  proof cases
    case 1
    with apply_old [OF wf ok] run show ?thesis by (auto split: if_splits)
  next
    case 2
    with apply_gap [OF wf ok] run show ?thesis by simp
  next
    case 3
    have max: "?a \<noteq> - 1" using 3(1) by (metis leD word_n1_ge)
    from run obtain rs where "apply_batches_sync blake3 [x] s = (Inr rs, s')"
      by (auto simp: apply_sync_def result_simps split: if_splits)
    from apply_chain_history [OF wf _ _ _ this] ok 3 max
    have "fr_db s' KHistory = fold apply_row (history_writes x) (fr_db s KHistory)" by simp
    moreover have "\<forall>p \<in> set (fr_db s KHistory). history_row_ok ?a p"
      using wf by (simp add: fr_wf_def db_ok_def)
    ultimately show ?thesis
      using history_rows_later [of "fr_db s KHistory" ?a x t] 3(1) later by (simp add: filter_map)
  qed
qed

text \<open>C31.  Time travel is stable: once a batch has been applied whose graph mutations are all later
  than a transaction time, every read of a view opened after it, at that transaction time or
  earlier, returns what a view opened before it returns: point reads, edge expansion and scans
  alike.\<close>

theorem past_reads_stable:
  assumes "fr_wf b s" and "batch_ok blake3 b x" and "apply_sync blake3 x s = (Inr rc, s')"
    and "list_all (\<lambda>m. \<not> visible_by t m) (cb_mutations x)"
    and "fr_begin_read_view (read_fence_new b (sc_applied (fr_contents s))) s = (Inr v, s)"
    and "fr_begin_read_view (read_fence_new b (sc_applied (fr_contents s'))) s' = (Inr v', s')"
  shows "(pr_transaction_at q \<le> t \<longrightarrow> rv_get_vertex v' q w = rv_get_vertex v q w) \<and>
    (pr_transaction_at p \<le> t \<longrightarrow> rv_get_edge v' p w = rv_get_edge v p w) \<and>
    (ad_transaction_at d \<le> t \<longrightarrow> rv_expand v' d w = rv_expand v d w) \<and>
    (sn_transaction_at u \<le> t \<longrightarrow> rv_scan_vertices v' u w = rv_scan_vertices v u w) \<and>
    (sn_transaction_at y \<le> t \<longrightarrow> rv_scan_edges v' y w = rv_scan_edges v y w)"
proof -
  let ?h = "map row_mutation (fr_db s KHistory)" and ?h' = "map row_mutation (fr_db s' KHistory)"
  have same: "filter (visible_by t) ?h' = filter (visible_by t) ?h"
    using assms(4) by (intro history_after_later [OF assms(1-3)]) (simp add: list_all_iff)
  have wf': "fr_wf b s'" using fr_wf_apply [OF assms(1-3)] .
  have v: "v = fjall_read_view (read_fence_new b (sc_applied (fr_contents s))) ?h (sc_log (fr_contents s))"
    using assms(5) read_view_opens [OF assms(1)] by (simp add: fr_contents_def db_contents_def)
  have v': "v' = fjall_read_view (read_fence_new b (sc_applied (fr_contents s'))) ?h' (sc_log (fr_contents s'))"
    using assms(6) read_view_opens [OF wf'] by (simp add: fr_contents_def db_contents_def)
  show ?thesis
  proof (intro conjI)
    show "pr_transaction_at q \<le> t \<longrightarrow> rv_get_vertex v' q w = rv_get_vertex v q w"
      using same by (metis (no_types, lifting) v v' fjall_read_view_simps(1) visible_vertex_filter)
    show "pr_transaction_at p \<le> t \<longrightarrow> rv_get_edge v' p w = rv_get_edge v p w"
      using same by (metis (no_types, lifting) v v' fjall_read_view_simps(2) visible_edge_filter)
    show "ad_transaction_at d \<le> t \<longrightarrow> rv_expand v' d w = rv_expand v d w"
      using same by (metis (no_types, lifting) v v' fjall_read_view_simps(3) expand_filter)
    show "sn_transaction_at u \<le> t \<longrightarrow> rv_scan_vertices v' u w = rv_scan_vertices v u w"
      using same by (metis (no_types, lifting) v v' fjall_read_view_simps(4) scan_vertices_filter)
    show "sn_transaction_at y \<le> t \<longrightarrow> rv_scan_edges v' y w = rv_scan_edges v y w"
      using same by (metis (no_types, lifting) v v' fjall_read_view_simps(5) scan_edges_filter)
  qed
qed

section \<open>An example store\<close>

definition empty_replica :: "replica_binding \<Rightarrow> fjall_replica" where
  "empty_replica b =
     \<lparr>fr_binding = b, fr_owner = Some b, fr_restore_in_progress = False, fr_db = (\<lambda>_. []), fr_faults = []\<rparr>"

definition sample_vertex :: "transaction_time \<Rightarrow> vertex_version" where
  "sample_vertex t =
     \<lparr>vv_id = Ident128 7, vv_version = 1, vv_valid_time = \<lparr>iv_start = 0, iv_end = 10\<rparr>,
      vv_transaction_time = t, vv_properties = []\<rparr>"

definition example_batch :: "u64 \<Rightarrow> logical_mutation list \<Rightarrow> committed_shard_batch" where
  "example_batch index ms =
     \<lparr>cb_binding = example_binding, cb_raft_term = 1, cb_raft_index = index, cb_command_id = Ident128 9,
      cb_mutation_digest = digest_mutations length_hash ms, cb_mutations = ms\<rparr>"

lemma example_batch_ok: "index \<noteq> 0 \<Longrightarrow> ms \<noteq> [] \<Longrightarrow> len_ok ms \<Longrightarrow> batch_ok length_hash example_binding (example_batch index ms)"
  by (simp add: batch_ok_def example_batch_def committed_shard_batch_validate_def)

lemma empty_replica_wf: "fr_wf b (empty_replica b)"
  by (simp add: fr_wf_def empty_replica_def db_ok_def)

definition example_replica :: "transaction_time \<Rightarrow> fjall_replica" where
  "example_replica t =
     snd (apply_sync length_hash (example_batch 1 [PutVertex (sample_vertex t)]) (empty_replica example_binding))"

lemma example_replica_run:
  "apply_sync length_hash (example_batch 1 [PutVertex (sample_vertex t)]) (empty_replica example_binding) =
     (Inr (apply_receipt_new (example_batch 1 [PutVertex (sample_vertex t)]) False), example_replica t)"
proof -
  have "\<exists>s. apply_sync length_hash (example_batch 1 [PutVertex (sample_vertex t)]) (empty_replica example_binding) =
     (Inr (apply_receipt_new (example_batch 1 [PutVertex (sample_vertex t)]) False), s)"
    by (simp add: apply_sync_def apply_batches_sync_def example_batch_def empty_replica_def
        committed_shard_batch_validate_def verify_binding_def fr_ensure_binding_def
        ensure_no_restore_in_progress_def applied_index_sync_def sat_succ_def stage_committed_batch_def
        stage_mutation_def stage_current_mutation_def commit_writes_def eff_bind_app)
  then show ?thesis by (auto simp: example_replica_def)
qed

theorem fjall_apply_exact_witness:
  "fr_wf example_binding (example_replica 5) \<and>
   fr_contents (example_replica 5) =
     add_batch (example_batch 1 [PutVertex (sample_vertex 5)]) (fr_contents (empty_replica example_binding))"
  using fjall_apply_exact [OF empty_replica_wf example_batch_ok example_replica_run, of 5]
  by (simp add: len_ok_def Let_def fr_contents_applied empty_replica_def db_applied_def example_batch_def)

lemma example_replica_wf: "fr_wf example_binding (example_replica t)"
  by (rule fr_wf_apply [OF empty_replica_wf _ example_replica_run]) (simp add: example_batch_ok len_ok_def)

lemma view_opens: "fr_wf b s \<Longrightarrow> \<exists>v. fr_begin_read_view (read_fence_new b (sc_applied (fr_contents s))) s = (Inr v, s)"
  using read_view_opens by (fastforce simp: fr_contents_applied)

theorem past_reads_stable_witness:
  "\<exists>v v'. fr_begin_read_view (read_fence_new example_binding (sc_applied (fr_contents (empty_replica example_binding))))
         (empty_replica example_binding) = (Inr v, empty_replica example_binding) \<and>
     fr_begin_read_view (read_fence_new example_binding (sc_applied (fr_contents (example_replica 5))))
         (example_replica 5) = (Inr v', example_replica 5) \<and>
     rv_get_vertex v' (point_read_new (Ident128 7) 3 4) (example_replica 5) =
     rv_get_vertex v (point_read_new (Ident128 7) 3 4) (example_replica 5)"
proof -
  let ?x = "example_batch 1 [PutVertex (sample_vertex 5)]"
  obtain v where v: "fr_begin_read_view (read_fence_new example_binding (sc_applied (fr_contents (empty_replica example_binding))))
      (empty_replica example_binding) = (Inr v, empty_replica example_binding)"
    using view_opens [OF empty_replica_wf] by blast
  obtain v' where v': "fr_begin_read_view (read_fence_new example_binding (sc_applied (fr_contents (example_replica 5))))
      (example_replica 5) = (Inr v', example_replica 5)"
    using view_opens [OF example_replica_wf] by blast
  have later: "list_all (\<lambda>m. \<not> visible_by 4 m) (cb_mutations ?x)"
    by (simp add: example_batch_def sample_vertex_def visible_by_def graph_mutation_time_def)
  have ok: "batch_ok length_hash example_binding ?x" by (simp add: example_batch_ok len_ok_def)
  have "rv_get_vertex v' (point_read_new (Ident128 7) 3 4) (example_replica 5) =
     rv_get_vertex v (point_read_new (Ident128 7) 3 4) (example_replica 5)"
    using past_reads_stable [OF empty_replica_wf ok example_replica_run later v v'] by simp
  with v v' show ?thesis by blast
qed

end
