(* ===== verification/Shard_Live.thy ===== *)
theory Shard_Live
  imports Shard_Safety Fjall_Props
begin

text \<open>
  Progress of the shard state machine: over a store whose commits do not fail, every committed
  command that is valid or refused for a deterministic reason is applied.
\<close>

section \<open>Decided commands\<close>

text \<open>A command is decided when it is refused for a deterministic reason, or accepted with metadata
  that can be encoded.\<close>

definition decided :: "(byte list \<Rightarrow> digest32) \<Rightarrow> shard_command \<Rightarrow> 'w shard_machine \<Rightarrow> 'w \<Rightarrow> bool" where
  "decided blake3 command m w =
     (case validate_command blake3 m command of
        Inl e \<Rightarrow> committed_rejection e \<noteq> None
      | Inr _ \<Rightarrow> (case fst (validate_transaction_acceptance blake3 command m w) of
          Inl e \<Rightarrow> committed_rejection e \<noteq> None
        | Inr t \<Rightarrow> (\<exists>ms ex. (if t = ReplayIntent then Inr [] else command_mutations blake3 command) = Inr ms \<and>
            fst (extra_mutations blake3 command t m w) = Inr ex \<and> ms @ ex \<noteq> [])))"

section \<open>Stores that do not fail\<close>

locale healthy_store = replica_store store blake3 wf contents
  for store :: "'w state_store" and blake3 :: "byte list \<Rightarrow> digest32"
    and wf :: "'w \<Rightarrow> bool" and contents :: "'w \<Rightarrow> store_contents" +
  fixes healthy :: "'w \<Rightarrow> bool"
  assumes store_apply_live:
    "wf w \<Longrightarrow> healthy w \<Longrightarrow> batch_ok blake3 (ss_binding store) b \<Longrightarrow> chained (sc_applied (contents w)) [b] \<Longrightarrow>
     \<exists>w'. ss_apply store b w = (Inr (apply_receipt_new b False), w') \<and> healthy w'"
begin

lemma apply_batch_live:
  assumes pl: "placed m w" and h: "healthy w" and idx: "next_index index w"
    and tm: "term \<noteq> 0" and ms: "ms \<noteq> []" "len_ok ms"
  shows "\<exists>rc w'. apply_batch blake3 term index cid ms m w = (Inr rc, w') \<and> healthy w' \<and> ar_raft_index rc = index"
proof -
  have nz: "index \<noteq> 0" using idx word_succ_less [of "sc_applied (contents w)"] by (auto simp: next_index_def)
  then obtain batch where new: "committed_shard_batch_new blake3 (ss_binding store) term index cid ms = Inr batch"
    using tm ms by (simp add: committed_shard_batch_new_def)
  then have ok: "batch_ok blake3 (ss_binding store) batch" and b: "cb_raft_index batch = index"
    using committed_shard_batch_validates [OF new] ms
    by (auto simp: batch_ok_def committed_shard_batch_new_def split: if_splits)
  have "chained (sc_applied (contents w)) [batch]" using idx b by (simp add: next_index_def)
  from store_apply_live [OF placed_simps(4) [OF pl] h ok this] new b show ?thesis
    by (auto simp: apply_batch_def store_call_def placed_simps [OF pl])
qed

lemma reject_live:
  assumes pl: "placed m w" and h: "healthy w" and idx: "next_index index w" and tm: "term \<noteq> 0"
    and e: "committed_rejection e = Some rej"
  shows "\<exists>out m' w'. reject_or_fail blake3 term index command e (m, w) = (Inr out, (m', w')) \<and> healthy w'"
proof -
  let ?cid = "ch_command_id (command_header_of command)"
  obtain md where md: "rejection_metadata ?cid rej = Inr md"
    by (auto simp: rejection_metadata_def replica_metadata_new_def)
  from apply_batch_live [OF pl h idx tm, of "[PutReplicaMetadata md]" ?cid] md e show ?thesis
    by (auto simp: reject_or_fail_def apply_rejected_def eff_bind_app on_self_app len_ok_def)
qed

lemma accept_live:
  assumes pl: "placed m w" and h: "healthy w" and idx: "next_index index w" and tm: "term \<noteq> 0"
    and fits: "command_fits command"
    and ms: "(if t = ReplayIntent then Inr [] else command_mutations blake3 command) = Inr ms"
    and ex: "fst (extra_mutations blake3 command t m w) = Inr ex" and ne: "ms @ ex \<noteq> []"
  shows "\<exists>out m' w'. apply_accepted blake3 term index command t (m, w) = (Inr out, (m', w')) \<and> healthy w'"
proof -
  have x: "extra_mutations blake3 command t m w = (Inr ex, w)"
    using extra_read_only [OF pl, of command t] ex by (metis prod.collapse)
  have less: "sm_applied_index m < index"
    using idx placed_simps(3) [OF pl] word_succ_less by (auto simp: next_index_def)
  from apply_batch_live [OF pl h idx tm ne batch_fits [OF fits ms ex]] obtain rc w' where
    "apply_batch blake3 term index (ch_command_id (command_header_of command)) (ms @ ex) m w = (Inr rc, w')" "healthy w'"
    by blast
  with x ms less show ?thesis
    by (auto simp: apply_accepted_def eff_bind_app on_self_app split: if_splits)
qed

lemma apply_committed_live:
  assumes pl: "placed m w" and h: "healthy w" and idx: "next_index index w" and tm: "term \<noteq> 0"
    and fits: "command_fits command" and cut: "\<not> is_cutover m command" and dec: "decided blake3 command m w"
  shows "\<exists>out m' w'. apply_committed blake3 term index command (m, w) = (Inr out, (m', w')) \<and> healthy w' \<and>
    sm_applied_index m' = index"
proof -
  have "\<not> index < sm_applied_index m" using next_index_le [OF idx] placed_simps(3) [OF pl] by simp
  obtain a where a: "validate_transaction_acceptance blake3 command m w = (a, w)"
    using acceptance_read_only [OF pl] by (metis prod.collapse)
  have "\<exists>out m' w'. apply_committed blake3 term index command (m, w) = (Inr out, (m', w')) \<and> healthy w'"
  proof (cases "validate_command blake3 m command")
    case (Inl e)
    with dec reject_live [OF pl h idx tm] show ?thesis by (auto simp: apply_committed_def decided_def)
  next
    case (Inr u)
    note val = Inr
    show ?thesis
    proof (cases a)
      case (Inl e)
      with dec val a obtain rej where "committed_rejection e = Some rej" by (auto simp: decided_def)
      from reject_live [OF pl h idx tm this] val a Inl cut \<open>\<not> index < sm_applied_index m\<close> show ?thesis
        by (simp add: apply_committed_def on_self_app)
    next
      case (Inr t)
      with dec val a obtain ms ex where "(if t = ReplayIntent then Inr [] else command_mutations blake3 command) = Inr ms"
        "fst (extra_mutations blake3 command t m w) = Inr ex" "ms @ ex \<noteq> []" by (auto simp: decided_def)
      from accept_live [OF pl h idx tm fits this] val a Inr cut \<open>\<not> index < sm_applied_index m\<close> show ?thesis
        by (simp add: apply_committed_def on_self_app)
    qed
  qed
  then obtain out m' w' where run: "apply_committed blake3 term index command (m, w) = (Inr out, (m', w'))"
    and h': "healthy w'" by blast
  from apply_committed_cases [OF pl idx fits cut run] have "sm_applied_index m' = index"
    by (auto simp: step_failed_def step_rejected_def step_accepted_def)
  with run h' show ?thesis by blast
qed

end

interpretation fjh: healthy_store "fjall_store blake3 b" blake3 "fr_wf b" fr_contents "\<lambda>w. fr_faults w = []"
  for blake3 :: "byte list \<Rightarrow> digest32" and b :: replica_binding
proof
  fix w x
  assume wf: "fr_wf b w" and h: "fr_faults w = []" and ok: "batch_ok blake3 (ss_binding (fjall_store blake3 b)) x"
    and chain: "chained (sc_applied (fr_contents w)) [x]"
  obtain rs w' where run: "apply_batches_sync blake3 [x] w = (rs, w')" by fastforce
  from apply_chain_commit [OF wf _ _ _ run] ok chain obtain ws st where
    "eff_bind (commit_writes (chain_writes w ws [x])) (\<lambda>_. eff_ret [apply_receipt_new x False]) w = (rs, w')"
    by (auto simp: fjall_store_def fr_contents_def db_contents_def)
  with h have "rs = Inr [apply_receipt_new x False] \<and> fr_faults w' = []"
    by (auto simp: commit_writes_def eff_bind_app)
  with run show "\<exists>w'. ss_apply (fjall_store blake3 b) x w = (Inr (apply_receipt_new x False), w') \<and> fr_faults w' = []"
    by (auto simp: fjall_store_def apply_sync_def eff_bind_app)
qed

section \<open>Commands that are always decided\<close>

definition is_invalid :: "shard_error \<Rightarrow> bool" where
  "is_invalid e = (\<exists>msg. e = InvalidCommand msg)"

lemma is_invalid_rejected: "is_invalid e \<Longrightarrow> committed_rejection e \<noteq> None"
  by (auto simp: is_invalid_def committed_rejection_def)

lemma graph_time_total:
  "\<not> is_put_transaction x \<Longrightarrow> \<not> is_put_metadata x \<Longrightarrow> mutation_transaction_time x \<noteq> Inl z"
  by (cases x) (simp_all add: mutation_transaction_time_def is_put_transaction_def is_put_metadata_def)

lemma differing_times_total:
  "(\<And>x z. x \<in> set xs \<Longrightarrow> mutation_transaction_time x \<noteq> Inl z) \<Longrightarrow>
     try_any (\<lambda>x. try_r (mutation_transaction_time x) (\<lambda>u. Inr (u \<noteq> t))) xs \<noteq> Inl z"
proof (induction xs)
  case (Cons x xs)
  then show ?case by (cases "mutation_transaction_time x") auto
qed simp

lemma validate_intent_error: "validate_intent_mutations ms = Inl e \<Longrightarrow> is_invalid e"
proof -
  assume e: "validate_intent_mutations ms = Inl e"
  show ?thesis
  proof (cases "ms = [] \<or> list_ex (\<lambda>x. is_put_transaction x \<or> is_put_metadata x) ms")
    case True
    with e show ?thesis by (auto simp: validate_intent_mutations_def is_invalid_def split: if_splits)
  next
    case False
    then have all: "mutation_transaction_time x \<noteq> Inl z" if "x \<in> set ms" for x z
      using that graph_time_total by (auto simp: list_ex_iff)
    have "try_any (\<lambda>x. try_r (mutation_transaction_time x) (\<lambda>u. Inr (u \<noteq> t))) (tl ms) \<noteq> Inl z" for t z
      by (rule differing_times_total) (use all False in \<open>auto dest: list.set_sel(2)\<close>)
    with e all [of "hd ms"] False show ?thesis
      by (cases "mutation_transaction_time (hd ms)")
        (auto simp: validate_intent_mutations_def is_invalid_def result_simps split: if_splits)
  qed
qed

lemma cst_validate_error:
  assumes err: "cst_validate c = Inl e"
  shows "is_invalid e"
proof (cases "validate_intent_mutations (cst_mutations c)")
  case (Inr u)
  then have "graph_mutation (hd (cst_mutations c))"
    using validated_graph [OF Inr] by (cases "cst_mutations c") (auto simp: validate_intent_mutations_def)
  with err Inr graph_time_total [of "hd (cst_mutations c)"] show ?thesis
    by (cases "mutation_transaction_time (hd (cst_mutations c))")
      (auto simp: cst_validate_def validate_commit_follows_start_def is_invalid_def graph_mutation_def split: if_splits)
next
  case (Inl e')
  with err show ?thesis by (auto simp: cst_validate_def intro: validate_intent_error)
qed

text \<open>The commands that need no intent: plain commits, maintenance, and single-shard transactions that
  have not been applied yet.\<close>

definition self_contained :: "fjall_replica shard_machine \<Rightarrow> fjall_replica \<Rightarrow> shard_command \<Rightarrow> bool" where
  "self_contained m w command = (case command of
     CommitSingleShard c \<Rightarrow> css_mutations c \<noteq> []
   | CommitSingleShardTransaction c \<Rightarrow>
       sc_meta (fr_contents w) (receipt_name (cst_transaction_id c)) = None \<and>
       history_fits (cst_snapshot_applied_index c) (sc_log (fr_contents w))
   | AdvanceClosedTimestamp c \<Rightarrow> True
   | InstallSnapshot c \<Rightarrow> True
   | Migration c \<Rightarrow> \<not> is_cutover m command
   | _ \<Rightarrow> False)"

lemma self_contained_mutations:
  assumes "self_contained m w command" and "command_mutations blake3 command = Inl e"
  shows "is_invalid e"
  using assms
  by (auto simp: self_contained_def is_invalid_def validate_single_shard_mutations_def replica_metadata_new_def
      migration_metadata_def closed_timestamp_metadata_name_def cst_validate_error [unfolded is_invalid_def] result_simps
      split: shard_command.splits if_splits)

lemma validate_command_error:
  assumes err: "validate_command blake3 m command = Inl e"
    and inv: "\<And>e. command_mutations blake3 command = Inl e \<Longrightarrow> is_invalid e"
  shows "committed_rejection e \<noteq> None"
proof (cases "command_mutations blake3 command")
  case (Inl e')
  with err inv [OF Inl] is_invalid_rejected show ?thesis
    by (auto simp: validate_command_def Let_def validate_closed_timestamp_def committed_rejection_def is_invalid_def
        split: if_splits shard_command.splits)
next
  case (Inr ms)
  with err show ?thesis
    by (auto simp: validate_command_def Let_def validate_closed_timestamp_def committed_rejection_def
        split: if_splits shard_command.splits)
qed

lemma new_writer_self:
  "self_contained m w (CommitSingleShardTransaction c) \<Longrightarrow>
     new_writer (sm_active_intents m) (sc_meta (fr_contents w)) (CommitSingleShardTransaction c) =
       Some (cst_transaction_id c, cst_start_time c, cst_snapshot_applied_index c, cst_mutations c)"
  by (simp add: self_contained_def new_writer_def)

lemma self_contained_decided:
  assumes ok: "machine_ok blake3 (fjall_store blake3 b) (fr_wf b) fr_contents m w"
    and self: "self_contained m w command"
  shows "decided blake3 command m w"
proof (cases "validate_command blake3 m command")
  case (Inl e)
  with validate_command_error [OF Inl self_contained_mutations [OF self]] show ?thesis by (simp add: decided_def)
next
  case (Inr u)
  then obtain ms where ms: "command_mutations blake3 command = Inr ms"
    by (auto simp: validate_command_def Let_def result_simps split: if_splits)
  show ?thesis
  proof (cases "\<exists>c. command = CommitSingleShardTransaction c")
    case True
    then obtain c where c: "command = CommitSingleShardTransaction c" by blast
    with ms obtain md where md: "single_shard_transaction_metadata c = Inr md"
      using fjs.committed_metadata_exists by (auto simp: result_simps)
    have "validate_command blake3 m (CommitSingleShardTransaction c) = Inr ()"
      "self_contained m w (CommitSingleShardTransaction c)"
      "history_fits (cst_snapshot_applied_index c) (sc_log (fr_contents w))"
      using Inr self c by (simp_all add: self_contained_def)
    from fjs.new_writer_acceptance [OF fjs.machine_ok_placed [OF ok] this(1) new_writer_self [OF this(2)] this(3)] c
    consider "validate_transaction_acceptance blake3 command m w = (Inl WriteConflictS, w)"
      | t where "validate_transaction_acceptance blake3 command m w = (Inr t, w)"
      by (auto split: if_splits)
    then show ?thesis
      using Inr ms c md by cases (auto simp: decided_def committed_rejection_def extra_mutations_def)
  next
    case False
    with self Inr ms show ?thesis
      by (auto simp: self_contained_def decided_def validate_transaction_acceptance_def extra_mutations_def
          result_simps split: shard_command.splits)
  qed
qed

end
