(* ===== verification/Shard_Props.thy ===== *)
theory Shard_Props
  imports Shard_Live
begin

text \<open>
  What a shard replica guarantees on the key-value store: restarts are invisible, decisions are
  written once, conflicting writers lose, and the closed timestamp only moves forward.
\<close>

section \<open>Reachable states\<close>

definition fresh_store :: "replica_binding \<Rightarrow> fjall_replica \<Rightarrow> bool" where
  "fresh_store b w = (fr_wf b w \<and> sc_meta (fr_contents w) = (\<lambda>_. None))"

text \<open>Every history of a replica between migrations: start-up on a fresh store, committed commands
  and empty Raft entries at the next index, with any outcome, and restarts at any point.\<close>

inductive shard_reachable ::
    "(byte list \<Rightarrow> digest32) \<Rightarrow> replica_binding \<Rightarrow> fjall_replica shard_machine \<Rightarrow> fjall_replica \<Rightarrow> bool"
  for blake3 b where
  boot: "fresh_store b w \<Longrightarrow> shard_machine_new blake3 b (fjall_store blake3 b) w = (Inr m, w') \<Longrightarrow>
    shard_reachable blake3 b m w'"
| step: "shard_reachable blake3 b m w \<Longrightarrow> command_wf blake3 command \<Longrightarrow> command_fits command \<Longrightarrow>
    \<not> is_cutover m command \<Longrightarrow> u64_succ (sm_applied_index m) = Some index \<Longrightarrow>
    apply_committed blake3 term index command (m, w) = (r, (m', w')) \<Longrightarrow> shard_reachable blake3 b m' w'"
| noop: "shard_reachable blake3 b m w \<Longrightarrow> u64_succ (sm_applied_index m) = Some index \<Longrightarrow>
    apply_raft_noop blake3 term index (m, w) = (r, (m', w')) \<Longrightarrow> shard_reachable blake3 b m' w'"
| reboot: "shard_reachable blake3 b m w \<Longrightarrow>
    shard_machine_new blake3 b (fjall_store blake3 b) w = (Inr m', w') \<Longrightarrow> shard_reachable blake3 b m' w'"

abbreviation fjall_machine_ok ::
    "(byte list \<Rightarrow> digest32) \<Rightarrow> replica_binding \<Rightarrow> fjall_replica shard_machine \<Rightarrow> fjall_replica \<Rightarrow> bool" where
  "fjall_machine_ok blake3 b \<equiv> machine_ok blake3 (fjall_store blake3 b) (fr_wf b) fr_contents"

lemma fjall_binding [simp]: "ss_binding (fjall_store blake3 b) = b"
  by (simp add: fjall_store_def)

lemma fresh_coherent: "f = (\<lambda>_. None) \<Longrightarrow> coherent blake3 b applied f None []"
  by (simp add: coherent_def closed_recorded_def index_recorded_def)

lemma fjall_next_index:
  "fjall_machine_ok blake3 b m w \<Longrightarrow> u64_succ (sm_applied_index m) = Some index \<Longrightarrow> fjs.next_index index w"
  by (auto simp: fjs.next_index_def machine_ok_def u64_succ_Some)

lemma restart_same:
  assumes "fjall_machine_ok blake3 b m w"
  shows "shard_machine_new blake3 b (fjall_store blake3 b) w = (Inr (m\<lparr>sm_migration_state_stores := []\<rparr>), w)"
  using fjs.restart_exact [OF assms] by simp

lemma machine_ok_migration [simp]:
  "machine_ok blake3 store ok contents (m\<lparr>sm_migration_state_stores := x\<rparr>) w = machine_ok blake3 store ok contents m w"
  by (simp add: machine_ok_def)

lemma reachable_ok: "shard_reachable blake3 b m w \<Longrightarrow> fjall_machine_ok blake3 b m w"
proof (induction rule: shard_reachable.induct)
  case (boot w m w')
  let ?m = "\<lparr>sm_binding = b, sm_state_store = fjall_store blake3 b, sm_applied_index = sc_applied (fr_contents w),
    sm_closed_timestamp = None, sm_active_intents = [], sm_migration_state_stores = []\<rparr>"
  have "fjall_machine_ok blake3 b ?m w"
    using boot(1) by (simp add: machine_ok_def fresh_store_def fresh_coherent)
  with restart_same [OF this] boot(2) show ?case by auto
next
  case (step m w command index "term" r m' w')
  show ?case
    by (rule fjs.apply_committed_ok [OF step.IH fjall_next_index [OF step.IH step.hyps(5)] step.hyps(2,3,4,6)])
next
  case (noop m w index "term" r m' w')
  show ?case
    by (rule fjs.apply_raft_noop_ok [OF noop.IH fjall_next_index [OF noop.IH noop.hyps(2)] noop.hyps(3)])
next
  case (reboot m w m' w')
  with restart_same [OF reboot.IH] show ?case by auto
qed

section \<open>Steps over a healthy store\<close>

lemma live_step:
  assumes r: "shard_reachable blake3 b m w" and h: "fr_faults w = []"
    and idx: "u64_succ (sm_applied_index m) = Some index" and tm: "term \<noteq> 0"
    and wf: "command_wf blake3 command" and fits: "command_fits command"
    and cut: "\<not> is_cutover m command" and dec: "decided blake3 command m w"
  shows "\<exists>out m' w'. apply_committed blake3 term index command (m, w) = (Inr out, (m', w')) \<and>
    shard_reachable blake3 b m' w' \<and> fr_faults w' = [] \<and> sm_applied_index m' = index"
proof -
  note ok = reachable_ok [OF r]
  from fjh.apply_committed_live [OF fjs.machine_ok_placed [OF ok] h fjall_next_index [OF ok idx] tm fits cut dec]
  obtain out m' w' where run: "apply_committed blake3 term index command (m, w) = (Inr out, (m', w'))"
    and "fr_faults w' = []" "sm_applied_index m' = index" by blast
  moreover have "shard_reachable blake3 b m' w'" by (rule step [OF r wf fits cut idx run])
  ultimately show ?thesis by blast
qed

lemma accepted_step:
  assumes r: "shard_reachable blake3 b m w" and h: "fr_faults w = []"
    and idx: "u64_succ (sm_applied_index m) = Some index" and tm: "term \<noteq> 0"
    and wf: "command_wf blake3 command" and fits: "command_fits command"
    and cut: "\<not> is_cutover m command" and val: "validate_command blake3 m command = Inr ()"
    and acc: "validate_transaction_acceptance blake3 command m w = (Inr t, w)"
    and ms: "(if t = ReplayIntent then Inr [] else command_mutations blake3 command) = Inr ms"
    and ex: "fst (extra_mutations blake3 command t m w) = Inr ex" and ne: "ms @ ex \<noteq> []"
  shows "\<exists>out w' batch. shard_reachable blake3 b (m\<lparr>sm_applied_index := index,
      sm_closed_timestamp := closed_after command (sm_closed_timestamp m),
      sm_active_intents := next_intents t (sm_active_intents m)\<rparr>) w' \<and> fr_faults w' = [] \<and>
    apply_committed blake3 term index command (m, w) = (Inr out, (m\<lparr>sm_applied_index := index,
      sm_closed_timestamp := closed_after command (sm_closed_timestamp m),
      sm_active_intents := next_intents t (sm_active_intents m)\<rparr>, w')) \<and>
    cb_mutations batch = ms @ ex \<and> cb_raft_index batch = index \<and>
    fr_contents w' = add_batch batch (fr_contents w)"
proof -
  note ok = reachable_ok [OF r]
  have dec: "decided blake3 command m w" using val acc ms ex ne by (auto simp: decided_def)
  from live_step [OF r h idx tm wf fits cut dec] obtain out m' w' where
    run: "apply_committed blake3 term index command (m, w) = (Inr out, (m', w'))"
    and r': "shard_reachable blake3 b m' w'" "fr_faults w' = []" by blast
  from fjs.apply_committed_cases [OF fjs.machine_ok_placed [OF ok] fjall_next_index [OF ok idx] fits cut run] val acc
  have "fjs.step_accepted blake3 index command m w t (Inr out) m' w'" by (auto simp: fjs.step_failed_def)
  with r' run ms ex show ?thesis by (auto simp: fjs.step_accepted_def fjs.step_added_def)
qed

section \<open>Properties\<close>

text \<open>C4.  In every reachable state, starting a new state machine on the store succeeds and rebuilds
  exactly the machine in memory: its applied index, its closed timestamp and its active intents.
  A crash between any two commands therefore loses nothing and changes nothing.\<close>

theorem restart_transparent:
  "shard_reachable blake3 b m w \<Longrightarrow>
     shard_machine_new blake3 b (fjall_store blake3 b) w = (Inr (m\<lparr>sm_migration_state_stores := []\<rparr>), w)"
  by (rule restart_same [OF reachable_ok])

text \<open>C5.  No committed command, whatever its outcome, changes or removes a recorded home decision, the
  receipt of a single-shard transaction, or the terminal state of a transaction that is no longer
  active: the first decision stands.\<close>

theorem decisions_write_once:
  assumes "shard_reachable blake3 b m w" and "u64_succ (sm_applied_index m) = Some index"
    and "command_fits command" and "\<not> is_cutover m command"
    and "apply_committed blake3 term index command (m, w) = (r, (m', w'))"
    and "settled (sm_active_intents m) n" and "sc_meta (fr_contents w) n = Some md"
  shows "sc_meta (fr_contents w') n = Some md"
  by (rule fjs.settled_kept [OF reachable_ok fjall_next_index [OF reachable_ok]]) (rule assms)+

text \<open>C2.  First committer wins.  A valid transaction that has not written before is refused with a
  write conflict exactly when an active intent of another transaction writes an overlapping
  extent, or a change after its snapshot index and after its start time does; otherwise it is
  accepted.  The change log is read in full, as long as it fits the page budget.\<close>

theorem first_committer_wins:
  assumes "shard_reachable blake3 b m w" and "u64_succ (sm_applied_index m) = Some index"
    and "command_fits command" and "validate_command blake3 m command = Inr ()"
    and "new_writer (sm_active_intents m) (sc_meta (fr_contents w)) command = Some (tx, start, snap, ms)"
    and "history_fits snap (sc_log (fr_contents w))"
    and "apply_committed blake3 term index command (m, w) = (Inr out, (m', w'))"
  shows "ao_rejection out = (if write_conflict (sm_active_intents m) (sc_log (fr_contents w)) tx start snap ms
    then Some RejWriteConflict else None)"
  by (rule fjs.conflict_outcome [OF reachable_ok fjall_next_index [OF reachable_ok]]) (rule assms)+

text \<open>C33.  The closed timestamp never moves backwards, and a command moves it only to a time below every
  mutation of every intent that is still prepared.\<close>

theorem closed_timestamp_fence:
  assumes "shard_reachable blake3 b m w" and "u64_succ (sm_applied_index m) = Some index"
    and "command_fits command" and "\<not> is_cutover m command"
    and "apply_committed blake3 term index command (m, w) = (r, (m', w'))"
  shows "(\<forall>t. sm_closed_timestamp m = Some t \<longrightarrow> (\<exists>t' \<ge> t. sm_closed_timestamp m' = Some t')) \<and>
    (sm_closed_timestamp m' \<noteq> sm_closed_timestamp m \<longrightarrow>
       (\<exists>t'. sm_closed_timestamp m' = Some t' \<and> \<not> closed_timestamp_fenced (sm_active_intents m') t'))"
  by (rule fjs.closed_timestamp_step [OF reachable_ok fjall_next_index [OF reachable_ok]]) (rule assms)+

text \<open>C37.  A prewrite that reaches the log after its transaction was finalized on this shard is not
  turned into a committed rejection: applying it fails with an error and changes nothing, so the
  entry fails in the same way whenever it is applied again and the replica cannot pass it.\<close>

theorem late_prewrite_blocks:
  assumes "shard_reachable blake3 b m w" and "u64_succ (sm_applied_index m) = Some index"
    and "validate_command blake3 m (PrewriteIntent c) = Inr ()"
    and "map_of (sm_active_intents m) (pi_transaction_id (pw_intent c)) = None"
    and "length (sm_active_intents m) < max_transaction_intent_items"
    and "sc_meta (fr_contents w) (transaction_state_metadata_name (pi_transaction_id (pw_intent c))) \<noteq> None"
  shows "apply_committed blake3 term index (PrewriteIntent c) (m, w) =
    (Inl (CorruptIntentHistory ''new prewrite contradicts existing durable transaction state''), (m, w))"
  by (rule fjs.late_prewrite_stuck [OF reachable_ok])
    (use assms u64_succ_Some word_succ_less in \<open>force intro: order_less_imp_le\<close>)+

text \<open>C34.  Over a store whose commits succeed, every well-formed committed command that needs no intent
  (a plain commit, a new single-shard transaction whose history fits the page budget, an advance
  of the closed timestamp, a snapshot marker, a migration step before the cutover) is applied or
  rejected at its index, and the applied index reaches it.\<close>

theorem committed_command_applied:
  assumes "shard_reachable blake3 b m w" and "fr_faults w = []"
    and "u64_succ (sm_applied_index m) = Some index" and "term \<noteq> 0"
    and "command_fits command" and "self_contained m w command"
  shows "\<exists>out m' w'. apply_committed blake3 term index command (m, w) = (Inr out, (m', w')) \<and>
    fr_faults w' = [] \<and> sm_applied_index m' = index"
proof -
  note ok = reachable_ok [OF assms(1)]
  have "\<not> is_cutover m command"
    using assms(6) by (auto simp: self_contained_def is_cutover_def split: shard_command.splits)
  then show ?thesis
    by (rule fjh.apply_committed_live [OF fjs.machine_ok_placed [OF ok] assms(2) fjall_next_index [OF ok assms(3)]
        assms(4,5) _ self_contained_decided [OF ok assms(6)]])
qed

section \<open>Examples\<close>

definition example_machine :: "fjall_replica shard_machine" where
  "example_machine =
     \<lparr>sm_binding = example_binding, sm_state_store = fjall_store length_hash example_binding,
      sm_applied_index = 0, sm_closed_timestamp = None, sm_active_intents = [], sm_migration_state_stores = []\<rparr>"

definition example_command_header :: command_header where
  "example_command_header =
     \<lparr>ch_command_id = Ident128 7, ch_placement_epoch = Ident 4, ch_backend_generation = Ident 6\<rparr>"

definition example_write :: "u128 \<Rightarrow> transaction_time \<Rightarrow> shard_command" where
  "example_write tx start = CommitSingleShardTransaction
     \<lparr>cst_header = example_command_header, cst_transaction_id = Ident128 tx, cst_start_time = start,
      cst_snapshot_applied_index = 0, cst_request_digest = 1, cst_mutations = [PutVertex (sample_vertex 5)]\<rparr>"

lemma empty_contents:
  "fr_contents (empty_replica b) = \<lparr>sc_applied = 0, sc_log = [], sc_meta = (\<lambda>_. None), sc_identity = (\<lambda>_. None)\<rparr>"
  by (simp add: fr_contents_def empty_replica_def db_contents_def db_applied_def db_meta_def db_identity_def fun_eq_iff)

lemma example_reachable: "shard_reachable length_hash example_binding example_machine (empty_replica example_binding)"
proof -
  have ok: "fjall_machine_ok length_hash example_binding example_machine (empty_replica example_binding)"
    by (simp add: machine_ok_def example_machine_def empty_replica_wf empty_contents fresh_coherent)
  from restart_same [OF ok] show ?thesis
    by (intro boot [where w = "empty_replica example_binding"])
      (simp_all add: fresh_store_def empty_replica_wf empty_contents example_machine_def)
qed

lemma example_write_ok:
  "command_wf length_hash (example_write tx start)" "command_fits (example_write tx start)"
  "\<not> is_cutover m (example_write tx start)"
  "command_mutations length_hash (example_write tx start) = Inr [PutVertex (sample_vertex 5)]"
  if "tx \<noteq> 0" "0 \<le> start" "start < 5"
  using that
  by (simp_all add: example_write_def example_command_header_def header_wf_def ident128_ok_def ident_ok_def time_ok_def
      sample_vertex_def interval_ok_def i64_ok_def i64_max_def properties_wf_def cst_validate_def
      validate_intent_mutations_def max_transaction_intent_items_def is_put_transaction_def is_put_metadata_def
      mutation_transaction_time_def validate_commit_follows_start_def command_fits_def is_cutover_def)

lemma example_write_valid:
  assumes "tx \<noteq> 0" "0 \<le> start" "start < 5" and m: "sm_binding m = example_binding"
  shows "validate_command length_hash m (example_write tx start) = Inr ()"
  using example_write_ok(4) [OF assms(1-3)]
  by (simp add: validate_command_def Let_def example_write_def example_command_header_def m example_binding_def
      is_cutover_def command_intent_def command_snapshot_index_def validate_closed_timestamp_def)

lemma example_write_receipt:
  "\<exists>md. single_shard_transaction_metadata (case example_write tx start of CommitSingleShardTransaction c \<Rightarrow> c) = Inr md \<and>
     rm_name md = receipt_name (Ident128 tx)"
  by (simp add: example_write_def single_shard_transaction_metadata_def graph_mutation_time_def replica_metadata_new_def
      single_shard_transaction_metadata_name_def receipt_name_def)

lemma first_write:
  "\<exists>w md batch. shard_reachable length_hash example_binding (example_machine\<lparr>sm_applied_index := 1\<rparr>) w \<and>
     fr_faults w = [] \<and> rm_name md = receipt_name (Ident128 3) \<and>
     cb_mutations batch = [PutVertex (sample_vertex 5), PutReplicaMetadata md] \<and> cb_raft_index batch = 1 \<and>
     fr_contents w = add_batch batch (fr_contents (empty_replica example_binding)) \<and>
     (\<exists>out. apply_committed length_hash 1 1 (example_write 3 1) (example_machine, empty_replica example_binding) =
       (Inr out, (example_machine\<lparr>sm_applied_index := 1\<rparr>, w)))"
proof -
  let ?w = "empty_replica example_binding" and ?c = "example_write 3 1"
  have b: "sm_binding example_machine = example_binding" by (simp add: example_machine_def)
  have val: "validate_command length_hash example_machine ?c = Inr ()" by (simp add: example_write_valid b)
  obtain md where md: "single_shard_transaction_metadata (case ?c of CommitSingleShardTransaction c \<Rightarrow> c) = Inr md"
    "rm_name md = receipt_name (Ident128 3)" using example_write_receipt [of 3 1] by blast
  have "validate_transaction_acceptance length_hash ?c example_machine ?w = (Inr NoTransition, ?w)"
    using md
    by (simp add: example_write_def validate_transaction_acceptance_def single_shard_transaction_is_durable_def
        fjs.metadata_call [OF empty_replica_wf] eff_bind_app example_machine_def empty_contents
        validate_write_conflicts_def for_each_change_def)
  from accepted_step [OF example_reachable _ _ _ example_write_ok(1,2,3) val this, of 1 1 "[PutVertex (sample_vertex 5)]" "[PutReplicaMetadata md]"]
    example_write_ok(4) [of 3 1] md
  show ?thesis
    by (auto simp: empty_replica_def example_machine_def u64_succ_def extra_mutations_def example_write_def
        closed_after_def next_intents_def)
qed

theorem restart_transparent_witness:
  "\<exists>m w. sm_applied_index m = 1 \<and> shard_machine_new length_hash example_binding (fjall_store length_hash example_binding) w =
     (Inr (m\<lparr>sm_migration_state_stores := []\<rparr>), w)"
proof -
  from first_write obtain w where "shard_reachable length_hash example_binding (example_machine\<lparr>sm_applied_index := 1\<rparr>) w"
    by blast
  from restart_transparent [OF this] show ?thesis
    by (intro exI [of _ "example_machine\<lparr>sm_applied_index := 1\<rparr>"] exI [of _ w]) simp
qed

text \<open>A second writer from the same snapshot.\<close>

lemma second_write:
  "\<exists>m w out m' w'. shard_reachable length_hash example_binding m w \<and> sm_applied_index m = 1 \<and> sm_active_intents m = [] \<and>
     sm_binding m = example_binding \<and>
     (\<exists>md batch. rm_name md = receipt_name (Ident128 3) \<and>
        cb_mutations batch = [PutVertex (sample_vertex 5), PutReplicaMetadata md] \<and> cb_raft_index batch = 1 \<and>
        fr_contents w = add_batch batch (fr_contents (empty_replica example_binding))) \<and>
     apply_committed length_hash 1 2 (example_write 4 2) (m, w) = (Inr out, (m', w'))"
proof -
  from first_write obtain w md batch where r: "shard_reachable length_hash example_binding (example_machine\<lparr>sm_applied_index := 1\<rparr>) w"
    and h: "fr_faults w = []" and md: "rm_name md = receipt_name (Ident128 3)"
    and batch: "cb_mutations batch = [PutVertex (sample_vertex 5), PutReplicaMetadata md]" "cb_raft_index batch = 1"
    and c: "fr_contents w = add_batch batch (fr_contents (empty_replica example_binding))" by blast
  let ?m = "example_machine\<lparr>sm_applied_index := 1\<rparr>"
  have "self_contained ?m w (example_write 4 2)"
    using md batch c length_filter_le [of "\<lambda>c. 0 < cc_raft_index (cr_cursor c)" "batch_changes batch"]
    by (simp add: self_contained_def example_write_def empty_contents meta_step_def history_fits_def history_record_budget_def)
  from live_step [OF r h _ _ example_write_ok(1,2,3) self_contained_decided [OF reachable_ok [OF r] this], of 2 1]
  obtain out m' w' where "apply_committed length_hash 1 2 (example_write 4 2) (?m, w) = (Inr out, (m', w'))"
    by (auto simp: u64_succ_def)
  with r md batch c show ?thesis
    by (intro exI [of _ ?m] exI [of _ w] exI [of _ out] exI [of _ m'] exI [of _ w'])
      (auto simp: example_machine_def)
qed

theorem first_committer_wins_witness:
  "\<exists>(m :: fjall_replica shard_machine) w out m' w'. apply_committed length_hash 1 2 (example_write 4 2) (m, w) = (Inr out, (m', w')) \<and>
     ao_rejection out = Some RejWriteConflict"
proof -
  from second_write obtain m w out m' w' md batch where
    r: "shard_reachable length_hash example_binding m w" "sm_applied_index m = 1" "sm_active_intents m = []"
      "sm_binding m = example_binding"
    and md: "rm_name md = receipt_name (Ident128 3)"
    and batch: "cb_mutations batch = [PutVertex (sample_vertex 5), PutReplicaMetadata md]" "cb_raft_index batch = 1"
    and c: "fr_contents w = add_batch batch (fr_contents (empty_replica example_binding))"
    and run: "apply_committed length_hash 1 2 (example_write 4 2) (m, w) = (Inr out, (m', w'))" by blast
  have log: "sc_log (fr_contents w) = batch_changes batch" using c by (simp add: empty_contents)
  have nw: "new_writer (sm_active_intents m) (sc_meta (fr_contents w)) (example_write 4 2) =
      Some (Ident128 4, 2, 0, [PutVertex (sample_vertex 5)])"
    using c md batch by (simp add: new_writer_def example_write_def empty_contents meta_step_def)
  have fit: "history_fits 0 (sc_log (fr_contents w))"
    using batch length_filter_le [of "\<lambda>c. 0 < cc_raft_index (cr_cursor c)" "batch_changes batch"]
    by (simp add: log history_fits_def history_record_budget_def)
  have "write_conflict (sm_active_intents m) (sc_log (fr_contents w)) (Ident128 4) 2 0 [PutVertex (sample_vertex 5)]"
    by (simp add: log write_conflict_def batch_changes_def batch conflicting_change_def change_cursor_new_def
        graph_mutation_time_def sample_vertex_def mutations_conflict_def graph_write_def
        overlaps_def List.map_filter_simps)
  with first_committer_wins [OF r(1) _ _ _ nw fit run] r example_write_ok(2) example_write_valid [of 4 2 m]
  have "ao_rejection out = Some RejWriteConflict" by (simp add: u64_succ_def)
  with run show ?thesis by blast
qed

theorem decisions_write_once_witness:
  "\<exists>m w r m' w' md. apply_committed length_hash 1 2 (example_write 4 2) (m, w) = (r, (m', w')) \<and>
     sc_meta (fr_contents w) (receipt_name (Ident128 3)) = Some md \<and>
     sc_meta (fr_contents w') (receipt_name (Ident128 3)) = Some md"
proof -
  from second_write obtain m w out m' w' md batch where
    r: "shard_reachable length_hash example_binding m w" "sm_applied_index m = 1"
    and md: "rm_name md = receipt_name (Ident128 3)"
    and batch: "cb_mutations batch = [PutVertex (sample_vertex 5), PutReplicaMetadata md]"
    and c: "fr_contents w = add_batch batch (fr_contents (empty_replica example_binding))"
    and run: "apply_committed length_hash 1 2 (example_write 4 2) (m, w) = (Inr out, (m', w'))" by blast
  have some: "sc_meta (fr_contents w) (receipt_name (Ident128 3)) = Some md" using c md batch by (simp add: meta_step_def)
  have "settled (sm_active_intents m) (receipt_name (Ident128 3))" by (auto simp: settled_def)
  from decisions_write_once [OF r(1) _ _ _ run this some] r(2) example_write_ok(2) example_write_ok(3) [of 4 2 m]
  have "sc_meta (fr_contents w') (receipt_name (Ident128 3)) = Some md" by (simp add: u64_succ_def)
  with some run show ?thesis by blast
qed

definition example_advance :: shard_command where
  "example_advance = AdvanceClosedTimestamp \<lparr>ac_header = example_command_header, ac_closed_timestamp = 9\<rparr>"

lemma example_advance_run:
  "\<exists>out m' w'. apply_committed length_hash 1 1 example_advance (example_machine, empty_replica example_binding) =
     (Inr out, (m', w'))"
proof -
  have self: "self_contained example_machine (empty_replica example_binding) example_advance"
    by (simp add: self_contained_def example_advance_def)
  have "command_wf length_hash example_advance" "command_fits example_advance" "\<not> is_cutover example_machine example_advance"
    by (simp_all add: example_advance_def header_wf_def example_command_header_def ident128_ok_def ident_ok_def
        time_ok_def i64_max_def command_fits_def is_cutover_def)
  from live_step [OF example_reachable _ _ _ this self_contained_decided [OF reachable_ok [OF example_reachable] self], of 1 1]
  show ?thesis by (auto simp: empty_replica_def example_machine_def u64_succ_def)
qed

theorem closed_timestamp_fence_witness:
  "\<exists>r m' w'. apply_committed length_hash 1 1 example_advance (example_machine, empty_replica example_binding) = (r, (m', w')) \<and>
     (sm_closed_timestamp m' \<noteq> None \<longrightarrow>
       (\<exists>t'. sm_closed_timestamp m' = Some t' \<and> \<not> closed_timestamp_fenced (sm_active_intents m') t'))"
proof -
  obtain r m' w' where run: "apply_committed length_hash 1 1 example_advance (example_machine, empty_replica example_binding) =
      (r, (m', w'))" using example_advance_run by blast
  have "u64_succ (sm_applied_index example_machine) = Some 1" "command_fits example_advance"
    "\<not> is_cutover example_machine example_advance" "sm_closed_timestamp example_machine = None"
    by (simp_all add: example_machine_def example_advance_def u64_succ_def command_fits_def is_cutover_def)
  with closed_timestamp_fence [OF example_reachable _ _ _ run] run show ?thesis by auto
qed

theorem committed_command_applied_witness:
  "\<exists>out m' w'. apply_committed length_hash 1 1 (example_write 3 1) (example_machine, empty_replica example_binding) =
     (Inr out, (m', w')) \<and> fr_faults w' = [] \<and> sm_applied_index m' = 1"
  by (rule committed_command_applied [OF example_reachable])
    (simp_all add: empty_replica_def example_machine_def u64_succ_def command_fits_def self_contained_def
      example_write_def empty_contents [unfolded empty_replica_def] history_fits_def)

text \<open>A transaction that is prepared and then aborted.\<close>

definition example_intent :: participant_intent where
  "example_intent =
     \<lparr>pi_transaction_id = Ident128 3, pi_shard_id = Ident 3, pi_start_time = 1, pi_snapshot_applied_index = 0,
      pi_mutations = [PutVertex (sample_vertex 5)]\<rparr>"

definition example_record :: "transaction_state \<Rightarrow> transaction_record" where
  "example_record state =
     \<lparr>tr_id = Ident128 3, tr_state = state, tr_transaction_time = 1,
      tr_record_digest = (case intent_digest length_hash example_intent of Inl _ \<Rightarrow> 0 | Inr d \<Rightarrow> d)\<rparr>"

definition example_prewrite :: prewrite_intent where
  "example_prewrite =
     \<lparr>pw_header = example_command_header, pw_prepared = example_record Prepared, pw_intent = example_intent\<rparr>"

definition example_abort :: finalize_participant where
  "example_abort =
     \<lparr>fp_header = example_command_header, fp_terminal = example_record Aborted, fp_intent = None\<rparr>"

lemma example_intent_fields [simp]:
  "pi_transaction_id example_intent = Ident128 3" "pi_shard_id example_intent = Ident 3"
  "pi_start_time example_intent = 1" "pi_snapshot_applied_index example_intent = 0"
  by (simp_all add: example_intent_def)

lemma example_intent_encodes: "\<exists>bs. intent_encode example_intent = Inr bs"
  by (simp add: intent_encode_def example_intent_def sample_vertex_def validate_intent_mutations_def
      max_transaction_intent_items_def is_put_transaction_def is_put_metadata_def mutation_transaction_time_def
      enc_mutations_def enc_count_def budget_consume_def enc_mutation_def enc_interval_def enc_properties_def
      enc_push_def enc_bytes_def enc_field_def encoder_finish_def max_command_bytes_def max_collection_items_def
      max_allocation_items_def max_transaction_intent_bytes_def Let_def intent_prefix_def)

lemma example_intent_digest:
  obtains d where "intent_digest length_hash example_intent = Inr d" "d \<noteq> 0"
    "\<And>state. example_record state = \<lparr>tr_id = Ident128 3, tr_state = state, tr_transaction_time = 1, tr_record_digest = d\<rparr>"
proof -
  obtain bs where bs: "intent_encode example_intent = Inr bs" using example_intent_encodes by blast
  define n where "n = length (str_bytes ''dtg-transaction-participant-intent-v3'' @ bs)"
  have n: "0 < n" "n < 2 ^ 256" using intent_encode_length [OF bs] by (simp_all add: n_def str_bytes_simps)
  then have "unat (word_of_nat n :: digest32) = n" by (simp add: unat_of_nat)
  with n(1) have "(word_of_nat n :: digest32) \<noteq> 0" by (metis less_irrefl unat_0)
  with bs show ?thesis by (intro that) (simp_all add: intent_digest_def length_hash_def example_record_def n_def)
qed

lemma example_intent_wf: "intent_wf example_intent"
  using example_intent_encodes
  by (auto simp: intent_wf_def example_intent_def ident128_ok_def ident_ok_def time_ok_def sample_vertex_def
      interval_ok_def i64_ok_def i64_max_def properties_wf_def)

lemma example_records_wf: "transaction_wf (example_record state)"
  by (rule example_intent_digest) (simp add: transaction_wf_def ident128_ok_def time_ok_def i64_max_def)

lemma example_prewrite_ok:
  "prewrite_validate length_hash example_prewrite = Inr ()"
  "\<exists>md. prewrite_mutations length_hash example_prewrite = Inr [PutTransaction (example_record Prepared), PutReplicaMetadata md]"
proof -
  obtain bs where bs: "intent_encode example_intent = Inr bs" using example_intent_encodes by blast
  show v: "prewrite_validate length_hash example_prewrite = Inr ()"
    by (rule example_intent_digest) (simp add: prewrite_validate_def example_prewrite_def bs)
  with bs show "\<exists>md. prewrite_mutations length_hash example_prewrite = Inr [PutTransaction (example_record Prepared), PutReplicaMetadata md]"
    by (simp add: prewrite_mutations_def) (simp add: example_prewrite_def intent_metadata_def replica_metadata_new_def)
qed

lemma example_pair:
  assumes "\<And>t. terminal = Some t \<Longrightarrow> t = example_record Aborted" and "active = [] \<or> active = [(Ident128 3, example_intent)]"
  shows "\<exists>smd amd. intent_metadata_pair length_hash example_intent terminal active = Inr [PutReplicaMetadata smd, PutReplicaMetadata amd] \<and>
    rm_name smd = transaction_state_metadata_name (Ident128 3) \<and> rm_name amd = active_transaction_intents_metadata_name"
proof -
  obtain bs where bs: "intent_encode example_intent = Inr bs" using example_intent_encodes by blast
  obtain d where d: "intent_digest length_hash example_intent = Inr d"
    "\<And>state. example_record state = \<lparr>tr_id = Ident128 3, tr_state = state, tr_transaction_time = 1, tr_record_digest = d\<rparr>"
    using example_intent_digest by metis
  have "\<exists>smd. transaction_state_metadata length_hash example_intent terminal = Inr smd"
    using assms(1) d bs
    by (cases terminal) (simp_all add: transaction_state_metadata_def validate_intent_terminal_def replica_metadata_new_def
        transaction_state_metadata_name_def transaction_state_metadata_prefix_def)
  moreover have "\<exists>amd. active_intents_metadata length_hash active = Inr amd"
    using assms(2) d by (auto simp: active_intents_metadata_def enc_active_entries_def max_transaction_intent_items_def
        replica_metadata_new_def active_transaction_intents_metadata_name_def)
  ultimately show ?thesis
    by (fastforce simp: intent_metadata_pair_Inr dest: state_metadata_name active_metadata_name)
qed

definition prepared_machine :: "fjall_replica shard_machine" where
  "prepared_machine = example_machine\<lparr>sm_applied_index := 1, sm_active_intents := [(Ident128 3, example_intent)]\<rparr>"

lemma example_prewrite_valid:
  assumes "sm_binding m = example_binding"
  shows "validate_command length_hash m (PrewriteIntent example_prewrite) = Inr ()"
  using assms example_prewrite_ok(2)
  by (auto simp: validate_command_def Let_def is_cutover_def command_intent_def command_snapshot_index_def
      validate_closed_timestamp_def) (simp_all add: example_prewrite_def example_command_header_def example_binding_def)

lemma example_prepared:
  "\<exists>w. shard_reachable length_hash example_binding prepared_machine w \<and> fr_faults w = []"
proof -
  let ?w = "empty_replica example_binding" and ?c = "PrewriteIntent example_prewrite"
  have b: "sm_binding example_machine = example_binding" by (simp add: example_machine_def)
  obtain md where ms: "prewrite_mutations length_hash example_prewrite = Inr [PutTransaction (example_record Prepared), PutReplicaMetadata md]"
    using example_prewrite_ok(2) by blast
  obtain smd amd where ex: "intent_metadata_pair length_hash example_intent None [(Ident128 3, example_intent)] =
      Inr [PutReplicaMetadata smd, PutReplicaMetadata amd]" using example_pair by blast
  have tx: "pw_intent example_prewrite = example_intent" by (simp add: example_prewrite_def)
  have acc: "validate_transaction_acceptance length_hash ?c example_machine ?w = (Inr (PrepareIntent example_intent), ?w)"
    by (simp add: validate_transaction_acceptance_def accept_prewrite_def Let_def tx durable_transaction_state_def
        example_machine_def eff_bind_app fjs.metadata_call [OF empty_replica_wf] empty_contents
        validate_write_conflicts_def for_each_change_def max_transaction_intent_items_def)
  have wf: "command_wf length_hash ?c" "command_fits ?c" "\<not> is_cutover example_machine ?c"
    using example_intent_wf example_records_wf example_prewrite_ok(1)
    by (simp_all add: command_fits_def is_cutover_def)
      (simp add: example_prewrite_def example_command_header_def header_wf_def ident128_ok_def ident_ok_def)
  from accepted_step [OF example_reachable _ _ _ wf example_prewrite_valid [OF b] acc, of 1 1] ms ex show ?thesis
    by (auto simp: empty_replica_def example_machine_def u64_succ_def extra_mutations_def next_intents_def Let_def tx
        prepared_machine_def closed_after_def)
qed

lemma example_abort_step:
  assumes r: "shard_reachable length_hash example_binding m w" and h: "fr_faults w = []"
    and act: "sm_active_intents m = [(Ident128 3, example_intent)]" and b: "sm_binding m = example_binding"
    and idx: "u64_succ (sm_applied_index m) = Some index"
  shows "\<exists>m' w' batch. shard_reachable length_hash example_binding m' w' \<and> m' = m\<lparr>sm_applied_index := index, sm_active_intents := []\<rparr> \<and>
     cb_raft_index batch = index \<and> fr_contents w' = add_batch batch (fr_contents w) \<and>
     sc_meta (fr_contents w') (transaction_state_metadata_name (Ident128 3)) \<noteq> None"
proof -
  let ?c = "FinalizeParticipant example_abort"
  obtain d where d: "intent_digest length_hash example_intent = Inr d"
    "\<And>state. example_record state = \<lparr>tr_id = Ident128 3, tr_state = state, tr_transaction_time = 1, tr_record_digest = d\<rparr>"
    using example_intent_digest by metis
  obtain smd amd where ex: "intent_metadata_pair length_hash example_intent (Some (example_record Aborted)) [] =
      Inr [PutReplicaMetadata smd, PutReplicaMetadata amd]"
    and names: "rm_name smd = transaction_state_metadata_name (Ident128 3)" "rm_name amd = active_transaction_intents_metadata_name"
    using example_pair [of "Some (example_record Aborted)" "[]"] by auto
  have f: "fp_terminal example_abort = example_record Aborted" "fp_intent example_abort = None"
    "fp_header example_abort = example_command_header" by (simp_all add: example_abort_def)
  have fin: "finalize_validate length_hash example_abort = Inr ()" by (simp add: finalize_validate_def f d(2))
  have val: "validate_command length_hash m ?c = Inr ()"
    by (simp add: validate_command_def Let_def is_cutover_def command_intent_def command_snapshot_index_def f
        validate_closed_timestamp_def finalize_mutations_def fin b example_command_header_def example_binding_def)
  have acc: "validate_transaction_acceptance length_hash ?c m w = (Inr (FinalizeIntent (Ident128 3) example_intent), w)"
    using d by (simp add: validate_transaction_acceptance_def accept_finalize_def Let_def f act eff_bind_app
        validate_intent_terminal_def)
  have wf: "command_wf length_hash ?c" "command_fits ?c" "\<not> is_cutover m ?c"
    using example_records_wf fin
    by (simp_all add: f command_fits_def is_cutover_def example_command_header_def header_wf_def ident128_ok_def ident_ok_def)
  from accepted_step [OF r h idx _ wf val acc, of 1 "[PutTransaction (example_record Aborted)]"
      "[PutReplicaMetadata smd, PutReplicaMetadata amd]"] ex fin
  obtain w' batch where "shard_reachable length_hash example_binding (m\<lparr>sm_applied_index := index, sm_active_intents := []\<rparr>) w'"
    and c: "cb_mutations batch = [PutTransaction (example_record Aborted), PutReplicaMetadata smd, PutReplicaMetadata amd]"
      "cb_raft_index batch = index" "fr_contents w' = add_batch batch (fr_contents w)"
    by (auto simp: act extra_mutations_def next_intents_def Let_def f d(2) closed_after_def finalize_mutations_def bm_remove_def)
  moreover have "sc_meta (fr_contents w') (transaction_state_metadata_name (Ident128 3)) = Some smd"
    using c names by (simp add: meta_step_def)
  ultimately show ?thesis by blast
qed

lemma example_aborted:
  "\<exists>m w. shard_reachable length_hash example_binding m w \<and> sm_applied_index m = 2 \<and> sm_active_intents m = [] \<and>
     sm_binding m = example_binding \<and>
     sc_meta (fr_contents w) (transaction_state_metadata_name (Ident128 3)) \<noteq> None"
proof -
  obtain w where "shard_reachable length_hash example_binding prepared_machine w" "fr_faults w = []"
    using example_prepared by blast
  moreover have p: "sm_active_intents prepared_machine = [(Ident128 3, example_intent)]" "sm_binding prepared_machine = example_binding"
    "u64_succ (sm_applied_index prepared_machine) = Some 2"
    by (simp_all add: prepared_machine_def example_machine_def u64_succ_def)
  ultimately obtain m' w' where "shard_reachable length_hash example_binding m' w'"
    "m' = prepared_machine\<lparr>sm_applied_index := 2, sm_active_intents := []\<rparr>"
    "sc_meta (fr_contents w') (transaction_state_metadata_name (Ident128 3)) \<noteq> None"
    using example_abort_step by metis
  with p(2) show ?thesis by (intro exI [of _ m'] exI [of _ w']) simp
qed

theorem late_prewrite_blocks_witness:
  "\<exists>(m :: fjall_replica shard_machine) w. sm_applied_index m = 2 \<and>
     apply_committed length_hash 1 3 (PrewriteIntent example_prewrite) (m, w) =
       (Inl (CorruptIntentHistory ''new prewrite contradicts existing durable transaction state''), (m, w))"
proof -
  from example_aborted obtain m w where r: "shard_reachable length_hash example_binding m w" "sm_applied_index m = 2"
    "sm_active_intents m = []" "sm_binding m = example_binding"
    "sc_meta (fr_contents w) (transaction_state_metadata_name (Ident128 3)) \<noteq> None" by blast
  have "apply_committed length_hash 1 3 (PrewriteIntent example_prewrite) (m, w) =
       (Inl (CorruptIntentHistory ''new prewrite contradicts existing durable transaction state''), (m, w))"
    by (rule late_prewrite_blocks [OF r(1)])
      (use r example_prewrite_valid in \<open>simp_all add: u64_succ_def example_prewrite_def max_transaction_intent_items_def\<close>)
  with r(2) show ?thesis by blast
qed

end
