(* ===== verification/Shard_Batch.thy ===== *)
theory Shard_Batch
  imports Shard_Props
begin

text \<open>
  Group application: committing a run of single-shard transactions in one write of the store has
  the outcome of applying them one after the other.
\<close>

section \<open>Stores with atomic batches\<close>

locale atomic_store = healthy_store store blake3 wf contents healthy
  for store :: "'w state_store" and blake3 :: "byte list \<Rightarrow> digest32"
    and wf :: "'w \<Rightarrow> bool" and contents :: "'w \<Rightarrow> store_contents" and healthy :: "'w \<Rightarrow> bool" +
  assumes store_apply_batches_live:
    "wf w \<Longrightarrow> healthy w \<Longrightarrow> bs \<noteq> [] \<Longrightarrow> (\<And>b. b \<in> set bs \<Longrightarrow> batch_ok blake3 (ss_binding store) b) \<Longrightarrow>
     chained (sc_applied (contents w)) bs \<Longrightarrow>
     \<exists>w'. ss_apply_batches store bs w = (Inr (map (\<lambda>b. apply_receipt_new b False) bs), w')"

interpretation fja: atomic_store "fjall_store blake3 b" blake3 "fr_wf b" fr_contents "\<lambda>w. fr_faults w = []"
  for blake3 :: "byte list \<Rightarrow> digest32" and b :: replica_binding
proof
  fix w bs
  assume wf: "fr_wf b w" and h: "fr_faults w = []" and ne: "bs \<noteq> []"
    and ok: "\<And>x. x \<in> set bs \<Longrightarrow> batch_ok blake3 (ss_binding (fjall_store blake3 b)) x"
    and chain: "chained (sc_applied (fr_contents w)) bs"
  obtain rs w' where run: "apply_batches_sync blake3 bs w = (rs, w')" by fastforce
  from apply_chain_commit [OF wf ne _ _ run] ok chain obtain ws st where
    "eff_bind (commit_writes (chain_writes w ws bs)) (\<lambda>_. eff_ret (map (\<lambda>x. apply_receipt_new x False) bs)) w = (rs, w')"
    by (auto simp: fjall_store_def fr_contents_def db_contents_def)
  with h run show "\<exists>w'. ss_apply_batches (fjall_store blake3 b) bs w = (Inr (map (\<lambda>b. apply_receipt_new b False) bs), w')"
    by (auto simp: commit_writes_def eff_bind_app fjall_store_def)
qed

section \<open>Conflicts\<close>

lemma extents_conflict_sym: "extents_conflict x y = extents_conflict y x"
  by (cases x; cases y) (simp_all add: overlaps_sym)

lemma mutations_conflict_sym: "mutations_conflict xs ys = mutations_conflict ys xs"
  unfolding mutations_conflict_def list_ex_iff using extents_conflict_sym by metis

lemma mutations_conflict_mono: "set ys \<subseteq> set zs \<Longrightarrow> mutations_conflict xs ys \<Longrightarrow> mutations_conflict xs zs"
  by (fastforce simp: mutations_conflict_def list_ex_iff List.map_filter_def)

lemma metadata_no_conflict [simp]: "\<not> mutations_conflict xs [PutReplicaMetadata md]"
  by (simp add: mutations_conflict_def List.map_filter_simps graph_write_def list_ex_iff)

section \<open>One transaction of a run\<close>

definition transaction_batch ::
    "(byte list \<Rightarrow> digest32) \<Rightarrow> replica_binding \<Rightarrow> u64 \<Rightarrow> u64 \<Rightarrow> commit_single_shard_transaction
      \<Rightarrow> replica_metadata \<Rightarrow> committed_shard_batch" where
  "transaction_batch blake3 b term index c md =
     \<lparr>cb_binding = b, cb_raft_term = term, cb_raft_index = index, cb_command_id = ch_command_id (cst_header c),
      cb_mutation_digest = digest_mutations blake3 (cst_mutations c @ [PutReplicaMetadata md]),
      cb_mutations = cst_mutations c @ [PutReplicaMetadata md]\<rparr>"

lemma transaction_batch_new:
  "term \<noteq> 0 \<Longrightarrow> index \<noteq> 0 \<Longrightarrow>
     committed_shard_batch_new blake3 b term index (ch_command_id (cst_header c)) (cst_mutations c @ [PutReplicaMetadata md]) =
     Inr (transaction_batch blake3 b term index c md)"
  by (simp add: committed_shard_batch_new_def transaction_batch_def)

lemma transaction_batch_simps [simp]:
  "cb_raft_index (transaction_batch blake3 b term index c md) = index"
  "cb_mutations (transaction_batch blake3 b term index c md) = cst_mutations c @ [PutReplicaMetadata md]"
  by (simp_all add: transaction_batch_def)

lemma cst_graph: "cst_validate c = Inr u \<Longrightarrow> list_all graph_mutation (cst_mutations c) \<and> length (cst_mutations c) \<le> 4096"
  by (auto simp: cst_validate_def result_simps validate_intent_mutations_def max_transaction_intent_items_def
      intro!: validated_graph split: if_splits)

lemma graph_metas: "list_all graph_mutation ms \<Longrightarrow> metas_after ms f = f"
proof (induction ms arbitrary: f)
  case (Cons x ms)
  then show ?case by (cases x) (simp_all add: meta_step_def graph_mutation_def is_put_metadata_def)
qed simp

context atomic_store
begin

lemma cst_acceptance:
  assumes pl: "placed m w" and val: "validate_command blake3 m (CommitSingleShardTransaction c) = Inr ()"
    and none: "sc_meta (contents w) (receipt_name (cst_transaction_id c)) = None"
    and fit: "history_fits (cst_snapshot_applied_index c) (sc_log (contents w))"
  shows "validate_transaction_acceptance blake3 (CommitSingleShardTransaction c) m w =
    (if write_conflict (sm_active_intents m) (sc_log (contents w)) (cst_transaction_id c) (cst_start_time c)
          (cst_snapshot_applied_index c) (cst_mutations c)
     then Inl WriteConflictS else Inr NoTransition, w)"
proof -
  have "cst_snapshot_applied_index c \<le> sc_applied (contents w)"
    using val pl by (auto simp: validate_command_def Let_def placed_def command_snapshot_index_def split: if_splits)
  note exact = write_conflicts_exact [OF placed_simps(4,2,1,3) [OF pl] this fit, of "cst_transaction_id c" "cst_start_time c" "cst_mutations c"]
  from val have "\<exists>u. cst_validate c = Inr u" by (auto simp: validate_command_def Let_def result_simps split: if_splits)
  then obtain md where md: "single_shard_transaction_metadata c = Inr md" using committed_metadata_exists by blast
  with none receipt_metadata_name [OF md] have "sc_meta (contents w) (rm_name md) = None" by simp
  with md exact show ?thesis
    by (simp add: validate_transaction_acceptance_def single_shard_transaction_is_durable_def eff_bind_app
        metadata_call placed_simps [OF pl])
qed

lemma accepted_receipt_none:
  assumes pl: "placed m w" and acc: "validate_transaction_acceptance blake3 (CommitSingleShardTransaction c) m w = (Inr NoTransition, w)"
  shows "sc_meta (contents w) (receipt_name (cst_transaction_id c)) = None"
proof -
  obtain md where md: "single_shard_transaction_metadata c = Inr md"
    using acc by (cases "single_shard_transaction_metadata c")
      (auto simp: validate_transaction_acceptance_def single_shard_transaction_is_durable_def)
  with acc receipt_metadata_name [OF md] show ?thesis
    by (cases "sc_meta (contents w) (rm_name md)")
      (auto simp: validate_transaction_acceptance_def single_shard_transaction_is_durable_def eff_bind_app
        metadata_call placed_simps [OF pl] corrupt_def split: if_splits sum.splits)
qed

lemma transaction_batch_ok:
  assumes "cst_validate c = Inr u" and "term \<noteq> 0" "index \<noteq> 0"
  shows "batch_ok blake3 (ss_binding store) (transaction_batch blake3 (ss_binding store) term index c md)"
  using cst_graph [OF assms(1)] assms(2,3)
  by (simp add: batch_ok_def transaction_batch_def committed_shard_batch_validate_def len_ok_def)

lemma transaction_step:
  assumes ok: "machine_ok blake3 store wf contents m w" and h: "healthy w" and idx: "next_index index w"
    and tm: "term \<noteq> 0" and wfc: "command_wf blake3 (CommitSingleShardTransaction c)"
    and val: "validate_command blake3 m (CommitSingleShardTransaction c) = Inr ()"
    and acc: "validate_transaction_acceptance blake3 (CommitSingleShardTransaction c) m w = (Inr NoTransition, w)"
    and md: "single_shard_transaction_metadata c = Inr md"
  defines "batch \<equiv> transaction_batch blake3 (ss_binding store) term index c md"
  shows "\<exists>w'. apply_committed blake3 term index (CommitSingleShardTransaction c) (m, w) =
      (Inr (outcome_of (apply_receipt_new batch False) False None (ss_binding store)), (m\<lparr>sm_applied_index := index\<rparr>, w')) \<and>
    healthy w' \<and> contents w' = add_batch batch (contents w) \<and>
    machine_ok blake3 store wf contents (m\<lparr>sm_applied_index := index\<rparr>) w'"
proof -
  let ?c = "CommitSingleShardTransaction c"
  have pl: "placed m w" by (rule machine_ok_placed [OF ok])
  have less: "sm_applied_index m < index" using idx placed_simps(3) [OF pl] word_succ_less by (auto simp: next_index_def)
  then have nz: "index \<noteq> 0" by auto
  from wfc have cv: "cst_validate c = Inr ()" by simp
  have bok: "batch_ok blake3 (ss_binding store) batch" unfolding batch_def by (rule transaction_batch_ok [OF cv tm nz])
  have chain: "chained (sc_applied (contents w)) [batch]" using idx by (simp add: next_index_def batch_def)
  from store_apply_live [OF placed_simps(4) [OF pl] h bok chain] obtain w' where
    ap: "ss_apply store batch w = (Inr (apply_receipt_new batch False), w')" and h': "healthy w'" by blast
  from store_apply_new [OF placed_simps(4) [OF pl] bok chain ap] have c': "contents w' = add_batch batch (contents w)" by simp
  have b: "apply_batch blake3 term index (ch_command_id (cst_header c)) (cst_mutations c @ [PutReplicaMetadata md]) m w =
      (Inr (apply_receipt_new batch False), w')"
    using ap by (simp add: apply_batch_def transaction_batch_new [OF tm nz] placed_simps [OF pl] store_call_def batch_def)
  have run: "apply_committed blake3 term index ?c (m, w) =
      (Inr (outcome_of (apply_receipt_new batch False) False None (ss_binding store)), (m\<lparr>sm_applied_index := index\<rparr>, w'))"
    using val acc b less md cv placed_simps(1) [OF pl]
    by (simp add: apply_committed_def is_cutover_def on_self_app apply_accepted_def eff_bind_app extra_mutations_def
        accept_receipt_def advance_applied_def next_intents_def Let_def max_def batch_def is_intent_command_def)
  have fits: "command_fits ?c" "\<not> is_cutover m ?c" by (simp_all add: command_fits_def is_cutover_def)
  from apply_committed_ok [OF ok idx wfc fits run] run h' c' show ?thesis by blast
qed

end

section \<open>Runs of transactions\<close>

type_synonym log_entry = "u64 \<times> u64 \<times> shard_command"

fun entry_transaction :: "log_entry \<Rightarrow> commit_single_shard_transaction option" where
  "entry_transaction (term, index, command) = (case command of CommitSingleShardTransaction c \<Rightarrow> Some c | _ \<Rightarrow> None)"

text \<open>The entries that the group path collects into one write.\<close>

fun batchable ::
    "(byte list \<Rightarrow> digest32) \<Rightarrow> 'w shard_machine \<Rightarrow> 'w \<Rightarrow> u64 \<Rightarrow> transaction_id list \<Rightarrow> logical_mutation list
      \<Rightarrow> log_entry list \<Rightarrow> bool" where
  "batchable blake3 m w idx tids prior [] = True"
| "batchable blake3 m w idx tids prior ((term, index, command) # es) = (case command of
     CommitSingleShardTransaction c \<Rightarrow>
       index = idx \<and> term \<noteq> 0 \<and> cst_transaction_id c \<notin> set tids \<and> validate_command blake3 m command = Inr () \<and>
       fst (validate_transaction_acceptance blake3 command m w) = Inr NoTransition \<and>
       \<not> mutations_conflict prior (cst_mutations c) \<and>
       batchable blake3 m w (sat_succ idx) (cst_transaction_id c # tids) (prior @ cst_mutations c) es
   | _ \<Rightarrow> False)"

fun entry_batch :: "(byte list \<Rightarrow> digest32) \<Rightarrow> replica_binding \<Rightarrow> log_entry \<Rightarrow> committed_shard_batch" where
  "entry_batch blake3 b (term, index, command) = (case command of CommitSingleShardTransaction c \<Rightarrow>
     transaction_batch blake3 b term index c (projr (single_shard_transaction_metadata c)))"

definition entry_size :: "log_entry \<Rightarrow> nat" where
  "entry_size e = (case entry_transaction e of None \<Rightarrow> 0 | Some c \<Rightarrow> length (cst_mutations c) + 1)"

text \<open>Every transaction of the run can still read its history after the others of the run.\<close>

definition run_fits :: "change_record list \<Rightarrow> log_entry list \<Rightarrow> bool" where
  "run_fits log es = (\<forall>e \<in> set es. \<forall>c. entry_transaction e = Some c \<longrightarrow>
     length (filter (\<lambda>x. cst_snapshot_applied_index c < cc_raft_index (cr_cursor x)) log) +
       sum_list (map entry_size es) \<le> history_record_budget)"

context atomic_store
begin

lemma sat_succ_nonzero: "i \<noteq> 0 \<Longrightarrow> sat_succ i \<noteq> 0"
  by (auto simp: sat_succ_def add_eq_0_iff2)

lemma collect_exact:
  assumes pl: "placed m w"
  shows "bp_expected_index p \<noteq> 0 \<Longrightarrow>
    if batchable blake3 m w (bp_expected_index p) (bp_transaction_ids p) (bp_prior_mutations p) es
    then \<exists>p'. eff_loop (collect_transaction blake3 m) p es w = (Inr (Inr p'), w) \<and>
      bp_batches p' = bp_batches p @ map (entry_batch blake3 (ss_binding store)) es
    else eff_loop (collect_transaction blake3 m) p es w = (Inr (Inl ()), w)"
proof (induction es arbitrary: p)
  case (Cons e es)
  obtain tm index command where e: "e = (tm, index, command)" by (cases e) auto
  have ro: "snd (validate_transaction_acceptance blake3 command m w) = w" by (rule acceptance_read_only [OF pl])
  show ?case
  proof (cases "\<exists>c. command = CommitSingleShardTransaction c")
    case True
    then obtain c where c: "command = CommitSingleShardTransaction c" by blast
    define q where "q = \<lparr>bp_expected_index = sat_succ (bp_expected_index p), bp_prior_mutations = bp_prior_mutations p @ cst_mutations c,
        bp_transaction_ids = cst_transaction_id c # bp_transaction_ids p,
        bp_batches = bp_batches p @ [entry_batch blake3 (ss_binding store) e]\<rparr>"
    show ?thesis
    proof (cases "index = bp_expected_index p \<and> tm \<noteq> 0 \<and> cst_transaction_id c \<notin> set (bp_transaction_ids p) \<and>
        validate_command blake3 m command = Inr () \<and>
        fst (validate_transaction_acceptance blake3 command m w) = Inr NoTransition \<and>
        \<not> mutations_conflict (bp_prior_mutations p) (cst_mutations c)")
      case go: True
      then have acc: "validate_transaction_acceptance blake3 command m w = (Inr NoTransition, w)"
        using ro by (metis prod.collapse)
      from go c have "\<exists>u. cst_validate c = Inr u"
        by (auto simp: validate_command_def Let_def result_simps split: if_splits)
      then obtain md where md: "single_shard_transaction_metadata c = Inr md" using committed_metadata_exists by blast
      have nz: "index \<noteq> 0" using go Cons.prems by simp
      have "collect_transaction blake3 m p e w = (Inr (Inr q), w)"
        using go acc md c e transaction_batch_new [of tm index blake3 "ss_binding store" c md] nz
        by (simp add: collect_transaction_def eff_bind_app placed_simps [OF pl] q_def)
      then have one: "eff_loop (collect_transaction blake3 m) p (e # es) w = eff_loop (collect_transaction blake3 m) q es w"
        by (simp add: eff_bind_app)
      have q: "bp_expected_index q = sat_succ (bp_expected_index p)" "bp_transaction_ids q = cst_transaction_id c # bp_transaction_ids p"
        "bp_prior_mutations q = bp_prior_mutations p @ cst_mutations c"
        "bp_batches q = bp_batches p @ [entry_batch blake3 (ss_binding store) e]" by (simp_all add: q_def)
      from Cons.IH [of q] sat_succ_nonzero [OF Cons.prems] show ?thesis
        unfolding one using go c e q by (simp split: if_splits)
    next
      case False
      then have "collect_transaction blake3 m p e w = (Inr (Inl ()), w)"
        using c e ro by (cases "validate_transaction_acceptance blake3 command m w")
          (auto simp: collect_transaction_def is_ok_iff)
      with False c e show ?thesis by auto
    qed
  next
    case False
    with e show ?thesis by (cases command) (simp_all add: collect_transaction_def)
  qed
qed simp

text \<open>The state after some transactions of the run, relative to the state before it.\<close>

definition ahead ::
    "'w shard_machine \<Rightarrow> 'w \<Rightarrow> transaction_id list \<Rightarrow> logical_mutation list \<Rightarrow> nat \<Rightarrow> 'w \<Rightarrow> bool" where
  "ahead m w tids prior n v =
     (machine_ok blake3 store wf contents (m\<lparr>sm_applied_index := sc_applied (contents v)\<rparr>) v \<and> healthy v \<and>
      sm_applied_index m \<le> sc_applied (contents v) \<and>
      (\<forall>tx. tx \<notin> set tids \<longrightarrow> sc_meta (contents v) (receipt_name tx) = sc_meta (contents w) (receipt_name tx)) \<and>
      (\<exists>ext. sc_log (contents v) = sc_log (contents w) @ ext \<and> length ext = n \<and>
        (\<forall>x. \<forall>c \<in> set ext. mutations_conflict x [cr_mutation c] \<longrightarrow> mutations_conflict prior x)))"

lemma later_valid:
  assumes "validate_command blake3 m (CommitSingleShardTransaction c) = Inr ()" and "sm_applied_index m \<le> i"
  shows "validate_command blake3 (m\<lparr>sm_applied_index := i\<rparr>) (CommitSingleShardTransaction c) = Inr ()"
proof -
  from assms(1) have s: "\<not> sm_applied_index m < cst_snapshot_applied_index c"
    by (auto simp: validate_command_def Let_def command_snapshot_index_def split: if_splits)
  then have "\<not> i < cst_snapshot_applied_index c" using assms(2) by (meson not_less order_trans)
  with s assms(1) show ?thesis
    by (simp add: validate_command_def Let_def is_cutover_def command_intent_def command_snapshot_index_def
        validate_closed_timestamp_def split: if_splits)
qed

lemma later_acceptance:
  assumes pl: "placed m w" and ah: "ahead m w tids prior n v"
    and val: "validate_command blake3 m (CommitSingleShardTransaction c) = Inr ()"
    and acc: "fst (validate_transaction_acceptance blake3 (CommitSingleShardTransaction c) m w) = Inr NoTransition"
    and tx: "cst_transaction_id c \<notin> set tids" and prior: "\<not> mutations_conflict prior (cst_mutations c)"
    and fit: "length (filter (\<lambda>x. cst_snapshot_applied_index c < cc_raft_index (cr_cursor x)) (sc_log (contents w))) + n \<le> history_record_budget"
  shows "validate_transaction_acceptance blake3 (CommitSingleShardTransaction c) (m\<lparr>sm_applied_index := sc_applied (contents v)\<rparr>) v =
    (Inr NoTransition, v)"
proof -
  let ?m = "m\<lparr>sm_applied_index := sc_applied (contents v)\<rparr>" and ?s = "cst_snapshot_applied_index c"
  have acc': "validate_transaction_acceptance blake3 (CommitSingleShardTransaction c) m w = (Inr NoTransition, w)"
    using acc acceptance_read_only [OF pl] by (metis prod.collapse)
  from ah obtain ext where ext: "sc_log (contents v) = sc_log (contents w) @ ext" "length ext = n"
    "\<And>x c. c \<in> set ext \<Longrightarrow> mutations_conflict x [cr_mutation c] \<Longrightarrow> mutations_conflict prior x"
    and ok: "machine_ok blake3 store wf contents ?m v" and le: "sm_applied_index m \<le> sc_applied (contents v)"
    and meta: "sc_meta (contents v) (receipt_name (cst_transaction_id c)) = sc_meta (contents w) (receipt_name (cst_transaction_id c))"
    using tx unfolding ahead_def by blast
  have fits: "history_fits ?s (sc_log (contents w))" using fit by (simp add: history_fits_def)
  have fits': "history_fits ?s (sc_log (contents v))"
    using fit ext(2) length_filter_le [of "\<lambda>x. ?s < cc_raft_index (cr_cursor x)" ext] by (simp add: history_fits_def ext(1))
  have none: "sc_meta (contents w) (receipt_name (cst_transaction_id c)) = None" by (rule accepted_receipt_none [OF pl acc'])
  have old: "\<not> write_conflict (sm_active_intents m) (sc_log (contents w)) (cst_transaction_id c) (cst_start_time c) ?s (cst_mutations c)"
    using cst_acceptance [OF pl val none fits] acc' by (auto split: if_splits)
  have "\<not> list_ex (conflicting_change ?s (cst_start_time c) (cst_mutations c)) ext"
    using ext(3) prior by (auto simp: list_ex_iff conflicting_change_def)
  with old have "\<not> write_conflict (sm_active_intents m) (sc_log (contents v)) (cst_transaction_id c) (cst_start_time c) ?s (cst_mutations c)"
    by (simp add: write_conflict_def ext(1))
  with cst_acceptance [OF machine_ok_placed [OF ok] later_valid [OF val le] _ fits'] none meta show ?thesis by simp
qed

lemma ahead_step:
  assumes pl: "placed m w" and ah: "ahead m w tids prior n v" and idx: "sc_applied (contents v) \<noteq> - 1"
    "index = sc_applied (contents v) + 1" and tm: "tm \<noteq> 0" and wfc: "command_wf blake3 (CommitSingleShardTransaction c)"
    and val: "validate_command blake3 m (CommitSingleShardTransaction c) = Inr ()"
    and acc: "fst (validate_transaction_acceptance blake3 (CommitSingleShardTransaction c) m w) = Inr NoTransition"
    and tx: "cst_transaction_id c \<notin> set tids" and prior: "\<not> mutations_conflict prior (cst_mutations c)"
    and fit: "length (filter (\<lambda>x. cst_snapshot_applied_index c < cc_raft_index (cr_cursor x)) (sc_log (contents w))) + n \<le> history_record_budget"
  defines "batch \<equiv> entry_batch blake3 (ss_binding store) (tm, index, CommitSingleShardTransaction c)"
  shows "\<exists>v'. apply_committed blake3 tm index (CommitSingleShardTransaction c) (m\<lparr>sm_applied_index := sc_applied (contents v)\<rparr>, v) =
      (Inr (outcome_of (apply_receipt_new batch False) False None (ss_binding store)), (m\<lparr>sm_applied_index := sc_applied (contents v')\<rparr>, v')) \<and>
    contents v' = add_batch batch (contents v) \<and>
    ahead m w (cst_transaction_id c # tids) (prior @ cst_mutations c) (n + length (cst_mutations c) + 1) v'"
proof -
  let ?m = "m\<lparr>sm_applied_index := sc_applied (contents v)\<rparr>"
  from ah obtain ext where ext: "sc_log (contents v) = sc_log (contents w) @ ext" "length ext = n"
    "\<And>x c. c \<in> set ext \<Longrightarrow> mutations_conflict x [cr_mutation c] \<Longrightarrow> mutations_conflict prior x"
    and ok: "machine_ok blake3 store wf contents ?m v" and h: "healthy v" and le: "sm_applied_index m \<le> sc_applied (contents v)"
    and meta: "\<And>tx. tx \<notin> set tids \<Longrightarrow> sc_meta (contents v) (receipt_name tx) = sc_meta (contents w) (receipt_name tx)"
    unfolding ahead_def by blast
  from wfc have cv: "cst_validate c = Inr ()" by simp
  then obtain md where md: "single_shard_transaction_metadata c = Inr md" using committed_metadata_exists by blast
  have b: "batch = transaction_batch blake3 (ss_binding store) tm index c md" by (simp add: batch_def md)
  have ni: "next_index index v" using idx by (simp add: next_index_def)
  from transaction_step [OF ok h ni tm wfc later_valid [OF val le] later_acceptance [OF pl ah val acc tx prior fit] md]
  obtain v' where run: "apply_committed blake3 tm index (CommitSingleShardTransaction c) (?m, v) =
      (Inr (outcome_of (apply_receipt_new batch False) False None (ss_binding store)), (m\<lparr>sm_applied_index := index\<rparr>, v'))"
    and v': "healthy v'" "contents v' = add_batch batch (contents v)"
      "machine_ok blake3 store wf contents (m\<lparr>sm_applied_index := index\<rparr>) v'" by (auto simp: b)
  have ap: "sc_applied (contents v') = index" by (simp add: v'(2) b)
  have le': "sm_applied_index m \<le> index" using le idx word_succ_less by (meson less_imp_le order_trans)
  have graph: "list_all graph_mutation (cst_mutations c)" using cst_graph [OF cv] by simp
  have "mutations_conflict (prior @ cst_mutations c) x"
    if "y \<in> set (ext @ batch_changes batch)" "mutations_conflict x [cr_mutation y]" for x y
  proof (cases "y \<in> set ext")
    case True
    from ext(3) [OF this that(2)] show ?thesis using mutations_conflict_mono [of prior "prior @ cst_mutations c" x]
      by (simp add: mutations_conflict_sym)
  next
    case False
    with that(1) have "cr_mutation y \<in> set (cst_mutations c @ [PutReplicaMetadata md])"
      using batch_changes_mutations [of batch] by (metis Un_iff b imageI list.set_map set_append transaction_batch_simps(2))
    with that(2) have "cr_mutation y \<in> set (cst_mutations c)" by auto
    with that(2) mutations_conflict_mono [of "[cr_mutation y]" "prior @ cst_mutations c" x] show ?thesis
      by (simp add: mutations_conflict_sym)
  qed
  moreover have "sc_log (contents v') = sc_log (contents w) @ (ext @ batch_changes batch)" by (simp add: v'(2) ext(1))
  moreover have "sc_meta (contents v') (receipt_name tx) = sc_meta (contents w) (receipt_name tx)"
    if "tx \<notin> set (cst_transaction_id c # tids)" for tx
    using that meta [of tx] receipt_metadata_name [OF md] by (simp add: v'(2) b graph_metas [OF graph] meta_step_def)
  ultimately have "ahead m w (cst_transaction_id c # tids) (prior @ cst_mutations c) (n + length (cst_mutations c) + 1) v'"
    unfolding ahead_def using v' ap le' ext(2) by (auto simp: b intro!: exI [of _ "ext @ batch_changes batch"])
  with run v' ap show ?thesis by auto
qed

lemma succ_room:
  fixes a :: u64
  assumes "unat a + Suc n < 2 ^ 64"
  shows "a \<noteq> - 1" "unat (a + 1) + n < 2 ^ 64" "sat_succ a = a + 1"
proof -
  show a: "a \<noteq> - 1" using assms by (auto simp: unsigned_minus_1_eq_mask mask_eq_exp_minus_1)
  with assms show "unat (a + 1) + n < 2 ^ 64" by (simp add: unat_succ_word)
  show "sat_succ a = a + 1" using a by (simp add: sat_succ_def)
qed

lemma sequential_run:
  assumes pl: "placed m w"
  shows "ahead m w tids prior n v \<Longrightarrow> unat (sc_applied (contents v)) + length es < 2 ^ 64 \<Longrightarrow>
    batchable blake3 m w (sat_succ (sc_applied (contents v))) tids prior es \<Longrightarrow>
    (\<And>e. e \<in> set es \<Longrightarrow> command_wf blake3 (snd (snd e))) \<Longrightarrow>
    (\<And>e c. e \<in> set es \<Longrightarrow> entry_transaction e = Some c \<Longrightarrow>
       length (filter (\<lambda>x. cst_snapshot_applied_index c < cc_raft_index (cr_cursor x)) (sc_log (contents w))) + n +
         sum_list (map entry_size es) \<le> history_record_budget) \<Longrightarrow>
    \<exists>v'. apply_sequential blake3 es (m\<lparr>sm_applied_index := sc_applied (contents v)\<rparr>, v) =
      (Inr (map (\<lambda>e. outcome_of (apply_receipt_new (entry_batch blake3 (ss_binding store) e) False) False None (ss_binding store)) es),
       (m\<lparr>sm_applied_index := sc_applied (contents v')\<rparr>, v')) \<and>
      contents v' = fold add_batch (map (entry_batch blake3 (ss_binding store)) es) (contents v)"
proof (induction es arbitrary: tids prior n v)
  case Nil
  then show ?case by (auto simp: apply_sequential_def)
next
  case (Cons e es)
  obtain tm index command where e: "e = (tm, index, command)" by (cases e) auto
  have room: "sc_applied (contents v) \<noteq> - 1" "sat_succ (sc_applied (contents v)) = sc_applied (contents v) + 1"
    using succ_room [of "sc_applied (contents v)" "length es"] Cons.prems(2) by simp_all
  from Cons.prems(3) e obtain c where c: "command = CommitSingleShardTransaction c"
    by (cases command) auto
  from Cons.prems(3) e c have b: "index = sc_applied (contents v) + 1" "tm \<noteq> 0" "cst_transaction_id c \<notin> set tids"
    "validate_command blake3 m (CommitSingleShardTransaction c) = Inr ()"
    "fst (validate_transaction_acceptance blake3 (CommitSingleShardTransaction c) m w) = Inr NoTransition"
    "\<not> mutations_conflict prior (cst_mutations c)"
    and rest: "batchable blake3 m w (sat_succ (sat_succ (sc_applied (contents v)))) (cst_transaction_id c # tids)
      (prior @ cst_mutations c) es" by (simp_all add: room)
  have wfc: "command_wf blake3 (CommitSingleShardTransaction c)" using Cons.prems(4) [of e] e c by simp
  have size: "entry_size e = length (cst_mutations c) + 1" using e c by (simp add: entry_size_def)
  have fit: "length (filter (\<lambda>x. cst_snapshot_applied_index c < cc_raft_index (cr_cursor x)) (sc_log (contents w))) + n \<le> history_record_budget"
    using Cons.prems(5) [of e c] e c by simp
  from ahead_step [OF pl Cons.prems(1) room(1) b(1,2) wfc b(4,5,3,6) fit] e c obtain v' where
    run: "apply_committed blake3 tm index command (m\<lparr>sm_applied_index := sc_applied (contents v)\<rparr>, v) =
      (Inr (outcome_of (apply_receipt_new (entry_batch blake3 (ss_binding store) e) False) False None (ss_binding store)),
       (m\<lparr>sm_applied_index := sc_applied (contents v')\<rparr>, v'))"
    and c': "contents v' = add_batch (entry_batch blake3 (ss_binding store) e) (contents v)"
    and ah: "ahead m w (cst_transaction_id c # tids) (prior @ cst_mutations c) (n + length (cst_mutations c) + 1) v'"
    by blast
  have ap: "sc_applied (contents v') = sat_succ (sc_applied (contents v))" using c' e c b(1) room by simp
  have "\<exists>v''. apply_sequential blake3 es (m\<lparr>sm_applied_index := sc_applied (contents v')\<rparr>, v') =
      (Inr (map (\<lambda>e. outcome_of (apply_receipt_new (entry_batch blake3 (ss_binding store) e) False) False None (ss_binding store)) es),
       (m\<lparr>sm_applied_index := sc_applied (contents v'')\<rparr>, v'')) \<and>
      contents v'' = fold add_batch (map (entry_batch blake3 (ss_binding store)) es) (contents v')"
  proof (rule Cons.IH [OF ah])
    show "unat (sc_applied (contents v')) + length es < 2 ^ 64"
      using succ_room(2) [of "sc_applied (contents v)" "length es"] Cons.prems(2) ap room by simp
    show "batchable blake3 m w (sat_succ (sc_applied (contents v'))) (cst_transaction_id c # tids) (prior @ cst_mutations c) es"
      using rest ap by simp
    show "command_wf blake3 (snd (snd e'))" if "e' \<in> set es" for e' using that Cons.prems(4) by simp
    show "length (filter (\<lambda>x. cst_snapshot_applied_index c' < cc_raft_index (cr_cursor x)) (sc_log (contents w))) +
        (n + length (cst_mutations c) + 1) + sum_list (map entry_size es) \<le> history_record_budget"
      if "e' \<in> set es" "entry_transaction e' = Some c'" for e' c'
      using that Cons.prems(5) [of e' c'] size by simp
  qed
  with run c' e show ?case by (auto simp: apply_sequential_def eff_bind_app)
qed

lemma batchable_chained:
  assumes "\<And>e. e \<in> set es \<Longrightarrow> command_wf blake3 (snd (snd e))"
  shows "batchable blake3 m w (sat_succ a) tids prior es \<Longrightarrow> unat a + length es < 2 ^ 64 \<Longrightarrow>
    chained a (map (entry_batch blake3 (ss_binding store)) es) \<and>
    (\<forall>b \<in> set (map (entry_batch blake3 (ss_binding store)) es). batch_ok blake3 (ss_binding store) b)"
  using assms
proof (induction es arbitrary: a tids prior)
  case (Cons e es)
  obtain tm index command where e: "e = (tm, index, command)" by (cases e) auto
  have room: "a \<noteq> - 1" "unat (a + 1) + length es < 2 ^ 64" "sat_succ a = a + 1"
    using succ_room [of a "length es"] Cons.prems(2) by simp_all
  from Cons.prems(1) e obtain c where c: "command = CommitSingleShardTransaction c" by (cases command) auto
  from Cons.prems(1) e c room have b: "index = a + 1" "tm \<noteq> 0"
    and rest: "batchable blake3 m w (sat_succ (a + 1)) (cst_transaction_id c # tids) (prior @ cst_mutations c) es" by simp_all
  have "cst_validate c = Inr ()" using Cons.prems(3) [of e] e c by simp
  moreover have "index \<noteq> 0" using b(1) room(1) word_succ_less [of a] by auto
  ultimately have "batch_ok blake3 (ss_binding store) (entry_batch blake3 (ss_binding store) e)"
    using transaction_batch_ok b(2) e c by simp
  with Cons.IH [OF rest room(2)] Cons.prems(3) b(1) room e c show ?case by simp
qed simp

theorem batch_exact:
  assumes ok: "machine_ok blake3 store wf contents m w" and h: "healthy w"
    and room: "unat (sm_applied_index m) + length es < 2 ^ 64"
    and cwf: "\<And>e. e \<in> set es \<Longrightarrow> command_wf blake3 (snd (snd e))"
    and fit: "run_fits (sc_log (contents w)) es"
  shows "\<exists>v v'. snd (snd (apply_committed_batch blake3 es (m, w))) = v \<and> snd (snd (apply_sequential blake3 es (m, w))) = v' \<and>
    fst (apply_committed_batch blake3 es (m, w)) = fst (apply_sequential blake3 es (m, w)) \<and>
    fst (snd (apply_committed_batch blake3 es (m, w))) = fst (snd (apply_sequential blake3 es (m, w))) \<and>
    contents v = contents v'"
proof (cases "length es < 2 \<or> \<not> ss_supports_atomic_batch_apply (sm_state_store m) \<or>
    \<not> batchable blake3 m w (sat_succ (sm_applied_index m)) [] [] es")
  case True
  have pl: "placed m w" by (rule machine_ok_placed [OF ok])
  let ?p = "\<lparr>bp_expected_index = sat_succ (sm_applied_index m), bp_prior_mutations = [], bp_transaction_ids = [], bp_batches = []\<rparr>"
  have "sat_succ (sm_applied_index m) \<noteq> 0" by (auto simp: sat_succ_def add_eq_0_iff2)
  with collect_exact [OF pl, of ?p es] True
  have "apply_committed_batch blake3 es (m, w) = apply_sequential blake3 es (m, w)"
    by (auto simp: apply_committed_batch_def try_apply_single_shard_transaction_batch_def eff_bind_app on_self_app)
  then show ?thesis by simp
next
  case False
  have pl: "placed m w" by (rule machine_ok_placed [OF ok])
  let ?p = "\<lparr>bp_expected_index = sat_succ (sm_applied_index m), bp_prior_mutations = [], bp_transaction_ids = [], bp_batches = []\<rparr>"
  let ?bs = "map (entry_batch blake3 (ss_binding store)) es"
  let ?out = "\<lambda>e. outcome_of (apply_receipt_new (entry_batch blake3 (ss_binding store) e) False) False None (ss_binding store)"
  have "sat_succ (sm_applied_index m) \<noteq> 0" by (auto simp: sat_succ_def add_eq_0_iff2)
  with collect_exact [OF pl, of ?p es] False obtain p' where
    col: "eff_loop (collect_transaction blake3 m) ?p es w = (Inr (Inr p'), w)" and bs: "bp_batches p' = ?bs" by auto
  have bt: "batchable blake3 m w (sat_succ (sc_applied (contents w))) [] [] es"
    using False placed_simps(3) [OF pl] by simp
  have ne: "?bs \<noteq> []" using False by auto
  have room': "unat (sc_applied (contents w)) + length es < 2 ^ 64" using room placed_simps(3) [OF pl] by simp
  from batchable_chained [OF cwf bt room'] have chain: "chained (sc_applied (contents w)) ?bs"
    and bok: "\<And>b. b \<in> set ?bs \<Longrightarrow> batch_ok blake3 (ss_binding store) b" by blast+
  from store_apply_batches_live [OF placed_simps(4) [OF pl] h ne bok chain] obtain v where
    ap: "ss_apply_batches store ?bs w = (Inr (map (\<lambda>b. apply_receipt_new b False) ?bs), v)" by blast
  from store_apply_batches [OF placed_simps(4) [OF pl] ne bok chain ap] have cv: "contents v = fold add_batch ?bs (contents w)" by simp
  have last: "sc_applied (fold add_batch bs c) = cb_raft_index (last bs)" if "bs \<noteq> []" for bs c
    using that by (induction bs arbitrary: c rule: list_nonempty_induct) auto
  have batch: "apply_committed_batch blake3 es (m, w) =
      (Inr (map ?out es), (m\<lparr>sm_applied_index := sc_applied (contents v)\<rparr>, v))"
    using False col bs ap ne placed_simps(1,2) [OF pl] last [OF ne, of "contents w"]
    by (simp add: apply_committed_batch_def try_apply_single_shard_transaction_batch_def eff_bind_app on_self_app
        store_call_def comp_def cv list_ex_iff last_map)
  have "ahead m w [] [] 0 w"
    using ok h placed_simps(3) [OF pl] by (simp add: ahead_def) (simp add: placed_simps(3) [OF pl, symmetric])
  from sequential_run [OF pl this room' bt cwf] fit obtain v' where
    "apply_sequential blake3 es (m\<lparr>sm_applied_index := sc_applied (contents w)\<rparr>, w) =
      (Inr (map ?out es), (m\<lparr>sm_applied_index := sc_applied (contents v')\<rparr>, v'))" "contents v' = fold add_batch ?bs (contents w)"
    by (auto simp: run_fits_def)
  with batch cv placed_simps(3) [OF pl] show ?thesis by (simp add: placed_simps(3) [OF pl, symmetric])
qed

end

section \<open>On the key-value store\<close>

text \<open>C12.  Group commit is invisible: applying committed entries as one group (in a single atomic write
  when they are independent single-shard transactions) gives the outcomes, the machine and the
  stored contents of applying them one at a time, over a store whose commits succeed and as long
  as the history budget admits every entry.\<close>

theorem group_apply_sequential:
  assumes "shard_reachable blake3 b m w" and "fr_faults w = []"
    and "unat (sm_applied_index m) + length es < 2 ^ 64"
    and "\<And>e. e \<in> set es \<Longrightarrow> command_wf blake3 (snd (snd e))"
    and "run_fits (sc_log (fr_contents w)) es"
    and "apply_committed_batch blake3 es (m, w) = (r1, (m1, w1))"
    and "apply_sequential blake3 es (m, w) = (r2, (m2, w2))"
  shows "r1 = r2 \<and> m1 = m2 \<and> fr_contents w1 = fr_contents w2"
  using fja.batch_exact [OF reachable_ok [OF assms(1)] assms(2,3,4,5)] assms(6,7) by simp

definition example_run :: "log_entry list" where
  "example_run = [(1, 1, example_write 3 1), (1, 2, CommitSingleShardTransaction
     \<lparr>cst_header = example_command_header, cst_transaction_id = Ident128 4, cst_start_time = 2,
      cst_snapshot_applied_index = 0, cst_request_digest = 1,
      cst_mutations = [PutVertex (sample_vertex 6 \<lparr>vv_id := Ident128 8\<rparr>)]\<rparr>)]"

theorem group_apply_sequential_witness:
  "\<exists>r m' w1 w2. apply_committed_batch length_hash example_run (example_machine, empty_replica example_binding) = (r, (m', w1)) \<and>
     apply_sequential length_hash example_run (example_machine, empty_replica example_binding) = (r, (m', w2)) \<and>
     fr_contents w1 = fr_contents w2"
proof -
  obtain r1 m1 w1 where one: "apply_committed_batch length_hash example_run (example_machine, empty_replica example_binding) = (r1, (m1, w1))"
    by (metis prod.exhaust)
  obtain r2 m2 w2 where two: "apply_sequential length_hash example_run (example_machine, empty_replica example_binding) = (r2, (m2, w2))"
    by (metis prod.exhaust)
  have wf: "command_wf length_hash (snd (snd e))" if "e \<in> set example_run" for e
    using that example_write_ok(1) [of 3 1]
    by (auto simp: example_run_def example_command_header_def header_wf_def ident128_ok_def ident_ok_def time_ok_def
      sample_vertex_def interval_ok_def i64_ok_def i64_max_def properties_wf_def cst_validate_def
      validate_intent_mutations_def max_transaction_intent_items_def is_put_transaction_def is_put_metadata_def
      mutation_transaction_time_def validate_commit_follows_start_def)
  have fit: "run_fits (sc_log (fr_contents (empty_replica example_binding))) example_run"
    by (simp add: run_fits_def empty_contents example_run_def entry_size_def example_write_def history_record_budget_def)
  have "r1 = r2 \<and> m1 = m2 \<and> fr_contents w1 = fr_contents w2"
    by (rule group_apply_sequential [OF example_reachable _ _ wf fit one two])
      (simp_all add: empty_replica_def example_machine_def example_run_def)
  with one two show ?thesis by blast
qed

end
