(* ===== verification/Shard_Paging.thy ===== *)
theory Shard_Paging
  imports Shard_Machine
begin

text \<open>
  The loop that pages through the change history, as the code writes it: a loop without a bound of
  its own whose page counter is checked in the body.  A computation that does not return is \<open>None\<close>.
\<close>

partial_function (option) change_loop ::
    "'w read_view \<Rightarrow> (change_record \<Rightarrow> (shard_error, unit) result) \<Rightarrow> u64 \<Rightarrow> change_cursor option \<Rightarrow> nat \<Rightarrow> nat
      \<Rightarrow> 'w \<Rightarrow> ((shard_error, unit) result \<times> 'w) option" where
  "change_loop view visit applied after pages records w =
     (if pages = history_page_budget then Some (corrupt ''durable change history exceeded the page budget'', w)
      else case of_storage (changes_read_new after applied history_page_limit) of
        Inl e \<Rightarrow> Some (Inl e, w)
      | Inr q \<Rightarrow> (case store_call (rv_changes view q) w of (r, w') \<Rightarrow> (case r of
          Inl e \<Rightarrow> Some (Inl e, w')
        | Inr page \<Rightarrow>
            if history_record_budget < records + length (cp_rows page)
            then Some (corrupt ''durable change history exceeded the record budget'', w')
            else (case visit_rows visit applied after (cp_rows page) of
              Inl e \<Rightarrow> Some (Inl e, w')
            | Inr _ \<Rightarrow> (case cp_next_after page of
                None \<Rightarrow> Some (Inr (), w')
              | Some nxt \<Rightarrow>
                  if page_progress after page nxt
                  then change_loop view visit applied (Some nxt) (Suc pages) (records + length (cp_rows page)) w'
                  else Some (corrupt ''durable change history pagination did not make progress'', w'))))))"

lemma change_loop_pages:
  "pages + n = history_page_budget \<Longrightarrow>
     change_loop view visit applied after pages records w = Some (visit_pages view visit applied n after records w)"
proof (induction n arbitrary: pages after records w)
  case 0
  then show ?case by (simp add: change_loop.simps)
next
  case (Suc n)
  then have "pages \<noteq> history_page_budget" and IH: "\<And>after records w. change_loop view visit applied after (Suc pages) records w =
      Some (visit_pages view visit applied n after records w)" by auto
  then show ?case
    by (subst change_loop.simps)
      (auto simp: eff_bind_app split: sum.splits prod.splits option.splits)
qed

text \<open>C38.  Paging through the change history always returns, for every store: even one that answers
  with pages that never end, repeat or go backwards.  The result is that of at most 256 pages.\<close>

theorem change_loop_terminates:
  "change_loop view visit applied after 0 0 w = Some (visit_pages view visit applied history_page_budget after 0 w)"
  by (rule change_loop_pages) simp

end
