(* ===== verification/Shard_Wal.thy ===== *)
theory Shard_Wal
  imports Shard_Machine
begin

text \<open>
  The write-ahead log of a shard replica (\<^verbatim>\<open>dtg-shard/src/raft_store.rs\<close>): Raft entries as the
  payloads of consensus entries, recovery of the committed suffix, and the \<open>Storage\<close> interface that
  the Raft library reads.  The library itself is external: of its message types only the fields
  that the code touches are here, and \<open>limit_size\<close> is a parameter.
\<close>

section \<open>The consensus store as a trait object\<close>

record 'c consensus_store =
  cs_binding :: replica_binding
  cs_append :: "consensus_entry list \<Rightarrow> ('c, storage_error, unit) eff"
  cs_entries :: "u64 \<Rightarrow> u64 \<Rightarrow> u64 \<Rightarrow> ('c, storage_error, consensus_entry list) eff"
  cs_truncate_suffix :: "u64 \<Rightarrow> ('c, storage_error, unit) eff"
  cs_hard_state :: "('c, storage_error, raft_hard_state) eff"
  cs_set_hard_state :: "raft_hard_state \<Rightarrow> ('c, storage_error, unit) eff"
  cs_membership :: "('c, storage_error, raft_membership) eff"
  cs_set_membership :: "raft_membership \<Rightarrow> ('c, storage_error, unit) eff"
  cs_snapshot_metadata :: "('c, storage_error, consensus_snapshot_metadata option) eff"
  cs_set_snapshot_metadata :: "consensus_snapshot_metadata \<Rightarrow> ('c, storage_error, unit) eff"
  cs_snapshot_install :: "('c, storage_error, snapshot_install option) eff"
  cs_stage_snapshot_install :: "snapshot_install \<Rightarrow> ('c, storage_error, unit) eff"
  cs_commit_snapshot_install :: "snapshot_install \<Rightarrow> ('c, storage_error, unit) eff"

definition fjall_consensus_store ::
    "(consensus_entry \<Rightarrow> u64) \<Rightarrow> replica_binding \<Rightarrow> fjall_consensus consensus_store" where
  "fjall_consensus_store entry_size b =
     \<lparr>cs_binding = b, cs_append = append_entries, cs_entries = log_entries entry_size,
      cs_truncate_suffix = truncate_suffix, cs_hard_state = hard_state,
      cs_set_hard_state = set_hard_state, cs_membership = membership,
      cs_set_membership = set_membership, cs_snapshot_metadata = snapshot_metadata,
      cs_set_snapshot_metadata = set_snapshot_metadata, cs_snapshot_install = snapshot_install_journal,
      cs_stage_snapshot_install = stage_snapshot_install,
      cs_commit_snapshot_install = commit_snapshot_install\<rparr>"

section \<open>Raft types\<close>

datatype entry_type = EntryNormal | EntryConfChange | EntryConfChangeV2

record raft_entry =
  re_entry_type :: entry_type
  re_term :: u64
  re_index :: u64
  re_data :: "byte list"
  re_context :: "byte list"

record raft_hs =
  rh_term :: u64
  rh_vote :: u64
  rh_commit :: u64

record raft_conf_state =
  rc_voters :: "u64 list"
  rc_learners :: "u64 list"

record raft_snapshot =
  rs_data :: "byte list"
  rs_index :: u64
  rs_term :: u64
  rs_conf_state :: raft_conf_state

datatype raft_error =
    Compacted
  | Unavailable
  | SnapshotTemporarilyUnavailable
  | OtherStorage storage_error
  | OtherShard shard_error
  | RaftFailure

section \<open>Log entries\<close>

definition max_raft_wal_entry_bytes :: nat where
  "max_raft_wal_entry_bytes = 16 * 1024 * 1024 + 1024"

definition put_bytes :: "byte list \<Rightarrow> byte list \<Rightarrow> (shard_error, byte list) result" where
  "put_bytes output v =
     (if 2 ^ 32 \<le> length v then Inl (InvalidRaftState ''Raft entry field is too large'')
      else Inr (output @ u32_be (word_of_nat (length v)) @ v))"

definition take_u32 :: "byte list \<Rightarrow> nat \<Rightarrow> (shard_error, u32 \<times> nat) result" where
  "take_u32 bytes offset =
     (if offset + 4 \<le> length bytes
      then Inr (u32_from_be (take 4 (drop offset bytes)), offset + 4)
      else Inl (InvalidRaftState ''truncated Raft WAL entry''))"

definition take_bytes :: "byte list \<Rightarrow> nat \<Rightarrow> (shard_error, byte list \<times> nat) result" where
  "take_bytes bytes offset =
     try_r (take_u32 bytes offset) (\<lambda>(n, start).
       if start + unat n \<le> length bytes
       then Inr (take (unat n) (drop start bytes), start + unat n)
       else Inl (InvalidRaftState ''truncated Raft WAL entry''))"

definition synthetic_id :: "u64 \<Rightarrow> u64 \<Rightarrow> u128" where
  "synthetic_id tm index = or (push_bit 64 (ucast tm)) (ucast index)"

definition entry_command_id ::
    "(byte list \<Rightarrow> digest32) \<Rightarrow> raft_entry \<Rightarrow> (shard_error, command_id) result" where
  "entry_command_id blake3 e =
     (if re_data e = [] then of_storage (command_id_new (synthetic_id (re_term e) (re_index e)))
      else try_r (shard_command_decode blake3 (re_data e)) (\<lambda>command.
        let cid = ch_command_id (command_header_of command) in
        if re_context e \<noteq> u128_be (ident128_get cid)
        then Inl (InvalidRaftState ''Raft proposal context does not match command identifier'')
        else Inr cid))"

definition entry_tag :: "entry_type \<Rightarrow> byte" where
  "entry_tag t = (case t of EntryNormal \<Rightarrow> 0 | EntryConfChange \<Rightarrow> 1 | EntryConfChangeV2 \<Rightarrow> 2)"

definition encode_consensus_entry ::
    "(byte list \<Rightarrow> digest32) \<Rightarrow> raft_entry \<Rightarrow> (shard_error, consensus_entry) result" where
  "encode_consensus_entry blake3 e =
     (if re_term e = 0 \<or> re_index e = 0
      then Inl (InvalidRaftState ''Raft WAL entry identity must be nonzero'')
      else if max_raft_wal_entry_bytes < 13 + length (re_context e) + length (re_data e)
      then Inl (InvalidRaftState ''Raft WAL entry is oversized'')
      else try_r (entry_command_id blake3 e) (\<lambda>cid.
        try_r (put_bytes (u32_be 1 @ [entry_tag (re_entry_type e)]) (re_context e)) (\<lambda>p.
        try_r (put_bytes p (re_data e)) (\<lambda>payload.
        try_r (of_storage (command_envelope_new blake3 1 payload)) (\<lambda>envelope.
          of_storage (consensus_entry_new 1 (re_term e) (re_index e) cid envelope))))))"

definition decode_raft_entry ::
    "(byte list \<Rightarrow> digest32) \<Rightarrow> consensus_entry \<Rightarrow> (shard_error, raft_entry) result" where
  "decode_raft_entry blake3 entry =
     (let payload = en_payload (ce_command entry) in
      if max_raft_wal_entry_bytes < length payload
      then Inl (InvalidRaftState ''Raft WAL entry is oversized'')
      else try_r (take_u32 payload 0) (\<lambda>(version, o1).
        if version \<noteq> 1 then Inl (InvalidRaftState ''unsupported internal Raft entry version'')
        else if length payload \<le> o1 then Inl (InvalidRaftState ''truncated Raft WAL entry'')
        else let tag = payload ! o1 in
          try_r (take_bytes payload (o1 + 1)) (\<lambda>(context, o2).
          try_r (take_bytes payload o2) (\<lambda>(data, o3).
          if o3 \<noteq> length payload then Inl (InvalidRaftState ''Raft WAL entry contains trailing bytes'')
          else
            try_r (if tag = 0 then Inr EntryNormal else if tag = 1 then Inr EntryConfChange
                   else if tag = 2 then Inr EntryConfChangeV2
                   else Inl (InvalidRaftState ''unknown Raft WAL entry type'')) (\<lambda>t.
            let e = \<lparr>re_entry_type = t, re_term = ce_term entry, re_index = ce_index entry,
                     re_data = data, re_context = context\<rparr> in
            try_r (entry_command_id blake3 e) (\<lambda>cid.
              if cid \<noteq> ce_command_id entry
              then Inl (InvalidRaftState ''Raft WAL command identifier mismatch'') else Inr e))))))"

section \<open>The Raft store\<close>

definition raft_store_new :: "'c consensus_store \<Rightarrow> (shard_error, 'c consensus_store) result" where
  "raft_store_new cs =
     (if rb_namespace_id (cs_binding cs) = [] then Inl BindingMismatch else Inr cs)"

definition snapshot_index_of :: "consensus_snapshot_metadata option \<Rightarrow> u64" where
  "snapshot_index_of s = (case s of None \<Rightarrow> 0 | Some x \<Rightarrow> csm_last_included_index x)"

text \<open>The entries have the consecutive indices from \<open>low\<close> on.\<close>

definition misplaced :: "u64 \<Rightarrow> consensus_entry list \<Rightarrow> bool" where
  "misplaced low es = list_ex (\<lambda>(offset, e). ce_index e \<noteq> low + word_of_nat offset) (zip [0..<length es] es)"

definition recovery_entries ::
    "(byte list \<Rightarrow> digest32) \<Rightarrow> 'c consensus_store \<Rightarrow> u64 \<Rightarrow> ('c, shard_error, raft_entry list) eff" where
  "recovery_entries blake3 cs applied =
     eff_bind (store_call (cs_hard_state cs)) (\<lambda>hs.
     eff_bind (store_call (cs_snapshot_metadata cs)) (\<lambda>snap.
       let snapshot_index = snapshot_index_of snap; committed = hs_committed_index hs in
       if applied < snapshot_index then eff_err (SnapshotStateMissing snapshot_index applied)
       else if committed < applied
       then eff_err (InvalidRaftState ''state machine applied index exceeds the committed WAL'')
       else if committed = applied then eff_ret []
       else let low = sat_succ applied in
         eff_bind (eff_of (ok_or (u64_succ committed)
           (InvalidRaftState ''committed index cannot be represented as a range''))) (\<lambda>high.
         eff_bind (store_call (cs_entries cs low high (- 1))) (\<lambda>entries.
           if word_of_nat (length entries) \<noteq> committed - applied \<or> misplaced low entries
           then eff_err (InvalidRaftState ''committed WAL suffix is missing or discontiguous'')
           else eff_of (try_map (decode_raft_entry blake3) entries)))))"

definition persist_entries ::
    "(byte list \<Rightarrow> digest32) \<Rightarrow> 'c consensus_store \<Rightarrow> raft_entry list \<Rightarrow> ('c, shard_error, unit) eff" where
  "persist_entries blake3 cs entries =
     eff_bind (eff_of (try_map (encode_consensus_entry blake3) entries)) (\<lambda>encoded.
       store_call (cs_append cs encoded))"

definition persist_hard_state ::
    "'c consensus_store \<Rightarrow> raft_hs \<Rightarrow> ('c, shard_error, unit) eff" where
  "persist_hard_state cs st =
     eff_bind (eff_of (if rh_vote st = 0 then Inr None
       else try_r (map_err (\<lambda>_. InvalidRaftState ''invalid Raft vote'') (ident_new (rh_vote st)))
         (\<lambda>r. Inr (Some r)))) (\<lambda>voted_for.
     store_call (cs_set_hard_state cs
       \<lparr>hs_current_term = rh_term st, hs_voted_for = voted_for, hs_committed_index = rh_commit st\<rparr>))"

definition wal_committed_index :: "'c consensus_store \<Rightarrow> ('c, shard_error, u64) eff" where
  "wal_committed_index cs =
     eff_bind (store_call (cs_hard_state cs)) (\<lambda>hs. eff_ret (hs_committed_index hs))"

fun gapped :: "consensus_entry list \<Rightarrow> bool" where
  "gapped (a # b # es) = (u64_succ (ce_index a) \<noteq> Some (ce_index b) \<or> gapped (b # es))"
| "gapped _ = False"

definition log_bounds :: "'c consensus_store \<Rightarrow> ('c, storage_error, u64 \<times> u64) eff" where
  "log_bounds cs =
     eff_bind (cs_snapshot_metadata cs) (\<lambda>snap.
       let snapshot_index = snapshot_index_of snap; low = sat_succ snapshot_index in
       eff_bind (cs_entries cs low (- 1) (- 1)) (\<lambda>entries.
         if (entries \<noteq> [] \<and> ce_index (hd entries) \<noteq> low) \<or> gapped entries
         then eff_err (InvalidConsensus ''retained consensus log is missing or discontiguous after snapshot'')
         else eff_ret (if entries = [] then low else ce_index (hd entries),
                       if entries = [] then snapshot_index else ce_index (last entries))))"

section \<open>The interface of the Raft library\<close>

definition raft_call :: "('c, storage_error, 'a) eff \<Rightarrow> ('c, raft_error, 'a) eff" where
  "raft_call m = (\<lambda>c. case m c of (r, c') \<Rightarrow> (map_err OtherStorage r, c'))"

definition conf_state :: "raft_membership \<Rightarrow> raft_conf_state" where
  "conf_state mem =
     \<lparr>rc_voters = map ident_get (mem_voters mem), rc_learners = map ident_get (mem_learners mem)\<rparr>"

definition conf_state_default :: raft_conf_state where
  "conf_state_default = \<lparr>rc_voters = [], rc_learners = []\<rparr>"

definition storage_initial_state ::
    "'c consensus_store \<Rightarrow> ('c, raft_error, raft_hs \<times> raft_conf_state) eff" where
  "storage_initial_state cs =
     eff_bind (raft_call (cs_hard_state cs)) (\<lambda>stored.
       let hs = \<lparr>rh_term = hs_current_term stored,
                 rh_vote = (case hs_voted_for stored of None \<Rightarrow> 0 | Some r \<Rightarrow> ident_get r),
                 rh_commit = hs_committed_index stored\<rparr> in
       eff_match (cs_membership cs) (\<lambda>r. case r of
         Inr mem \<Rightarrow> eff_ret (hs, conf_state mem)
       | Inl NotFound \<Rightarrow> eff_ret (hs, conf_state_default)
       | Inl e \<Rightarrow> eff_err (OtherStorage e)))"

definition storage_entries ::
    "(byte list \<Rightarrow> digest32) \<Rightarrow> (u64 option \<Rightarrow> raft_entry list \<Rightarrow> raft_entry list) \<Rightarrow> 'c consensus_store
      \<Rightarrow> u64 \<Rightarrow> u64 \<Rightarrow> u64 option \<Rightarrow> ('c, raft_error, raft_entry list) eff" where
  "storage_entries blake3 limit_size cs low high max_size =
     eff_bind (raft_call (log_bounds cs)) (\<lambda>(first, last).
       if low < first then eff_err Compacted
       else if sat_succ last < high \<or> high < low then eff_err Unavailable
       else eff_bind (raft_call (cs_entries cs low high (- 1))) (\<lambda>stored.
         eff_bind (eff_of (map_err OtherShard (try_map (decode_raft_entry blake3) stored))) (\<lambda>entries.
           eff_ret (limit_size max_size entries))))"

definition storage_term :: "'c consensus_store \<Rightarrow> u64 \<Rightarrow> ('c, raft_error, u64) eff" where
  "storage_term cs index =
     (if index = 0 then eff_ret 0
      else eff_bind (raft_call (cs_snapshot_metadata cs)) (\<lambda>snap.
        let rest = eff_bind (raft_call (cs_entries cs index (sat_succ index) (- 1))) (\<lambda>entries.
              if entries \<noteq> [] \<and> ce_index (hd entries) = index then eff_ret (ce_term (hd entries))
              else eff_err Unavailable)
        in case snap of
          None \<Rightarrow> rest
        | Some s \<Rightarrow>
            if index = csm_last_included_index s then eff_ret (csm_last_included_term s)
            else if index < csm_last_included_index s then eff_err Compacted
            else rest))"

definition storage_first_index :: "'c consensus_store \<Rightarrow> ('c, raft_error, u64) eff" where
  "storage_first_index cs = eff_bind (raft_call (log_bounds cs)) (\<lambda>b. eff_ret (fst b))"

definition storage_last_index :: "'c consensus_store \<Rightarrow> ('c, raft_error, u64) eff" where
  "storage_last_index cs = eff_bind (raft_call (log_bounds cs)) (\<lambda>b. eff_ret (snd b))"

definition storage_snapshot :: "'c consensus_store \<Rightarrow> u64 \<Rightarrow> ('c, raft_error, raft_snapshot) eff" where
  "storage_snapshot cs request_index =
     eff_bind (raft_call (cs_snapshot_metadata cs)) (\<lambda>snap.
       case snap of
         None \<Rightarrow> eff_err SnapshotTemporarilyUnavailable
       | Some md \<Rightarrow>
           if csm_last_included_index md < request_index then eff_err SnapshotTemporarilyUnavailable
           else eff_bind (raft_call (cs_membership cs)) (\<lambda>mem.
             eff_ret \<lparr>rs_data = b32_be (csm_content_digest md), rs_index = csm_last_included_index md,
                      rs_term = csm_last_included_term md, rs_conf_state = conf_state mem\<rparr>))"

end
