(* ===== verification/Shard_Wal_Props.thy ===== *)
theory Shard_Wal_Props
  imports Shard_Wal Fjall_Props
begin

text \<open>
  What the write-ahead log gives back.  The locale \<open>wal_store\<close> is the part of the consensus store
  contract that the log relies on; it is interpreted on the key-value implementation.
\<close>

section \<open>Entries\<close>

lemma take_u32_at [simp]:
  "offset = length pre \<Longrightarrow> take_u32 (pre @ u32_be n @ rest) offset = Inr (n, length pre + 4)"
  by (simp add: take_u32_def byte_simps)

lemma take_bytes_at:
  assumes "length v < 2 ^ 32" and "offset = length pre"
  shows "take_bytes (pre @ u32_be (word_of_nat (length v)) @ v @ rest) offset = Inr (v, length pre + 4 + length v)"
proof -
  have "unat (word_of_nat (length v) :: u32) = length v"
    using assms(1) by (simp add: unsigned_of_nat take_bit_nat_eq_self)
  then show ?thesis using assms(2) by (simp add: take_bytes_def)
qed

lemma entry_tag_inverse:
  "(if entry_tag t = 0 then Inr EntryNormal else if entry_tag t = 1 then Inr EntryConfChange
    else if entry_tag t = 2 then Inr EntryConfChangeV2 else Inl e) = Inr t"
  by (cases t) (simp_all add: entry_tag_def)

definition entry_payload :: "raft_entry \<Rightarrow> byte list" where
  "entry_payload e = u32_be 1 @ [entry_tag (re_entry_type e)] @
     u32_be (word_of_nat (length (re_context e))) @ re_context e @
     u32_be (word_of_nat (length (re_data e))) @ re_data e"

lemma encode_consensus_entry_Inr:
  "encode_consensus_entry blake3 e = Inr c \<longleftrightarrow>
     re_term e \<noteq> 0 \<and> re_index e \<noteq> 0 \<and> 13 + length (re_context e) + length (re_data e) \<le> max_raft_wal_entry_bytes \<and>
     (\<exists>cid. entry_command_id blake3 e = Inr cid \<and>
       c = \<lparr>ce_wal_format_version = 1, ce_term = re_term e, ce_index = re_index e, ce_command_id = cid,
            ce_command_digest = blake3 (str_bytes ''dtg-consensus-command-envelope-v1'' @ u32_be 1 @
              len_be (length (entry_payload e)) @ entry_payload e),
            ce_command = \<lparr>en_format_version = 1, en_payload = entry_payload e,
              en_digest = blake3 (str_bytes ''dtg-consensus-command-envelope-v1'' @ u32_be 1 @
                len_be (length (entry_payload e)) @ entry_payload e)\<rparr>\<rparr>)"
  by (auto simp: encode_consensus_entry_def put_bytes_def max_raft_wal_entry_bytes_def command_envelope_new_def
      consensus_entry_new_def entry_payload_def result_simps not_less Let_def)

lemma decode_encoded_entry:
  assumes "encode_consensus_entry blake3 e = Inr c"
  shows "decode_raft_entry blake3 c = Inr e" and "ce_index c = re_index e" and "ce_term c = re_term e"
proof -
  from assms obtain cid where size: "13 + length (re_context e) + length (re_data e) \<le> max_raft_wal_entry_bytes"
    and cid: "entry_command_id blake3 e = Inr cid"
    and c: "en_payload (ce_command c) = entry_payload e" "ce_command_id c = cid" "ce_index c = re_index e" "ce_term c = re_term e"
    by (auto simp: encode_consensus_entry_Inr)
  let ?p = "entry_payload e" and ?n = "length (re_context e)" and ?m = "length (re_data e)"
  from size have small: "?n < 2 ^ 32" "?m < 2 ^ 32" by (simp_all add: max_raft_wal_entry_bytes_def)
  have len: "length ?p = 13 + ?n + ?m" by (simp add: entry_payload_def byte_simps)
  have version: "take_u32 ?p 0 = Inr (1, 4)" using take_u32_at [of 0 "[]"] by (simp add: entry_payload_def)
  have tag: "?p ! 4 = entry_tag (re_entry_type e)" by (simp add: entry_payload_def nth_append byte_simps)
  have ctx: "take_bytes ?p 5 = Inr (re_context e, 9 + ?n)"
    using take_bytes_at [OF small(1), of 5 "u32_be 1 @ [entry_tag (re_entry_type e)]"]
    by (simp add: entry_payload_def byte_simps)
  have dat: "take_bytes ?p (9 + ?n) = Inr (re_data e, 13 + ?n + ?m)"
    using take_bytes_at [OF small(2), of "9 + ?n" "u32_be 1 @ [entry_tag (re_entry_type e)] @
      u32_be (word_of_nat ?n) @ re_context e" "[]"]
    by (simp add: entry_payload_def byte_simps)
  have same: "\<lparr>re_entry_type = re_entry_type e, re_term = re_term e, re_index = re_index e, re_data = re_data e,
      re_context = re_context e\<rparr> = e" by simp
  show "decode_raft_entry blake3 c = Inr e"
    using size cid
    by (simp add: decode_raft_entry_def c len version tag ctx dat entry_tag_inverse Let_def same)
  show "ce_index c = re_index e" "ce_term c = re_term e" by (simp_all add: c)
qed

lemma decode_raft_entry_index: "decode_raft_entry blake3 c = Inr e \<Longrightarrow> re_index e = ce_index c"
  by (auto simp: decode_raft_entry_def Let_def try_r_Inr split: if_splits prod.splits)

lemma encode_entry_inj:
  "encode_consensus_entry blake3 e = Inr c \<Longrightarrow> encode_consensus_entry blake3 e' = Inr c \<Longrightarrow> e = e'"
  by (metis decode_encoded_entry(1) sum.inject(2))

lemma try_map_decode:
  "try_map (encode_consensus_entry blake3) es = Inr cs \<Longrightarrow>
     try_map (decode_raft_entry blake3) cs = Inr es \<and> map ce_index cs = map re_index es"
  by (induction es arbitrary: cs) (auto simp: result_simps decode_encoded_entry)

section \<open>Appending\<close>

text \<open>The specification of an append: entries that the log holds already are skipped, and from the
  first other entry on the log is replaced.\<close>

definition log_append :: "('a \<Rightarrow> u64) \<Rightarrow> 'a list \<Rightarrow> 'a list \<Rightarrow> 'a list" where
  "log_append idx es log = (case dropWhile (\<lambda>e. e \<in> set log) es of
     [] \<Rightarrow> log | e # post \<Rightarrow> filter (\<lambda>x. idx x < idx e) log @ e # post)"

lemma try_map_filter:
  "try_map f xs = Inr ys \<Longrightarrow> (\<And>x y. x \<in> set xs \<Longrightarrow> f x = Inr y \<Longrightarrow> P x = Q y) \<Longrightarrow>
     try_map f (filter P xs) = Inr (filter Q ys)"
proof (induction xs arbitrary: ys)
  case (Cons a xs)
  then obtain b bs where ab: "f a = Inr b" "try_map f xs = Inr bs" "ys = b # bs" by (auto simp: result_simps)
  have "try_map f (filter P xs) = Inr (filter Q bs)" by (rule Cons.IH [OF ab(2)]) (simp add: Cons.prems(2))
  moreover have "P a = Q b" by (rule Cons.prems(2)) (simp_all add: ab)
  ultimately show ?case using ab by simp
qed simp

lemma try_map_append:
  "try_map f (xs @ ys) = Inr zs \<longleftrightarrow> (\<exists>us vs. try_map f xs = Inr us \<and> try_map f ys = Inr vs \<and> zs = us @ vs)"
  by (induction xs arbitrary: zs) (auto simp: try_r_Inr)

lemma try_map_member:
  assumes inj: "\<And>x x' y. f x = Inr y \<Longrightarrow> f x' = Inr y \<Longrightarrow> x = x'"
    and "try_map f xs = Inr ys" and "f x = Inr y"
  shows "y \<in> set ys \<longleftrightarrow> x \<in> set xs"
  using assms(2)
proof (induction xs arbitrary: ys)
  case (Cons a xs)
  then obtain b bs where ab: "f a = Inr b" "try_map f xs = Inr bs" "ys = b # bs" by (auto simp: result_simps)
  have "y = b \<longleftrightarrow> x = a" using inj [OF assms(3)] ab(1) assms(3) by (metis sum.inject(2))
  with Cons.IH [OF ab(2)] ab(3) show ?case by simp
qed simp

lemma try_map_dropWhile:
  assumes "try_map f es = Inr cs" and "\<And>x y. x \<in> set es \<Longrightarrow> f x = Inr y \<Longrightarrow> P x = Q y"
  shows "try_map f (dropWhile P es) = Inr (dropWhile Q cs)"
  using assms
proof (induction es arbitrary: cs)
  case (Cons a es)
  then obtain b bs where ab: "f a = Inr b" "try_map f es = Inr bs" "cs = b # bs" by (auto simp: result_simps)
  have "try_map f (dropWhile P es) = Inr (dropWhile Q bs)" by (rule Cons.IH [OF ab(2)]) (simp add: Cons.prems(2))
  moreover have "P a = Q b" by (rule Cons.prems(2)) (simp_all add: ab)
  ultimately show ?case using ab by (cases "P a") simp_all
qed simp

text \<open>Encoding commutes with the specification, since it is injective and keeps indices.\<close>

lemma log_append_encoded:
  assumes es: "try_map (encode_consensus_entry blake3) es = Inr cs"
    and log: "try_map (encode_consensus_entry blake3) log = Inr stored"
  shows "try_map (encode_consensus_entry blake3) (log_append re_index es log) = Inr (log_append ce_index cs stored)"
proof -
  have "x \<in> set log \<longleftrightarrow> y \<in> set stored" if "encode_consensus_entry blake3 x = Inr y" for x y
    using try_map_member [OF encode_entry_inj log that] by auto
  then have rest: "try_map (encode_consensus_entry blake3) (dropWhile (\<lambda>e. e \<in> set log) es) =
      Inr (dropWhile (\<lambda>e. e \<in> set stored) cs)"
    by (intro try_map_dropWhile [OF es]) auto
  show ?thesis
  proof (cases "dropWhile (\<lambda>e. e \<in> set log) es")
    case Nil
    with rest log show ?thesis by (simp add: log_append_def del: dropWhile_eq_Nil_conv)
  next
    case (Cons e post)
    with rest obtain c cs' where e: "encode_consensus_entry blake3 e = Inr c"
      "try_map (encode_consensus_entry blake3) post = Inr cs'" "dropWhile (\<lambda>e. e \<in> set stored) cs = c # cs'"
      by (auto simp: result_simps)
    have "try_map (encode_consensus_entry blake3) (filter (\<lambda>x. re_index x < re_index e) log) =
        Inr (filter (\<lambda>x. ce_index x < ce_index c) stored)"
      by (rule try_map_filter [OF log]) (simp add: decode_encoded_entry(2) decode_encoded_entry(2) [OF e(1)])
    with e Cons show ?thesis by (simp add: log_append_def try_map_append)
  qed
qed

lemma is_ok_map_err [simp]: "is_ok (map_err f r) = is_ok r"
  by (cases r) simp_all

section \<open>Consecutive indices\<close>

definition index_run :: "u64 \<Rightarrow> u64 \<Rightarrow> u64 list" where
  "index_run low high = map (\<lambda>i. low + word_of_nat i) [0..<unat (high - low)]"

lemma unat_offset:
  fixes low high :: u64
  assumes "low \<le> high" and "i < unat (high - low)"
  shows "unat (low + word_of_nat i) = unat low + i"
proof -
  have "unat (high - low) = unat high - unat low" using assms(1) by (rule unat_sub)
  moreover have "unat high < 2 ^ 64" using unsigned_less [of high] by simp
  ultimately have "unat low + i < 2 ^ 64" using assms(2) by simp
  then show ?thesis by (simp add: unat_word_ariths unsigned_of_nat take_bit_eq_mod)
qed

lemma set_index_run:
  assumes "low \<le> high" shows "set (index_run low high) = {low..<high}"
proof -
  have sub: "unat (high - low) = unat high - unat low" using assms by (rule unat_sub)
  have "x \<in> set (index_run low high) \<longleftrightarrow> low \<le> x \<and> x < high" for x
  proof
    assume "x \<in> set (index_run low high)"
    then obtain i where "i < unat (high - low)" "x = low + word_of_nat i" by (auto simp: index_run_def)
    with unat_offset [OF assms, of i] sub show "low \<le> x \<and> x < high"
      by (simp add: word_le_nat_alt word_less_nat_alt)
  next
    assume x: "low \<le> x \<and> x < high"
    then have "unat x - unat low < unat (high - low)" by (auto simp: sub word_le_nat_alt word_less_nat_alt)
    moreover from x have "x = low + word_of_nat (unat x - unat low)" by (simp add: word_le_nat_alt of_nat_diff)
    ultimately show "x \<in> set (index_run low high)" by (auto simp: index_run_def)
  qed
  then show ?thesis by (simp add: set_eq_iff)
qed

lemma sorted_index_run: "low \<le> high \<Longrightarrow> sorted_wrt (<) (index_run low high)"
  by (auto simp: index_run_def sorted_wrt_iff_nth_less word_less_nat_alt unat_offset)

lemma contiguous_range:
  assumes "contiguous ks" and "sorted_wrt (<) ks" and "ks \<noteq> []" and "hd ks \<le> low" and "low \<le> high"
    and "\<And>k. k < high \<Longrightarrow> k \<le> last ks"
  shows "filter (\<lambda>k. low \<le> k \<and> k < high) ks = index_run low high"
proof (rule sorted_distinct_set_unique)
  have "x \<in> set ks" if "low \<le> x" "x < high" for x
    by (rule contiguous_gapless [OF assms(1,2,3)]) (use that assms(4,6) in auto)
  then show "set (filter (\<lambda>k. low \<le> k \<and> k < high) ks) = set (index_run low high)"
    by (auto simp: set_index_run [OF assms(5)])
qed (use assms(2) sorted_index_run [OF assms(5)] in \<open>auto simp: strict_sorted_iff intro: sorted_wrt_filter\<close>)

lemma index_run_placed:
  assumes "map ce_index es = index_run low high" and "low \<le> high"
  shows "\<not> misplaced low es" and "(word_of_nat (length es) :: u64) = high - low"
proof -
  have len: "length es = unat (high - low)" using arg_cong [OF assms(1), of length] by (simp add: index_run_def)
  have "ce_index (es ! i) = low + word_of_nat i" if "i < length es" for i
    using that arg_cong [OF assms(1), of "\<lambda>xs. xs ! i"] by (simp add: index_run_def len)
  then show "\<not> misplaced low es" by (auto simp: misplaced_def list_ex_iff in_set_zip)
  show "(word_of_nat (length es) :: u64) = high - low" by (simp add: len)
qed

section \<open>The contract of the consensus store\<close>

text \<open>The log reaches from the entry after \<open>applied\<close> to \<open>committed\<close>.\<close>

definition covers :: "raft_entry list \<Rightarrow> u64 \<Rightarrow> u64 \<Rightarrow> bool" where
  "covers es applied committed \<longleftrightarrow> applied \<le> committed \<and>
     (applied < committed \<longrightarrow> es \<noteq> [] \<and> re_index (hd es) \<le> applied + 1 \<and> committed \<le> re_index (last es))"

locale wal_store =
  fixes cs :: "'c consensus_store"
    and ok :: "'c \<Rightarrow> bool"
    and stored :: "'c \<Rightarrow> consensus_entry list"
    and durable :: "'c \<Rightarrow> raft_hard_state"
    and compacted :: "'c \<Rightarrow> consensus_snapshot_metadata option"
  assumes wal_hard_state: "ok c \<Longrightarrow> cs_hard_state cs c = (Inr (durable c), c)"
    and wal_snapshot: "ok c \<Longrightarrow> cs_snapshot_metadata cs c = (Inr (compacted c), c)"
    and wal_entries: "ok c \<Longrightarrow> low \<le> high \<Longrightarrow> cs_entries cs low high (- 1) c =
      (Inr (filter (\<lambda>e. low \<le> ce_index e \<and> ce_index e < high) (stored c)), c)"
    and wal_ordered: "ok c \<Longrightarrow> contiguous (map ce_index (stored c)) \<and> sorted_wrt (<) (map ce_index (stored c))"
    and wal_append: "ok c \<Longrightarrow> (\<And>e. e \<in> set es \<Longrightarrow> ce_index e \<noteq> - 1) \<Longrightarrow> cs_append cs es c = (r, c') \<Longrightarrow>
      ok c' \<and> durable c' = durable c \<and> compacted c' = compacted c \<and>
      stored c' = (if is_ok r then log_append ce_index es (stored c) else stored c)"
    and wal_set_hard_state: "ok c \<Longrightarrow> cs_set_hard_state cs v c = (r, c') \<Longrightarrow>
      ok c' \<and> stored c' = stored c \<and> compacted c' = compacted c \<and>
      (durable c' = v \<or> \<not> is_ok r \<and> durable c' = durable c)"
begin

text \<open>The log holds the encodings of the entries \<open>es\<close>.\<close>

definition holds :: "(byte list \<Rightarrow> digest32) \<Rightarrow> 'c \<Rightarrow> raft_entry list \<Rightarrow> bool" where
  "holds blake3 c es = (try_map (encode_consensus_entry blake3) es = Inr (stored c))"

lemma persist_entries_holds:
  assumes "ok c" and "holds blake3 c es" and "\<And>e. e \<in> set new \<Longrightarrow> re_index e \<noteq> - 1"
    and "persist_entries blake3 cs new c = (r, c')"
  shows "ok c' \<and> durable c' = durable c \<and> compacted c' = compacted c \<and>
    holds blake3 c' (if is_ok r then log_append re_index new es else es)"
proof (cases "try_map (encode_consensus_entry blake3) new")
  case (Inl e)
  with assms show ?thesis by (auto simp: persist_entries_def)
next
  case (Inr enc)
  have "ce_index ` set enc = re_index ` set new"
    using try_map_decode [OF Inr] by (metis list.set_map)
  then have "ce_index e \<noteq> - 1" if "e \<in> set enc" for e
    using that assms(3) by (metis imageE imageI)
  moreover obtain r1 where ap: "cs_append cs enc c = (r1, c')" and r: "is_ok r = is_ok r1"
    using assms(4) Inr by (auto simp: persist_entries_def store_call_def split: prod.splits)
  ultimately have new: "ok c' \<and> durable c' = durable c \<and> compacted c' = compacted c \<and>
      stored c' = (if is_ok r1 then log_append ce_index enc (stored c) else stored c)"
    using wal_append [OF assms(1)] by blast
  have "try_map (encode_consensus_entry blake3) (log_append re_index new es) = Inr (log_append ce_index enc (stored c))"
    by (rule log_append_encoded [OF Inr assms(2) [unfolded holds_def]])
  with new assms(2) r show ?thesis by (cases "is_ok r1") (simp_all add: holds_def)
qed

lemma persist_hard_state_holds:
  assumes "ok c" and "persist_hard_state cs h c = (r, c')"
  shows "ok c' \<and> stored c' = stored c \<and> compacted c' = compacted c \<and>
    (hs_committed_index (durable c') = rh_commit h \<or> \<not> is_ok r \<and> durable c' = durable c)"
proof (cases "rh_vote h = 0")
  case True
  with assms(2) obtain r1 where "cs_set_hard_state cs \<lparr>hs_current_term = rh_term h, hs_voted_for = None,
      hs_committed_index = rh_commit h\<rparr> c = (r1, c')" "is_ok r = is_ok r1"
    by (auto simp: persist_hard_state_def store_call_def split: prod.splits)
  with wal_set_hard_state [OF assms(1) this(1)] show ?thesis by auto
next
  case False
  with assms(2) obtain r1 v where "cs_set_hard_state cs \<lparr>hs_current_term = rh_term h, hs_voted_for = v,
      hs_committed_index = rh_commit h\<rparr> c = (r1, c')" "is_ok r = is_ok r1"
    by (auto simp: persist_hard_state_def store_call_def ident_new_def split: prod.splits)
  with wal_set_hard_state [OF assms(1) this(1)] show ?thesis by auto
qed

lemma recovery_exact:
  assumes ok: "ok c" and es: "holds blake3 c es" and cov: "covers es applied (hs_committed_index (durable c))"
    and snap: "snapshot_index_of (compacted c) \<le> applied" and max: "hs_committed_index (durable c) \<noteq> - 1"
  shows "recovery_entries blake3 cs applied c =
    (Inr (filter (\<lambda>e. applied < re_index e \<and> re_index e \<le> hs_committed_index (durable c)) es), c)"
proof -
  let ?k = "hs_committed_index (durable c)"
  let ?low = "applied + 1" and ?high = "?k + 1"
  let ?got = "filter (\<lambda>e. ?low \<le> ce_index e \<and> ce_index e < ?high) (stored c)"
  from cov have le: "applied \<le> ?k" by (simp add: covers_def)
  show ?thesis
  proof (cases "applied = ?k")
    case True
    then have "filter (\<lambda>e. applied < re_index e \<and> re_index e \<le> ?k) es = []" by (auto simp: filter_empty_conv)
    with True snap show ?thesis
      by (simp add: recovery_entries_def store_call_def wal_hard_state [OF ok] wal_snapshot [OF ok] eff_bind_app Let_def)
  next
    case False
    with le have less: "applied < ?k" by simp
    have app: "applied \<noteq> - 1" using less word_n1_ge [of ?k] by (auto simp: not_le [symmetric])
    have hi: "x < ?high \<longleftrightarrow> x \<le> ?k" and lo: "?low \<le> x \<longleftrightarrow> applied < x" for x
      using max app by (auto simp: word_less_nat_alt word_le_nat_alt unat_succ_word)
    have range: "?low \<le> ?high" using less lo hi by auto
    from try_map_decode [OF es [unfolded holds_def]] have dec: "try_map (decode_raft_entry blake3) (stored c) = Inr es"
      and idx: "map ce_index (stored c) = map re_index es" by auto
    have got: "try_map (decode_raft_entry blake3) ?got = Inr (filter (\<lambda>e. applied < re_index e \<and> re_index e \<le> ?k) es)"
      by (rule try_map_filter [OF dec]) (auto simp: hi lo dest: decode_raft_entry_index)
    have keys: "contiguous (map re_index es)" "sorted_wrt (<) (map re_index es)"
      using wal_ordered [OF ok] by (simp_all add: idx)
    have "filter (\<lambda>k. ?low \<le> k \<and> k < ?high) (map re_index es) = index_run ?low ?high"
      using cov less by (intro contiguous_range [OF keys _ _ range])
        (auto simp: covers_def hd_map last_map hi intro: order_trans)
    then have "map ce_index ?got = index_run ?low ?high"
      by (simp add: idx [symmetric] filter_map comp_def)
    note placed = index_run_placed [OF this range]
    have "\<not> applied < snapshot_index_of (compacted c)" "?k \<noteq> applied" "\<not> ?k < applied"
      using snap less by auto
    with placed app got show ?thesis
      by (simp add: recovery_entries_def store_call_def wal_hard_state [OF ok] wal_snapshot [OF ok] eff_bind_app Let_def
          sat_succ_def u64_succ_def max wal_entries [OF ok range])
  qed
qed

end

section \<open>The key-value consensus store\<close>

definition consensus_ok :: "fjall_consensus \<Rightarrow> bool" where
  "consensus_ok c \<longleftrightarrow> fc_owner c = Some (fc_binding c) \<and> wf_log (fc_raft_log c)"

definition stored_entries :: "fjall_consensus \<Rightarrow> consensus_entry list" where
  "stored_entries c = map snd (fc_raft_log c)"

definition stored_hard_state :: "fjall_consensus \<Rightarrow> raft_hard_state" where
  "stored_hard_state c = (case fc_hard_state c of None \<Rightarrow> hard_state_default | Some v \<Rightarrow> v)"

lemma wf_log_indices: "wf_log m \<Longrightarrow> map ce_index (map snd m) = map fst m"
  by (auto simp: wf_log_def list_all_iff)

lemma sorted_range_filter:
  "sorted_wrt (<) ks \<Longrightarrow>
     filter (\<lambda>k. low \<le> k \<and> k < (high :: 'a :: linorder)) ks = takeWhile (\<lambda>k. k < high) (dropWhile (\<lambda>k. k < low) ks)"
proof (induction ks)
  case (Cons k ks)
  show ?case
  proof (cases "k < low")
    case False
    have "filter (\<lambda>x. low \<le> x \<and> x < high) ks = filter (\<lambda>x. x < high) ks"
      using Cons.prems False by (auto intro!: filter_cong)
    with Cons.prems False sorted_filter_less [of "k # ks" high] show ?thesis by auto
  qed (use Cons in auto)
qed simp

lemma contiguous_takeWhile: "contiguous xs \<Longrightarrow> contiguous (takeWhile P xs)"
  by (metis contiguous_append takeWhile_dropWhile_id)

lemma contiguous_dropWhile: "contiguous xs \<Longrightarrow> contiguous (dropWhile P xs)"
  by (metis contiguous_append takeWhile_dropWhile_id)

lemma scan_range:
  assumes wf: "wf_log m"
  shows "scan_entries entry_size (- 1) 0 None (filter (\<lambda>p. low \<le> fst p \<and> fst p < high) m) =
    Inr (filter (\<lambda>e. low \<le> ce_index e \<and> ce_index e < high) (map snd m))"
proof -
  let ?rows = "filter (\<lambda>p. low \<le> fst p \<and> fst p < high) m"
  have "map fst ?rows = filter (\<lambda>k. low \<le> k \<and> k < high) (map fst m)" by (simp add: filter_map comp_def)
  with wf have con: "contiguous (map fst ?rows)"
    by (simp add: sorted_range_filter wf_log_sorted contiguous_takeWhile contiguous_dropWhile wf_log_def)
  have "\<forall>p \<in> set ?rows. fst p \<noteq> - 1" using word_n1_ge [of high] by (auto dest: leD)
  with con wf have "scan_entries entry_size (- 1) 0 None ?rows = Inr (map snd ?rows)"
    by (intro scan_all) (auto simp: wf_log_def list_all_iff)
  moreover have "map snd ?rows = filter (\<lambda>e. low \<le> ce_index e \<and> ce_index e < high) (map snd m)"
    using wf by (auto simp: wf_log_def list_all_iff filter_map comp_def intro!: arg_cong [of _ _ "map snd"] filter_cong)
  ultimately show ?thesis by simp
qed

lemma wf_log_member: "wf_log m \<Longrightarrow> e \<in> set (map snd m) \<longleftrightarrow> map_of m (ce_index e) = Some e"
  by (force simp: wf_log_def list_all_iff simp flip: bm_ok_map_of)

lemma find_conflict_first:
  assumes wf: "wf_log m"
  shows "find_conflict m es = (case dropWhile (\<lambda>e. e \<in> set (map snd m)) es of [] \<Rightarrow> None | e # _ \<Rightarrow> Some (ce_index e))"
  by (induction es) (simp_all add: wf_log_member [OF wf] del: set_map)

lemma append_entries_spec:
  assumes wf: "wf_log (fc_raft_log s)" and max: "\<And>e. e \<in> set es \<Longrightarrow> ce_index e \<noteq> - 1"
    and ap: "append_entries es s = (r, s')"
  shows "stored_entries s' = (if is_ok r then log_append ce_index es (stored_entries s) else stored_entries s)"
  using wf ap
proof (cases rule: append_entries_cases)
  case 2
  then have "dropWhile (\<lambda>e. e \<in> set (map snd (fc_raft_log s))) es = []"
    by (simp add: wf_log_member [OF wf] del: set_map)
  with 2 show ?thesis by (simp add: log_append_def stored_entries_def del: set_map dropWhile_eq_Nil_conv)
next
  case (3 c fs)
  let ?P = "\<lambda>e. e \<in> set (map snd (fc_raft_log s))"
  from 3(3) obtain e post where rest: "dropWhile ?P es = e # post" and c: "c = ce_index e"
    by (auto simp: find_conflict_first [OF wf] split: list.splits simp del: set_map)
  obtain pre where es: "es = pre @ e # post" using rest by (metis takeWhile_dropWhile_id)
  have "sorted_wrt (<) (map ce_index es)" using contiguous_sorted [OF 3(2)] max by simp
  then have "sorted_wrt (<) (map ce_index (pre @ e # post))" by (simp add: es)
  from replace_suffix_eq [OF this] have "fc_raft_log s' = filter (\<lambda>p. fst p < ce_index e) (fc_raft_log s) @ map (\<lambda>e. (ce_index e, e)) (e # post)"
    using es 3(5) c by simp
  moreover have "map snd (filter (\<lambda>p. fst p < ce_index e) (fc_raft_log s)) =
      filter (\<lambda>x. ce_index x < ce_index e) (map snd (fc_raft_log s))"
    using wf by (auto simp: wf_log_def list_all_iff filter_map comp_def intro!: arg_cong [of _ _ "map snd"] filter_cong)
  ultimately show ?thesis using 3(1) rest by (simp add: stored_entries_def log_append_def comp_def del: set_map)
qed (simp add: stored_entries_def)

lemma append_entries_other:
  "append_entries es s = (r, s') \<Longrightarrow> wf_log (fc_raft_log s) \<Longrightarrow>
     fc_owner s' = fc_owner s \<and> fc_binding s' = fc_binding s \<and> fc_hard_state s' = fc_hard_state s \<and> fc_snapshot s' = fc_snapshot s"
  by (rule append_entries_cases [of s es r s']) auto

lemma set_hard_state_effect:
  assumes "consensus_ok s" and "set_hard_state v s = (r, s')"
  shows "consensus_ok s' \<and> stored_entries s' = stored_entries s \<and> fc_snapshot s' = fc_snapshot s \<and>
    (stored_hard_state s' = v \<or> \<not> is_ok r \<and> stored_hard_state s' = stored_hard_state s)"
  using assms
  by (auto simp: set_hard_state_def eff_bind_app ensure_binding_def consensus_ok_def fjall_commit_def
      stored_entries_def stored_hard_state_def split: list.splits option.splits)

interpretation fjw: wal_store "fjall_consensus_store entry_size b" consensus_ok stored_entries stored_hard_state fc_snapshot
proof unfold_locales
  fix c :: fjall_consensus assume ok: "consensus_ok c"
  show "cs_hard_state (fjall_consensus_store entry_size b) c = (Inr (stored_hard_state c), c)"
    using ok by (simp add: fjall_consensus_store_def hard_state_def eff_bind_app ensure_binding_def consensus_ok_def stored_hard_state_def)
  show "cs_snapshot_metadata (fjall_consensus_store entry_size b) c = (Inr (fc_snapshot c), c)"
    using ok by (simp add: fjall_consensus_store_def snapshot_metadata_def eff_bind_app ensure_binding_def consensus_ok_def)
  show "contiguous (map ce_index (stored_entries c)) \<and> sorted_wrt (<) (map ce_index (stored_entries c))"
    using ok wf_log_indices [of "fc_raft_log c"] wf_log_sorted [of "fc_raft_log c"]
    by (simp only: consensus_ok_def stored_entries_def wf_log_def)
  fix low high :: u64 assume "low \<le> high"
  then show "cs_entries (fjall_consensus_store entry_size b) low high (- 1) c =
      (Inr (filter (\<lambda>e. low \<le> ce_index e \<and> ce_index e < high) (stored_entries c)), c)"
    using ok scan_range [of "fc_raft_log c" entry_size low high]
    by (simp add: fjall_consensus_store_def log_entries_def eff_bind_app ensure_binding_def consensus_ok_def stored_entries_def)
next
  fix c c' :: fjall_consensus and es r
  assume ok: "consensus_ok c" and max: "\<And>e. e \<in> set es \<Longrightarrow> ce_index e \<noteq> - 1"
    and run: "cs_append (fjall_consensus_store entry_size b) es c = (r, c')"
  from run have ap: "append_entries es c = (r, c')" by (simp add: fjall_consensus_store_def)
  from ok have wf: "wf_log (fc_raft_log c)" by (simp add: consensus_ok_def)
  show "consensus_ok c' \<and> stored_hard_state c' = stored_hard_state c \<and> fc_snapshot c' = fc_snapshot c \<and>
      stored_entries c' = (if is_ok r then log_append ce_index es (stored_entries c) else stored_entries c)"
    using append_entries_spec [OF wf max ap] append_entries_other [OF ap wf] append_entries_wf [OF wf _ ap] max ok
    by (auto simp: consensus_ok_def stored_hard_state_def)
next
  fix c c' :: fjall_consensus and v r
  assume "consensus_ok c" and "cs_set_hard_state (fjall_consensus_store entry_size b) v c = (r, c')"
  then show "consensus_ok c' \<and> stored_entries c' = stored_entries c \<and> fc_snapshot c' = fc_snapshot c \<and>
      (stored_hard_state c' = v \<or> \<not> is_ok r \<and> stored_hard_state c' = stored_hard_state c)"
    by (intro set_hard_state_effect) (simp_all add: fjall_consensus_store_def)
qed

section \<open>Recovery\<close>

text \<open>C13.  When the entries and the hard state of a Raft ready step have been persisted, recovery after
  a crash returns exactly the committed entries above the applied index: the log as the append
  specifies it, decoded back, without loss, duplication or reordering.\<close>

theorem wal_recovers_committed:
  assumes "consensus_ok c" and "try_map (encode_consensus_entry blake3) es = Inr (stored_entries c)"
    and "\<And>e. e \<in> set new \<Longrightarrow> re_index e \<noteq> - 1"
    and "persist_entries blake3 (fjall_consensus_store entry_size b) new c = (Inr (), c1)"
    and "persist_hard_state (fjall_consensus_store entry_size b) h c1 = (Inr (), c2)"
    and "covers (log_append re_index new es) applied (rh_commit h)"
    and "snapshot_index_of (fc_snapshot c) \<le> applied" and "rh_commit h \<noteq> - 1"
  shows "recovery_entries blake3 (fjall_consensus_store entry_size b) applied c2 =
    (Inr (filter (\<lambda>e. applied < re_index e \<and> re_index e \<le> rh_commit h) (log_append re_index new es)), c2)"
proof -
  have c1: "consensus_ok c1" "fc_snapshot c1 = fc_snapshot c" "fjw.holds blake3 c1 (log_append re_index new es)"
    using fjw.persist_entries_holds [OF assms(1) _ assms(3,4)] assms(2) by (simp_all add: fjw.holds_def)
  from fjw.persist_hard_state_holds [OF c1(1) assms(5)] c1
  have "consensus_ok c2" "fc_snapshot c2 = fc_snapshot c" "fjw.holds blake3 c2 (log_append re_index new es)"
    "hs_committed_index (stored_hard_state c2) = rh_commit h" by (simp_all add: fjw.holds_def)
  with fjw.recovery_exact [of c2 blake3 "log_append re_index new es" applied entry_size b] assms(6-8)
  show ?thesis by simp
qed

definition noop_entry :: "u64 \<Rightarrow> raft_entry" where
  "noop_entry i = \<lparr>re_entry_type = EntryNormal, re_term = 1, re_index = i, re_data = [], re_context = []\<rparr>"

definition empty_wal :: "replica_binding \<Rightarrow> fjall_consensus" where
  "empty_wal b = \<lparr>fc_binding = b, fc_owner = Some b, fc_raft_log = [], fc_hard_state = None,
     fc_membership = None, fc_snapshot = None, fc_install = None, fc_faults = []\<rparr>"

lemma empty_wal_ok [simp]: "consensus_ok (empty_wal b)" "stored_entries (empty_wal b) = []"
  "fc_snapshot (empty_wal b) = None" "fc_faults (empty_wal b) = []"
  by (simp_all add: consensus_ok_def empty_wal_def stored_entries_def wf_log_def)

lemma noop_encoded: "i \<noteq> 0 \<Longrightarrow> \<exists>c. encode_consensus_entry blake3 (noop_entry i) = Inr c"
proof -
  assume "i \<noteq> 0"
  have "synthetic_id 1 i \<noteq> 0"
    by (simp add: synthetic_id_def or_eq_0_iff push_bit_eq_0_iff)
  then show ?thesis
    using \<open>i \<noteq> 0\<close>
    by (simp add: encode_consensus_entry_Inr noop_entry_def max_raft_wal_entry_bytes_def entry_command_id_def command_id_new_def)
qed

lemma persist_first:
  assumes "try_map (encode_consensus_entry blake3) es = Inr enc" and "es \<noteq> []" and "contiguous (map re_index es)"
  shows "\<exists>c1. persist_entries blake3 (fjall_consensus_store entry_size b) es (empty_wal b) = (Inr (), c1) \<and>
    fc_owner c1 = Some (fc_binding c1) \<and> fc_faults c1 = []"
proof -
  from try_map_decode [OF assms(1)] assms(3) have con: "contiguous (map ce_index enc)" by simp
  from assms(1,2) have "enc \<noteq> []" by (cases es) (auto simp: try_r_Inr)
  then obtain e rest where enc: "enc = e # rest" by (cases enc) auto
  with con assms(1) show ?thesis
    by (simp add: persist_entries_def store_call_def fjall_consensus_store_def append_entries_def eff_bind_app
        ensure_binding_def load_log_def empty_wal_def fjall_commit_def)
qed

lemma persist_hard_state_healthy:
  assumes "fc_owner c = Some (fc_binding c)" and "fc_faults c = []" and "rh_vote h = 0"
  shows "\<exists>c2. persist_hard_state (fjall_consensus_store entry_size b) h c = (Inr (), c2)"
  using assms
  by (simp add: persist_hard_state_def store_call_def fjall_consensus_store_def set_hard_state_def eff_bind_app
      ensure_binding_def fjall_commit_def)

theorem wal_recovers_committed_witness:
  "\<exists>c1 c2. persist_entries length_hash (fjall_consensus_store (\<lambda>_. 1) example_binding)
       [noop_entry 1, noop_entry 2, noop_entry 3] (empty_wal example_binding) = (Inr (), c1) \<and>
     persist_hard_state (fjall_consensus_store (\<lambda>_. 1) example_binding) \<lparr>rh_term = 1, rh_vote = 0, rh_commit = 2\<rparr> c1 = (Inr (), c2) \<and>
     recovery_entries length_hash (fjall_consensus_store (\<lambda>_. 1) example_binding) 1 c2 = (Inr [noop_entry 2], c2)"
proof -
  let ?cs = "fjall_consensus_store (\<lambda>_. 1) example_binding" and ?es = "[noop_entry 1, noop_entry 2, noop_entry 3]"
  let ?h = "\<lparr>rh_term = 1, rh_vote = 0, rh_commit = 2\<rparr>"
  have "\<exists>enc. try_map (encode_consensus_entry length_hash) ?es = Inr enc"
    using noop_encoded [of 1 length_hash] noop_encoded [of 2 length_hash] noop_encoded [of 3 length_hash] by auto
  then obtain enc where enc: "try_map (encode_consensus_entry length_hash) ?es = Inr enc" ..
  obtain c1 where one: "persist_entries length_hash ?cs ?es (empty_wal example_binding) = (Inr (), c1)"
    and c1: "fc_owner c1 = Some (fc_binding c1)" "fc_faults c1 = []"
    using persist_first [OF enc] by (auto simp: noop_entry_def sat_succ_def)
  obtain c2 where two: "persist_hard_state ?cs ?h c1 = (Inr (), c2)"
    using persist_hard_state_healthy [OF c1, of ?h] by auto
  have log: "log_append re_index ?es [] = ?es" by (simp add: log_append_def)
  have "recovery_entries length_hash ?cs 1 c2 =
      (Inr (filter (\<lambda>e. 1 < re_index e \<and> re_index e \<le> rh_commit ?h) (log_append re_index ?es [])), c2)"
    by (rule wal_recovers_committed [OF empty_wal_ok(1) _ _ one two])
      (auto simp: log_append_def noop_entry_def covers_def snapshot_index_of_def)
  then have "recovery_entries length_hash ?cs 1 c2 = (Inr [noop_entry 2], c2)" unfolding log by (simp add: noop_entry_def)
  with one two show ?thesis by blast
qed

end
