(* ===== verification/Shard_Read.thy ===== *)
theory Shard_Read
  imports Shard_Machine
begin

text \<open>
  Read permits and follower read proofs (\<^verbatim>\<open>dtg-shard/src/read.rs\<close>).  The keyed hash that signs a
  proof is a parameter \<open>keyed\<close>, like the hash of the binding identity.
\<close>

datatype read_mode = Linearizable | SnapshotMode | FollowerMode transaction_time

record read_permit =
  rp_request_id :: "u128 option"
  rp_mode :: read_mode
  rp_fence :: read_fence
  rp_leader_replica :: "replica_id option"
  rp_leader_term :: u64
  rp_closed_timestamp :: "transaction_time option"

datatype read_error =
    InvalidRequestR
  | InvalidProofKeyR
  | NotLeaderR
  | StalePlacementEpochR
  | StaleBackendGenerationR
  | InvalidProofVersionR
  | InvalidProofSignatureR
  | NotReadyR
  | AdapterLaggingR
  | UnsafeFollowerReadR
  | SnapshotTooOldR
  | OverloadedR
  | DuplicateRequestR

record read_failure =
  rf_request_id :: u128
  rf_error :: read_error

record follower_read_proof =
  fp_version :: u32
  fp_leader_binding :: replica_binding
  fp_leader_replica :: replica_id
  fp_leader_term :: u64
  fp_placement_epoch :: u64
  fp_backend_generation :: u64
  fp_applied_index :: u64
  fp_closed_timestamp :: transaction_time
  fp_signature :: digest32

section \<open>The proof authority\<close>

definition proof_authority_new :: "digest32 \<Rightarrow> (read_error, digest32) result" where
  "proof_authority_new key = (if key = 0 then Inl InvalidProofKeyR else Inr key)"

definition proof_preimage :: "(byte list \<Rightarrow> digest32) \<Rightarrow> follower_read_proof \<Rightarrow> byte list" where
  "proof_preimage blake3 p =
     str_bytes ''dtg-follower-read-proof-v1'' @ u32_be (fp_version p) @
     b32_be (identity_digest blake3 (fp_leader_binding p)) @ u64_be (ident_get (fp_leader_replica p)) @
     u64_be (fp_leader_term p) @ u64_be (fp_placement_epoch p) @ u64_be (fp_backend_generation p) @
     u64_be (fp_applied_index p) @ i64_be (fp_closed_timestamp p)"

definition proof_signature ::
    "(digest32 \<Rightarrow> byte list \<Rightarrow> digest32) \<Rightarrow> (byte list \<Rightarrow> digest32) \<Rightarrow> digest32 \<Rightarrow> follower_read_proof \<Rightarrow> digest32" where
  "proof_signature keyed blake3 key p = keyed key (proof_preimage blake3 p)"

definition proof_issue ::
    "(digest32 \<Rightarrow> byte list \<Rightarrow> digest32) \<Rightarrow> (byte list \<Rightarrow> digest32) \<Rightarrow> digest32 \<Rightarrow> replica_binding \<Rightarrow> replica_id
      \<Rightarrow> u64 \<Rightarrow> u64 \<Rightarrow> transaction_time \<Rightarrow> (read_error, follower_read_proof) result" where
  "proof_issue keyed blake3 key b replica tm applied closed =
     (if rb_replica_id b \<noteq> replica \<or> tm = 0 \<or> applied = 0 then Inl NotReadyR
      else let p = \<lparr>fp_version = 1, fp_leader_binding = b, fp_leader_replica = replica, fp_leader_term = tm,
             fp_placement_epoch = ident_get (rb_placement_epoch b),
             fp_backend_generation = ident_get (rb_backend_generation b), fp_applied_index = applied,
             fp_closed_timestamp = closed, fp_signature = 0\<rparr>
           in Inr (p\<lparr>fp_signature := proof_signature keyed blake3 key p\<rparr>))"

definition proof_verify ::
    "(digest32 \<Rightarrow> byte list \<Rightarrow> digest32) \<Rightarrow> (byte list \<Rightarrow> digest32) \<Rightarrow> digest32 \<Rightarrow> follower_read_proof
      \<Rightarrow> (read_error, unit) result" where
  "proof_verify keyed blake3 key p =
     (if fp_version p \<noteq> 1 then Inl InvalidProofVersionR
      else if rb_replica_id (fp_leader_binding p) \<noteq> fp_leader_replica p
        \<or> ident_get (rb_placement_epoch (fp_leader_binding p)) \<noteq> fp_placement_epoch p
        \<or> ident_get (rb_backend_generation (fp_leader_binding p)) \<noteq> fp_backend_generation p
        \<or> fp_leader_term p = 0 \<or> fp_applied_index p = 0
      then Inl InvalidProofSignatureR
      else if fp_signature p \<noteq> proof_signature keyed blake3 key p then Inl InvalidProofSignatureR
      else Inr ())"

end
