(* ===== verification/Shard_Replica.thy ===== *)
theory Shard_Replica
  imports Shard_Wal Shard_Read
begin

text \<open>
  A shard replica (\<^verbatim>\<open>dtg-shard/src/replica.rs\<close>) and the host that owns the replicas of a process
  (\<^verbatim>\<open>host.rs\<close>).  The Raft node of the library is a parameter: a record of its operations on a state
  of its own, which may read the log.  The iteration order of the hash map of pending reads is a
  parameter too.  The loop over ready steps has no bound of its own, so a run that does not return
  is \<open>None\<close>.
\<close>

section \<open>The Raft node\<close>

datatype state_role = RoleFollower | RoleCandidate | RoleLeader | RolePreCandidate

record raft_status =
  st_role :: state_role
  st_leader_id :: u64
  st_hs :: raft_hs

record 'g raft_ready =
  rd_snapshot_empty :: bool
  rd_entries :: "raft_entry list"
  rd_hs :: "raft_hs option"
  rd_committed_entries :: "raft_entry list"
  rd_read_states :: "(byte list \<times> u64) list"
  rd_messages :: "'g list"
  rd_persisted_messages :: "'g list"

record 'g light_ready =
  lr_commit_index :: "u64 option"
  lr_committed_entries :: "raft_entry list"
  lr_messages :: "'g list"

text \<open>\<open>rn_new\<close> is the validation of the configuration followed by the construction of the node, given
  the replica identifier and the applied index.\<close>

record ('c, 'n, 'g) raw_node =
  rn_new :: "u64 \<Rightarrow> u64 \<Rightarrow> 'c consensus_store \<Rightarrow> 'c \<Rightarrow> (raft_error, 'n) result"
  rn_has_ready :: "'n \<Rightarrow> bool"
  rn_ready :: "'n \<Rightarrow> 'c \<Rightarrow> 'g raft_ready \<times> 'n"
  rn_advance_append :: "'n \<Rightarrow> 'g raft_ready \<Rightarrow> 'c \<Rightarrow> 'g light_ready \<times> 'n"
  rn_advance_apply_to :: "'n \<Rightarrow> u64 \<Rightarrow> 'n"
  rn_status :: "'n \<Rightarrow> raft_status"
  rn_commit_to_current_term :: "'n \<Rightarrow> 'c \<Rightarrow> bool"
  rn_campaign :: "'n \<Rightarrow> 'c \<Rightarrow> (raft_error, unit) result \<times> 'n"
  rn_tick :: "'n \<Rightarrow> 'c \<Rightarrow> bool \<times> 'n"
  rn_step :: "'g \<Rightarrow> 'n \<Rightarrow> 'c \<Rightarrow> (raft_error, unit) result \<times> 'n"
  rn_propose :: "byte list \<Rightarrow> byte list \<Rightarrow> 'n \<Rightarrow> 'c \<Rightarrow> (raft_error, unit) result \<times> 'n"
  rn_read_index :: "byte list \<Rightarrow> 'n \<Rightarrow> 'c \<Rightarrow> 'n"
  rn_transfer_leader :: "u64 \<Rightarrow> 'n \<Rightarrow> 'c \<Rightarrow> 'n"

section \<open>The replica\<close>

datatype replica_lifecycle = Added | Running | Stopped | Sealed

record proposal_receipt =
  pr_term :: u64
  pr_index :: u64
  pr_command_id :: u128
  pr_digest :: digest32
  pr_replayed :: bool
  pr_rejection :: "apply_rejection option"
  pr_active_binding :: replica_binding

record replica_observation =
  obs_binding :: replica_binding
  obs_lifecycle :: replica_lifecycle
  obs_applied_index :: u64
  obs_leader_id :: "replica_id option"
  obs_closed_timestamp :: "transaction_time option"

record 'g raft_progress =
  rg_messages :: "'g list"
  rg_receipts :: "proposal_receipt list"
  rg_read_permits :: "read_permit list"
  rg_read_failures :: "read_failure list"

definition raft_progress_default :: "'g raft_progress" where
  "raft_progress_default = \<lparr>rg_messages = [], rg_receipts = [], rg_read_permits = [], rg_read_failures = []\<rparr>"

record pending_read_index =
  pd_request_id :: u128
  pd_leader_id :: u64
  pd_leader_term :: u64
  pd_binding_digest :: digest32
  pd_placement_epoch :: u64
  pd_backend_generation :: u64
  pd_read_index :: "u64 option"
  pd_active :: bool

record ('c, 'w, 'n, 'g) raft_replica =
  rr_binding :: replica_binding
  rr_wal :: "'c consensus_store"
  rr_machine :: "'w shard_machine"
  rr_node :: "'n option"
  rr_lifecycle :: replica_lifecycle
  rr_pending_apply :: "raft_entry list"
  rr_pending_messages :: "'g list"
  rr_pending_reads :: "(byte list, pending_read_index) bmap"

text \<open>A method of the replica runs in the worlds of its two stores.\<close>

type_synonym ('c, 'w, 'n, 'g, 'a) replica_op =
  "(('c, 'w, 'n, 'g) raft_replica \<times> 'c \<times> 'w, shard_error, 'a) eff"

definition on_wal :: "('c consensus_store \<Rightarrow> ('c, shard_error, 'a) eff) \<Rightarrow> ('c, 'w, 'n, 'g, 'a) replica_op" where
  "on_wal f = (\<lambda>(s, c, w). case f (rr_wal s) c of (r, c') \<Rightarrow> (r, (s, c', w)))"

definition on_machine ::
    "('w shard_machine \<times> 'w, shard_error, 'a) eff \<Rightarrow> ('c, 'w, 'n, 'g, 'a) replica_op" where
  "on_machine f = (\<lambda>(s, c, w). case f (rr_machine s, w) of (r, (m, w')) \<Rightarrow> (r, (s\<lparr>rr_machine := m\<rparr>, c, w')))"

definition ask_replica :: "(('c, 'w, 'n, 'g) raft_replica \<Rightarrow> 'a) \<Rightarrow> ('c, 'w, 'n, 'g, 'a) replica_op" where
  "ask_replica f = (\<lambda>(s, c, w). (Inr (f s), (s, c, w)))"

definition update_replica ::
    "(('c, 'w, 'n, 'g) raft_replica \<Rightarrow> ('c, 'w, 'n, 'g) raft_replica) \<Rightarrow> ('c, 'w, 'n, 'g, unit) replica_op" where
  "update_replica f = (\<lambda>(s, c, w). (Inr (), (f s, c, w)))"

definition same_replica_identity :: "replica_binding \<Rightarrow> replica_binding \<Rightarrow> bool" where
  "same_replica_identity consensus business \<longleftrightarrow>
     rb_cluster_id consensus = rb_cluster_id business \<and> rb_graph_id consensus = rb_graph_id business \<and>
     rb_shard_id consensus = rb_shard_id business \<and> rb_replica_id consensus = rb_replica_id business"

definition replica_open ::
    "(byte list \<Rightarrow> digest32) \<Rightarrow> 'c consensus_store \<Rightarrow> 'w state_store
      \<Rightarrow> ('w, shard_error, ('c, 'w, 'n, 'g) raft_replica) eff" where
  "replica_open blake3 cs store =
     (if rb_role (cs_binding cs) \<noteq> Active \<or> rb_role (ss_binding store) \<noteq> Active
         \<or> \<not> same_replica_identity (cs_binding cs) (ss_binding store)
      then eff_err BindingMismatch
      else eff_bind (eff_of (raft_store_new cs)) (\<lambda>wal.
        eff_bind (shard_machine_new blake3 (ss_binding store) store) (\<lambda>m.
          eff_ret \<lparr>rr_binding = ss_binding store, rr_wal = wal, rr_machine = m, rr_node = None,
                   rr_lifecycle = Added, rr_pending_apply = [], rr_pending_messages = [],
                   rr_pending_reads = []\<rparr>)))"

definition replica_stage_migration ::
    "'w state_store \<Rightarrow> ('c, 'w, 'n, 'g, unit) replica_op" where
  "replica_stage_migration store = on_machine (stage_migration_state_store store)"

section \<open>Applying committed entries\<close>

definition decode_committed ::
    "(byte list \<Rightarrow> digest32) \<Rightarrow> raft_entry \<Rightarrow> (shard_error, u64 \<times> u64 \<times> shard_command) result" where
  "decode_committed blake3 e =
     try_r (shard_command_decode blake3 (re_data e)) (\<lambda>command.
       if re_context e \<noteq> u128_be (ident128_get (ch_command_id (command_header_of command)))
       then Inl (InvalidRaftState ''committed entry context does not match command identifier'')
       else Inr (re_term e, re_index e, command))"

definition receipt_of :: "u64 \<times> u64 \<times> shard_command \<Rightarrow> apply_outcome \<Rightarrow> proposal_receipt" where
  "receipt_of entry out = (case entry of (tm, index, command) \<Rightarrow>
     \<lparr>pr_term = tm, pr_index = index,
      pr_command_id = ident128_get (ch_command_id (command_header_of command)),
      pr_digest = ao_digest out, pr_replayed = ao_replayed out, pr_rejection = ao_rejection out,
      pr_active_binding = ao_active_binding out\<rparr>)"

definition adopt_binding :: "apply_outcome \<Rightarrow> ('c, 'w, 'n, 'g) raft_replica \<Rightarrow> ('c, 'w, 'n, 'g) raft_replica" where
  "adopt_binding out s = s\<lparr>rr_binding := ao_active_binding out\<rparr>"

definition apply_entry ::
    "(byte list \<Rightarrow> digest32) \<Rightarrow> raft_entry \<Rightarrow> ('c, 'w, 'n, 'g, proposal_receipt option \<times> apply_outcome) replica_op" where
  "apply_entry blake3 e =
     (if re_entry_type e \<noteq> EntryNormal
      then eff_err (InvalidRaftState ''membership changes are outside the Task 7 runtime'')
      else if re_data e = []
      then eff_bind (on_machine (apply_raft_noop blake3 (re_term e) (re_index e))) (\<lambda>out. eff_ret (None, out))
      else eff_bind (eff_of (decode_committed blake3 e)) (\<lambda>(tm, index, command).
        eff_bind (on_machine (apply_committed blake3 tm index command)) (\<lambda>out.
        eff_bind (update_replica (adopt_binding out)) (\<lambda>_.
        eff_ret (Some (receipt_of (tm, index, command) out), out)))))"

definition groupable :: "raft_entry list \<Rightarrow> bool" where
  "groupable entries \<longleftrightarrow> 1 < length entries \<and>
     list_all (\<lambda>e. re_entry_type e = EntryNormal \<and> re_data e \<noteq> []) entries"

definition apply_entries ::
    "(byte list \<Rightarrow> digest32) \<Rightarrow> raft_entry list
      \<Rightarrow> ('c, 'w, 'n, 'g, proposal_receipt list \<times> apply_outcome list) replica_op" where
  "apply_entries blake3 entries =
     (if groupable entries
      then eff_bind (eff_of (try_map (decode_committed blake3) entries)) (\<lambda>commands.
        eff_bind (on_machine (apply_committed_batch blake3 commands)) (\<lambda>outcomes.
          if length outcomes \<noteq> length entries
          then eff_err (InvalidRaftState ''state-machine batch outcome count differs from committed entries'')
          else eff_bind (update_replica (fold adopt_binding outcomes)) (\<lambda>_.
            eff_ret (map2 receipt_of commands outcomes, outcomes))))
      else eff_bind (eff_map (apply_entry blake3) entries) (\<lambda>rs.
        eff_ret (List.map_filter fst rs, map snd rs)))"

section \<open>Recovery and life cycle\<close>

definition replica_recover :: "(byte list \<Rightarrow> digest32) \<Rightarrow> ('c, 'w, 'n, 'g, apply_outcome list) replica_op" where
  "replica_recover blake3 =
     eff_bind (ask_replica rr_lifecycle) (\<lambda>lc.
     if lc = Running \<or> lc = Sealed
     then eff_err (InvalidLifecycle ''recovery requires a non-running, unsealed replica'')
     else eff_bind (ask_replica (\<lambda>s. sm_applied_index (rr_machine s))) (\<lambda>previously_applied.
       eff_bind (on_wal (\<lambda>wal. recovery_entries blake3 wal previously_applied)) (\<lambda>entries.
       eff_bind (update_replica (\<lambda>s. s\<lparr>rr_pending_apply := entries\<rparr>)) (\<lambda>_.
       eff_bind (apply_entries blake3 entries) (\<lambda>(_, outcomes).
       eff_bind (update_replica (\<lambda>s. s\<lparr>rr_pending_apply := [], rr_pending_messages := []\<rparr>)) (\<lambda>_.
       eff_ret (filter (\<lambda>out. previously_applied < ao_applied_index out) outcomes)))))))"

definition replica_start ::
    "(byte list \<Rightarrow> digest32) \<Rightarrow> ('c, 'n, 'g) raw_node \<Rightarrow> ('c, 'w, 'n, 'g, unit) replica_op" where
  "replica_start blake3 api =
     eff_bind (ask_replica rr_lifecycle) (\<lambda>lc. case lc of
       Running \<Rightarrow> eff_ret ()
     | Sealed \<Rightarrow> eff_err (InvalidLifecycle ''sealed replica cannot be restarted'')
     | _ \<Rightarrow> eff_bind (replica_recover blake3) (\<lambda>_ (s, c, w).
         case rn_new api (ident_get (rb_replica_id (rr_binding s))) (sm_applied_index (rr_machine s)) (rr_wal s) c of
           Inl _ \<Rightarrow> (Inl RaftError, (s, c, w))
         | Inr n \<Rightarrow> (Inr (), (s\<lparr>rr_node := Some n, rr_lifecycle := Running\<rparr>, c, w))))"

definition replica_stop :: "('c, 'n, 'g) raw_node \<Rightarrow> ('c, 'w, 'n, 'g, unit) replica_op" where
  "replica_stop api = (\<lambda>(s, c, w).
     if rr_lifecycle s = Sealed then (Inl (InvalidLifecycle ''sealed replica is already terminal''), (s, c, w))
     else if (case rr_node s of None \<Rightarrow> False | Some n \<Rightarrow> rn_has_ready api n)
     then (Inl (InvalidLifecycle ''replica has unprocessed Ready work''), (s, c, w))
     else (Inr (), (s\<lparr>rr_node := None, rr_lifecycle := Stopped\<rparr>, c, w)))"

definition replica_seal :: "('c, 'w, 'n, 'g, unit) replica_op" where
  "replica_seal =
     eff_bind (ask_replica id) (\<lambda>s.
     if rr_lifecycle s = Running
     then eff_err (InvalidLifecycle ''running replica must be stopped before sealing'')
     else if rr_pending_apply s \<noteq> [] \<or> rr_pending_messages s \<noteq> []
     then eff_err (InvalidLifecycle ''replica has pending committed apply or outbound messages'')
     else eff_bind (on_wal wal_committed_index) (\<lambda>committed.
       if sm_applied_index (rr_machine s) < committed
       then eff_err (InvalidLifecycle ''replica has committed WAL entries that are not applied'')
       else update_replica (\<lambda>s. s\<lparr>rr_node := None, rr_lifecycle := Sealed\<rparr>)))"

section \<open>Driving the node\<close>

definition running_node ::
    "('n \<Rightarrow> 'c \<Rightarrow> (raft_error, 'a) result \<times> 'n) \<Rightarrow> ('c, 'w, 'n, 'g, 'a) replica_op" where
  "running_node f = (\<lambda>(s, c, w). case rr_node s of
     None \<Rightarrow> (Inl (InvalidLifecycle ''operation requires a running replica''), (s, c, w))
   | Some n \<Rightarrow> (case f n c of (r, n') \<Rightarrow> (map_err (\<lambda>_. RaftError) r, (s\<lparr>rr_node := Some n'\<rparr>, c, w))))"

definition replica_campaign :: "('c, 'n, 'g) raw_node \<Rightarrow> ('c, 'w, 'n, 'g, unit) replica_op" where
  "replica_campaign api = running_node (rn_campaign api)"

definition replica_tick :: "('c, 'n, 'g) raw_node \<Rightarrow> ('c, 'w, 'n, 'g, bool) replica_op" where
  "replica_tick api = running_node (\<lambda>n c. case rn_tick api n c of (b, n') \<Rightarrow> (Inr b, n'))"

definition replica_step :: "('c, 'n, 'g) raw_node \<Rightarrow> 'g \<Rightarrow> ('c, 'w, 'n, 'g, unit) replica_op" where
  "replica_step api msg = running_node (rn_step api msg)"

definition replica_propose ::
    "(byte list \<Rightarrow> digest32) \<Rightarrow> ('c, 'n, 'g) raw_node \<Rightarrow> shard_command \<Rightarrow> ('c, 'w, 'n, 'g, unit) replica_op" where
  "replica_propose blake3 api command =
     eff_bind (ask_replica rr_machine) (\<lambda>m.
     eff_bind (eff_of (validate_command blake3 m command)) (\<lambda>_.
     eff_bind (eff_of (shard_command_encode blake3 command)) (\<lambda>data.
       running_node (rn_propose api (u128_be (ident128_get (ch_command_id (command_header_of command)))) data))))"

definition replica_transfer_leader ::
    "('c, 'n, 'g) raw_node \<Rightarrow> replica_id \<Rightarrow> ('c, 'w, 'n, 'g, unit) replica_op" where
  "replica_transfer_leader api target = (\<lambda>(s, c, w). case rr_node s of
     None \<Rightarrow> (Inl (InvalidLifecycle ''leader transfer requires a running replica''), (s, c, w))
   | Some n \<Rightarrow> (Inr (), (s\<lparr>rr_node := Some (rn_transfer_leader api (ident_get target) n c)\<rparr>, c, w)))"

section \<open>Linearizable reads\<close>

definition max_pending_read_index_requests :: nat where
  "max_pending_read_index_requests = 1024"

definition read_index_context :: "u128 \<Rightarrow> byte list" where
  "read_index_context request_id = u32_be 1 @ u128_be request_id"

definition request_linearizable_read ::
    "(byte list \<Rightarrow> digest32) \<Rightarrow> ('c, 'n, 'g) raw_node \<Rightarrow> u128
      \<Rightarrow> (('c, 'w, 'n, 'g) raft_replica \<times> 'c \<times> 'w, read_error, unit) eff" where
  "request_linearizable_read blake3 api request_id = (\<lambda>(s, c, w).
     let fail = \<lambda>e. (Inl e, (s, c, w)); context = read_index_context request_id in
     if request_id = 0 then fail InvalidRequestR
     else if rr_lifecycle s \<noteq> Running then fail NotReadyR
     else case rr_node s of
       None \<Rightarrow> fail NotReadyR
     | Some n \<Rightarrow>
         let status = rn_status api n in
         if st_role status \<noteq> RoleLeader \<or> st_leader_id status \<noteq> ident_get (rb_replica_id (rr_binding s))
         then fail NotLeaderR
         else if \<not> rn_commit_to_current_term api n c then fail NotReadyR
         else if map_of (rr_pending_reads s) context \<noteq> None then fail DuplicateRequestR
         else if max_pending_read_index_requests \<le> length (rr_pending_reads s) then fail OverloadedR
         else (Inr (), (s\<lparr>rr_pending_reads := bm_insert context
             \<lparr>pd_request_id = request_id, pd_leader_id = st_leader_id status,
              pd_leader_term = rh_term (st_hs status),
              pd_binding_digest = identity_digest blake3 (rr_binding s),
              pd_placement_epoch = ident_get (rb_placement_epoch (rr_binding s)),
              pd_backend_generation = ident_get (rb_backend_generation (rr_binding s)),
              pd_read_index = None, pd_active = True\<rparr> (rr_pending_reads s),
             rr_node := Some (rn_read_index api context n c)\<rparr>, c, w)))"

text \<open>The first pending read of the request, in the iteration order of the map, is deactivated.\<close>

definition cancel_linearizable_read ::
    "u128 \<Rightarrow> ('c, 'w, 'n, 'g) raft_replica \<Rightarrow> bool \<times> ('c, 'w, 'n, 'g) raft_replica" where
  "cancel_linearizable_read request_id s =
     (case find (\<lambda>p. pd_request_id (snd p) = request_id) (rr_pending_reads s) of
        None \<Rightarrow> (False, s)
      | Some (context, pending) \<Rightarrow>
          (True, s\<lparr>rr_pending_reads := bm_insert context (pending\<lparr>pd_active := False\<rparr>) (rr_pending_reads s)\<rparr>))"

definition leadership_error ::
    "(byte list \<Rightarrow> digest32) \<Rightarrow> ('c, 'n, 'g) raw_node \<Rightarrow> 'n \<Rightarrow> 'c \<Rightarrow> replica_binding \<Rightarrow> pending_read_index
      \<Rightarrow> read_error option" where
  "leadership_error blake3 api n c b pending =
     (let status = rn_status api n in
      if st_role status \<noteq> RoleLeader \<or> st_leader_id status \<noteq> pd_leader_id pending then Some NotLeaderR
      else if rh_term (st_hs status) \<noteq> pd_leader_term pending \<or> \<not> rn_commit_to_current_term api n c
        \<or> identity_digest blake3 b \<noteq> pd_binding_digest pending
        \<or> ident_get (rb_placement_epoch b) \<noteq> pd_placement_epoch pending
        \<or> ident_get (rb_backend_generation b) \<noteq> pd_backend_generation pending
      then Some NotReadyR else None)"

definition add_failure :: "u128 \<Rightarrow> read_error \<Rightarrow> 'g raft_progress \<Rightarrow> 'g raft_progress" where
  "add_failure request_id e p =
     p\<lparr>rg_read_failures := rg_read_failures p @ [\<lparr>rf_request_id = request_id, rf_error = e\<rparr>]\<rparr>"

text \<open>One pending read: the new progress, and whether the read is completed.\<close>

definition resolve_read ::
    "(byte list \<Rightarrow> digest32) \<Rightarrow> ('c, 'n, 'g) raw_node \<Rightarrow> 'n \<Rightarrow> ('c, 'w, 'n, 'g) raft_replica
      \<Rightarrow> pending_read_index \<Rightarrow> 'g raft_progress \<Rightarrow> ('c, shard_error, 'g raft_progress \<times> bool) eff" where
  "resolve_read blake3 api n s pending p = (\<lambda>c.
     (case leadership_error blake3 api n c (rr_binding s) pending of
       Some e \<Rightarrow>
         eff_ret (if pd_active pending then add_failure (pd_request_id pending) e p else p, True)
     | None \<Rightarrow> (case pd_read_index pending of
         None \<Rightarrow> eff_ret (p, False)
       | Some read_index \<Rightarrow>
           if \<not> pd_active pending then eff_ret (p, True)
           else if sm_applied_index (rr_machine s) < read_index then eff_ret (p, False)
           else eff_match (storage_term (rr_wal s) read_index) (\<lambda>r. case r of
             Inl _ \<Rightarrow> eff_err RaftError
           | Inr tm \<Rightarrow>
               if tm \<noteq> pd_leader_term pending
               then eff_ret (add_failure (pd_request_id pending) NotReadyR p, True)
               else eff_bind (eff_of (map_err (\<lambda>_. InvalidRaftState ''invalid ReadIndex leader'')
                      (ident_new (pd_leader_id pending)))) (\<lambda>leader.
                 eff_ret (p\<lparr>rg_read_permits := rg_read_permits p @
                   [\<lparr>rp_request_id = Some (pd_request_id pending), rp_mode = Linearizable,
                     rp_fence = read_fence_new (rr_binding s) read_index, rp_leader_replica = Some leader,
                     rp_leader_term = pd_leader_term pending,
                     rp_closed_timestamp = sm_closed_timestamp (rr_machine s)\<rparr>]\<rparr>, True))))) c)"

primrec resolve_reads ::
    "(byte list \<Rightarrow> digest32) \<Rightarrow> ('c, 'n, 'g) raw_node \<Rightarrow> 'n \<Rightarrow> ('c, 'w, 'n, 'g) raft_replica
      \<Rightarrow> (byte list \<times> pending_read_index) list \<Rightarrow> 'g raft_progress \<times> byte list list
      \<Rightarrow> ('c, shard_error, 'g raft_progress \<times> byte list list) eff" where
  "resolve_reads blake3 api n s [] acc = eff_ret acc"
| "resolve_reads blake3 api n s (entry # rest) acc =
     eff_bind (resolve_read blake3 api n s (snd entry) (fst acc)) (\<lambda>(p, done).
       resolve_reads blake3 api n s rest (p, if done then snd acc @ [fst entry] else snd acc))"

text \<open>The state of a ready loop: the replica, the node taken out of it, and the progress so far.\<close>

record ('c, 'w, 'n, 'g) drive =
  dr_replica :: "('c, 'w, 'n, 'g) raft_replica"
  dr_node :: 'n
  dr_progress :: "'g raft_progress"

type_synonym ('c, 'w, 'n, 'g) drive_op = "(('c, 'w, 'n, 'g) drive \<times> 'c \<times> 'w, shard_error, unit) eff"

definition drive_replica :: "('c, 'w, 'n, 'g, 'a) replica_op \<Rightarrow> (('c, 'w, 'n, 'g) drive \<times> 'c \<times> 'w, shard_error, 'a) eff" where
  "drive_replica f = (\<lambda>(d, c, w). case f (dr_replica d, c, w) of
     (r, (s, c', w')) \<Rightarrow> (r, (d\<lparr>dr_replica := s\<rparr>, c', w')))"

definition update_drive ::
    "(('c, 'w, 'n, 'g) drive \<Rightarrow> ('c, 'w, 'n, 'g) drive) \<Rightarrow> ('c, 'w, 'n, 'g) drive_op" where
  "update_drive f = (\<lambda>(d, c, w). (Inr (), (f d, c, w)))"

definition resolve_pending_reads ::
    "(byte list \<Rightarrow> digest32) \<Rightarrow> ((byte list \<times> pending_read_index) list \<Rightarrow> (byte list \<times> pending_read_index) list)
      \<Rightarrow> ('c, 'n, 'g) raw_node \<Rightarrow> ('c, 'w, 'n, 'g) drive_op" where
  "resolve_pending_reads blake3 hash_order api = (\<lambda>(d, c, w).
     let s = dr_replica d in
     case resolve_reads blake3 api (dr_node d) s (hash_order (rr_pending_reads s)) (dr_progress d, []) c of
       (Inl e, c') \<Rightarrow> (Inl e, (d, c', w))
     | (Inr (p, completed), c') \<Rightarrow>
         (Inr (), (d\<lparr>dr_progress := p,
            dr_replica := s\<lparr>rr_pending_reads := fold bm_remove completed (rr_pending_reads s)\<rparr>\<rparr>, c', w)))"

definition retry_pending ::
    "(byte list \<Rightarrow> digest32) \<Rightarrow> ((byte list \<times> pending_read_index) list \<Rightarrow> (byte list \<times> pending_read_index) list)
      \<Rightarrow> ('c, 'n, 'g) raw_node \<Rightarrow> ('c, 'w, 'n, 'g) drive_op" where
  "retry_pending blake3 hash_order api =
     eff_bind (drive_replica (ask_replica rr_pending_apply)) (\<lambda>pending.
     eff_bind (if pending = [] then eff_ret ()
       else eff_bind (drive_replica (apply_entries blake3 pending)) (\<lambda>(receipts, outcomes).
         update_drive (\<lambda>d. d
           \<lparr>dr_node := (if outcomes = [] then dr_node d
              else rn_advance_apply_to api (dr_node d) (ao_applied_index (last outcomes))),
            dr_replica := dr_replica d\<lparr>rr_pending_apply := []\<rparr>,
            dr_progress := dr_progress d\<lparr>rg_receipts := rg_receipts (dr_progress d) @ receipts\<rparr>\<rparr>))) (\<lambda>_.
     eff_bind (resolve_pending_reads blake3 hash_order api) (\<lambda>_.
     update_drive (\<lambda>d. d
       \<lparr>dr_progress := dr_progress d\<lparr>rg_messages := rg_messages (dr_progress d) @ rr_pending_messages (dr_replica d)\<rparr>,
        dr_replica := dr_replica d\<lparr>rr_pending_messages := []\<rparr>\<rparr>))))"

definition note_read_state ::
    "byte list \<times> u64 \<Rightarrow> (byte list, pending_read_index) bmap \<Rightarrow> (byte list, pending_read_index) bmap" where
  "note_read_state rs m = (case map_of m (fst rs) of
     None \<Rightarrow> m | Some pending \<Rightarrow> bm_insert (fst rs) (pending\<lparr>pd_read_index := Some (snd rs)\<rparr>) m)"

definition take_ready :: "('c, 'n, 'g) raw_node \<Rightarrow> (('c, 'w, 'n, 'g) drive \<times> 'c \<times> 'w, shard_error, 'g raft_ready) eff" where
  "take_ready api = (\<lambda>(d, c, w). case rn_ready api (dr_node d) c of
     (ready, n) \<Rightarrow> (Inr ready, (d\<lparr>dr_node := n\<rparr>, c, w)))"

definition advance_append :: "('c, 'n, 'g) raw_node \<Rightarrow> 'g raft_ready
    \<Rightarrow> (('c, 'w, 'n, 'g) drive \<times> 'c \<times> 'w, shard_error, 'g light_ready) eff" where
  "advance_append api ready = (\<lambda>(d, c, w). case rn_advance_append api (dr_node d) ready c of
     (light, n) \<Rightarrow> (Inr light, (d\<lparr>dr_node := n\<rparr>, c, w)))"

text \<open>One turn of the ready loop.\<close>

definition drive_once ::
    "(byte list \<Rightarrow> digest32) \<Rightarrow> ((byte list \<times> pending_read_index) list \<Rightarrow> (byte list \<times> pending_read_index) list)
      \<Rightarrow> ('c, 'n, 'g) raw_node \<Rightarrow> ('c, 'w, 'n, 'g) drive_op" where
  "drive_once blake3 hash_order api =
     eff_bind (take_ready api) (\<lambda>ready.
     if \<not> rd_snapshot_empty ready
     then eff_err (InvalidRaftState ''Raft snapshot installation belongs to the logical snapshot task'')
     else
       eff_bind (drive_replica (on_wal (\<lambda>wal. persist_entries blake3 wal (rd_entries ready)))) (\<lambda>_.
       eff_bind (case rd_hs ready of None \<Rightarrow> eff_ret ()
         | Some hs \<Rightarrow> drive_replica (on_wal (\<lambda>wal. persist_hard_state wal hs))) (\<lambda>_.
       eff_bind (drive_replica (update_replica (\<lambda>s. s
         \<lparr>rr_pending_reads := fold note_read_state (rd_read_states ready) (rr_pending_reads s),
          rr_pending_messages := rr_pending_messages s @ rd_messages ready @ rd_persisted_messages ready\<rparr>))) (\<lambda>_.
       eff_bind (advance_append api ready) (\<lambda>light.
       eff_bind (if lr_commit_index light = None then eff_ret ()
         else (\<lambda>(d, c, w). drive_replica (on_wal (\<lambda>wal.
           persist_hard_state wal (st_hs (rn_status api (dr_node d))))) (d, c, w))) (\<lambda>_.
       eff_bind (drive_replica (update_replica (\<lambda>s. s
         \<lparr>rr_pending_messages := rr_pending_messages s @ lr_messages light,
          rr_pending_apply := rr_pending_apply s @ rd_committed_entries ready @ lr_committed_entries light\<rparr>))) (\<lambda>_.
       retry_pending blake3 hash_order api)))))))"

partial_function (option) drive_loop ::
    "(byte list \<Rightarrow> digest32) \<Rightarrow> ((byte list \<times> pending_read_index) list \<Rightarrow> (byte list \<times> pending_read_index) list)
      \<Rightarrow> ('c, 'n, 'g) raw_node \<Rightarrow> ('c, 'w, 'n, 'g) drive \<times> 'c \<times> 'w
      \<Rightarrow> ((shard_error, unit) result \<times> ('c, 'w, 'n, 'g) drive \<times> 'c \<times> 'w) option" where
  "drive_loop blake3 hash_order api x =
     (if rn_has_ready api (dr_node (fst x))
      then case drive_once blake3 hash_order api x of
          (Inl e, y) \<Rightarrow> Some (Inl e, y)
        | (Inr _, y) \<Rightarrow> drive_loop blake3 hash_order api y
      else Some (Inr (), x))"

definition drive_node ::
    "(byte list \<Rightarrow> digest32) \<Rightarrow> ((byte list \<times> pending_read_index) list \<Rightarrow> (byte list \<times> pending_read_index) list)
      \<Rightarrow> ('c, 'n, 'g) raw_node \<Rightarrow> ('c, 'w, 'n, 'g) drive \<times> 'c \<times> 'w
      \<Rightarrow> ((shard_error, unit) result \<times> ('c, 'w, 'n, 'g) drive \<times> 'c \<times> 'w) option" where
  "drive_node blake3 hash_order api x =
     (if rn_has_ready api (dr_node (fst x)) then drive_loop blake3 hash_order api x
      else case retry_pending blake3 hash_order api x of
          (Inl e, y) \<Rightarrow> Some (Inl e, y)
        | (Inr _, y) \<Rightarrow> drive_loop blake3 hash_order api y)"

definition drive_ready ::
    "(byte list \<Rightarrow> digest32) \<Rightarrow> ((byte list \<times> pending_read_index) list \<Rightarrow> (byte list \<times> pending_read_index) list)
      \<Rightarrow> ('c, 'n, 'g) raw_node \<Rightarrow> ('c, 'w, 'n, 'g) raft_replica \<times> 'c \<times> 'w
      \<Rightarrow> ((shard_error, 'g raft_progress) result \<times> ('c, 'w, 'n, 'g) raft_replica \<times> 'c \<times> 'w) option" where
  "drive_ready blake3 hash_order api = (\<lambda>(s, c, w). case rr_node s of
     None \<Rightarrow> Some (Inl (InvalidLifecycle ''Ready processing requires a running replica''), (s, c, w))
   | Some n \<Rightarrow>
       map_option (\<lambda>(r, (d, c', w')).
         (try_r r (\<lambda>_. Inr (dr_progress d)), (dr_replica d\<lparr>rr_node := Some (dr_node d)\<rparr>, c', w')))
       (drive_node blake3 hash_order api
         (\<lparr>dr_replica = s\<lparr>rr_node := None\<rparr>, dr_node = n, dr_progress = raft_progress_default\<rparr>, c, w)))"

section \<open>Read permits\<close>

definition follower_read_permit ::
    "(digest32 \<Rightarrow> byte list \<Rightarrow> digest32) \<Rightarrow> (byte list \<Rightarrow> digest32) \<Rightarrow> ('c, 'n, 'g) raw_node \<Rightarrow> digest32
      \<Rightarrow> follower_read_proof \<Rightarrow> transaction_time \<Rightarrow> ('c, 'w, 'n, 'g) raft_replica
      \<Rightarrow> (read_error, read_permit) result" where
  "follower_read_permit keyed blake3 api key p requested_time s =
     try_r (proof_verify keyed blake3 key p) (\<lambda>_.
       let leader = fp_leader_binding p; b = rr_binding s; m = rr_machine s in
       if rb_cluster_id leader \<noteq> rb_cluster_id b \<or> rb_graph_id leader \<noteq> rb_graph_id b
          \<or> rb_shard_id leader \<noteq> rb_shard_id b \<or> rb_backend_class_digest leader \<noteq> rb_backend_class_digest b
          \<or> rb_provider_kind leader \<noteq> rb_provider_kind b \<or> rb_contract_version leader \<noteq> rb_contract_version b
          \<or> rb_layout_version leader \<noteq> rb_layout_version b \<or> rb_capability_digest leader \<noteq> rb_capability_digest b
       then Inl UnsafeFollowerReadR
       else if fp_placement_epoch p \<noteq> ident_get (rb_placement_epoch b) then Inl StalePlacementEpochR
       else if fp_backend_generation p \<noteq> ident_get (rb_backend_generation b) then Inl StaleBackendGenerationR
       else if rr_lifecycle s \<noteq> Running then Inl NotReadyR
       else try_r (ok_or (rr_node s) NotReadyR) (\<lambda>n.
         let status = rn_status api n in
         if st_role status = RoleLeader \<or> st_leader_id status \<noteq> ident_get (fp_leader_replica p)
            \<or> rh_term (st_hs status) \<noteq> fp_leader_term p
         then Inl NotReadyR
         else if sm_applied_index m < fp_applied_index p then Inl AdapterLaggingR
         else try_r (ok_or (sm_closed_timestamp m) NotReadyR) (\<lambda>closed.
           if closed < fp_closed_timestamp p then Inl NotReadyR
           else if fp_closed_timestamp p < requested_time \<or> closed < requested_time
           then Inl UnsafeFollowerReadR
           else Inr \<lparr>rp_request_id = None, rp_mode = FollowerMode requested_time,
             rp_fence = read_fence_new b (sm_applied_index m), rp_leader_replica = Some (fp_leader_replica p),
             rp_leader_term = fp_leader_term p, rp_closed_timestamp = Some closed\<rparr>)))"

definition leader_of :: "('c, 'n, 'g) raw_node \<Rightarrow> 'n \<Rightarrow> replica_id option" where
  "leader_of api n = (case ident_new (st_leader_id (rn_status api n)) of Inl _ \<Rightarrow> None | Inr r \<Rightarrow> Some r)"

definition snapshot_read_permit ::
    "('c, 'n, 'g) raw_node \<Rightarrow> u64 \<Rightarrow> ('c, 'w, 'n, 'g) raft_replica \<Rightarrow> (read_error, read_permit) result" where
  "snapshot_read_permit api applied_index s =
     (let local = sm_applied_index (rr_machine s) in
      if rr_lifecycle s \<noteq> Running then Inl NotReadyR
      else if local < applied_index then Inl AdapterLaggingR
      else if applied_index < local then Inl SnapshotTooOldR
      else try_r (ok_or (rr_node s) NotReadyR) (\<lambda>n.
        Inr \<lparr>rp_request_id = None, rp_mode = SnapshotMode, rp_fence = read_fence_new (rr_binding s) applied_index,
             rp_leader_replica = leader_of api n, rp_leader_term = rh_term (st_hs (rn_status api n)),
             rp_closed_timestamp = sm_closed_timestamp (rr_machine s)\<rparr>))"

definition replica_observe ::
    "('c, 'n, 'g) raw_node \<Rightarrow> ('c, 'w, 'n, 'g) raft_replica \<Rightarrow> replica_observation" where
  "replica_observe api s =
     \<lparr>obs_binding = rr_binding s, obs_lifecycle = rr_lifecycle s,
      obs_applied_index = sm_applied_index (rr_machine s),
      obs_leader_id = (case rr_node s of None \<Rightarrow> None | Some n \<Rightarrow> leader_of api n),
      obs_closed_timestamp = sm_closed_timestamp (rr_machine s)\<rparr>"

end
