(* ===== verification/Shard_Host.thy ===== *)
theory Shard_Host
  imports Shard_Replica
begin

text \<open>
  The host of the shard replicas of a process (\<^verbatim>\<open>dtg-shard/src/host.rs\<close>): a map of replicas by their
  identity, and the operations that it forwards to one of them.
\<close>

type_synonym replica_key = "cluster_id \<times> graph_id \<times> shard_id \<times> replica_id"

type_synonym ('c, 'w, 'n, 'g) shard_host = "(replica_key, ('c, 'w, 'n, 'g) raft_replica) bmap"

type_synonym ('c, 'w, 'n, 'g, 'a) host_op = "(('c, 'w, 'n, 'g) shard_host \<times> 'c \<times> 'w, shard_error, 'a) eff"

definition replica_key_of :: "replica_binding \<Rightarrow> replica_key" where
  "replica_key_of b = (rb_cluster_id b, rb_graph_id b, rb_shard_id b, rb_replica_id b)"

definition same_active_generation :: "replica_binding \<Rightarrow> replica_binding \<Rightarrow> bool" where
  "same_active_generation l r \<longleftrightarrow>
     rb_cluster_id l = rb_cluster_id r \<and> rb_graph_id l = rb_graph_id r \<and> rb_shard_id l = rb_shard_id r \<and>
     rb_placement_epoch l = rb_placement_epoch r \<and> rb_backend_generation l = rb_backend_generation r"

definition host_add ::
    "(byte list \<Rightarrow> digest32) \<Rightarrow> 'c consensus_store \<Rightarrow> 'w state_store \<Rightarrow> ('c, 'w, 'n, 'g, replica_key) host_op" where
  "host_add blake3 cs store = (\<lambda>(h, c, w). case replica_open blake3 cs store w of
     (Inl e, w') \<Rightarrow> (Inl e, (h, c, w'))
   | (Inr s, w') \<Rightarrow>
       let b = rr_binding s; key = replica_key_of b in
       if list_ex (\<lambda>(_, x). same_active_generation (rr_binding x) b
            \<and> rb_backend_class_digest (rr_binding x) \<noteq> rb_backend_class_digest b) h
       then (Inl HeterogeneousGeneration, (h, c, w'))
       else if map_of h key \<noteq> None then (Inl DuplicateReplica, (h, c, w'))
       else (Inr key, (bm_insert key s h, c, w')))"

text \<open>An operation on one replica, with the replica put back whatever the result.\<close>

definition with_replica ::
    "replica_key \<Rightarrow> ('c, 'w, 'n, 'g, 'a) replica_op \<Rightarrow> ('c, 'w, 'n, 'g, 'a) host_op" where
  "with_replica key f = (\<lambda>(h, c, w). case map_of h key of
     None \<Rightarrow> (Inl ReplicaNotFound, (h, c, w))
   | Some s \<Rightarrow> (case f (s, c, w) of (r, (s', c', w')) \<Rightarrow> (r, (bm_insert key s' h, c', w'))))"

definition host_start ::
    "(byte list \<Rightarrow> digest32) \<Rightarrow> ('c, 'n, 'g) raw_node \<Rightarrow> replica_key \<Rightarrow> ('c, 'w, 'n, 'g, unit) host_op" where
  "host_start blake3 api key = with_replica key (replica_start blake3 api)"

definition host_stop :: "('c, 'n, 'g) raw_node \<Rightarrow> replica_key \<Rightarrow> ('c, 'w, 'n, 'g, unit) host_op" where
  "host_stop api key = with_replica key (replica_stop api)"

definition host_campaign :: "('c, 'n, 'g) raw_node \<Rightarrow> replica_key \<Rightarrow> ('c, 'w, 'n, 'g, unit) host_op" where
  "host_campaign api key = with_replica key (replica_campaign api)"

definition host_tick :: "('c, 'n, 'g) raw_node \<Rightarrow> replica_key \<Rightarrow> ('c, 'w, 'n, 'g, bool) host_op" where
  "host_tick api key = with_replica key (replica_tick api)"

definition host_step :: "('c, 'n, 'g) raw_node \<Rightarrow> replica_key \<Rightarrow> 'g \<Rightarrow> ('c, 'w, 'n, 'g, unit) host_op" where
  "host_step api key msg = with_replica key (replica_step api msg)"

definition host_propose ::
    "(byte list \<Rightarrow> digest32) \<Rightarrow> ('c, 'n, 'g) raw_node \<Rightarrow> replica_key \<Rightarrow> shard_command
      \<Rightarrow> ('c, 'w, 'n, 'g, unit) host_op" where
  "host_propose blake3 api key command = with_replica key (replica_propose blake3 api command)"

definition host_drive_ready ::
    "(byte list \<Rightarrow> digest32) \<Rightarrow> ((byte list \<times> pending_read_index) list \<Rightarrow> (byte list \<times> pending_read_index) list)
      \<Rightarrow> ('c, 'n, 'g) raw_node \<Rightarrow> replica_key \<Rightarrow> ('c, 'w, 'n, 'g) shard_host \<times> 'c \<times> 'w
      \<Rightarrow> ((shard_error, 'g raft_progress) result \<times> ('c, 'w, 'n, 'g) shard_host \<times> 'c \<times> 'w) option" where
  "host_drive_ready blake3 hash_order api key = (\<lambda>(h, c, w). case map_of h key of
     None \<Rightarrow> Some (Inl ReplicaNotFound, (h, c, w))
   | Some s \<Rightarrow> map_option (\<lambda>(r, (s', c', w')). (r, (bm_insert key s' h, c', w')))
       (drive_ready blake3 hash_order api (s, c, w)))"

definition host_transfer_leader ::
    "('c, 'n, 'g) raw_node \<Rightarrow> replica_key \<Rightarrow> replica_id \<Rightarrow> ('c, 'w, 'n, 'g, unit) host_op" where
  "host_transfer_leader api key target = with_replica key (replica_transfer_leader api target)"

definition host_observe ::
    "('c, 'n, 'g) raw_node \<Rightarrow> replica_key \<Rightarrow> ('c, 'w, 'n, 'g) shard_host \<Rightarrow> (shard_error, replica_observation) result" where
  "host_observe api key h = try_r (ok_or (map_of h key) ReplicaNotFound) (\<lambda>s. Inr (replica_observe api s))"

definition host_observations ::
    "('c, 'n, 'g) raw_node \<Rightarrow> ('c, 'w, 'n, 'g) shard_host \<Rightarrow> replica_observation list" where
  "host_observations api h = map (\<lambda>(_, s). replica_observe api s) h"

definition host_seal :: "replica_key \<Rightarrow> ('c, 'w, 'n, 'g, unit) host_op" where
  "host_seal key = with_replica key replica_seal"

definition host_sealed_remove ::
    "replica_key \<Rightarrow> ('c, 'w, 'n, 'g) shard_host \<Rightarrow> (shard_error, ('c, 'w, 'n, 'g) shard_host) result" where
  "host_sealed_remove key h =
     try_r (ok_or (map_of h key) ReplicaNotFound) (\<lambda>s.
       if rr_lifecycle s \<noteq> Sealed
       then Inl (InvalidLifecycle ''replica must be sealed before removal'')
       else Inr (bm_remove key h))"

end
