(* ===== verification/Replica_Props.thy ===== *)
theory Replica_Props
  imports Shard_Props Shard_Wal_Props Shard_Host
begin

text \<open>
  What a replica guarantees across crashes: opening it again and recovering is the continuation of
  the replica that ran.
\<close>

section \<open>Applying entries touches the machine and the binding only\<close>

definition with_core :: "('c, 'w, 'n, 'g) raft_replica \<Rightarrow> ('c, 'w, 'n, 'g) raft_replica \<Rightarrow> ('c, 'w, 'n, 'g) raft_replica" where
  "with_core s t = s\<lparr>rr_machine := rr_machine t, rr_binding := rr_binding t\<rparr>"

lemma with_core_simps [simp]:
  "rr_machine (with_core s t) = rr_machine t" "rr_binding (with_core s t) = rr_binding t"
  "rr_lifecycle (with_core s t) = rr_lifecycle s" "rr_wal (with_core s t) = rr_wal s"
  "with_core s (with_core t u) = with_core s u" "with_core (with_core s t) u = with_core s u"
  by (simp_all add: with_core_def)

text \<open>A computation of the replica that reads and writes its machine and binding only.\<close>

definition core_only :: "('c, 'w, 'n, 'g, 'a) replica_op \<Rightarrow> bool" where
  "core_only f \<longleftrightarrow> (\<forall>s t c d w r s' c' w'. rr_machine t = rr_machine s \<longrightarrow> rr_binding t = rr_binding s \<longrightarrow>
     f (s, c, w) = (r, (s', c', w')) \<longrightarrow> c' = c \<and> f (t, d, w) = (r, (with_core t s', d, w')))"

lemma core_onlyI:
  assumes "\<And>s t c d w r s' c' w'. rr_machine t = rr_machine s \<Longrightarrow> rr_binding t = rr_binding s \<Longrightarrow>
    f (s, c, w) = (r, (s', c', w')) \<Longrightarrow> c' = c \<and> f (t, d, w) = (r, (with_core t s', d, w'))"
  shows "core_only f"
  using assms unfolding core_only_def by blast

lemma core_onlyD:
  "core_only f \<Longrightarrow> rr_machine t = rr_machine s \<Longrightarrow> rr_binding t = rr_binding s \<Longrightarrow>
     f (s, c, w) = (r, (s', c', w')) \<Longrightarrow> c' = c \<and> f (t, d, w) = (r, (with_core t s', d, w'))"
  unfolding core_only_def by blast

lemma with_core_same: "rr_machine t = rr_machine s \<Longrightarrow> rr_binding t = rr_binding s \<Longrightarrow> with_core t s = t"
  by (cases t) (simp add: with_core_def)

lemma core_only_pure: "core_only (eff_of r)" "core_only (eff_ret a)" "core_only (eff_err e)"
  by (auto intro!: core_onlyI simp: with_core_same)

lemma core_only_bind:
  assumes f: "core_only f" and k: "\<And>a. core_only (k a)"
  shows "core_only (eff_bind f k)"
proof (rule core_onlyI)
  fix s t :: "('a, 'b, 'c, 'd) raft_replica" and c d w r s' c' w'
  assume st: "rr_machine t = rr_machine s" "rr_binding t = rr_binding s"
    and run: "eff_bind f k (s, c, w) = (r, (s', c', w'))"
  obtain r1 s1 c1 w1 where one: "f (s, c, w) = (r1, (s1, c1, w1))" by (metis prod.exhaust)
  from core_onlyD [OF f st this, of d] have c1: "c1 = c" and t1: "f (t, d, w) = (r1, (with_core t s1, d, w1))" by auto
  show "c' = c \<and> eff_bind f k (t, d, w) = (r, (with_core t s', d, w'))"
  proof (cases r1)
    case (Inl e)
    with run one t1 c1 show ?thesis by auto
  next
    case (Inr a)
    with run one have "k a (s1, c1, w1) = (r, (s', c', w'))" by simp
    from core_onlyD [OF k _ _ this, of "with_core t s1" d] c1 t1 Inr show ?thesis by simp
  qed
qed

lemma core_only_machine: "core_only (on_machine f)"
  by (rule core_onlyI) (auto simp: on_machine_def with_core_def split: prod.splits)

lemma core_only_adopt: "core_only (update_replica (adopt_binding out))"
  by (rule core_onlyI) (auto simp: update_replica_def adopt_binding_def with_core_def)

lemma fold_adopt: "fold adopt_binding outs s = s\<lparr>rr_binding := (if outs = [] then rr_binding s else ao_active_binding (last outs))\<rparr>"
  by (induction outs arbitrary: s) (auto simp: adopt_binding_def)

lemma core_only_adopt_all: "core_only (update_replica (fold adopt_binding outs))"
  by (rule core_onlyI) (auto simp: update_replica_def fold_adopt with_core_def)

lemma core_only_if: "core_only f \<Longrightarrow> core_only g \<Longrightarrow> core_only (if b then f else g)"
  by simp

lemma core_only_prod: "(\<And>a b. core_only (f a b)) \<Longrightarrow> core_only (case p of (a, b) \<Rightarrow> f a b)"
  by (cases p) simp

lemmas core_rules = core_only_bind core_only_pure core_only_machine core_only_adopt core_only_adopt_all core_only_if core_only_prod

lemma core_only_map: "(\<And>x. core_only (f x)) \<Longrightarrow> core_only (eff_map f xs)"
  by (induction xs) (auto intro!: core_rules)

lemma core_only_apply_entries: "core_only (apply_entries blake3 es)"
  unfolding apply_entries_def apply_entry_def by (intro core_rules core_only_map)

section \<open>Recovery\<close>

lemma open_exact:
  assumes "fjall_machine_ok blake3 b m w" and "sm_migration_state_stores m = []"
    and "rb_role b = Active" and "rb_role (cs_binding cs) = Active" and "same_replica_identity (cs_binding cs) b"
    and "rb_namespace_id (cs_binding cs) \<noteq> []"
  shows "replica_open blake3 cs (fjall_store blake3 b) w =
    (Inr \<lparr>rr_binding = b, rr_wal = cs, rr_machine = m, rr_node = None, rr_lifecycle = Added, rr_pending_apply = [],
          rr_pending_messages = [], rr_pending_reads = []\<rparr>, w)"
proof -
  have "m\<lparr>sm_migration_state_stores := []\<rparr> = m" using assms(2) by (cases m) simp
  with restart_same [OF assms(1)] assms(3-6) show ?thesis by (simp add: replica_open_def raft_store_new_def)
qed

lemma fjall_consensus_binding [simp]: "cs_binding (fjall_consensus_store entry_size b) = b"
  by (simp add: fjall_consensus_store_def)

text \<open>C11.  A replica whose process stops at any point between two committed entries, and which is opened
  again on its two stores, does in recovery exactly what the running replica would have done next:
  it applies the committed entries above the applied index, in order, with the same outcomes, the
  same error if one fails, and the same machine, binding and store afterwards.\<close>

theorem crash_recovery_exact:
  fixes s s' :: "(fjall_consensus, fjall_replica, 'n, 'g) raft_replica"
  assumes "shard_reachable blake3 b m w" and "sm_migration_state_stores m = []"
    and "rb_role b = Active" and "rb_role cb = Active" and "same_replica_identity cb b" and "rb_namespace_id cb \<noteq> []"
    and "consensus_ok c" and "try_map (encode_consensus_entry blake3) es = Inr (stored_entries c)"
    and "committed = hs_committed_index (stored_hard_state c)" and "committed \<noteq> - 1"
    and "covers es (sm_applied_index m) committed" and "snapshot_index_of (fc_snapshot c) \<le> sm_applied_index m"
    and "rr_machine s = m" and "rr_binding s = b"
    and "apply_entries blake3 (filter (\<lambda>e. sm_applied_index m < re_index e \<and> re_index e \<le> committed) es) (s, c, w) =
      (r, (s', c', w'))"
  shows "\<exists>s0 s1 :: (fjall_consensus, fjall_replica, 'n, 'g) raft_replica. replica_open blake3 (fjall_consensus_store entry_size cb) (fjall_store blake3 b) w = (Inr s0, w) \<and>
    replica_recover blake3 (s0, c, w) =
      (try_r r (\<lambda>(_, outs). Inr (filter (\<lambda>out. sm_applied_index m < ao_applied_index out) outs)), (s1, c, w')) \<and>
    rr_machine s1 = rr_machine s' \<and> rr_binding s1 = rr_binding s'"
proof -
  let ?cs = "fjall_consensus_store entry_size cb" and ?todo = "filter (\<lambda>e. sm_applied_index m < re_index e \<and> re_index e \<le> committed) es"
  define s0 :: "(fjall_consensus, fjall_replica, 'n, 'g) raft_replica" where
    "s0 = \<lparr>rr_binding = b, rr_wal = ?cs, rr_machine = m, rr_node = None, rr_lifecycle = Added, rr_pending_apply = [],
          rr_pending_messages = [], rr_pending_reads = []\<rparr>"
  have opened: "replica_open blake3 ?cs (fjall_store blake3 b) w = (Inr s0, w)"
    using open_exact [OF reachable_ok [OF assms(1)] assms(2,3), of ?cs] assms(4-6) by (simp add: s0_def)
  have entries: "recovery_entries blake3 ?cs (sm_applied_index m) c = (Inr ?todo, c)"
    using fjw.recovery_exact [of c blake3 es "sm_applied_index m" entry_size cb] assms(7-12) by (simp add: fjw.holds_def)
  have "apply_entries blake3 ?todo (s0\<lparr>rr_pending_apply := ?todo\<rparr>, c, w) = (r, (with_core (s0\<lparr>rr_pending_apply := ?todo\<rparr>) s', c, w'))"
    using core_onlyD [OF core_only_apply_entries _ _ assms(15), of "s0\<lparr>rr_pending_apply := ?todo\<rparr>" c] assms(13,14)
    by (simp add: s0_def)
  then have "\<exists>s1 :: (fjall_consensus, fjall_replica, 'n, 'g) raft_replica. replica_recover blake3 (s0, c, w) =
      (try_r r (\<lambda>(_, outs). Inr (filter (\<lambda>out. sm_applied_index m < ao_applied_index out) outs)), (s1, c, w')) \<and>
    rr_machine s1 = rr_machine s' \<and> rr_binding s1 = rr_binding s'"
    using entries
    by (cases r) (auto simp: replica_recover_def ask_replica_def update_replica_def on_wal_def s0_def eff_bind_app)
  with opened show ?thesis by blast
qed

section \<open>An example\<close>

lemma noop_applied:
  assumes r: "shard_reachable blake3 b m w" and h: "fr_faults w = []" and idx: "u64_succ (sm_applied_index m) = Some index"
  shows "\<exists>out w'. apply_raft_noop blake3 1 index (m, w) = (Inr out, (m\<lparr>sm_applied_index := index\<rparr>, w')) \<and> ao_applied_index out = index"
proof -
  note ok = reachable_ok [OF r]
  note pl = fjs.machine_ok_placed [OF ok]
  have less: "sm_applied_index m \<le> index" "index \<noteq> 0"
    using idx word_succ_less [of "sm_applied_index m"] by (auto simp: u64_succ_Some intro: order_less_imp_le)
  have "\<exists>cid. command_id_new (word_of_nat (unat (1 :: u64) * 2 ^ 64 + unat index)) = Inr cid"
  proof -
    have "unat index < 2 ^ 64" using unsigned_less [of index] by simp
    then have "\<not> 2 ^ 128 dvd 2 ^ 64 + unat index" by (auto dest!: dvd_imp_le)
    then have "(word_of_nat (2 ^ 64 + unat index) :: u128) \<noteq> 0" unfolding word_of_nat_eq_0_iff by simp
    then show ?thesis by (simp add: command_id_new_def)
  qed
  then obtain cid where cid: "command_id_new (word_of_nat (unat (1 :: u64) * 2 ^ 64 + unat index)) = Inr cid" ..
  obtain md where md: "replica_metadata_new ''dtg.raft_noop'' (VBytes (u64_be index)) = Inr md"
    by (auto simp: replica_metadata_new_def)
  from fjh.apply_batch_live [OF pl h fjall_next_index [OF ok idx], of 1 "[PutReplicaMetadata md]" cid]
  obtain rc w' where "apply_batch blake3 1 index cid [PutReplicaMetadata md] m w = (Inr rc, w')" "ar_raft_index rc = index"
    by (auto simp: len_ok_def)
  with cid md less show ?thesis
    by (auto simp: apply_raft_noop_def eff_bind_app on_self_app advance_applied_def max_def outcome_of_def)
qed

definition example_wal_step :: "fjall_consensus \<Rightarrow> bool" where
  "example_wal_step c \<longleftrightarrow> consensus_ok c \<and> fc_snapshot c = None \<and> hs_committed_index (stored_hard_state c) = 1 \<and>
     try_map (encode_consensus_entry length_hash) [noop_entry 1] = Inr (stored_entries c)"

lemma example_wal: "\<exists>c. example_wal_step c"
proof -
  let ?cs = "fjall_consensus_store (\<lambda>_. 1) example_binding" and ?h = "\<lparr>rh_term = 1, rh_vote = 0, rh_commit = 1\<rparr>"
  obtain enc where enc: "try_map (encode_consensus_entry length_hash) [noop_entry 1] = Inr enc"
    using noop_encoded [of 1 length_hash] by auto
  obtain c1 where one: "persist_entries length_hash ?cs [noop_entry 1] (empty_wal example_binding) = (Inr (), c1)"
    and c1: "fc_owner c1 = Some (fc_binding c1)" "fc_faults c1 = []"
    using persist_first [OF enc] by auto
  obtain c2 where two: "persist_hard_state ?cs ?h c1 = (Inr (), c2)"
    using persist_hard_state_healthy [OF c1, of ?h] by auto
  have "consensus_ok c1 \<and> fc_snapshot c1 = None \<and> fjw.holds length_hash c1 (log_append re_index [noop_entry 1] [])"
    using fjw.persist_entries_holds [OF empty_wal_ok(1) _ _ one, of "[]"] by (simp add: fjw.holds_def noop_entry_def)
  with fjw.persist_hard_state_holds [OF _ two] have "example_wal_step c2"
    by (simp add: example_wal_step_def fjw.holds_def log_append_def)
  then show ?thesis ..
qed

theorem crash_recovery_exact_witness:
  "\<exists>c w' s0 s1 out. replica_open length_hash (fjall_consensus_store (\<lambda>_. 1) example_binding)
      (fjall_store length_hash example_binding) (empty_replica example_binding) =
      (Inr (s0 :: (fjall_consensus, fjall_replica, unit, unit) raft_replica), empty_replica example_binding) \<and>
    replica_recover length_hash (s0, c, empty_replica example_binding) = (Inr [out], (s1, c, w')) \<and>
    rr_machine s1 = example_machine\<lparr>sm_applied_index := 1\<rparr>"
proof -
  let ?w = "empty_replica example_binding"
  let ?s = "\<lparr>rr_binding = example_binding, rr_wal = fjall_consensus_store (\<lambda>_. 1) example_binding, rr_machine = example_machine,
     rr_node = None, rr_lifecycle = Running, rr_pending_apply = [], rr_pending_messages = [], rr_pending_reads = []\<rparr>
     :: (fjall_consensus, fjall_replica, unit, unit) raft_replica"
  obtain c where c: "example_wal_step c" using example_wal ..
  have zero: "sm_applied_index example_machine = 0" by (simp add: example_machine_def)
  obtain out w' where out: "apply_raft_noop length_hash 1 1 (example_machine, ?w) =
      (Inr out, (example_machine\<lparr>sm_applied_index := 1\<rparr>, w'))" "ao_applied_index out = 1"
    using noop_applied [OF example_reachable, of 1] by (auto simp: zero u64_succ_def empty_replica_def)
  have run: "apply_entries length_hash (filter (\<lambda>e. sm_applied_index example_machine < re_index e \<and> re_index e \<le> 1) [noop_entry 1]) (?s, c, ?w) =
      (Inr ([], [out]), (?s\<lparr>rr_machine := example_machine\<lparr>sm_applied_index := 1\<rparr>\<rparr>, c, w'))"
    using out by (simp add: zero noop_entry_def apply_entries_def groupable_def apply_entry_def on_machine_def eff_bind_app
        List.map_filter_simps)
  have "\<exists>s0 s1 :: (fjall_consensus, fjall_replica, unit, unit) raft_replica.
      replica_open length_hash (fjall_consensus_store (\<lambda>_. 1) example_binding) (fjall_store length_hash example_binding) ?w = (Inr s0, ?w) \<and>
      replica_recover length_hash (s0, c, ?w) =
        (try_r (Inr ([] :: proposal_receipt list, [out])) (\<lambda>(_, outs). Inr (filter (\<lambda>out. sm_applied_index example_machine < ao_applied_index out) outs)), (s1, c, w')) \<and>
      rr_machine s1 = rr_machine (?s\<lparr>rr_machine := example_machine\<lparr>sm_applied_index := 1\<rparr>\<rparr>) \<and> rr_binding s1 = rr_binding (?s\<lparr>rr_machine := example_machine\<lparr>sm_applied_index := 1\<rparr>\<rparr>)"
    by (rule crash_recovery_exact [OF example_reachable _ _ _ _ _ _ _ _ _ _ _ _ _ run])
      (use c in \<open>simp_all add: example_wal_step_def example_machine_def example_binding_def same_replica_identity_def covers_def
        snapshot_index_of_def noop_entry_def\<close>)
  then obtain s0 s1 :: "(fjall_consensus, fjall_replica, unit, unit) raft_replica" where
    "replica_open length_hash (fjall_consensus_store (\<lambda>_. 1) example_binding) (fjall_store length_hash example_binding) ?w = (Inr s0, ?w)"
    "replica_recover length_hash (s0, c, ?w) = (Inr [out], (s1, c, w'))" "rr_machine s1 = example_machine\<lparr>sm_applied_index := 1\<rparr>"
    using out(2) zero by auto
  then show ?thesis by blast
qed

end
