(* ===== verification/Replica_Retry.thy ===== *)
theory Replica_Retry
  imports Replica_Props
begin

text \<open>
  Applying pending entries again after a failure: an entry that was rejected when it was applied
  first may be acceptable by then, and then it fails against its own record.
\<close>

section \<open>Records of applied batches\<close>

context replica_store
begin

lemma applied_identity:
  assumes pl: "placed m w" and idx: "next_index index w" and ms: "len_ok ms"
    and run: "apply_batch blake3 tm index cid ms m w = (Inr rc, w')"
  shows "sc_identity (contents w') index = Some (tm, cid, digest_mutations blake3 ms)"
proof -
  from run obtain batch where new: "committed_shard_batch_new blake3 (ss_binding store) tm index cid ms = Inr batch"
    and ap: "store_call (ss_apply store batch) w = (Inr rc, w')"
    by (auto simp: apply_batch_def placed_simps [OF pl] result_simps)
  then have f: "cb_raft_index batch = index" "cb_raft_term batch = tm" "cb_command_id batch = cid"
      "cb_mutation_digest batch = digest_mutations blake3 ms" "batch_ok blake3 (ss_binding store) batch"
    using committed_shard_batch_validates [OF new] ms
    by (auto simp: batch_ok_def committed_shard_batch_new_def split: if_splits)
  have "chained (sc_applied (contents w)) [batch]" using idx f by (simp add: next_index_def)
  from ap obtain r where run1: "ss_apply store batch w = (Inr r, w')"
    by (auto simp: store_call_def result_simps split: prod.splits)
  from store_apply_new [OF placed_simps(4) [OF pl] f(5) \<open>chained _ _\<close> run1] f show ?thesis
    by (auto simp: batch_identity_def)
qed

lemma replay_mismatch:
  assumes pl: "placed m w" and idx: "index \<le> sm_applied_index m" "index \<noteq> 0" "tm \<noteq> 0" and ms: "ms \<noteq> []" "len_ok ms"
    and other: "sc_identity (contents w) index \<noteq> Some (tm, cid, digest_mutations blake3 ms)"
  shows "apply_batch blake3 tm index cid ms m w = (Inl (StorageE (ReplayMismatch index)), w)"
proof -
  obtain batch where new: "committed_shard_batch_new blake3 (ss_binding store) tm index cid ms = Inr batch"
    using idx ms by (simp add: committed_shard_batch_new_def)
  then have f: "cb_raft_index batch = index" "batch_identity batch = (tm, cid, digest_mutations blake3 ms)"
      "batch_ok blake3 (ss_binding store) batch"
    using committed_shard_batch_validates [OF new] ms
    by (auto simp: batch_ok_def batch_identity_def committed_shard_batch_new_def split: if_splits)
  have "cb_raft_index batch \<le> sc_applied (contents w)" using idx(1) f(1) placed_simps(3) [OF pl] by simp
  from store_apply_old [OF placed_simps(4) [OF pl] f(3) this] f new other show ?thesis
    by (simp add: apply_batch_def store_call_def placed_simps [OF pl])
qed

lemma accepted_replay_mismatch:
  assumes pl: "placed m w" and idx: "index < sm_applied_index m" "index \<noteq> 0" "tm \<noteq> 0"
    and fits: "command_fits command" and val: "validate_command blake3 m command = Inr ()"
    and kind: "\<not> is_cutover m command" "\<not> is_intent_command command"
    and acc: "validate_transaction_acceptance blake3 command m w = (Inr NoTransition, w)"
    and ms: "command_mutations blake3 command = Inr ms" and ex: "fst (extra_mutations blake3 command NoTransition m w) = Inr ex"
    and ne: "ms @ ex \<noteq> []"
    and other: "sc_identity (contents w) index \<noteq> Some (tm, ch_command_id (command_header_of command), digest_mutations blake3 (ms @ ex))"
  shows "apply_committed blake3 tm index command (m, w) = (Inl (StorageE (ReplayMismatch index)), (m, w))"
proof -
  have x: "extra_mutations blake3 command NoTransition m w = (Inr ex, w)"
    using extra_read_only [OF pl, of command NoTransition] ex by (metis prod.collapse)
  have "len_ok (ms @ ex)" by (rule batch_fits [where l = False, OF fits _ ex]) (simp add: ms)
  from replay_mismatch [OF pl _ idx(2,3) ne this other] idx(1)
  have "apply_batch blake3 tm index (ch_command_id (command_header_of command)) (ms @ ex) m w =
      (Inl (StorageE (ReplayMismatch index)), w)" by simp
  with val kind acc ms x show ?thesis
    by (simp add: apply_committed_def apply_accepted_def eff_bind_app on_self_app)
qed

end

section \<open>Retrying\<close>

lemma batch_first_fails:
  assumes fail: "apply_committed blake3 tm index command (m, w) = (Inl e, (m, w))" and idx: "index < sm_applied_index m"
  shows "apply_committed_batch blake3 ((tm, index, command) # rest) (m, w) = (Inl e, (m, w))"
proof -
  let ?es = "(tm, index, command) # rest"
  have seq: "apply_sequential blake3 ?es (m, w) = (Inl e, (m, w))"
    using fail by (simp add: apply_sequential_def)
  have "sm_applied_index m \<le> sat_succ (sm_applied_index m)" using sat_succ_less [of "sm_applied_index m"] by (cases "sm_applied_index m = - 1") (auto simp: sat_succ_def)
  with idx have "index \<noteq> sat_succ (sm_applied_index m)" by auto
  then have "try_apply_single_shard_transaction_batch blake3 ?es (m, w) = (Inr None, (m, w))"
    by (cases command) (simp_all add: try_apply_single_shard_transaction_batch_def collect_transaction_def eff_bind_app on_self_app)
  with seq show ?thesis by (simp add: apply_committed_batch_def)
qed

lemma apply_entries_first_fails:
  assumes e: "re_entry_type e = EntryNormal" "re_data e \<noteq> []"
    and dec: "try_map (decode_committed blake3) (e # rest) = Inr ((tm, index, command) # cmds)"
    and fail: "apply_committed blake3 tm index command (rr_machine s, w) = (Inl err, (rr_machine s, w))"
    and idx: "index < sm_applied_index (rr_machine s)"
  shows "apply_entries blake3 (e # rest) (s, c, w) = (Inl err, (s, c, w))"
proof -
  have "rr_machine_update (\<lambda>_. rr_machine s) s = s" by simp
  with assms batch_first_fails [OF fail idx, of cmds] show ?thesis
    by (auto simp: apply_entries_def apply_entry_def on_machine_def eff_bind_app try_r_Inr)
qed


section \<open>An example\<close>

text \<open>A closed timestamp is refused while an intent is prepared; the intent is aborted; the first
  entry is applied again.\<close>

lemma example_advance_ok:
  "command_wf length_hash example_advance" "command_fits example_advance" "\<not> is_cutover m example_advance"
  "\<not> is_intent_command example_advance" "command_header_of example_advance = example_command_header"
  by (simp_all add: example_advance_def header_wf_def example_command_header_def ident128_ok_def ident_ok_def
      time_ok_def i64_max_def command_fits_def is_cutover_def is_intent_command_def)

lemma example_fenced:
  "validate_command length_hash prepared_machine example_advance =
     Inl (InvalidCommand ''closed timestamp is fenced by a pending prepared intent'')"
  by (simp add: validate_command_def Let_def example_advance_def example_command_header_def prepared_machine_def
      example_machine_def example_binding_def is_cutover_def command_intent_def command_snapshot_index_def
      validate_closed_timestamp_def closed_timestamp_fenced_def example_intent_def graph_mutation_time_def
      sample_vertex_def List.map_filter_simps)

lemma prepared_fields: "sm_applied_index prepared_machine = 1" "sm_binding prepared_machine = example_binding"
  by (simp_all add: prepared_machine_def example_machine_def)

definition fenced_metadata :: replica_metadata where
  "fenced_metadata = \<lparr>rm_name = ''dtg.raft_rejection'', rm_value = VMap (bm_of
     [(''command_id'', VBytes (u128_be 7)), (''reason'', VString ''DTG-SHARD-REJECTED-CLOSED-TIME'')])\<rparr>"

lemma example_rejection: "rejection_metadata (Ident128 7) RejClosedTimestampFenced = Inr fenced_metadata"
  by (simp add: rejection_metadata_def replica_metadata_new_def fenced_metadata_def rejection_code_def)

lemma example_rejected:
  "\<exists>w. shard_reachable length_hash example_binding (prepared_machine\<lparr>sm_applied_index := 2\<rparr>) w \<and> fr_faults w = [] \<and>
     sc_identity (fr_contents w) 2 = Some (1, Ident128 7, digest_mutations length_hash [PutReplicaMetadata fenced_metadata])"
proof -
  obtain w where r: "shard_reachable length_hash example_binding prepared_machine w" and h: "fr_faults w = []"
    using example_prepared by blast
  note ok = reachable_ok [OF r]
  note pl = fjs.machine_ok_placed [OF ok]
  have idx: "u64_succ (sm_applied_index prepared_machine) = Some 2" by (simp add: prepared_machine_def u64_succ_def)
  obtain rc w' where run: "apply_batch length_hash 1 2 (Ident128 7) [PutReplicaMetadata fenced_metadata] prepared_machine w = (Inr rc, w')"
    and h': "fr_faults w' = []" and rc: "ar_raft_index rc = 2"
    using fjh.apply_batch_live [OF pl h fjall_next_index [OF ok idx], of 1 "[PutReplicaMetadata fenced_metadata]" "Ident128 7"]
    by (auto simp: len_ok_def)
  have "apply_committed length_hash 1 2 example_advance (prepared_machine, w) =
      (Inr (outcome_of rc (ar_replayed rc) (Some RejClosedTimestampFenced) example_binding), (prepared_machine\<lparr>sm_applied_index := 2\<rparr>, w'))"
    using run rc prepared_fields
    by (simp add: apply_committed_def example_fenced reject_or_fail_def committed_rejection_def apply_rejected_def
        example_advance_ok example_command_header_def example_rejection eff_bind_app on_self_app advance_applied_def)
  from step [OF r example_advance_ok(1-3) idx this]
  have "shard_reachable length_hash example_binding (prepared_machine\<lparr>sm_applied_index := 2\<rparr>) w'" .
  moreover have "sc_identity (fr_contents w') 2 = Some (1, Ident128 7, digest_mutations length_hash [PutReplicaMetadata fenced_metadata])"
    by (rule fjs.applied_identity [OF pl fjall_next_index [OF ok idx] _ run]) (simp add: len_ok_def)
  ultimately show ?thesis using h' by blast
qed

definition closed_metadata :: replica_metadata where
  "closed_metadata = \<lparr>rm_name = closed_timestamp_metadata_name, rm_value = VInteger 9\<rparr>"

lemma example_advance_mutations: "command_mutations blake3 example_advance = Inr [PutReplicaMetadata closed_metadata]"
  by (simp add: example_advance_def replica_metadata_new_def closed_metadata_def closed_timestamp_metadata_name_def)

lemma example_digests:
  "digest_mutations length_hash [PutReplicaMetadata closed_metadata] \<noteq> digest_mutations length_hash [PutReplicaMetadata fenced_metadata]"
proof -
  have "length (mutations_preimage [PutReplicaMetadata closed_metadata]) \<noteq> length (mutations_preimage [PutReplicaMetadata fenced_metadata])"
    "length (mutations_preimage [PutReplicaMetadata closed_metadata]) < 2 ^ 256"
    "length (mutations_preimage [PutReplicaMetadata fenced_metadata]) < 2 ^ 256"
    by (simp_all add: mutations_preimage_def closed_metadata_def fenced_metadata_def encode_metadata_def encode_string_def str_bytes_def
        closed_timestamp_metadata_name_def bm_of_def)
  then show ?thesis by (simp add: digest_mutations_def length_hash_def word_of_nat_eq_iff take_bit_nat_eq_self)
qed

lemma example_advance_encodes: "\<exists>bytes. shard_command_encode length_hash example_advance = Inr bytes \<and> bytes \<noteq> []"
  by (simp add: example_advance_def example_command_header_def shard_command_encode_def encoder_finish_def enc_header_def
      max_command_bytes_def Let_def)

lemma example_freed:
  "\<exists>m w. shard_reachable length_hash example_binding m w \<and> sm_applied_index m = 3 \<and>
     validate_command length_hash m example_advance = Inr () \<and>
     sc_identity (fr_contents w) 2 = Some (1, Ident128 7, digest_mutations length_hash [PutReplicaMetadata fenced_metadata])"
proof -
  let ?m = "prepared_machine\<lparr>sm_applied_index := 2\<rparr>"
  obtain w where w: "shard_reachable length_hash example_binding ?m w" "fr_faults w = []"
    "sc_identity (fr_contents w) 2 = Some (1, Ident128 7, digest_mutations length_hash [PutReplicaMetadata fenced_metadata])"
    using example_rejected by blast
  have p: "sm_active_intents ?m = [(Ident128 3, example_intent)]" "sm_binding ?m = example_binding"
    "u64_succ (sm_applied_index ?m) = Some 3"
    by (simp_all add: prepared_machine_def example_machine_def u64_succ_def)
  obtain w' batch where w': "shard_reachable length_hash example_binding (?m\<lparr>sm_applied_index := 3, sm_active_intents := []\<rparr>) w'"
    "cb_raft_index batch = 3" "fr_contents w' = add_batch batch (fr_contents w)"
    using example_abort_step [OF w(1,2) p] by metis
  have "validate_command length_hash (?m\<lparr>sm_applied_index := 3, sm_active_intents := []\<rparr>) example_advance = Inr ()"
    using example_advance_mutations [of length_hash]
    by (simp add: validate_command_def Let_def example_advance_def example_command_header_def prepared_machine_def
        example_machine_def example_binding_def is_cutover_def command_intent_def command_snapshot_index_def
        validate_closed_timestamp_def closed_timestamp_fenced_def)
  with w' w(3) show ?thesis
    by (intro exI [of _ "?m\<lparr>sm_applied_index := 3, sm_active_intents := []\<rparr>"] exI [of _ w']) simp
qed


end
