(* ===== verification/Spec2Isabelle.thy ===== *)
theory Spec2Isabelle
  imports Timestamp_Safety Timestamp_Codec Meta_Log Overlay_Props Coordinator_Props Shard_Batch Shard_Paging
    Replica_Retry
begin

text \<open>
  A verification development of DTGProxy, a distributed temporal graph database written in Rust.

  \<^bold>\<open>The program.\<close>  Clients run transactions on a graph whose vertices and edges carry a valid-time
  interval and a transaction time.  A coordinator stages the writes of a transaction in an overlay,
  obtains start and commit times from a central timestamp authority, and commits through one shard
  or, with two-phase commit, through several.  Every shard is a Raft group whose replicas apply
  committed commands to a state machine over a durable state store.  The authority logs its commands
  in a consensus store of its own, in the meta process.

  \<^bold>\<open>How the code is modelled.\<close>  Rust results are sums with the error on the left, the question-mark
  operator is \<open>try_r\<close>; calls through trait objects are computations \<open>eff\<close> that thread a world, and a
  trait is a record of such functions; ordered maps and sets are ascending association lists
  (\<open>bmap\<close>); machine integers are words, \<open>i64\<close> is \<open>int\<close> with its range as an invariant; strings are
  the byte strings of their UTF-8 encoding; an unwrap or a failed expectation is an error value of
  its own (\<open>ShardPanic\<close>), so that its absence can be proved.  The hash function is a parameter
  \<open>blake3\<close>; injectivity on the compared inputs is a hypothesis where a statement needs it.  Failures
  of the disk are drawn from a schedule that the theorems quantify over.

  \<^bold>\<open>The theories.\<close>

  \<^item> \<open>Prelude\<close>, \<open>Bytes\<close>: results, effects, maps, machine integers and byte encodings, with the simp
    collections the other theories use.
  \<^item> \<open>Kernel\<close>, \<open>Binding\<close>, \<open>Mutation\<close>, \<open>Store_Api\<close>, \<open>Snapshot\<close>: the crates \<^verbatim>\<open>dtg-kernel\<close> and
    \<^verbatim>\<open>dtg-storage\<close>.  Digest preimages determine what they encode; a snapshot manifest determines its
    chunks and counts; the length computed for a chunk is eight bytes short per edge.
  \<^item> \<open>Consensus\<close>: \<^verbatim>\<open>FjallConsensusStore\<close>, with the exact effect of \<open>append\<close> on the log.
  \<^item> \<open>Timestamp\<close>, \<open>Timestamp_Safety\<close>, \<open>Timestamp_Codec\<close>, \<open>Timestamp_Log\<close>, \<open>Meta_Log\<close>: the timestamp
    authority (\<^verbatim>\<open>timestamp.rs\<close>) and its durable log in \<^verbatim>\<open>dtg-meta\<close>.  The frontier is exact, snapshots
    at allocated start times are stable, commit times are fresh, requests are idempotent and always
    granted below the limit; batches answer as single operations; the authority recovers exactly
    from its log, and the error path of a failed append is characterised.
  \<^item> \<open>Txn_Base\<close>, \<open>Overlay\<close>, \<open>Overlay_Props\<close>: staged writes, their validation and conflict detection
    (\<^verbatim>\<open>overlay.rs\<close>, \<^verbatim>\<open>conflict.rs\<close>), related to the instants of valid time they touch.
  \<^item> \<open>Participant\<close>, \<open>Recovery\<close>, \<open>Coordinator\<close> and \<open>Coordinator_Safety\<close>, \<open>Coordinator_Agreement\<close>,
    \<open>Coordinator_Trace\<close>, \<open>Coordinator_Props\<close>: the coordinator and recovery.  Outcomes agree for
    arbitrary shards and clients, on top of the durable authority; decisions precede
    finalizations; participants partition the staged writes; recorded decisions are recovered.
  \<^item> \<open>Fjall_Store\<close>, \<open>Fjall_Store_Props\<close>, \<open>Store_Contract\<close>, \<open>Fjall_Contract\<close>, \<open>Fjall_Props\<close>: the replica
    store on the key-value library (\<^verbatim>\<open>graph.rs\<close>, \<^verbatim>\<open>read_view.rs\<close>).  The locale \<open>replica_store\<close> is the
    contract the shard relies on, and the interpretation \<open>fjs\<close> discharges it for the model of the
    code.  Batches are applied exactly once; point reads return the latest visible version; reads
    in the past are stable.
  \<^item> \<open>Shard_Codec\<close>, \<open>Shard_Roundtrip\<close>, \<open>Shard_Command\<close>, \<open>Shard_Command_Props\<close>, \<open>Shard_Decode_Safe\<close>: the
    replicated commands and their binary format (\<^verbatim>\<open>command.rs\<close>, \<^verbatim>\<open>migration.rs\<close>).  Decoding inverts
    encoding, never panics, and yields only well-formed commands.
  \<^item> \<open>Shard_Meta\<close>, \<open>Shard_Machine\<close> and \<open>Shard_Meta_Props\<close>, \<open>Shard_History\<close>, \<open>Shard_Coherence\<close>,
    \<open>Shard_Restart\<close>, \<open>Shard_Step\<close>, \<open>Shard_Safety\<close>, \<open>Shard_Live\<close>, \<open>Shard_Props\<close>: the shard state machine
    (\<^verbatim>\<open>state_machine.rs\<close>), over any store with the contract and then over the key-value store.
    Restarts are invisible in every reachable state, decisions are written once, conflicting
    writers are refused exactly, the closed timestamp is monotone and fenced, and commands are
    applied when the store does not fail.
  \<^item> \<open>Shard_Wal\<close>, \<open>Shard_Wal_Props\<close>: the write-ahead log (\<^verbatim>\<open>raft_store.rs\<close>) over the trait object of the
    consensus store.  The locale \<open>wal_store\<close> is the contract, the interpretation \<open>fjw\<close> discharges it
    for the key-value store; recovery returns exactly the committed suffix that was persisted.
  \<^item> \<open>Shard_Read\<close>, \<open>Shard_Replica\<close>, \<open>Shard_Host\<close>: read permits (\<^verbatim>\<open>read.rs\<close>), the replica (\<^verbatim>\<open>replica.rs\<close>)
    and the host (\<^verbatim>\<open>host.rs\<close>).  \<open>Replica_Props\<close> shows that opening a replica again and recovering
    continues the run that stopped; \<open>Replica_Retry\<close> characterises a retry that cannot succeed.
  \<^item> \<open>Shard_Batch\<close>, \<open>Shard_Paging\<close>: the group apply of committed commands, which is the sequential
    apply, and the paging loop over the change history, which ends for every store.

  \<^bold>\<open>Bounds.\<close>  Loops of the code that count pages or chunks are recursions on the count; the page budget
  of the change history (256 pages of 256 records) is the code's own, and statements that read the
  history in full say so with \<open>history_fits\<close>.  The ready loop of a replica is a partial function, since
  the Raft library decides how long it runs.  Vectors have fewer than \<open>2 ^ 64\<close> elements (\<open>len_ok\<close>).

  \<^bold>\<open>Not modelled.\<close>  The Raft library, whose node is a parameter of the replica; the creation and
  installation of replica snapshots, which stream through interfaces of the back ends; the control
  plane, which plans placements and migrations and submits them as commands; the query language, planning, execution and analytics crates, which hold no durable
  state; the server processes, which are input and output; the back ends over external databases,
  which implement the same store contract; the row encoding of the key-value store, whose rows are
  typed here; and test code.
\<close>

end
